(* ===== verification/Prelude.thy ===== *)
theory Prelude
  imports Complex_Main "HOL-Library.AList" "HOL-Library.Char_ord" "HOL-Library.List_Lexorder"
    "HOL-Library.Product_Lexorder" "HOL-Library.Multiset"
begin

text \<open>
  Shared vocabulary of the development: the exceptions of the program as one sum type, SQL
  transactions and statements on tables represented as lists of rows, JSON values, the
  \<^verbatim>\<open>decimal\<close> arithmetic the spend ledger uses, Python string operations, and the generic
  reachability locale in which every component's invariant is lifted from one step to whole runs.

  Conventions.
  \<^item> A timestamp is an integer number of microseconds since the Unix epoch, in UTC. The source's
    \<^verbatim>\<open>_aware\<close> helpers only attach the UTC zone to values read back from SQLite, so they are the
    identity here.
  \<^item> A raised exception is an \<open>Inl\<close> value; the exception class is a constructor of \<open>error\<close>
    and its argument is the message.
  \<^item> A table is the list of its rows in insertion order. A query without \<^verbatim>\<open>ORDER BY\<close> sees the
    rows in that order, one with \<^verbatim>\<open>ORDER BY\<close> sees them stably sorted.
\<close>

section \<open>Collections of rewrite rules\<close>

named_theorems tx_simps \<open>unfolding of transactions and SQL statements\<close>
named_theorems ledger_defs \<open>definitions of the ledger operations\<close>
named_theorems job_defs \<open>definitions of the job operations\<close>
named_theorems session_defs \<open>definitions of the session operations\<close>
named_theorems limit_defs \<open>definitions of the rate-limit operations\<close>
named_theorems matter_defs \<open>definitions of the matter operations\<close>
named_theorems cache_defs \<open>definitions of the property-cache operations\<close>

section \<open>Exceptions\<close>

datatype error =
    ValueError string
  | RuntimeError string
  | InvalidOperation
  | ZoneInfoNotFound string
  | IntegrityError string
  | LockBusy string
  | SpendDenied string
  | PaidCapacityUnavailable string
  | JobConflict string
  | JobNotFound string
  | InvalidJobTransition string
  | LocalSessionError string
  | RateLimited string
  | PropertyCacheError string
  | PropertyConnectorError string
  | NetworkAccessDenied string
  | OperationDeadlineExceeded string
  | OperationCancelled string
  | ProviderExecutionError string
  | LocalSettingsError string
  | TypeError string
  | KeyError string
  | AttributeError string
  | OverflowError string
  | AssertionError string
  | HttpError string
  | RetentionError string
  | FileError string
  | MatterError string
  | MatterConflict string
  | ComparisonError string
  | CredentialStoreError string
  | EmbeddingValidationError string
  | CorpusValidationError string

type_synonym 'a result = "error + 'a"

definition bind_result :: "'a result \<Rightarrow> ('a \<Rightarrow> 'b result) \<Rightarrow> 'b result" where
  "bind_result r f = (case r of Inl e \<Rightarrow> Inl e | Inr x \<Rightarrow> f x)"

lemma bind_result_simps [simp]: "bind_result (Inr x) f = f x" "bind_result (Inl e) f = Inl e"
  by (simp_all add: bind_result_def)

lemma bind_result_Inr: "bind_result r f = Inr y \<longleftrightarrow> (\<exists>x. r = Inr x \<and> f x = Inr y)"
  by (cases r) simp_all

lemma bind_resultE:
  assumes "bind_result r f = Inr y"
  obtains x where "r = Inr x" and "f x = Inr y"
  using assms by (auto simp: bind_result_Inr)

section \<open>Transactions\<close>

text \<open>
  \<^verbatim>\<open>_ImmediateTransaction\<close> and \<^verbatim>\<open>engine.begin()\<close>: the body runs on the database; an exception
  rolls every statement of the body back and propagates, a normal exit commits.
\<close>

type_synonym ('db, 'a) tx = "'db \<Rightarrow> ('a \<times> 'db) result"

definition transaction :: "('db, 'a) tx \<Rightarrow> 'db \<Rightarrow> 'a result \<times> 'db" where
  "transaction body db =
     (case body db of
        Inl e \<Rightarrow> (Inl e, db)
      | Inr (x, db') \<Rightarrow> (Inr x, db'))"

lemma transaction_Inl [tx_simps]: "body db = Inl e \<Longrightarrow> transaction body db = (Inl e, db)"
  by (simp add: transaction_def)

lemma transaction_Inr [tx_simps]: "body db = Inr (x, db') \<Longrightarrow> transaction body db = (Inr x, db')"
  by (simp add: transaction_def)

lemma transaction_error_rollback: "transaction body db = (Inl e, db') \<Longrightarrow> db' = db"
  by (auto simp: transaction_def split: sum.splits)

lemma transaction_commit:
  "transaction body db = (Inr x, db') \<longleftrightarrow> body db = Inr (x, db')"
  by (auto simp: transaction_def split: sum.splits)

lemma transaction_invariant:
  assumes "P db" and "\<And>x db'. body db = Inr (x, db') \<Longrightarrow> P db'"
  shows "P (snd (transaction body db))"
  using assms by (auto simp: transaction_def split: sum.splits)

section \<open>SQL statements on tables\<close>

definition update_where :: "('r \<Rightarrow> bool) \<Rightarrow> ('r \<Rightarrow> 'r) \<Rightarrow> 'r list \<Rightarrow> 'r list" where
  "update_where p f t = map (\<lambda>r. if p r then f r else r) t"

definition delete_where :: "('r \<Rightarrow> bool) \<Rightarrow> 'r list \<Rightarrow> 'r list" where
  "delete_where p t = filter (\<lambda>r. \<not> p r) t"

definition rowcount :: "('r \<Rightarrow> bool) \<Rightarrow> 'r list \<Rightarrow> nat" where
  "rowcount p t = length (filter p t)"

definition select_first :: "('r \<Rightarrow> bool) \<Rightarrow> 'r list \<Rightarrow> 'r option" where
  "select_first p t = List.find p t"

lemma set_update_where [simp]: "set (update_where p f t) = (\<lambda>r. if p r then f r else r) ` set t"
  by (simp add: update_where_def)

lemma in_update_where:
  assumes "r \<in> set (update_where p f t)"
  obtains (changed) q where "q \<in> set t" "p q" "r = f q" | (same) "r \<in> set t" "\<not> p r"
  using assms by (auto simp: update_where_def split: if_splits)

lemma length_update_where [simp]: "length (update_where p f t) = length t"
  by (simp add: update_where_def)

lemma set_delete_where [simp]: "set (delete_where p t) = {r \<in> set t. \<not> p r}"
  by (auto simp: delete_where_def)

lemma map_update_where_frame [simp]:
  "(\<And>r. k (f r) = k r) \<Longrightarrow> map k (update_where p f t) = map k t"
  by (simp add: update_where_def)

lemma distinct_map_delete_where [simp]:
  "distinct (map k t) \<Longrightarrow> distinct (map k (delete_where p t))"
  by (simp add: delete_where_def distinct_map_filter)

lemma update_where_none: "(\<And>r. r \<in> set t \<Longrightarrow> \<not> p r) \<Longrightarrow> update_where p f t = t"
  by (induction t) (auto simp: update_where_def)

lemma select_first_Some: "select_first p t = Some r \<Longrightarrow> r \<in> set t \<and> p r"
  by (auto simp: select_first_def find_Some_iff)

lemma select_first_None: "select_first p t = None \<longleftrightarrow> (\<forall>r\<in>set t. \<not> p r)"
  by (auto simp: select_first_def find_None_iff)

lemma select_first_Nil [simp]: "select_first p [] = None"
  by (simp add: select_first_def)

lemma select_first_Cons [simp]:
  "select_first p (x # t) = (if p x then Some x else select_first p t)"
  by (simp add: select_first_def)

lemma select_first_append [simp]:
  "select_first p (t @ u) = (case select_first p t of None \<Rightarrow> select_first p u | Some r \<Rightarrow> Some r)"
  by (induction t) auto

text \<open>A lookup by a key that is unique in the table finds exactly the row with that key.\<close>

lemma distinct_map_sort_key: "distinct (map f (sort_key k xs)) \<longleftrightarrow> distinct (map f xs)"
  by (simp add: distinct_map distinct_sort)

lemma distinct_key_unique:
  assumes "distinct (map k t)" and "r \<in> set t" and "r' \<in> set t" and "k r = k r'"
  shows "r = r'"
  using assms by (meson distinct_map inj_onD)

lemma select_first_key:
  assumes "distinct (map k t)" and "r \<in> set t"
  shows "select_first (\<lambda>x. k x = k r) t = Some r"
proof (cases "select_first (\<lambda>x. k x = k r) t")
  case None
  with assms show ?thesis by (auto simp: select_first_None)
next
  case (Some r')
  with assms show ?thesis
    by (metis (mono_tags, lifting) distinct_key_unique select_first_Some)
qed

lemma filter_key: "distinct (map k t) \<Longrightarrow> r \<in> set t \<Longrightarrow> filter (\<lambda>x. k x = k r) t = [r]"
proof (induction t)
  case Nil
  then show ?case by simp
next
  case (Cons a t)
  show ?case
  proof (cases "a = r")
    case True
    with Cons.prems have "\<forall>x\<in>set t. k x \<noteq> k r" by (auto simp: image_iff)
    with True show ?thesis by (simp add: filter_empty_conv)
  next
    case False
    with Cons show ?thesis by (auto simp: image_iff)
  qed
qed

lemma rowcount_key:
  assumes "distinct (map k t)" and "r \<in> set t"
  shows "rowcount (\<lambda>x. k x = k r \<and> q x) t = (if q r then 1 else 0)"
proof -
  have "filter (\<lambda>x. k x = k r \<and> q x) t = filter q (filter (\<lambda>x. k x = k r) t)"
    by (simp add: conj_commute)
  then show ?thesis
    by (simp add: rowcount_def filter_key [OF assms])
qed

lemma rowcount_zero: "rowcount p t = 0 \<longleftrightarrow> (\<forall>r\<in>set t. \<not> p r)"
  by (auto simp: rowcount_def filter_empty_conv)

lemma rowcount_oneE:
  assumes "rowcount p t = 1"
  obtains r where "r \<in> set t" and "p r"
  using assms by (metis One_nat_def length_Suc_conv list.set_intros(1) mem_Collect_eq rowcount_def set_filter)

section \<open>JSON\<close>

datatype json =
    JNull
  | JBool bool
  | JInt int
  | JReal rat
  | JNaN
  | JInfinity
  | JNegInfinity
  | JStr string
  | JList "json list"
  | JObj "(string \<times> json) list"

type_synonym json_object = "(string \<times> json) list"

text \<open>
  A text column that holds the output of \<^verbatim>\<open>json.dumps\<close> of a dictionary. \<open>Malformed\<close> is a text
  that \<^verbatim>\<open>json.loads\<close> rejects; no operation of the program writes one, but the readers handle it.
\<close>

datatype json_text = Dumped json_object | Malformed

definition json_loads :: "json_text \<Rightarrow> json_object result" where
  "json_loads t =
     (case t of Dumped j \<Rightarrow> Inr j | Malformed \<Rightarrow> Inl (ValueError ''Expecting value''))"

section \<open>Decimal arithmetic\<close>

text \<open>
  A \<^verbatim>\<open>decimal.Decimal\<close> is a rational or one of the non-finite values. Sums and products are exact:
  the default context keeps 28 significant digits, so on amounts quantised to eight places this
  agrees with Python for totals below ten to the twentieth dollars.
\<close>

datatype decimal = Dec rat | NonFinite

definition round_half_even :: "rat \<Rightarrow> int" where
  "round_half_even x =
     (let f = \<lfloor>x\<rfloor>; d = x - of_int f
      in if d < 1/2 then f else if d > 1/2 then f + 1 else if even f then f else f + 1)"

definition quantum :: rat where
  "quantum = 1 / 100000000"

text \<open>\<^verbatim>\<open>value.quantize(Decimal("0.00000001"))\<close>: the result must fit 28 digits.\<close>

definition quantize8 :: "rat \<Rightarrow> rat result" where
  "quantize8 x =
     (let c = round_half_even (x / quantum)
      in if \<bar>c\<bar> \<ge> 10 ^ 28 then Inl InvalidOperation else Inr (of_int c * quantum))"

lemma round_half_even_of_int [simp]: "round_half_even (of_int n) = n"
  by (simp add: round_half_even_def Let_def)

lemma round_half_even_error: "\<bar>of_int (round_half_even x) - x\<bar> \<le> 1/2"
proof -
  have "of_int \<lfloor>x\<rfloor> \<le> x" and "x < of_int \<lfloor>x\<rfloor> + 1"
    by linarith+
  then show ?thesis
    unfolding round_half_even_def Let_def
    by (cases "x - of_int \<lfloor>x\<rfloor> < 1/2"; cases "x - of_int \<lfloor>x\<rfloor> > 1/2") auto
qed

lemma floor_le_round: "\<lfloor>x\<rfloor> \<le> round_half_even x" "round_half_even x \<le> \<lfloor>x\<rfloor> + 1"
  by (auto simp: round_half_even_def Let_def)

lemma round_half_even_mono: "x \<le> y \<Longrightarrow> round_half_even x \<le> round_half_even y"
proof (cases "\<lfloor>x\<rfloor> = \<lfloor>y\<rfloor>")
  case True
  assume "x \<le> y"
  with True show ?thesis by (auto simp: round_half_even_def Let_def)
next
  case False
  assume "x \<le> y"
  with False have "\<lfloor>x\<rfloor> + 1 \<le> \<lfloor>y\<rfloor>" using floor_mono by fastforce
  then show ?thesis using floor_le_round(2) [of x] floor_le_round(1) [of y] by linarith
qed

lemma round_half_even_nonneg: "0 \<le> x \<Longrightarrow> 0 \<le> round_half_even x"
  by (auto simp: round_half_even_def Let_def)

lemma quantum_pos [simp]: "0 < quantum" and quantum_nonneg [simp]: "0 \<le> quantum"
    and quantum_nonzero [simp]: "quantum \<noteq> 0"
  by (simp_all add: quantum_def)

lemma quantize8_Inr:
  "quantize8 x = Inr y \<longleftrightarrow>
     \<bar>round_half_even (x / quantum)\<bar> < 10 ^ 28 \<and> y = of_int (round_half_even (x / quantum)) * quantum"
  unfolding quantize8_def Let_def by (auto simp del: power_numeral_reduce)

lemma quantize8_nonneg: "quantize8 x = Inr y \<Longrightarrow> 0 \<le> x \<Longrightarrow> 0 \<le> y"
  using round_half_even_nonneg [of "x / quantum"] quantum_pos
  by (simp only: quantize8_Inr) (simp add: zero_le_mult_iff)

lemma quantize8_idem: "quantize8 x = Inr y \<Longrightarrow> quantize8 y = Inr y"
  by (simp only: quantize8_Inr) (simp add: quantum_def)

lemma quantize8_error: "quantize8 x = Inr y \<Longrightarrow> \<bar>y - x\<bar> \<le> quantum / 2"
proof -
  assume "quantize8 x = Inr y"
  then have "y = of_int (round_half_even (x / quantum)) * quantum"
    by (simp only: quantize8_Inr)
  then have "y - x = (of_int (round_half_even (x / quantum)) - x / quantum) * quantum"
    by (simp add: left_diff_distrib)
  then have "\<bar>y - x\<bar> = \<bar>of_int (round_half_even (x / quantum)) - x / quantum\<bar> * quantum"
    using quantum_pos by (simp add: abs_mult)
  also have "\<dots> \<le> 1/2 * quantum"
    by (intro mult_right_mono round_half_even_error) (simp add: less_imp_le)
  finally show ?thesis by simp
qed

section \<open>Python strings\<close>

definition starts_with :: "string \<Rightarrow> string \<Rightarrow> bool" where
  "starts_with s p \<longleftrightarrow> take (length p) s = p"

text \<open>
  The characters are the code points below 256. White space as \<^verbatim>\<open>str.split()\<close> and
  \<^verbatim>\<open>str.strip()\<close> see it on them.
\<close>

definition is_space :: "char \<Rightarrow> bool" where
  "is_space c \<longleftrightarrow> of_char c \<in> {9, 10, 11, 12, 13, 28, 29, 30, 31, 32, 133, 160 :: nat}"

definition is_lower_hex :: "char \<Rightarrow> bool" where
  "is_lower_hex c \<longleftrightarrow>
     (let n = of_char c :: nat in (48 \<le> n \<and> n \<le> 57) \<or> (97 \<le> n \<and> n \<le> 102))"

text \<open>\<^verbatim>\<open>str.isalnum()\<close>: letters and numeric characters.\<close>

definition is_alnum :: "char \<Rightarrow> bool" where
  "is_alnum c \<longleftrightarrow>
     (let n = of_char c :: nat
      in (48 \<le> n \<and> n \<le> 57) \<or> (65 \<le> n \<and> n \<le> 90) \<or> (97 \<le> n \<and> n \<le> 122) \<or>
         n \<in> {170, 178, 179, 181, 185, 186, 188, 189, 190} \<or>
         (192 \<le> n \<and> n \<noteq> 215 \<and> n \<noteq> 247))"

definition strip :: "string \<Rightarrow> string" where
  "strip s = rev (dropWhile is_space (rev (dropWhile is_space s)))"

text \<open>\<^verbatim>\<open>str.split()\<close>: maximal runs of non-space characters.\<close>

fun split_ws_acc :: "string \<Rightarrow> string \<Rightarrow> string list" where
  "split_ws_acc acc [] = (if acc = [] then [] else [rev acc])"
| "split_ws_acc acc (c # cs) =
     (if is_space c then (if acc = [] then split_ws_acc [] cs else rev acc # split_ws_acc [] cs)
      else split_ws_acc (c # acc) cs)"

definition split_ws :: "string \<Rightarrow> string list" where
  "split_ws s = split_ws_acc [] s"

fun join :: "string \<Rightarrow> string list \<Rightarrow> string" where
  "join sep [] = []"
| "join sep [x] = x"
| "join sep (x # y # ys) = x @ sep @ join sep (y # ys)"

definition repr_str :: "string \<Rightarrow> string" where
  "repr_str s = [CHR 0x27] @ s @ [CHR 0x27]"

lemma split_ws_acc_words:
  "list_all (\<lambda>c. \<not> is_space c) acc \<Longrightarrow>
     list_all (\<lambda>w. w \<noteq> [] \<and> list_all (\<lambda>c. \<not> is_space c) w) (split_ws_acc acc s)"
  by (induction acc s rule: split_ws_acc.induct) auto

lemma split_ws_words: "list_all (\<lambda>w. w \<noteq> [] \<and> list_all (\<lambda>c. \<not> is_space c) w) (split_ws s)"
  unfolding split_ws_def by (rule split_ws_acc_words) simp

text \<open>The truth of an optional string.\<close>

definition given :: "string option \<Rightarrow> bool" where
  "given x \<longleftrightarrow> (case x of None \<Rightarrow> False | Some s \<Rightarrow> s \<noteq> [])"

section \<open>Sums over association lists\<close>

definition sum_where :: "('a \<Rightarrow> bool) \<Rightarrow> ('a \<Rightarrow> rat) \<Rightarrow> 'a list \<Rightarrow> rat" where
  "sum_where p f xs = sum_list (map f (filter p xs))"

lemma sum_where_Nil [simp]: "sum_where p f [] = 0"
  by (simp add: sum_where_def)

lemma sum_where_Cons [simp]:
  "sum_where p f (x # xs) = (if p x then f x else 0) + sum_where p f xs"
  by (simp add: sum_where_def)

lemma sum_where_append [simp]: "sum_where p f (xs @ ys) = sum_where p f xs + sum_where p f ys"
  by (simp add: sum_where_def)

lemma sum_where_nonneg: "(\<And>x. x \<in> set xs \<Longrightarrow> p x \<Longrightarrow> 0 \<le> f x) \<Longrightarrow> 0 \<le> sum_where p f xs"
  by (induction xs) (auto intro: add_nonneg_nonneg)

lemma sum_where_cong:
  "(\<And>x. x \<in> set xs \<Longrightarrow> p x = q x \<and> f x = g x) \<Longrightarrow> sum_where p f xs = sum_where q g xs"
  by (induction xs) auto

section \<open>Reachable states\<close>

text \<open>
  The contract shared by the components: a total step function over labelled operations (a failed
  operation leaves the state as its transaction left it) and a predicate that the start state has
  and every operation keeps. Inside the locale the predicate is lifted to every run.
\<close>

fun run :: "('s \<Rightarrow> 'op \<Rightarrow> 's) \<Rightarrow> 's \<Rightarrow> 'op list \<Rightarrow> 's" where
  "run stp s [] = s"
| "run stp s (x # xs) = run stp (stp s x) xs"

lemma run_append [simp]: "run stp s (xs @ ys) = run stp (run stp s xs) ys"
  by (induction xs arbitrary: s) auto

inductive reachable_from :: "('s \<Rightarrow> 'op \<Rightarrow> 's) \<Rightarrow> 's \<Rightarrow> 's \<Rightarrow> bool" for stp s0 where
  reach_init: "reachable_from stp s0 s0"
| reach_step: "reachable_from stp s0 s \<Longrightarrow> reachable_from stp s0 (stp s x)"

inductive_simps reachable_from_simps: "reachable_from stp s0 s"

lemma reachable_from_run: "reachable_from stp s0 s \<longleftrightarrow> (\<exists>xs. s = run stp s0 xs)"
proof
  assume "reachable_from stp s0 s"
  then show "\<exists>xs. s = run stp s0 xs"
  proof (induction rule: reachable_from.induct)
    case reach_init
    show ?case by (rule exI [of _ "[]"]) simp
  next
    case (reach_step s x)
    then obtain xs where "s = run stp s0 xs" by blast
    then have "stp s x = run stp s0 (xs @ [x])" by simp
    then show ?case by blast
  qed
next
  assume "\<exists>xs. s = run stp s0 xs"
  then obtain xs where "s = run stp s0 xs" by blast
  then show "reachable_from stp s0 s"
    by (induction xs arbitrary: s rule: rev_induct)
      (auto intro: reachable_from.intros)
qed

locale invariant_system =
  fixes stp :: "'s \<Rightarrow> 'op \<Rightarrow> 's" and init :: 's and inv :: "'s \<Rightarrow> bool"
  assumes init_inv: "inv init"
    and step_inv: "inv s \<Longrightarrow> inv (stp s x)"
begin

lemma run_from_inv: "inv s \<Longrightarrow> inv (run stp s xs)"
  by (induction xs arbitrary: s) (auto intro: step_inv)

lemma run_inv: "inv (run stp init xs)"
  by (rule run_from_inv) (rule init_inv)

lemma reachable_inv: "reachable_from stp init s \<Longrightarrow> inv s"
  by (auto simp: reachable_from_run run_inv)

end

end
