(* ===== verification/Calendar.thy ===== *)
theory Calendar
  imports Prelude
begin

text \<open>
  The part of Python's \<^verbatim>\<open>datetime\<close> that the program uses: the proleptic Gregorian calendar, the
  conversion between instants and civil dates, and the start of the current day, of the current
  month and of the next month. The time-zone database is data outside the program, so a zone name
  is resolved by a parameter of type \<open>tzdb\<close> that gives the offset from UTC at an instant, and
  \<open>None\<close> for a name that \<^verbatim>\<open>ZoneInfo\<close> does not know.
\<close>

type_synonym datetime = int
type_synonym timedelta = int
type_synonym month = "int \<times> int"
type_synonym tzdb = "string \<Rightarrow> (datetime \<Rightarrow> timedelta) option"

definition seconds :: "int \<Rightarrow> timedelta" where "seconds n = n * 1000000"
definition minutes :: "int \<Rightarrow> timedelta" where "minutes n = seconds (n * 60)"
definition hours :: "int \<Rightarrow> timedelta" where "hours n = seconds (n * 3600)"
definition days :: "int \<Rightarrow> timedelta" where "days n = seconds (n * 86400)"

lemmas timedelta_defs = seconds_def minutes_def hours_def days_def

text \<open>\<^verbatim>\<open>int(delta.total_seconds())\<close> truncates towards zero.\<close>

definition whole_seconds :: "timedelta \<Rightarrow> int" where
  "whole_seconds d = (if 0 \<le> d then d div 1000000 else - ((- d) div 1000000))"

section \<open>Civil dates\<close>

definition is_leap :: "int \<Rightarrow> bool" where
  "is_leap y \<longleftrightarrow> y mod 4 = 0 \<and> (y mod 100 \<noteq> 0 \<or> y mod 400 = 0)"

definition days_before_year :: "int \<Rightarrow> int" where
  "days_before_year y = (let z = y - 1 in 365 * z + z div 4 - z div 100 + z div 400)"

definition leap_day :: "int \<Rightarrow> int" where
  "leap_day y = (if is_leap y then 1 else 0)"

definition days_before_month :: "int \<Rightarrow> int \<Rightarrow> int" where
  "days_before_month y m =
     (let l = leap_day y in
      if m \<le> 1 then 0 else if m = 2 then 31 else if m = 3 then 59 + l else if m = 4 then 90 + l
      else if m = 5 then 120 + l else if m = 6 then 151 + l else if m = 7 then 181 + l
      else if m = 8 then 212 + l else if m = 9 then 243 + l else if m = 10 then 273 + l
      else if m = 11 then 304 + l else if m = 12 then 334 + l else 365 + l)"

definition ymd2ord :: "int \<Rightarrow> int \<Rightarrow> int \<Rightarrow> int" where
  "ymd2ord y m d = days_before_year y + days_before_month y m + d"

definition year_of_ord :: "int \<Rightarrow> int" where
  "year_of_ord n =
     (let a = (n - 1) div 146097; r = (n - 1) mod 146097;
          b = r div 36524; s = r mod 36524;
          c = s div 1461; t = s mod 1461;
          d = t div 365;
          y = 400 * a + 100 * b + 4 * c + d + 1
      in if b = 4 \<or> d = 4 then y - 1 else y)"

definition month_of_yday :: "int \<Rightarrow> int \<Rightarrow> int" where
  "month_of_yday y k =
     (let l = leap_day y in
      if k \<le> 31 then 1 else if k \<le> 59 + l then 2 else if k \<le> 90 + l then 3
      else if k \<le> 120 + l then 4 else if k \<le> 151 + l then 5 else if k \<le> 181 + l then 6
      else if k \<le> 212 + l then 7 else if k \<le> 243 + l then 8 else if k \<le> 273 + l then 9
      else if k \<le> 304 + l then 10 else if k \<le> 334 + l then 11 else 12)"

definition ord2ymd :: "int \<Rightarrow> int \<times> int \<times> int" where
  "ord2ymd n =
     (let y = year_of_ord n; k = n - days_before_year y; m = month_of_yday y k
      in (y, m, k - days_before_month y m))"

lemma div_pred:
  fixes z k :: int
  assumes "0 < k"
  shows "z div k - (z - 1) div k = (if z mod k = 0 then 1 else 0)"
proof (cases "z mod k = 0")
  case True
  then have "z - 1 = k * (z div k - 1) + (k - 1)"
    using mult_div_mod_eq [of k z] by (simp add: algebra_simps)
  from int_div_pos_eq [OF this] assms have "(z - 1) div k = z div k - 1"
    by simp
  with True show ?thesis by simp
next
  case False
  with assms have "0 < z mod k" and "z mod k < k"
    using pos_mod_sign [of k z] pos_mod_bound [of k z] by linarith+
  moreover have "z - 1 = k * (z div k) + (z mod k - 1)"
    using mult_div_mod_eq [of k z] by simp
  note int_div_pos_eq [OF this]
  ultimately have "(z - 1) div k = z div k"
    by linarith
  with False show ?thesis by simp
qed

lemma leap_rule_sum:
  "(p400 \<longrightarrow> p100) \<Longrightarrow> (p100 \<longrightarrow> p4) \<Longrightarrow>
     (if p4 \<and> (\<not> p100 \<or> p400) then 1 else 0 :: int) =
     (if p4 then 1 else 0) - (if p100 then 1 else 0) + (if p400 then 1 else 0)"
  by (cases p4; cases p100; cases p400) simp_all

lemma leap_day_cases:
  "leap_day y = (if y mod 4 = 0 then 1 else 0) - (if y mod 100 = 0 then 1 else 0) +
     (if y mod 400 = 0 then 1 else 0)"
  unfolding leap_day_def is_leap_def
proof (rule leap_rule_sum)
  show "y mod 400 = 0 \<longrightarrow> y mod 100 = 0"
    using dvd_trans [of 100 400 y] by (simp only: dvd_eq_mod_eq_0) simp
  show "y mod 100 = 0 \<longrightarrow> y mod 4 = 0"
    using dvd_trans [of 4 100 y] by (simp only: dvd_eq_mod_eq_0) simp
qed

lemma days_before_year_Suc: "days_before_year (y + 1) = days_before_year y + 365 + leap_day y"
proof -
  have "days_before_year (y + 1) - days_before_year y =
      365 + (y div 4 - (y - 1) div 4) - (y div 100 - (y - 1) div 100) + (y div 400 - (y - 1) div 400)"
    unfolding days_before_year_def Let_def by (simp only: add_diff_cancel_right') algebra
  also have "\<dots> = 365 + leap_day y"
    by (simp only: div_pred leap_day_cases zero_less_numeral)
  finally show ?thesis by linarith
qed

lemma days_before_year_expand:
  assumes "0 \<le> b" "b \<le> 3" "0 \<le> c" "c \<le> 24" "0 \<le> d" "d \<le> 3"
  shows "days_before_year (400 * a + 100 * b + 4 * c + d + 1) =
    146097 * a + 36524 * b + 1461 * c + 365 * d"
proof -
  have "(400 * a + 100 * b + 4 * c + d) div 4 = 100 * a + 25 * b + c"
    and "(400 * a + 100 * b + 4 * c + d) div 100 = 4 * a + b"
    and "(400 * a + 100 * b + 4 * c + d) div 400 = a"
    using assms by linarith+
  then show ?thesis by (simp add: days_before_year_def Let_def)
qed

lemma year_of_ord_bounds:
  "days_before_year (year_of_ord n) < n \<and> n \<le> days_before_year (year_of_ord n + 1)"
proof -
  define a r where "a = (n - 1) div 146097" and "r = (n - 1) mod 146097"
  define b s where "b = r div 36524" and "s = r mod 36524"
  define c t where "c = s div 1461" and "t = s mod 1461"
  define d u where "d = t div 365" and "u = t mod 365"
  have n: "n - 1 = 146097 * a + 36524 * b + 1461 * c + 365 * d + u"
    unfolding a_def r_def b_def s_def c_def t_def d_def u_def by presburger
  have r: "0 \<le> r" "r < 146097" and s: "0 \<le> s" "s < 36524" and t: "0 \<le> t" "t < 1461"
    and u: "0 \<le> u" "u < 365"
    by (simp_all add: r_def s_def t_def u_def)
  have b: "0 \<le> b" "b \<le> 4" and c: "0 \<le> c" "c \<le> 24" and d: "0 \<le> d" "d \<le> 4"
    using r s t by (auto simp: b_def c_def d_def)
  have b4: "b = 4 \<Longrightarrow> c = 0 \<and> d = 0 \<and> u = 0"
  proof -
    assume "b = 4"
    have "r = 36524 * b + s" by (simp add: b_def s_def)
    with \<open>b = 4\<close> r s have "s = 0" by linarith
    then show "c = 0 \<and> d = 0 \<and> u = 0" by (simp add: c_def t_def d_def u_def)
  qed
  have d4: "d = 4 \<Longrightarrow> u = 0"
  proof -
    assume "d = 4"
    have "t = 365 * d + u" by (simp add: d_def u_def)
    with \<open>d = 4\<close> t u show "u = 0" by linarith
  qed
  have c24: "c = 24 \<Longrightarrow> d < 4"
  proof -
    assume "c = 24"
    have "s = 1461 * c + t" "t = 365 * d + u" by (simp_all add: c_def t_def d_def u_def)
    with \<open>c = 24\<close> s u d show "d < 4" by linarith
  qed
  let ?y = "400 * a + 100 * b + 4 * c + d + 1"
  have yr: "year_of_ord n = (if b = 4 \<or> d = 4 then ?y - 1 else ?y)"
    by (simp add: year_of_ord_def Let_def a_def r_def b_def s_def c_def t_def d_def)
  show ?thesis
  proof (cases "b = 4 \<or> d = 4")
    case False
    with b c d have "days_before_year ?y = 146097 * a + 36524 * b + 1461 * c + 365 * d"
      by (intro days_before_year_expand) auto
    moreover have "days_before_year (?y + 1) \<ge> days_before_year ?y + 365"
      by (subst days_before_year_Suc) (simp add: leap_day_def)
    ultimately show ?thesis using False n u yr by simp
  next
    case True
    show ?thesis
    proof (cases "b = 4")
      case b: True
      have "days_before_year (400 * a + 100 * 3 + 4 * 24 + 3 + 1) = 146097 * a + 36524 * 3 + 1461 * 24 + 365 * 3"
        by (intro days_before_year_expand) auto
      moreover have "days_before_year (400 * (a + 1) + 100 * 0 + 4 * 0 + 0 + 1) = 146097 * (a + 1) + 36524 * 0 + 1461 * 0 + 365 * 0"
        by (intro days_before_year_expand) auto
      ultimately show ?thesis using True b b4 n yr by (simp add: algebra_simps)
    next
      case False
      with True have "d = 4" by simp
      with d4 c24 c have *: "d = 4" "u = 0" "c < 24" by linarith+
      have "days_before_year (400 * a + 100 * b + 4 * c + 3 + 1) = 146097 * a + 36524 * b + 1461 * c + 365 * 3"
        using False b c by (intro days_before_year_expand) auto
      moreover have "days_before_year (400 * a + 100 * b + 4 * (c + 1) + 0 + 1) = 146097 * a + 36524 * b + 1461 * (c + 1) + 365 * 0"
        using False b c * by (intro days_before_year_expand) auto
      ultimately show ?thesis using True * n yr by (simp add: algebra_simps)
    qed
  qed
qed

lemma month_of_yday_bounds:
  assumes "1 \<le> k" and "k \<le> 365 + leap_day y"
  shows "days_before_month y (month_of_yday y k) < k \<and>
    k \<le> days_before_month y (month_of_yday y k + 1) \<and>
    1 \<le> month_of_yday y k \<and> month_of_yday y k \<le> 12"
  using assms
  by (cases "is_leap y") (simp_all add: month_of_yday_def days_before_month_def leap_day_def Let_def)

text \<open>The date of an ordinal converts back to it, and is a date of its month.\<close>

lemma ord2ymd_valid:
  assumes "ord2ymd n = (y, m, d)"
  shows "ymd2ord y m d = n" and "1 \<le> m \<and> m \<le> 12" and "1 \<le> d"
    and "d \<le> days_before_month y (m + 1) - days_before_month y m"
proof -
  define k where "k = n - days_before_year (year_of_ord n)"
  have y: "y = year_of_ord n" and m: "m = month_of_yday y k" and d: "d = k - days_before_month y m"
    using assms by (auto simp: ord2ymd_def Let_def k_def)
  have "1 \<le> k" "k \<le> 365 + leap_day y"
    using year_of_ord_bounds [of n] days_before_year_Suc [of "year_of_ord n"] by (auto simp: k_def y)
  from month_of_yday_bounds [OF this] show "1 \<le> m \<and> m \<le> 12" and "1 \<le> d"
    and "d \<le> days_before_month y (m + 1) - days_before_month y m"
    by (auto simp: m d)
  show "ymd2ord y m d = n" by (simp add: ymd2ord_def d k_def y)
qed

section \<open>Instants\<close>

definition epoch_ordinal :: int where "epoch_ordinal = 719163"
definition day_us :: int where "day_us = 86400000000"

definition date_of :: "datetime \<Rightarrow> int \<times> int \<times> int" where
  "date_of t = ord2ymd (t div day_us + epoch_ordinal)"

text \<open>\<^verbatim>\<open>datetime(year, month, day, tzinfo=UTC)\<close>.\<close>

definition midnight :: "int \<Rightarrow> int \<Rightarrow> int \<Rightarrow> datetime" where
  "midnight y m d = (ymd2ord y m d - epoch_ordinal) * day_us"

definition day_start :: "datetime \<Rightarrow> datetime" where
  "day_start t = (case date_of t of (y, m, d) \<Rightarrow> midnight y m d)"

definition month_start :: "datetime \<Rightarrow> datetime" where
  "month_start t = (case date_of t of (y, m, d) \<Rightarrow> midnight y m 1)"

definition next_month_start :: "datetime \<Rightarrow> datetime" where
  "next_month_start t =
     (case date_of t of (y, m, d) \<Rightarrow>
        if m = 12 then midnight (y + 1) 1 1 else midnight y (m + 1) 1)"

lemma div_day: "t div day_us * day_us \<le> t" "t < (t div day_us + 1) * day_us"
  by (simp_all add: day_us_def)

lemma day_start_bounds: "day_start t \<le> t \<and> t < day_start t + days 1"
proof -
  obtain y m d where e: "date_of t = (y, m, d)" by (cases "date_of t") auto
  then have "ymd2ord y m d = t div day_us + epoch_ordinal"
    using ord2ymd_valid(1) by (simp add: date_of_def)
  then have "day_start t = t div day_us * day_us"
    using e by (simp add: day_start_def midnight_def)
  then show ?thesis using div_day [of t] by (simp add: days_def seconds_def day_us_def)
qed

lemma month_start_bounds: "month_start t \<le> t \<and> t < next_month_start t"
proof -
  obtain y m d where e: "date_of t = (y, m, d)" by (cases "date_of t") auto
  then have o: "ord2ymd (t div day_us + epoch_ordinal) = (y, m, d)" by (simp add: date_of_def)
  note v = ord2ymd_valid [OF o]
  have s: "ymd2ord y m 1 \<le> t div day_us + epoch_ordinal"
    using v(1,3) by (simp add: ymd2ord_def)
  have x: "t div day_us + epoch_ordinal + 1 \<le>
      (if m = 12 then ymd2ord (y + 1) 1 1 else ymd2ord y (m + 1) 1)"
  proof (cases "m = 12")
    case True
    with v(1,4) show ?thesis
      using days_before_year_Suc [of y] by (simp add: ymd2ord_def days_before_month_def Let_def)
  next
    case False
    with v(1,4) show ?thesis by (simp add: ymd2ord_def)
  qed
  have "month_start t = (ymd2ord y m 1 - epoch_ordinal) * day_us"
    using e by (simp add: month_start_def midnight_def)
  also have "\<dots> \<le> t div day_us * day_us"
    using s by (intro mult_right_mono) (auto simp: day_us_def)
  also have "\<dots> \<le> t" by (rule div_day)
  finally have 1: "month_start t \<le> t" .
  have "t < (t div day_us + 1) * day_us" by (rule div_day)
  also have "\<dots> \<le> next_month_start t"
    using x e by (cases "m = 12")
      (auto simp: next_month_start_def midnight_def day_us_def intro!: mult_right_mono)
  finally show ?thesis using 1 by simp
qed

text \<open>
  \<^verbatim>\<open>value.astimezone(ZoneInfo(timezone)).strftime("%Y-%m")\<close>: the pair of year and month stands for
  the formatted string, which determines it.
\<close>

definition month_in_zone :: "(datetime \<Rightarrow> timedelta) \<Rightarrow> datetime \<Rightarrow> month" where
  "month_in_zone off t = (case date_of (t + off t) of (y, m, d) \<Rightarrow> (y, m))"

lemma date_of_epoch: "date_of 0 = (1970, 1, 1)"
  by code_simp

lemma date_of_example: "date_of (1789171200 * 1000000) = (2026, 9, 12)"
  by code_simp

section \<open>ISO 8601 text\<close>

fun digits :: "nat \<Rightarrow> int \<Rightarrow> string" where
  "digits 0 n = []"
| "digits (Suc k) n = digits k (n div 10) @ [char_of (48 + n mod 10)]"

text \<open>\<^verbatim>\<open>datetime.isoformat()\<close> of an aware UTC time.\<close>

definition isoformat :: "datetime \<Rightarrow> string" where
  "isoformat t =
     (case date_of t of (y, m, d) \<Rightarrow>
        let us = t mod day_us; sec = us div 1000000; frac = us mod 1000000 in
        digits 4 y @ ''-'' @ digits 2 m @ ''-'' @ digits 2 d @ ''T'' @
        digits 2 (sec div 3600) @ '':'' @ digits 2 (sec div 60 mod 60) @ '':'' @ digits 2 (sec mod 60) @
        (if frac = 0 then [] else ''.'' @ digits 6 frac) @ ''+00:00'')"

text \<open>\<^verbatim>\<open>datetime.isoformat()\<close> of a time without a zone, as SQLite returns them.\<close>

definition isoformat_naive :: "datetime \<Rightarrow> string" where
  "isoformat_naive t =
     (case date_of t of (y, m, d) \<Rightarrow>
        let us = t mod day_us; sec = us div 1000000; frac = us mod 1000000 in
        digits 4 y @ ''-'' @ digits 2 m @ ''-'' @ digits 2 d @ ''T'' @
        digits 2 (sec div 3600) @ '':'' @ digits 2 (sec div 60 mod 60) @ '':'' @ digits 2 (sec mod 60) @
        (if frac = 0 then [] else ''.'' @ digits 6 frac))"

end
