(* ===== verification/Schema.thy ===== *)
theory Schema
  imports Calendar
begin

text \<open>
  The tables of the workspace state database that the modelled components read and write
  (\<^verbatim>\<open>app/storage/schema.py\<close>), one record per table, and the database as the record of its tables.
  Column types follow the schema: \<^verbatim>\<open>Numeric(18, 8)\<close> amounts are rationals, timestamps are instants,
  nullable columns are options. A column that holds a value of a Python \<^verbatim>\<open>StrEnum\<close> has the
  enumeration as its type.
\<close>

section \<open>Enumerations\<close>

datatype usage_event_type = RESERVE | SETTLE | UNCERTAIN | CORRECTION

fun event_value :: "usage_event_type \<Rightarrow> string" where
  "event_value RESERVE = ''reserve''"
| "event_value SETTLE = ''settle''"
| "event_value UNCERTAIN = ''uncertain''"
| "event_value CORRECTION = ''correction''"

datatype job_state =
  QUEUED | RUNNING | PAUSED | CANCEL_REQUESTED | CANCELLED | FAILED | SUCCEEDED

fun state_value :: "job_state \<Rightarrow> string" where
  "state_value QUEUED = ''queued''"
| "state_value RUNNING = ''running''"
| "state_value PAUSED = ''paused''"
| "state_value CANCEL_REQUESTED = ''cancel_requested''"
| "state_value CANCELLED = ''cancelled''"
| "state_value FAILED = ''failed''"
| "state_value SUCCEEDED = ''succeeded''"

section \<open>Rows\<close>

record usage_event =
  ue_id :: string
  ue_operation_id :: string
  ue_attempt_id :: string
  ue_event_type :: usage_event_type
  ue_provider :: string
  ue_profile_id :: string
  ue_amount_usd :: rat
  ue_input_tokens :: "int option"
  ue_output_tokens :: "int option"
  ue_price_snapshot_json :: json_text
  ue_status :: string
  ue_created_at :: datetime

record paid_call_lease =
  pl_attempt_id :: string
  pl_operation_id :: string
  pl_expires_at :: datetime
  pl_created_at :: datetime

record job_row =
  job_id :: string
  job_type :: string
  job_target_id :: string
  job_state :: job_state
  job_stage :: string
  job_progress_current :: int
  job_progress_total :: "int option"
  job_retryable :: bool
  job_resume_json :: json_text
  job_error_code :: "string option"
  job_error_message :: "string option"
  job_lease_owner :: "string option"
  job_lease_expires_at :: "datetime option"
  job_cancel_requested_at :: "datetime option"
  job_created_at :: datetime
  job_updated_at :: datetime

record maintenance_row =
  ms_active :: bool
  ms_operation :: "string option"
  ms_started_at :: "datetime option"

record launcher_token_row =
  lt_id :: string
  lt_token_hash :: string
  lt_created_at :: datetime
  lt_expires_at :: datetime
  lt_consumed_at :: "datetime option"

record local_session_row =
  ls_id :: string
  ls_token_hash :: string
  ls_csrf_hash :: string
  ls_created_at :: datetime
  ls_expires_at :: datetime
  ls_last_seen_at :: datetime

record property_cache_row =
  pc_cache_key :: string
  pc_request_json :: json_text
  pc_connector_version :: string
  pc_response_artifact :: string
  pc_status :: string
  pc_is_complete :: bool
  pc_fetched_at :: datetime
  pc_expires_at :: datetime
  pc_stale_until :: datetime
  pc_last_accessed_at :: datetime
  pc_size_bytes :: int
  pc_pinned :: bool

section \<open>The state database\<close>

text \<open>
  \<^verbatim>\<open>maintenance_state\<close> has at most the row with \<^verbatim>\<open>id = 1\<close>; \<open>None\<close> is the missing row. The tables
  of the session service are a state of their own, because no modelled transaction spans them and the
  ones below; the property cache is a state of its own too, which retention joins with the tables
  below, and of which the cache sees the maintenance flag only.
\<close>

record state_db =
  usage_events :: "usage_event list"
  paid_call_leases :: "paid_call_lease list"
  jobs :: "job_row list"
  maintenance_state :: "maintenance_row option"

definition empty_db :: state_db where
  "empty_db = \<lparr>usage_events = [], paid_call_leases = [], jobs = [], maintenance_state = None\<rparr>"

end
