(* ===== verification/Locks.thy ===== *)
theory Locks
  imports Schema
begin

text \<open>
  Crash-released ownership (\<^verbatim>\<open>app/workspace/locks.py\<close>): non-blocking exclusive locks on files,
  which the operating system drops when the process that holds them ends, and the process owner
  token whose lock file proves that its process is alive. The operating system is the list of
  locked paths; \<^verbatim>\<open>_OWNERS\<close> is the module's dictionary, keyed by process id and workspace root.
  Random tokens are arguments (\<^verbatim>\<open>uuid.uuid4().hex\<close> of a 128-bit number).
\<close>

section \<open>File leases\<close>

record os_state =
  os_locked :: "string list"
  os_owners :: "((int \<times> string) \<times> string) list"

record file_lease =
  fl_path :: string
  fl_held :: bool

definition file_lease_new :: "string \<Rightarrow> file_lease" where
  "file_lease_new p = \<lparr>fl_path = p, fl_held = False\<rparr>"

definition path_name :: "string \<Rightarrow> string" where
  "path_name p = rev (takeWhile (\<lambda>c. c \<noteq> CHR ''/'') (rev p))"

definition lease_acquire :: "file_lease \<Rightarrow> os_state \<Rightarrow> (file_lease \<times> os_state) result" where
  "lease_acquire l os =
     (if fl_held l then Inl (LockBusy ''This lease already holds its workspace lock.'')
      else if fl_path l \<in> set (os_locked os)
      then Inl (LockBusy (''Workspace operation already owns '' @ path_name (fl_path l) @ ''.''))
      else Inr (l\<lparr>fl_held := True\<rparr>, os\<lparr>os_locked := fl_path l # os_locked os\<rparr>))"

definition lease_release :: "file_lease \<Rightarrow> os_state \<Rightarrow> file_lease \<times> os_state" where
  "lease_release l os =
     (if fl_held l then (l\<lparr>fl_held := False\<rparr>, os\<lparr>os_locked := remove1 (fl_path l) (os_locked os)\<rparr>)
      else (l, os))"

section \<open>Process owners\<close>

text \<open>The engine: its database URL and the resolved directory of the database file.\<close>

record engine =
  eng_database :: "string option"
  eng_root :: string

record process =
  proc_pid :: int
  proc_engine :: engine

definition workspace_root :: "engine \<Rightarrow> string result" where
  "workspace_root e =
     (case eng_database e of
        None \<Rightarrow> Inl (ValueError ''Durable ownership requires a file-backed workspace.'')
      | Some d \<Rightarrow>
          if d = '''' \<or> d = '':memory:''
          then Inl (ValueError ''Durable ownership requires a file-backed workspace.'')
          else Inr (eng_root e))"

definition hex_digit :: "nat \<Rightarrow> char" where
  "hex_digit n = (if n < 10 then char_of (48 + n) else char_of (87 + n))"

fun hex_digits :: "nat \<Rightarrow> nat \<Rightarrow> string" where
  "hex_digits 0 n = []"
| "hex_digits (Suc k) n = hex_digits k (n div 16) @ [hex_digit (n mod 16)]"

text \<open>\<^verbatim>\<open>uuid.UUID(int=n).hex\<close>: 32 lower-case hexadecimal digits.\<close>

definition uuid_hex :: "nat \<Rightarrow> string" where
  "uuid_hex n = hex_digits 32 n"

text \<open>\<^verbatim>\<open>uuid.UUID(token).hex == token\<close> holds for exactly these tokens.\<close>

definition canonical_uuid_hex :: "string \<Rightarrow> bool" where
  "canonical_uuid_hex t \<longleftrightarrow> length t = 32 \<and> list_all is_lower_hex t"

definition owner_lock_path :: "string \<Rightarrow> string \<Rightarrow> string" where
  "owner_lock_path rt token = rt @ ''/runtime/owners/'' @ token @ ''.lock''"

definition maintenance_lock_path :: "string \<Rightarrow> string" where
  "maintenance_lock_path rt = rt @ ''/.maintenance.lock''"

definition proc_owner :: "string \<Rightarrow> string" where
  "proc_owner token = ''proc:'' @ token"

definition process_owner :: "process \<Rightarrow> nat \<Rightarrow> os_state \<Rightarrow> (string \<times> os_state) result" where
  "process_owner p rnd os =
     (case workspace_root (proc_engine p) of
        Inl e \<Rightarrow> Inl e
      | Inr rt \<Rightarrow>
          (case map_of (os_owners os) (proc_pid p, rt) of
             Some owner \<Rightarrow> Inr (owner, os)
           | None \<Rightarrow>
               (let token = uuid_hex rnd in
                case lease_acquire (file_lease_new (owner_lock_path rt token)) os of
                  Inl e \<Rightarrow> Inl e
                | Inr (l, os') \<Rightarrow>
                    (let owner = proc_owner token
                     in Inr (owner, os'\<lparr>os_owners := ((proc_pid p, rt), owner) # os_owners os'\<rparr>)))))"

definition owner_token :: "string \<Rightarrow> string" where
  "owner_token owner = takeWhile (\<lambda>c. c \<noteq> CHR '':'') (drop 5 owner)"

definition owner_alive :: "engine \<Rightarrow> os_state \<Rightarrow> string option \<Rightarrow> bool option result" where
  "owner_alive e os owner =
     (case owner of
        None \<Rightarrow> Inr None
      | Some w \<Rightarrow>
          if w = [] \<or> \<not> starts_with w ''proc:'' then Inr None
          else if \<not> canonical_uuid_hex (owner_token w) then Inr None
          else (case workspace_root e of
                  Inl err \<Rightarrow> Inl err
                | Inr rt \<Rightarrow>
                    (case lease_acquire (file_lease_new (owner_lock_path rt (owner_token w))) os of
                       Inl _ \<Rightarrow> Inr (Some True)
                     | Inr (l, os') \<Rightarrow> Inr (Some False))))"

section \<open>Properties\<close>

lemma lease_acquire_exclusive:
  assumes "lease_acquire l os = Inr (l', os')"
  shows "fl_held l'" and "fl_path l' = fl_path l" and "fl_path l \<notin> set (os_locked os)"
    and "lease_acquire (file_lease_new (fl_path l)) os' =
      Inl (LockBusy (''Workspace operation already owns '' @ path_name (fl_path l) @ ''.''))"
    and "lease_release l' os' = (l, os)"
  using assms
  by (auto simp: lease_acquire_def lease_release_def file_lease_new_def split: if_splits)

lemma length_hex_digits [simp]: "length (hex_digits k n) = k"
  by (induction k arbitrary: n) auto

lemma hex_digit_lower:
  assumes "n < 16"
  shows "is_lower_hex (hex_digit n)"
  using assms by (auto simp: hex_digit_def is_lower_hex_def Let_def)

lemma hex_digits_lower: "list_all is_lower_hex (hex_digits k n)"
  by (induction k arbitrary: n) (auto simp: hex_digit_lower)

lemma canonical_uuid_hex_uuid [simp]: "canonical_uuid_hex (uuid_hex n)"
  by (simp add: canonical_uuid_hex_def uuid_hex_def hex_digits_lower)

lemma no_colon_in_hex: "list_all is_lower_hex t \<Longrightarrow> CHR '':'' \<notin> set t"
  by (induction t) (auto simp: is_lower_hex_def Let_def)

lemma starts_with_append [simp]: "starts_with (p @ s) p"
  by (simp add: starts_with_def)

lemma owner_token_proc:
  assumes "canonical_uuid_hex t"
  shows "owner_token (proc_owner t) = t" and "owner_token (proc_owner t @ CHR '':'' # w) = t"
  using assms no_colon_in_hex [of t]
  by (auto simp: owner_token_def proc_owner_def canonical_uuid_hex_def takeWhile_eq_all_conv
      takeWhile_append)

lemma starts_with_proc: "starts_with (proc_owner t) ''proc:''" "starts_with (proc_owner t @ w) ''proc:''"
  by (simp_all only: proc_owner_def append_assoc starts_with_append)

lemma proc_owner_nonempty [simp]: "proc_owner t \<noteq> []" "proc_owner t @ w \<noteq> []"
  by (simp_all add: proc_owner_def)

text \<open>An owner is live while the lock file of its token is locked.\<close>

definition owner_running :: "engine \<Rightarrow> os_state \<Rightarrow> string \<Rightarrow> bool" where
  "owner_running e os owner \<longleftrightarrow>
     (\<exists>rt t. workspace_root e = Inr rt \<and> canonical_uuid_hex t \<and> owner = proc_owner t \<and>
        owner_lock_path rt t \<in> set (os_locked os))"

lemma owner_running_alive:
  assumes "owner_running e os w"
  shows "owner_alive e os (Some w) = Inr (Some True)"
    and "owner_alive e os (Some (w @ '':'' @ k)) = Inr (Some True)"
  using assms
  by (auto simp: owner_running_def owner_alive_def owner_token_proc starts_with_proc
      lease_acquire_def file_lease_new_def)

text \<open>
  Every registered owner holds the lock of its token: \<^verbatim>\<open>process_owner\<close> registers a token only after
  it acquired the lock, and the locks of the module are released at process exit.
\<close>

definition owners_inv :: "os_state \<Rightarrow> bool" where
  "owners_inv os \<longleftrightarrow>
     (\<forall>k \<in> set (os_owners os).
        \<exists>t. canonical_uuid_hex t \<and> snd k = proc_owner t \<and>
            owner_lock_path (snd (fst k)) t \<in> set (os_locked os))"

lemma process_owner_cases:
  assumes "process_owner p rnd os = Inr (owner, os')"
  obtains (known) rt where "workspace_root (proc_engine p) = Inr rt"
      "map_of (os_owners os) (proc_pid p, rt) = Some owner" "os' = os"
  | (fresh) rt where "workspace_root (proc_engine p) = Inr rt"
      "map_of (os_owners os) (proc_pid p, rt) = None"
      "owner = proc_owner (uuid_hex rnd)"
      "owner_lock_path rt (uuid_hex rnd) \<notin> set (os_locked os)"
      "os_locked os' = owner_lock_path rt (uuid_hex rnd) # os_locked os"
      "os_owners os' = ((proc_pid p, rt), owner) # os_owners os"
  using assms
  by (auto simp: process_owner_def Let_def lease_acquire_def file_lease_new_def
      split: sum.splits option.splits if_splits prod.splits)

lemma process_owner_inv:
  assumes "owners_inv os" and "process_owner p rnd os = Inr (owner, os')"
  shows "owners_inv os'"
  using assms(2)
proof (cases rule: process_owner_cases)
  case (known rt)
  with assms(1) show ?thesis by simp
next
  case (fresh rt)
  have "\<exists>t. canonical_uuid_hex t \<and> owner = proc_owner t \<and> owner_lock_path rt t \<in> set (os_locked os')"
    using fresh by (intro exI [of _ "uuid_hex rnd"]) simp
  moreover have "\<forall>k \<in> set (os_owners os). \<exists>t. canonical_uuid_hex t \<and> snd k = proc_owner t \<and>
      owner_lock_path (snd (fst k)) t \<in> set (os_locked os')"
    using assms(1) fresh(5) unfolding owners_inv_def by auto
  ultimately show ?thesis
    by (simp add: owners_inv_def fresh(6))
qed

lemma process_owner_running:
  assumes "owners_inv os" and "process_owner p rnd os = Inr (owner, os')"
  shows "owner_running (proc_engine p) os' owner"
  using assms(2)
proof (cases rule: process_owner_cases)
  case (known rt)
  then have "((proc_pid p, rt), owner) \<in> set (os_owners os)" by (simp add: map_of_SomeD)
  with assms(1) known show ?thesis by (force simp: owners_inv_def owner_running_def)
next
  case (fresh rt)
  then show ?thesis
    unfolding owner_running_def by (intro exI [of _ rt] exI [of _ "uuid_hex rnd"]) simp
qed

lemma process_owner_idempotent:
  assumes "process_owner p rnd os = Inr (owner, os')"
  shows "process_owner p rnd' os' = Inr (owner, os')"
  using assms
proof (cases rule: process_owner_cases)
  case (known rt)
  then show ?thesis by (simp add: process_owner_def)
next
  case (fresh rt)
  then show ?thesis by (simp add: process_owner_def)
qed

section \<open>The liveness interface\<close>

text \<open>
  What the ledger and the job service rely on: the probe of an owner string answers \<open>True\<close> for a
  running process, both for its bare token and for a worker name derived from it.
\<close>

locale owner_liveness =
  fixes alive :: "'os \<Rightarrow> string option \<Rightarrow> bool option result"
    and running :: "'os \<Rightarrow> string \<Rightarrow> bool"
  assumes alive_owner: "running os w \<Longrightarrow> alive os (Some w) = Inr (Some True)"
    and alive_worker: "running os w \<Longrightarrow> alive os (Some (w @ '':'' @ k)) = Inr (Some True)"

interpretation workspace_owner: owner_liveness "owner_alive e" "owner_running e" for e
  by unfold_locales (rule owner_running_alive; assumption)+

text \<open>
  A process that has obtained its owner token is seen as alive by every later probe of the
  token or of a worker name derived from it, as long as the operating system holds its locks, and
  asking for the token again returns the same one.
\<close>

theorem process_owner_is_alive:
  assumes "owners_inv os" and "process_owner p rnd os = Inr (owner, os')"
  shows "owner_alive (proc_engine p) os' (Some owner) = Inr (Some True) \<and>
    owner_alive (proc_engine p) os' (Some (owner @ '':'' @ worker)) = Inr (Some True) \<and>
    process_owner p rnd' os' = Inr (owner, os') \<and> owners_inv os'"
  using workspace_owner.alive_owner [OF process_owner_running [OF assms]]
    workspace_owner.alive_worker [OF process_owner_running [OF assms]]
    process_owner_idempotent [OF assms(2)] process_owner_inv [OF assms]
  by blast

definition sample_process :: process where
  "sample_process =
     \<lparr>proc_pid = 7, proc_engine = \<lparr>eng_database = Some ''/w/state.sqlite3'', eng_root = ''/w''\<rparr>\<rparr>"

definition idle_os :: os_state where
  "idle_os = \<lparr>os_locked = [], os_owners = []\<rparr>"

lemma sample_process_owner:
  "process_owner sample_process 0 idle_os =
     Inr (proc_owner (uuid_hex 0),
       \<lparr>os_locked = [owner_lock_path ''/w'' (uuid_hex 0)],
        os_owners = [((7, ''/w''), proc_owner (uuid_hex 0))]\<rparr>)"
  by (simp add: process_owner_def sample_process_def idle_os_def workspace_root_def Let_def
      lease_acquire_def file_lease_new_def)

lemma idle_os_owners_inv: "owners_inv idle_os"
  by (simp add: owners_inv_def idle_os_def)

theorem process_owner_is_alive_witness:
  "owner_alive (proc_engine sample_process)
      \<lparr>os_locked = [owner_lock_path ''/w'' (uuid_hex 0)],
       os_owners = [((7, ''/w''), proc_owner (uuid_hex 0))]\<rparr>
      (Some (proc_owner (uuid_hex 0))) = Inr (Some True)"
  using process_owner_is_alive [OF idle_os_owners_inv sample_process_owner, of "''w''" 1] by simp

end
