(* ===== verification/Maintenance.thy ===== *)
theory Maintenance
  imports Locks
begin

text \<open>
  The admission side of the maintenance barrier (\<^verbatim>\<open>maintenance_active\<close> of
  \<^verbatim>\<open>app/maintenance/barrier.py\<close>): the flag in the database counts only while a live process holds
  the maintenance lock; a flag whose lock is free was left by a crash and is cleared by the reader.
\<close>

definition clear_maintenance :: "state_db \<Rightarrow> state_db" where
  "clear_maintenance db =
     db\<lparr>maintenance_state :=
       map_option (\<lambda>r. r\<lparr>ms_active := False, ms_operation := None, ms_started_at := None\<rparr>)
         (maintenance_state db)\<rparr>"

definition maintenance_flag :: "state_db \<Rightarrow> bool" where
  "maintenance_flag db = (case maintenance_state db of None \<Rightarrow> False | Some r \<Rightarrow> ms_active r)"

definition maintenance_active :: "engine \<Rightarrow> os_state \<Rightarrow> (state_db, bool) tx" where
  "maintenance_active e os db =
     (if \<not> maintenance_flag db then Inr (False, db)
      else (case workspace_root e of
              Inl err \<Rightarrow> Inl err
            | Inr rt \<Rightarrow>
                (case lease_acquire (file_lease_new (maintenance_lock_path rt)) os of
                   Inl _ \<Rightarrow> Inr (True, db)
                 | Inr _ \<Rightarrow> Inr (False, clear_maintenance db))))"

lemma clear_maintenance_frame [simp]:
  "usage_events (clear_maintenance db) = usage_events db"
  "paid_call_leases (clear_maintenance db) = paid_call_leases db"
  "jobs (clear_maintenance db) = jobs db"
  by (simp_all add: clear_maintenance_def)

lemma maintenance_flag_clear [simp]: "\<not> maintenance_flag (clear_maintenance db)"
  by (auto simp: maintenance_flag_def clear_maintenance_def split: option.splits)

text \<open>An admission check that lets the caller go on leaves no flag set.\<close>

lemma maintenance_active_False:
  assumes "maintenance_active e os db = Inr (False, db')"
  shows "\<not> maintenance_flag db'" and "db' = db \<or> db' = clear_maintenance db"
  using assms by (auto simp: maintenance_active_def split: sum.splits if_splits)

lemma maintenance_active_frame:
  assumes "maintenance_active e os db = Inr (b, db')"
  shows "usage_events db' = usage_events db" and "paid_call_leases db' = paid_call_leases db"
    and "jobs db' = jobs db"
  using assms by (auto simp: maintenance_active_def split: sum.splits if_splits)

lemma maintenance_active_held:
  assumes "maintenance_flag db" and "workspace_root e = Inr rt"
    and "maintenance_lock_path rt \<in> set (os_locked os)"
  shows "maintenance_active e os db = Inr (True, db)"
  using assms by (simp add: maintenance_active_def lease_acquire_def file_lease_new_def)

end
