(* ===== verification/Jobs.thy ===== *)
theory Jobs
  imports Maintenance
begin

text \<open>
  The durable job service (\<^verbatim>\<open>app/jobs/service.py\<close>): a table of jobs, each of which changes one
  target. A job is created queued, claimed by a worker of a live process, kept alive by heartbeats
  and checkpoints, and ends cancelled, failed or succeeded; a recovery pauses or fails the jobs
  whose worker stopped. Every operation is one transaction followed by a read of the row.

  \<open>job_env\<close> holds what a call takes from outside: the clock, the calling process, the random part
  of its owner token and the random job id.
\<close>

section \<open>Data\<close>

record job_record =
  jr_id :: string
  jr_job_type :: string
  jr_target_id :: string
  jr_state :: job_state
  jr_stage :: string
  jr_progress_current :: int
  jr_progress_total :: "int option"
  jr_retryable :: bool
  jr_resume :: json_object
  jr_error_code :: "string option"
  jr_error_message :: "string option"
  jr_lease_owner :: "string option"
  jr_lease_expires_at :: "datetime option"
  jr_cancel_requested_at :: "datetime option"
  jr_created_at :: datetime
  jr_updated_at :: datetime

record job_env =
  je_process :: process
  je_owner_random :: nat
  je_uuid :: string
  je_now :: datetime

definition ACTIVE_TARGET_STATES :: "job_state list" where
  "ACTIVE_TARGET_STATES = [QUEUED, RUNNING, PAUSED, CANCEL_REQUESTED]"

definition RESUMABLE_JOB_TYPES :: "string list" where
  "RESUMABLE_JOB_TYPES =
     [''corpus_install'', ''corpus_update'', ''corpus_check'', ''corpus_remove'', ''corpus_restore'',
      ''corpus_index'', ''property_complete_export'', ''resource_add'', ''resource_replace'']"

section \<open>Helpers\<close>

definition job_record_of :: "job_row \<Rightarrow> job_record result" where
  "job_record_of r =
     (case json_loads (job_resume_json r) of
        Inl e \<Rightarrow> Inl e
      | Inr j \<Rightarrow>
          Inr \<lparr>jr_id = job_id r, jr_job_type = job_type r, jr_target_id = job_target_id r,
               jr_state = job_row.job_state r, jr_stage = job_stage r,
               jr_progress_current = job_progress_current r,
               jr_progress_total = job_progress_total r, jr_retryable = job_retryable r,
               jr_resume = j, jr_error_code = job_error_code r,
               jr_error_message = job_error_message r, jr_lease_owner = job_lease_owner r,
               jr_lease_expires_at = job_lease_expires_at r,
               jr_cancel_requested_at = job_cancel_requested_at r,
               jr_created_at = job_created_at r, jr_updated_at = job_updated_at r\<rparr>)"

definition sanitize_code :: "string \<Rightarrow> string" where
  "sanitize_code v =
     (let s = take 80 (filter (\<lambda>c. is_alnum c \<or> c = CHR ''_'' \<or> c = CHR ''-'') v)
      in if s = [] then ''job_error'' else s)"

definition sanitize_message :: "string \<Rightarrow> string" where
  "sanitize_message v = take 1000 (join '' '' (split_ws (filter (\<lambda>c. of_char c \<noteq> (0 :: nat)) v)))"

text \<open>A transaction whose body may also register the process owner, which no rollback undoes.\<close>

definition os_transaction ::
  "(os_state \<Rightarrow> state_db \<Rightarrow> 'a result \<times> os_state \<times> state_db) \<Rightarrow> os_state \<Rightarrow> state_db \<Rightarrow>
   'a result \<times> os_state \<times> state_db" where
  "os_transaction body os db =
     (case body os db of
        (Inl e, os', _) \<Rightarrow> (Inl e, os', db)
      | (Inr x, os', db') \<Rightarrow> (Inr x, os', db'))"

definition worker_owner :: "job_env \<Rightarrow> string \<Rightarrow> os_state \<Rightarrow> (string \<times> os_state) result" where
  "worker_owner env worker os =
     (case process_owner (je_process env) (je_owner_random env) os of
        Inl e \<Rightarrow> Inl e
      | Inr (owner, os') \<Rightarrow> Inr (owner @ '':'' @ worker, os'))"

definition assert_no_maintenance :: "job_env \<Rightarrow> os_state \<Rightarrow> (state_db, unit) tx" where
  "assert_no_maintenance env os db =
     (case maintenance_active (proc_engine (je_process env)) os db of
        Inl e \<Rightarrow> Inl e
      | Inr (True, _) \<Rightarrow>
          Inl (JobConflict ''Workspace maintenance is active; no job was admitted or resumed.'')
      | Inr (False, db') \<Rightarrow> Inr ((), db'))"

definition locked_row :: "string \<Rightarrow> state_db \<Rightarrow> job_row result" where
  "locked_row jid db =
     (case select_first (\<lambda>r. job_id r = jid) (jobs db) of
        None \<Rightarrow> Inl (JobNotFound jid)
      | Some r \<Rightarrow> Inr r)"

definition get_job :: "string \<Rightarrow> state_db \<Rightarrow> job_record result" where
  "get_job jid db =
     (case locked_row jid db of Inl e \<Rightarrow> Inl e | Inr r \<Rightarrow> job_record_of r)"

definition list_jobs :: "int \<Rightarrow> state_db \<Rightarrow> job_record list result" where
  "list_jobs limit db =
     (let rows = sort_key (\<lambda>r. - job_created_at r) (jobs db);
          page = (if limit < 0 then rows else take (nat limit) rows)
      in foldr (\<lambda>r acc. case job_record_of r of
                    Inl e \<Rightarrow> Inl e
                  | Inr x \<Rightarrow> (case acc of Inl e \<Rightarrow> Inl e | Inr xs \<Rightarrow> Inr (x # xs)))
           page (Inr []))"

text \<open>\<^verbatim>\<open>return self.get(job_id)\<close> after the transaction: an error of the transaction propagates.\<close>

definition then_get ::
  "string \<Rightarrow> unit result \<times> os_state \<times> state_db \<Rightarrow> job_record result \<times> os_state \<times> state_db" where
  "then_get jid x =
     (case x of
        (Inl e, os, db) \<Rightarrow> (Inl e, os, db)
      | (Inr _, os, db) \<Rightarrow> (get_job jid db, os, db))"

definition insert_job :: "job_row \<Rightarrow> state_db \<Rightarrow> state_db result" where
  "insert_job r db =
     (if job_id r \<in> set (map job_id (jobs db))
      then Inl (IntegrityError ''UNIQUE constraint failed: jobs.id'')
      else Inr (db\<lparr>jobs := jobs db @ [r]\<rparr>))"

definition update_jobs :: "(job_row \<Rightarrow> bool) \<Rightarrow> (job_row \<Rightarrow> job_row) \<Rightarrow> state_db \<Rightarrow> state_db" where
  "update_jobs p f db = db\<lparr>jobs := update_where p f (jobs db)\<rparr>"

definition active_conflict :: "string \<Rightarrow> (string \<Rightarrow> bool) \<Rightarrow> state_db \<Rightarrow> string option" where
  "active_conflict target other db =
     map_option job_id (select_first
       (\<lambda>r. job_target_id r = target \<and> other (job_id r) \<and>
            job_row.job_state r \<in> set ACTIVE_TARGET_STATES) (jobs db))"

section \<open>Operations\<close>

definition new_job :: "job_env \<Rightarrow> string \<Rightarrow> string \<Rightarrow> string \<Rightarrow> json_object option \<Rightarrow> string \<Rightarrow> job_row" where
  "new_job env jt target stage res owner =
     \<lparr>job_id = je_uuid env, job_type = jt, job_target_id = target, job_state = QUEUED,
      job_stage = stage, job_progress_current = 0, job_progress_total = None,
      job_retryable = True,
      job_resume_json = Dumped (case res of None \<Rightarrow> [] | Some j \<Rightarrow> j),
      job_error_code = None, job_error_message = None, job_lease_owner = Some owner,
      job_lease_expires_at = None, job_cancel_requested_at = None,
      job_created_at = je_now env, job_updated_at = je_now env\<rparr>"

definition create_body ::
  "job_env \<Rightarrow> string \<Rightarrow> string \<Rightarrow> string \<Rightarrow> json_object option \<Rightarrow> os_state \<Rightarrow> state_db \<Rightarrow>
   unit result \<times> os_state \<times> state_db" where
  "create_body env jt target stage res os db0 =
     (case assert_no_maintenance env os db0 of
        Inl e \<Rightarrow> (Inl e, os, db0)
      | Inr (_, db) \<Rightarrow>
          (case active_conflict target (\<lambda>_. True) db of
             Some c \<Rightarrow>
               (Inl (JobConflict (''Target '' @ repr_str target @ '' already has active job '' @ c @ ''.'')), os, db)
           | None \<Rightarrow>
               (case process_owner (je_process env) (je_owner_random env) os of
                  Inl e \<Rightarrow> (Inl e, os, db)
                | Inr (owner, os') \<Rightarrow>
                    (case insert_job (new_job env jt target stage res owner) db of
                       Inl e \<Rightarrow> (Inl e, os', db)
                     | Inr db' \<Rightarrow> (Inr (), os', db')))))"

definition create_job ::
  "job_env \<Rightarrow> string \<Rightarrow> string \<Rightarrow> string \<Rightarrow> json_object option \<Rightarrow> os_state \<Rightarrow> state_db \<Rightarrow>
   job_record result \<times> os_state \<times> state_db" where
  "create_job env jt target stage res os db =
     then_get (je_uuid env) (os_transaction (create_body env jt target stage res) os db)"

definition claim_body ::
  "job_env \<Rightarrow> string \<Rightarrow> string \<Rightarrow> int \<Rightarrow> os_state \<Rightarrow> state_db \<Rightarrow> unit result \<times> os_state \<times> state_db" where
  "claim_body env jid worker lease_seconds os db0 =
     (case assert_no_maintenance env os db0 of
        Inl e \<Rightarrow> (Inl e, os, db0)
      | Inr (_, db) \<Rightarrow>
     (case locked_row jid db of
        Inl e \<Rightarrow> (Inl e, os, db)
      | Inr row \<Rightarrow>
          if job_row.job_state row \<noteq> QUEUED
          then (Inl (InvalidJobTransition (''Cannot claim a '' @ state_value (job_row.job_state row) @ '' job.'')), os, db)
          else
     (case select_first
         (\<lambda>r. job_target_id r = job_target_id row \<and> job_id r \<noteq> jid \<and>
              (job_row.job_state r = RUNNING \<or> job_row.job_state r = CANCEL_REQUESTED)) (jobs db) of
        Some c \<Rightarrow>
          (Inl (JobConflict (''Target '' @ repr_str (job_target_id row) @ '' is being changed by '' @ job_id c @ ''.'')), os, db)
      | None \<Rightarrow>
          (case worker_owner env worker os of
             Inl e \<Rightarrow> (Inl e, os, db)
           | Inr (owner, os') \<Rightarrow>
               (Inr (), os',
                update_jobs (\<lambda>r. job_id r = jid)
                  (\<lambda>r. r\<lparr>job_state := RUNNING, job_lease_owner := Some owner,
                         job_lease_expires_at := Some (je_now env + seconds lease_seconds),
                         job_updated_at := je_now env\<rparr>) db)))))"

definition claim_job ::
  "job_env \<Rightarrow> string \<Rightarrow> string \<Rightarrow> int \<Rightarrow> os_state \<Rightarrow> state_db \<Rightarrow> job_record result \<times> os_state \<times> state_db" where
  "claim_job env jid worker lease_seconds os db =
     then_get jid (os_transaction (claim_body env jid worker lease_seconds) os db)"

text \<open>
  \<^verbatim>\<open>heartbeat\<close>, \<^verbatim>\<open>checkpoint\<close>, \<^verbatim>\<open>fail\<close> and \<^verbatim>\<open>_finish_owned\<close> share one shape: an update guarded by the
  owner and by the state, committed, and then a check that it met exactly one row.
\<close>

definition owned_by :: "string \<Rightarrow> string \<Rightarrow> job_state list \<Rightarrow> job_row \<Rightarrow> bool" where
  "owned_by jid owner sts r \<longleftrightarrow>
     job_id r = jid \<and> job_lease_owner r = Some owner \<and> job_row.job_state r \<in> set sts"

definition owned_update ::
  "job_env \<Rightarrow> string \<Rightarrow> string \<Rightarrow> job_state list \<Rightarrow> (job_row \<Rightarrow> job_row) \<Rightarrow> string \<Rightarrow> os_state \<Rightarrow> state_db \<Rightarrow>
   job_record result \<times> os_state \<times> state_db" where
  "owned_update env jid worker sts f msg os db =
     (case worker_owner env worker os of
        Inl e \<Rightarrow> (Inl e, os, db)
      | Inr (owner, os') \<Rightarrow>
          (let db' = update_jobs (owned_by jid owner sts) f db in
           if rowcount (owned_by jid owner sts) (jobs db) \<noteq> 1
           then (Inl (InvalidJobTransition msg), os', db')
           else (get_job jid db', os', db')))"

definition heartbeat_job ::
  "job_env \<Rightarrow> string \<Rightarrow> string \<Rightarrow> int \<Rightarrow> os_state \<Rightarrow> state_db \<Rightarrow> job_record result \<times> os_state \<times> state_db" where
  "heartbeat_job env jid worker lease_seconds os db =
     owned_update env jid worker [RUNNING, CANCEL_REQUESTED]
       (\<lambda>r. r\<lparr>job_lease_expires_at := Some (je_now env + seconds lease_seconds),
              job_updated_at := je_now env\<rparr>)
       ''Worker does not own a running job lease.'' os db"

definition checkpoint_job ::
  "job_env \<Rightarrow> string \<Rightarrow> string \<Rightarrow> string \<Rightarrow> int \<Rightarrow> int option \<Rightarrow> json_object \<Rightarrow> os_state \<Rightarrow> state_db \<Rightarrow>
   job_record result \<times> os_state \<times> state_db" where
  "checkpoint_job env jid worker stage current ptotal res os db =
     (if current < 0 \<or> (case ptotal of None \<Rightarrow> False | Some t \<Rightarrow> t < 0 \<or> current > t)
      then (Inl (ValueError ''Invalid job progress.''), os, db)
      else owned_update env jid worker [RUNNING, CANCEL_REQUESTED]
        (\<lambda>r. r\<lparr>job_stage := stage, job_progress_current := current, job_progress_total := ptotal,
               job_resume_json := Dumped res, job_updated_at := je_now env\<rparr>)
        ''Worker does not own a running job lease.'' os db)"

definition request_cancel_body ::
  "job_env \<Rightarrow> string \<Rightarrow> os_state \<Rightarrow> state_db \<Rightarrow> unit result \<times> os_state \<times> state_db" where
  "request_cancel_body env jid os db0 =
     (case assert_no_maintenance env os db0 of
        Inl e \<Rightarrow> (Inl e, os, db0)
      | Inr (_, db) \<Rightarrow>
     (case locked_row jid db of
        Inl e \<Rightarrow> (Inl e, os, db)
      | Inr row \<Rightarrow>
          if job_row.job_state row = QUEUED \<or> job_row.job_state row = PAUSED
          then (Inr (), os,
                update_jobs (\<lambda>r. job_id r = jid)
                  (\<lambda>r. r\<lparr>job_state := CANCELLED, job_stage := ''cancelled'', job_retryable := False,
                         job_cancel_requested_at := Some (je_now env), job_updated_at := je_now env\<rparr>) db)
          else if job_row.job_state row = RUNNING
          then (Inr (), os,
                update_jobs (\<lambda>r. job_id r = jid)
                  (\<lambda>r. r\<lparr>job_state := CANCEL_REQUESTED, job_cancel_requested_at := Some (je_now env),
                         job_updated_at := je_now env\<rparr>) db)
          else if job_row.job_state row = CANCEL_REQUESTED
          then (Inr (), os, update_jobs (\<lambda>r. job_id r = jid) (\<lambda>r. r\<lparr>job_updated_at := je_now env\<rparr>) db)
          else (Inl (InvalidJobTransition
                  (''Cannot cancel a '' @ state_value (job_row.job_state row) @ '' job.'')), os, db)))"

definition request_cancel ::
  "job_env \<Rightarrow> string \<Rightarrow> os_state \<Rightarrow> state_db \<Rightarrow> job_record result \<times> os_state \<times> state_db" where
  "request_cancel env jid os db = then_get jid (os_transaction (request_cancel_body env jid) os db)"

definition finish_owned ::
  "job_env \<Rightarrow> string \<Rightarrow> string \<Rightarrow> job_state \<Rightarrow> job_state \<Rightarrow> string \<Rightarrow> bool \<Rightarrow> os_state \<Rightarrow> state_db \<Rightarrow>
   job_record result \<times> os_state \<times> state_db" where
  "finish_owned env jid worker required new stage retryable os db =
     owned_update env jid worker [required]
       (\<lambda>r. r\<lparr>job_state := new, job_stage := stage, job_retryable := retryable,
              job_lease_owner := None, job_lease_expires_at := None, job_updated_at := je_now env\<rparr>)
       ''Worker does not own the required job state.'' os db"

definition finish_cancel ::
  "job_env \<Rightarrow> string \<Rightarrow> string \<Rightarrow> os_state \<Rightarrow> state_db \<Rightarrow> job_record result \<times> os_state \<times> state_db" where
  "finish_cancel env jid worker = finish_owned env jid worker CANCEL_REQUESTED CANCELLED ''cancelled'' False"

definition succeed_job ::
  "job_env \<Rightarrow> string \<Rightarrow> string \<Rightarrow> os_state \<Rightarrow> state_db \<Rightarrow> job_record result \<times> os_state \<times> state_db" where
  "succeed_job env jid worker = finish_owned env jid worker RUNNING SUCCEEDED ''complete'' False"

definition fail_job ::
  "job_env \<Rightarrow> string \<Rightarrow> string \<Rightarrow> string \<Rightarrow> string \<Rightarrow> bool \<Rightarrow> os_state \<Rightarrow> state_db \<Rightarrow>
   job_record result \<times> os_state \<times> state_db" where
  "fail_job env jid worker code message retryable os db =
     owned_update env jid worker [RUNNING, CANCEL_REQUESTED]
       (\<lambda>r. r\<lparr>job_state := FAILED, job_stage := ''failed'', job_retryable := retryable,
              job_error_code := Some (sanitize_code code),
              job_error_message := Some (sanitize_message message),
              job_lease_owner := None, job_lease_expires_at := None, job_updated_at := je_now env\<rparr>)
       ''Worker does not own a running job lease.'' os db"

definition resume_body ::
  "job_env \<Rightarrow> string \<Rightarrow> os_state \<Rightarrow> state_db \<Rightarrow> unit result \<times> os_state \<times> state_db" where
  "resume_body env jid os db0 =
     (case assert_no_maintenance env os db0 of
        Inl e \<Rightarrow> (Inl e, os, db0)
      | Inr (_, db) \<Rightarrow>
     (case locked_row jid db of
        Inl e \<Rightarrow> (Inl e, os, db)
      | Inr row \<Rightarrow>
          if job_row.job_state row \<notin> {PAUSED, FAILED} \<or> \<not> job_retryable row
          then (Inl (InvalidJobTransition
                  (''Cannot resume a '' @ state_value (job_row.job_state row) @ '' job.'')), os, db)
          else
     (case active_conflict (job_target_id row) (\<lambda>i. i \<noteq> jid) db of
        Some c \<Rightarrow>
          (Inl (JobConflict (''Target '' @ repr_str (job_target_id row) @ '' already has active job '' @ c @ ''.'')), os, db)
      | None \<Rightarrow>
          (case process_owner (je_process env) (je_owner_random env) os of
             Inl e \<Rightarrow> (Inl e, os, db)
           | Inr (owner, os') \<Rightarrow>
               (Inr (), os',
                update_jobs (\<lambda>r. job_id r = jid)
                  (\<lambda>r. r\<lparr>job_state := QUEUED, job_lease_owner := Some owner, job_stage := ''queued'',
                         job_error_code := None, job_error_message := None,
                         job_updated_at := je_now env\<rparr>) db)))))"

definition resume_job ::
  "job_env \<Rightarrow> string \<Rightarrow> os_state \<Rightarrow> state_db \<Rightarrow> job_record result \<times> os_state \<times> state_db" where
  "resume_job env jid os db = then_get jid (os_transaction (resume_body env jid) os db)"

section \<open>Recovery\<close>

definition lease_expired :: "datetime \<Rightarrow> job_row \<Rightarrow> bool" where
  "lease_expired now r = (case job_lease_expires_at r of None \<Rightarrow> False | Some x \<Rightarrow> x \<le> now)"

text \<open>The test by which recovery leaves a job alone.\<close>

definition keep_job :: "bool option \<Rightarrow> datetime \<Rightarrow> job_row \<Rightarrow> bool" where
  "keep_job alive now r \<longleftrightarrow>
     alive \<noteq> Some False \<and> \<not> lease_expired now r \<and>
     \<not> (alive = None \<and> (job_row.job_state r = QUEUED \<or> job_lease_expires_at r = None \<or> lease_expired now r))"

definition interrupted :: "datetime \<Rightarrow> bool \<Rightarrow> job_row \<Rightarrow> job_row" where
  "interrupted now resumable r =
     r\<lparr>job_state := if resumable then PAUSED else FAILED, job_stage := ''interrupted'',
       job_retryable := resumable, job_error_code := Some ''process_interrupted'',
       job_error_message := Some (if resumable then ''Worker stopped; resume from the last checkpoint.''
         else ''Operation stopped; explicitly submit it again.''),
       job_lease_owner := None, job_lease_expires_at := None, job_updated_at := now\<rparr>"

definition recoverable_state :: "job_state \<Rightarrow> bool" where
  "recoverable_state st \<longleftrightarrow> st \<in> {QUEUED, RUNNING, CANCEL_REQUESTED}"

fun recover_job_rows ::
  "(string option \<Rightarrow> bool option result) \<Rightarrow> datetime \<Rightarrow> job_row list \<Rightarrow> nat \<Rightarrow> state_db \<Rightarrow> (nat \<times> state_db) result" where
  "recover_job_rows alive now [] n db = Inr (n, db)"
| "recover_job_rows alive now (row # rows) n db =
     (case alive (job_lease_owner row) of
        Inl e \<Rightarrow> Inl e
      | Inr a \<Rightarrow>
          if keep_job a now row then recover_job_rows alive now rows n db
          else recover_job_rows alive now rows (n + 1)
            (update_jobs (\<lambda>r. job_id r = job_id row)
               (interrupted now (job_type row \<in> set RESUMABLE_JOB_TYPES)) db))"

definition recover_interrupted :: "engine \<Rightarrow> os_state \<Rightarrow> datetime \<Rightarrow> state_db \<Rightarrow> nat result \<times> state_db" where
  "recover_interrupted e os now db =
     transaction (\<lambda>d. recover_job_rows (owner_alive e os) now
       (filter (\<lambda>r. recoverable_state (job_row.job_state r)) (jobs d)) 0 d) db"

end
