(* ===== verification/Jobs_Props.thy ===== *)
theory Jobs_Props
  imports Jobs
begin

text \<open>
  Correctness of the job service. \<open>jobs_inv\<close> says that ids are unique, that a target has at most
  one active job, and that the lease columns agree with the state; \<open>row_evolves\<close> says what
  no operation changes of a job. Every operation keeps the invariant, and moves every row along the edges
  that \<open>job_edge\<close> gives that operation.
\<close>

section \<open>Invariant\<close>

abbreviation st :: "job_row \<Rightarrow> job_state" where
  "st r \<equiv> job_row.job_state r"

definition active :: "job_row \<Rightarrow> bool" where
  "active r \<longleftrightarrow> st r \<in> set ACTIVE_TARGET_STATES"

lemma active_iff:
  "active r \<longleftrightarrow> st r = QUEUED \<or> st r = RUNNING \<or> st r = PAUSED \<or> st r = CANCEL_REQUESTED"
  by (auto simp: active_def ACTIVE_TARGET_STATES_def)

definition row_ok :: "job_row \<Rightarrow> bool" where
  "row_ok r \<longleftrightarrow>
     (st r = QUEUED \<longrightarrow> job_lease_owner r \<noteq> None \<and> job_lease_expires_at r = None) \<and>
     (st r \<in> {RUNNING, CANCEL_REQUESTED} \<longrightarrow> job_lease_owner r \<noteq> None \<and> job_lease_expires_at r \<noteq> None) \<and>
     (st r \<in> {PAUSED, FAILED, SUCCEEDED} \<longrightarrow> job_lease_owner r = None \<and> job_lease_expires_at r = None) \<and>
     (st r = PAUSED \<longrightarrow> job_retryable r \<and> job_type r \<in> set RESUMABLE_JOB_TYPES) \<and>
     (st r \<in> {CANCELLED, SUCCEEDED} \<longrightarrow> \<not> job_retryable r) \<and>
     0 \<le> job_progress_current r \<and>
     (\<forall>t. job_progress_total r = Some t \<longrightarrow> job_progress_current r \<le> t)"

definition one_active :: "job_row list \<Rightarrow> bool" where
  "one_active rows \<longleftrightarrow>
     (\<forall>r \<in> set rows. \<forall>r' \<in> set rows. active r \<and> active r' \<and> job_target_id r = job_target_id r' \<longrightarrow> r = r')"

definition jobs_inv :: "state_db \<Rightarrow> bool" where
  "jobs_inv db \<longleftrightarrow>
     distinct (map job_id (jobs db)) \<and> one_active (jobs db) \<and> (\<forall>r \<in> set (jobs db). row_ok r)"

lemma jobs_inv_cong: "jobs db' = jobs db \<Longrightarrow> jobs_inv db' = jobs_inv db"
  by (simp add: jobs_inv_def)

section \<open>What stays of a job\<close>

text \<open>A job that nothing can start again.\<close>

definition frozen :: "job_row \<Rightarrow> bool" where
  "frozen r \<longleftrightarrow> st r \<in> {CANCELLED, SUCCEEDED} \<or> (st r = FAILED \<and> \<not> job_retryable r)"

definition row_evolves :: "job_row \<Rightarrow> job_row \<Rightarrow> bool" where
  "row_evolves r r' \<longleftrightarrow>
     job_id r' = job_id r \<and> job_type r' = job_type r \<and> job_target_id r' = job_target_id r \<and>
     job_created_at r' = job_created_at r \<and> (frozen r \<longrightarrow> r' = r)"

lemma row_evolves_refl [simp]: "row_evolves r r"
  by (simp add: row_evolves_def)

lemma row_evolves_trans: "row_evolves r r' \<Longrightarrow> row_evolves r' r'' \<Longrightarrow> row_evolves r r''"
  by (auto simp: row_evolves_def)

definition jobs_evolve :: "state_db \<Rightarrow> state_db \<Rightarrow> bool" where
  "jobs_evolve db db' \<longleftrightarrow>
     jobs_inv db' \<and>
     (\<exists>old new. jobs db' = old @ new \<and> list_all2 row_evolves (jobs db) old) \<and>
     usage_events db' = usage_events db \<and> paid_call_leases db' = paid_call_leases db"

lemma jobs_evolve_refl: "jobs_inv db \<Longrightarrow> jobs_evolve db db"
  by (auto simp: jobs_evolve_def list_all2_same intro: exI [of _ "jobs db"] exI [of _ "[]"])

lemma jobs_evolve_trans:
  assumes "jobs_evolve db db1" and "jobs_evolve db1 db2"
  shows "jobs_evolve db db2"
proof -
  obtain old new where 1: "jobs db1 = old @ new" "list_all2 row_evolves (jobs db) old"
    using assms(1) by (auto simp: jobs_evolve_def)
  obtain old' new' where 2: "jobs db2 = old' @ new'" "list_all2 row_evolves (old @ new) old'"
    using assms(2) by (auto simp: jobs_evolve_def 1(1))
  from 2(2) obtain a b where ab: "old' = a @ b" "list_all2 row_evolves old a"
    by (auto simp: list_all2_append1)
  have "list_all2 row_evolves (jobs db) a"
    by (rule list_all2_trans [OF _ 1(2) ab(2)]) (rule row_evolves_trans)
  with 2(1) ab(1) assms show ?thesis by (auto simp: jobs_evolve_def)
qed

section \<open>Updates of one row\<close>

lemma update_where_evolves:
  assumes "\<And>r. r \<in> set rows \<Longrightarrow> p r \<Longrightarrow> row_evolves r (f r)"
  shows "list_all2 row_evolves rows (update_where p f rows)"
  using assms by (auto simp: update_where_def list_all2_map2 list_all2_same)

text \<open>
  The one lemma behind every update: a change of at most the row with the given id that keeps its
  identity, leaves a frozen row alone, keeps the row well formed, and makes the row active only if no other active row has its
  target.
\<close>

lemma update_one_row:
  assumes inv: "jobs_inv db" and jobs': "jobs db' = update_where p f (jobs db)"
    and frame: "usage_events db' = usage_events db" "paid_call_leases db' = paid_call_leases db"
    and p: "\<And>r. p r \<Longrightarrow> job_id r = jid"
    and ok: "\<And>r. r \<in> set (jobs db) \<Longrightarrow> p r \<Longrightarrow> row_ok r \<Longrightarrow> row_evolves r (f r) \<and> row_ok (f r)"
    and act: "\<And>r. r \<in> set (jobs db) \<Longrightarrow> p r \<Longrightarrow> active (f r) \<Longrightarrow>
      active r \<or> (\<forall>r' \<in> set (jobs db). job_target_id r' = job_target_id r \<and> job_id r' \<noteq> job_id r \<longrightarrow> \<not> active r')"
  shows "jobs_evolve db db'"
proof -
  let ?g = "\<lambda>r. if p r then f r else r"
  have rows: "\<forall>r \<in> set (jobs db). row_ok r" "distinct (map job_id (jobs db))" "one_active (jobs db)"
    using inv by (auto simp: jobs_inv_def)
  have ev: "row_evolves r (f r)" if "r \<in> set (jobs db)" "p r" for r using ok that rows(1) by blast
  then have ids: "job_id (?g r) = job_id r" "job_target_id (?g r) = job_target_id r" if "r \<in> set (jobs db)" for r
    using that by (auto simp: row_evolves_def)
  have uniq: "r = r'" if "r \<in> set (jobs db)" "r' \<in> set (jobs db)" "job_id r = job_id r'" for r r'
    by (rule distinct_key_unique [OF rows(2) that])
  have "map job_id (jobs db') = map job_id (jobs db)"
    using ids by (auto simp: jobs' update_where_def)
  moreover have "one_active (jobs db')"
    unfolding one_active_def jobs' set_update_where ball_simps
  proof (intro ballI impI)
    fix r r'
    assume m: "r \<in> set (jobs db)" "r' \<in> set (jobs db)"
      and a: "active (?g r) \<and> active (?g r') \<and> job_target_id (?g r) = job_target_id (?g r')"
    then have t: "job_target_id r = job_target_id r'" using ids by simp
    consider "r = r'" | "p r" "\<not> p r'" "r \<noteq> r'" | "\<not> p r" "p r'" "r \<noteq> r'" | "\<not> p r" "\<not> p r'"
      using uniq [OF m] p by metis
    then show "?g r = ?g r'"
    proof cases
      case 2
      with a act [OF m(1)] m t uniq [OF m] rows(3) show ?thesis by (auto simp: one_active_def)
    next
      case 3
      with a act [OF m(2)] m t uniq [OF m] rows(3) show ?thesis by (auto simp: one_active_def)
    qed (use a m t rows(3) in \<open>auto simp: one_active_def\<close>)
  qed
  moreover have "\<forall>r \<in> set (jobs db'). row_ok r"
    using ok rows(1) by (auto simp: jobs')
  ultimately have "jobs_inv db'" using rows(2) by (simp add: jobs_inv_def)
  with update_where_evolves [of "jobs db" p f] ev frame jobs' show ?thesis
    by (auto simp: jobs_evolve_def intro: exI [of _ "[]"])
qed

section \<open>Operations\<close>

lemma os_transaction_cases:
  assumes "os_transaction body os db = (r, os', db')"
  obtains (err) e where "r = Inl e" "db' = db" "fst (body os db) = Inl e"
  | (ok) x where "r = Inr x" "body os db = (Inr x, os', db')"
  using assms unfolding os_transaction_def by (auto split: prod.splits sum.splits)

lemma then_get_snd [simp]: "snd (then_get jid x) = snd x"
  by (auto simp: then_get_def split: prod.splits sum.splits)

lemma assert_no_maintenance_Inr:
  assumes "assert_no_maintenance env os db = Inr (u, db')"
  shows "jobs db' = jobs db" and "usage_events db' = usage_events db"
    and "paid_call_leases db' = paid_call_leases db" and "\<not> maintenance_flag db'"
  using assms maintenance_active_frame [of "proc_engine (je_process env)" os db False db']
    maintenance_active_False [of "proc_engine (je_process env)" os db db']
  unfolding assert_no_maintenance_def
  by (auto split: sum.splits prod.splits bool.splits)

lemma update_jobs_frame [simp]:
  "jobs (update_jobs p f db) = update_where p f (jobs db)"
  "usage_events (update_jobs p f db) = usage_events db"
  "paid_call_leases (update_jobs p f db) = paid_call_leases db"
  "maintenance_state (update_jobs p f db) = maintenance_state db"
  "maintenance_flag (update_jobs p f db) = maintenance_flag db"
  by (simp_all add: update_jobs_def maintenance_flag_def)

lemma locked_row_Inr:
  "locked_row jid db = Inr r \<Longrightarrow> r \<in> set (jobs db) \<and> job_id r = jid"
  by (auto simp: locked_row_def split: option.splits dest: select_first_Some)

text \<open>The row an update by id changes is the row that was read.\<close>

lemma locked_row_unique:
  assumes "jobs_inv db" and "locked_row jid db = Inr row" and "r \<in> set (jobs db)" and "job_id r = jid"
  shows "r = row"
  using assms locked_row_Inr [OF assms(2)] distinct_key_unique [of job_id "jobs db" r row]
  by (auto simp: jobs_inv_def)

lemma row_evolves_step:
  assumes "job_id r' = job_id r" and "job_type r' = job_type r" and "job_target_id r' = job_target_id r"
    and "job_created_at r' = job_created_at r" and "\<not> frozen r"
  shows "row_evolves r r'"
  using assms by (auto simp: row_evolves_def)

lemma active_conflict_None:
  "active_conflict target other db = None \<longleftrightarrow>
     (\<forall>r \<in> set (jobs db). job_target_id r = target \<and> other (job_id r) \<longrightarrow> \<not> active r)"
  by (auto simp: active_conflict_def select_first_None active_def)

lemma create_evolves:
  assumes inv: "jobs_inv db"
  shows "jobs_evolve db (snd (snd (create_job env jt target stage res os db)))"
proof (cases "os_transaction (create_body env jt target stage res) os db")
  case (fields r os' db')
  then show ?thesis
  proof (cases rule: os_transaction_cases)
    case err
    with fields inv show ?thesis by (simp add: create_job_def jobs_evolve_refl)
  next
    case (ok x)
    then obtain db1 owner where mt: "assert_no_maintenance env os db = Inr ((), db1)"
      and c: "active_conflict target (\<lambda>_. True) db1 = None"
      and i: "insert_job (new_job env jt target stage res owner) db1 = Inr db'"
      unfolding create_body_def by (auto split: sum.splits prod.splits option.splits)
    note f = assert_no_maintenance_Inr [OF mt]
    let ?n = "new_job env jt target stage res owner"
    have n: "job_id ?n \<notin> job_id ` set (jobs db)" "jobs db' = jobs db @ [?n]"
        "usage_events db' = usage_events db" "paid_call_leases db' = paid_call_leases db"
      using i f by (auto simp: insert_job_def split: if_splits)
    have "row_ok ?n" by (simp add: new_job_def row_ok_def)
    moreover have "job_target_id r = target \<Longrightarrow> r \<in> set (jobs db) \<Longrightarrow> \<not> active r" for r
      using c f(1) by (auto simp: active_conflict_None)
    then have "one_active (jobs db')"
      using inv n(2) by (auto simp: one_active_def jobs_inv_def new_job_def)
    ultimately have "jobs_inv db'" using inv n(1,2) by (auto simp: jobs_inv_def)
    then show ?thesis
      using n fields
      by (auto simp: create_job_def jobs_evolve_def list_all2_same intro: exI [of _ "jobs db"] exI [of _ "[?n]"])
  qed
qed
lemma claim_body_Inr:
  assumes "claim_body env jid worker secs os db = (Inr u, os', db')"
  obtains db1 row owner where "assert_no_maintenance env os db = Inr ((), db1)"
    "locked_row jid db1 = Inr row" "st row = QUEUED" "worker_owner env worker os = Inr (owner, os')"
    "\<forall>r \<in> set (jobs db1). job_target_id r = job_target_id row \<and> job_id r \<noteq> jid \<longrightarrow>
       st r \<noteq> RUNNING \<and> st r \<noteq> CANCEL_REQUESTED"
    "db' = update_jobs (\<lambda>r. job_id r = jid)
       (\<lambda>r. r\<lparr>job_state := RUNNING, job_lease_owner := Some owner,
              job_lease_expires_at := Some (je_now env + seconds secs), job_updated_at := je_now env\<rparr>) db1"
  using assms unfolding claim_body_def
  by (auto simp: select_first_None split: sum.splits prod.splits option.splits if_splits)

lemma claim_evolves:
  assumes inv: "jobs_inv db"
  shows "jobs_evolve db (snd (snd (claim_job env jid worker secs os db)))"
proof (cases "os_transaction (claim_body env jid worker secs) os db")
  case (fields r os' db')
  then show ?thesis
  proof (cases rule: os_transaction_cases)
    case err
    with fields inv show ?thesis by (simp add: claim_job_def jobs_evolve_refl)
  next
    case (ok x)
    show ?thesis
    proof (rule claim_body_Inr [OF ok(2)])
      fix db1 row owner
      assume m: "assert_no_maintenance env os db = Inr ((), db1)" and l: "locked_row jid db1 = Inr row"
        and q: "st row = QUEUED"
        and db': "db' = update_jobs (\<lambda>r. job_id r = jid)
           (\<lambda>r. r\<lparr>job_state := RUNNING, job_lease_owner := Some owner,
                  job_lease_expires_at := Some (je_now env + seconds secs), job_updated_at := je_now env\<rparr>) db1"
      note f = assert_no_maintenance_Inr [OF m]
      have inv1: "jobs_inv db1" using inv f by (simp add: jobs_inv_def)
      have "jobs_evolve db db'"
      proof (rule update_one_row [OF inv, where jid = jid])
        fix r assume "r \<in> set (jobs db)" "job_id r = jid" "row_ok r"
        with locked_row_unique [OF inv1 l] f(1) q have "st r = QUEUED" "row_ok r" by auto
        then show "row_evolves r (r\<lparr>job_state := RUNNING, job_lease_owner := Some owner,
              job_lease_expires_at := Some (je_now env + seconds secs), job_updated_at := je_now env\<rparr>) \<and>
            row_ok (r\<lparr>job_state := RUNNING, job_lease_owner := Some owner,
              job_lease_expires_at := Some (je_now env + seconds secs), job_updated_at := je_now env\<rparr>)"
          by (auto simp: row_ok_def frozen_def intro!: row_evolves_step)
      qed (use f db' locked_row_unique [OF inv1 l] q in \<open>auto simp: active_iff\<close>)
      then show ?thesis using fields by (simp add: claim_job_def)
    qed
  qed
qed

lemma owned_update_evolves:
  assumes inv: "jobs_inv db"
    and ok: "\<And>r. st r \<in> set sts \<Longrightarrow> row_ok r \<Longrightarrow> row_evolves r (f r) \<and> row_ok (f r)"
    and act: "\<And>r. st r \<in> set sts \<Longrightarrow> active r"
  shows "jobs_evolve db (snd (snd (owned_update env jid worker sts f msg os db)))"
proof (cases "worker_owner env worker os")
  case (Inl e)
  with inv show ?thesis by (simp add: owned_update_def jobs_evolve_refl)
next
  case (Inr x)
  obtain owner os' where x: "x = (owner, os')" by (cases x)
  have "jobs_evolve db (update_jobs (owned_by jid owner sts) f db)"
    by (rule update_one_row [OF inv, where jid = jid and p = "owned_by jid owner sts" and f = f])
      (use ok act in \<open>auto simp: owned_by_def\<close>)
  then show ?thesis by (simp add: owned_update_def Inr x Let_def)
qed

lemmas owned_step_simps = row_ok_def frozen_def active_iff

lemma owned_ops_evolve:
  assumes inv: "jobs_inv db"
  shows "jobs_evolve db (snd (snd (heartbeat_job env jid worker secs os db)))"
    and "jobs_evolve db (snd (snd (checkpoint_job env jid worker stage current ptotal res os db)))"
    and "jobs_evolve db (snd (snd (finish_cancel env jid worker os db)))"
    and "jobs_evolve db (snd (snd (succeed_job env jid worker os db)))"
    and "jobs_evolve db (snd (snd (fail_job env jid worker code message retryable os db)))"
  unfolding heartbeat_job_def checkpoint_job_def finish_cancel_def succeed_job_def fail_job_def finish_owned_def
  using inv
  by (auto simp: owned_step_simps jobs_evolve_refl split: option.splits
      intro!: owned_update_evolves row_evolves_step)

lemma request_cancel_evolves:
  assumes inv: "jobs_inv db"
  shows "jobs_evolve db (snd (snd (request_cancel env jid os db)))"
proof (cases "os_transaction (request_cancel_body env jid) os db")
  case (fields r os' db')
  then show ?thesis
  proof (cases rule: os_transaction_cases)
    case err
    with fields inv show ?thesis by (simp add: request_cancel_def jobs_evolve_refl)
  next
    case (ok x)
    then obtain db1 row where m: "assert_no_maintenance env os db = Inr ((), db1)"
      and l: "locked_row jid db1 = Inr row"
      unfolding request_cancel_body_def by (auto split: sum.splits prod.splits)
    note f = assert_no_maintenance_Inr [OF m]
    have inv1: "jobs_inv db1" using inv f by (simp add: jobs_inv_def)
    note same = locked_row_unique [OF inv1 l]
    obtain g where db': "db' = update_jobs (\<lambda>r. job_id r = jid) g db1"
      and g: "\<And>r. st r = st row \<Longrightarrow> row_ok r \<Longrightarrow> row_evolves r (g r) \<and> row_ok (g r)" and a: "active row"
      using ok(2) m l unfolding request_cancel_body_def
      by (fastforce simp: owned_step_simps split: if_splits intro!: row_evolves_step)
    have "jobs_evolve db db'"
      by (rule update_one_row [OF inv, where jid = jid and p = "\<lambda>r. job_id r = jid" and f = g])
        (use f db' same g a in \<open>auto\<close>)
    then show ?thesis using fields by (simp add: request_cancel_def)
  qed
qed

lemma resume_evolves:
  assumes inv: "jobs_inv db"
  shows "jobs_evolve db (snd (snd (resume_job env jid os db)))"
proof (cases "os_transaction (resume_body env jid) os db")
  case (fields r os' db')
  then show ?thesis
  proof (cases rule: os_transaction_cases)
    case err
    with fields inv show ?thesis by (simp add: resume_job_def jobs_evolve_refl)
  next
    case (ok x)
    then obtain db1 row owner where m: "assert_no_maintenance env os db = Inr ((), db1)"
      and l: "locked_row jid db1 = Inr row" and s: "st row = PAUSED \<or> st row = FAILED" "job_retryable row"
      and c: "active_conflict (job_target_id row) (\<lambda>i. i \<noteq> jid) db1 = None"
      and db': "db' = update_jobs (\<lambda>r. job_id r = jid)
        (\<lambda>r. r\<lparr>job_state := QUEUED, job_lease_owner := Some owner, job_stage := ''queued'',
               job_error_code := None, job_error_message := None, job_updated_at := je_now env\<rparr>) db1"
      unfolding resume_body_def by (auto split: sum.splits prod.splits option.splits if_splits)
    note f = assert_no_maintenance_Inr [OF m]
    have inv1: "jobs_inv db1" using inv f by (simp add: jobs_inv_def)
    note same = locked_row_unique [OF inv1 l]
    have "jobs_evolve db db'"
    proof (rule update_one_row [OF inv, where jid = jid])
      fix r assume "r \<in> set (jobs db)" "job_id r = jid" "row_ok r"
      with same f(1) s have "r = row" "row_ok row" by auto
      with s show "row_evolves r (r\<lparr>job_state := QUEUED, job_lease_owner := Some owner, job_stage := ''queued'',
          job_error_code := None, job_error_message := None, job_updated_at := je_now env\<rparr>) \<and>
        row_ok (r\<lparr>job_state := QUEUED, job_lease_owner := Some owner, job_stage := ''queued'',
          job_error_code := None, job_error_message := None, job_updated_at := je_now env\<rparr>)"
        by (auto simp: owned_step_simps intro!: row_evolves_step)
    qed (use f db' same c in \<open>auto simp: active_conflict_None\<close>)
    then show ?thesis using fields by (simp add: resume_job_def)
  qed
qed

section \<open>Recovery\<close>

text \<open>What recovery does to one row, given the answers of the liveness probe.\<close>

definition recovered ::
  "(string option \<Rightarrow> bool option result) \<Rightarrow> datetime \<Rightarrow> job_row \<Rightarrow> job_row" where
  "recovered alive now r =
     (if recoverable_state (st r) \<and> (\<forall>a. alive (job_lease_owner r) = Inr a \<longrightarrow> \<not> keep_job a now r)
      then interrupted now (job_type r \<in> set RESUMABLE_JOB_TYPES) r else r)"

lemma interrupted_simps [simp]:
  "job_id (interrupted now b r) = job_id r" "job_type (interrupted now b r) = job_type r"
  "job_target_id (interrupted now b r) = job_target_id r" "job_created_at (interrupted now b r) = job_created_at r"
  "st (interrupted now b r) = (if b then PAUSED else FAILED)"
  "job_lease_owner (interrupted now b r) = None" "job_lease_expires_at (interrupted now b r) = None"
  "job_retryable (interrupted now b r) = b"
  by (simp_all add: interrupted_def)

lemma interrupted_ok: "row_ok r \<Longrightarrow> b = (job_type r \<in> set RESUMABLE_JOB_TYPES) \<Longrightarrow> row_ok (interrupted now b r)"
  by (auto simp: row_ok_def interrupted_def)

lemma interrupted_evolves: "recoverable_state (st r) \<Longrightarrow> row_evolves r (interrupted now b r)"
  by (rule row_evolves_step) (auto simp: recoverable_state_def frozen_def)

lemma recover_job_rows_correct:
  assumes "recover_job_rows alive now rows n db = Inr (n', db')" and "distinct (map job_id (jobs db))"
    and "set rows \<subseteq> set (jobs db)" and "distinct (map job_id rows)"
    and "\<forall>r \<in> set rows. recoverable_state (st r)"
  shows "jobs db' = map (\<lambda>r. if r \<in> set rows then recovered alive now r else r) (jobs db) \<and>
    usage_events db' = usage_events db \<and> paid_call_leases db' = paid_call_leases db \<and>
    maintenance_state db' = maintenance_state db \<and>
    (\<forall>r \<in> set rows. \<exists>a. alive (job_lease_owner r) = Inr a)"
  using assms
proof (induction rows arbitrary: n db)
  case (Cons row rows)
  then obtain a where a: "alive (job_lease_owner row) = Inr a" by (auto split: sum.splits)
  have rowin: "row \<in> set (jobs db)" "row \<notin> set rows" using Cons.prems by auto
  show ?case
  proof (cases "keep_job a now row")
    case True
    with Cons a have "jobs db' = map (\<lambda>r. if r \<in> set rows then recovered alive now r else r) (jobs db) \<and>
        usage_events db' = usage_events db \<and> paid_call_leases db' = paid_call_leases db \<and>
        maintenance_state db' = maintenance_state db \<and>
        (\<forall>r \<in> set rows. \<exists>a. alive (job_lease_owner r) = Inr a)" by simp
    moreover have "recovered alive now row = row" using True a by (simp add: recovered_def)
    ultimately show ?thesis using a by auto
  next
    case False
    let ?db1 = "update_jobs (\<lambda>r. job_id r = job_id row)
        (interrupted now (job_type row \<in> set RESUMABLE_JOB_TYPES)) db"
    have uniq: "job_id r = job_id row \<longleftrightarrow> r = row" if "r \<in> set (jobs db)" for r
      using distinct_key_unique [OF Cons.prems(2) that rowin(1)] by auto
    have j1: "jobs ?db1 = map (\<lambda>r. if r = row then recovered alive now r else r) (jobs db)"
      using uniq a False Cons.prems(5) by (auto simp: update_where_def recovered_def)
    have "r \<in> set (jobs ?db1)" if "r \<in> set rows" for r
      using that Cons.prems(3) rowin(2) unfolding j1 by (auto intro!: image_eqI [of _ _ r])
    then have "jobs db' = map (\<lambda>r. if r \<in> set rows then recovered alive now r else r) (jobs ?db1) \<and>
        usage_events db' = usage_events ?db1 \<and> paid_call_leases db' = paid_call_leases ?db1 \<and>
        maintenance_state db' = maintenance_state ?db1 \<and>
        (\<forall>r \<in> set rows. \<exists>a. alive (job_lease_owner r) = Inr a)"
      using Cons.prems False a by (intro Cons.IH [of "n + 1"]) (auto simp: subset_iff)
    moreover have "recovered alive now row \<notin> set rows"
    proof
      assume "recovered alive now row \<in> set rows"
      moreover have "recovered alive now row = interrupted now (job_type row \<in> set RESUMABLE_JOB_TYPES) row"
        using a False Cons.prems(5) by (simp add: recovered_def)
      ultimately show False using Cons.prems(5) by (auto simp: recoverable_state_def split: if_splits)
    qed
    ultimately show ?thesis using a rowin unfolding j1 by (auto simp: o_def)
  qed
qed simp

lemma recover_interrupted_rows:
  assumes inv: "jobs_inv db" and rec: "recover_interrupted e os now db = (Inr n, db')"
  shows "jobs db' = map (recovered (owner_alive e os) now) (jobs db)"
    and "usage_events db' = usage_events db" and "paid_call_leases db' = paid_call_leases db"
    and "maintenance_state db' = maintenance_state db"
    and "\<And>r. r \<in> set (jobs db) \<Longrightarrow> recoverable_state (st r) \<Longrightarrow>
      \<exists>a. owner_alive e os (job_lease_owner r) = Inr a"
proof -
  let ?rows = "filter (\<lambda>r. recoverable_state (st r)) (jobs db)"
  have d: "distinct (map job_id (jobs db))" using inv by (simp add: jobs_inv_def)
  have "recover_job_rows (owner_alive e os) now ?rows 0 db = Inr (n, db')"
    using rec by (simp add: recover_interrupted_def transaction_commit)
  note c = recover_job_rows_correct [OF this d filter_is_subset distinct_map_filter [OF d]]
  have "\<forall>r \<in> set ?rows. recoverable_state (st r)" by simp
  from c [OF this] have *: "jobs db' = map (\<lambda>r. if r \<in> set ?rows then recovered (owner_alive e os) now r else r) (jobs db)"
    "usage_events db' = usage_events db" "paid_call_leases db' = paid_call_leases db"
    "maintenance_state db' = maintenance_state db" "\<forall>r \<in> set ?rows. \<exists>a. owner_alive e os (job_lease_owner r) = Inr a"
    by blast+
  show "jobs db' = map (recovered (owner_alive e os) now) (jobs db)"
    unfolding *(1) by (rule map_cong) (auto simp: recovered_def)
  show "usage_events db' = usage_events db" "paid_call_leases db' = paid_call_leases db"
    "maintenance_state db' = maintenance_state db" by (fact *)+
  show "\<exists>a. owner_alive e os (job_lease_owner r) = Inr a" if "r \<in> set (jobs db)" "recoverable_state (st r)" for r
    using *(5) that by simp
qed

lemma recovered_simps [simp]:
  "job_id (recovered alive now r) = job_id r" "job_target_id (recovered alive now r) = job_target_id r"
  by (simp_all add: recovered_def)

lemma recovered_active: "active (recovered alive now r) \<Longrightarrow> active r"
  by (auto simp: recovered_def active_iff recoverable_state_def split: if_splits)

lemma recover_interrupted_evolves:
  assumes inv: "jobs_inv db"
  shows "jobs_evolve db (snd (recover_interrupted e os now db))"
proof (cases "recover_interrupted e os now db")
  case (Pair r db')
  show ?thesis
  proof (cases r)
    case (Inl e)
    with Pair have "db' = db" unfolding recover_interrupted_def by (auto dest: transaction_error_rollback)
    with Pair inv show ?thesis by (simp add: jobs_evolve_refl)
  next
    case (Inr n)
    let ?f = "recovered (owner_alive e os) now"
    note rows = recover_interrupted_rows [OF inv Pair [unfolded Inr]]
    have ok: "\<forall>r \<in> set (jobs db). row_ok r" and act: "one_active (jobs db)" using inv by (simp_all add: jobs_inv_def)
    have "one_active (jobs db')"
      using act unfolding rows(1) one_active_def by (auto dest!: recovered_active)
    moreover have "\<forall>r \<in> set (jobs db'). row_ok r"
      using ok by (auto simp: rows(1) recovered_def interrupted_ok)
    moreover have "distinct (map job_id (jobs db'))"
      using inv by (simp add: rows(1) jobs_inv_def o_def)
    moreover have "list_all2 row_evolves (jobs db) (jobs db')"
      by (simp add: rows(1) list_all2_map2 list_all2_same recovered_def interrupted_evolves)
    ultimately show ?thesis
      using Pair rows by (auto simp: jobs_evolve_def jobs_inv_def intro: exI [of _ "[]"])
  qed
qed

text \<open>Clients of the liveness interface.\<close>

context owner_liveness
begin

lemma running_worker_kept:
  assumes "job_lease_owner r = Some (w @ '':'' @ k)" and "running os w" and "\<not> lease_expired now r"
  shows "recovered (alive os) now r = r"
  using assms alive_worker [OF assms(2)] by (auto simp: recovered_def keep_job_def)

lemma running_owner_kept:
  assumes "job_lease_owner r = Some w" and "running os w" and "\<not> lease_expired now r"
  shows "recovered (alive os) now r = r"
  using assms alive_owner [OF assms(2)] by (auto simp: recovered_def keep_job_def)

end

section \<open>Runs\<close>

datatype job_op =
    Create job_env string string string "json_object option"
  | Claim job_env string string int
  | Heartbeat job_env string string int
  | Checkpoint job_env string string string int "int option" json_object
  | RequestCancel job_env string
  | FinishCancel job_env string string
  | Succeed job_env string string
  | Fail job_env string string string string bool
  | Resume job_env string
  | RecoverJobs engine datetime
  | ProcessesChange os_state

fun job_step :: "os_state \<times> state_db \<Rightarrow> job_op \<Rightarrow> os_state \<times> state_db" where
  "job_step (os, db) (Create env jt target stage res) = snd (create_job env jt target stage res os db)"
| "job_step (os, db) (Claim env jid worker secs) = snd (claim_job env jid worker secs os db)"
| "job_step (os, db) (Heartbeat env jid worker secs) = snd (heartbeat_job env jid worker secs os db)"
| "job_step (os, db) (Checkpoint env jid worker stage current ptotal res) =
     snd (checkpoint_job env jid worker stage current ptotal res os db)"
| "job_step (os, db) (RequestCancel env jid) = snd (request_cancel env jid os db)"
| "job_step (os, db) (FinishCancel env jid worker) = snd (finish_cancel env jid worker os db)"
| "job_step (os, db) (Succeed env jid worker) = snd (succeed_job env jid worker os db)"
| "job_step (os, db) (Fail env jid worker code message retryable) =
     snd (fail_job env jid worker code message retryable os db)"
| "job_step (os, db) (Resume env jid) = snd (resume_job env jid os db)"
| "job_step (os, db) (RecoverJobs e now) = (os, snd (recover_interrupted e os now db))"
| "job_step (os, db) (ProcessesChange os') = (os', db)"

text \<open>
  The state machine of a job, one clause per operation: which states the operation takes a job from and to.
  Creating a job and changing processes moves none.
\<close>

fun job_edge :: "job_op \<Rightarrow> job_row \<Rightarrow> job_row \<Rightarrow> bool" where
  "job_edge (Claim env jid worker secs) r r' \<longleftrightarrow> job_id r = jid \<and> st r = QUEUED \<and> st r' = RUNNING"
| "job_edge (Heartbeat env jid worker secs) r r' \<longleftrightarrow>
     job_id r = jid \<and> (st r = RUNNING \<or> st r = CANCEL_REQUESTED) \<and> st r' = st r"
| "job_edge (Checkpoint env jid worker stage current ptotal res) r r' \<longleftrightarrow>
     job_id r = jid \<and> (st r = RUNNING \<or> st r = CANCEL_REQUESTED) \<and> st r' = st r"
| "job_edge (RequestCancel env jid) r r' \<longleftrightarrow> job_id r = jid \<and>
     ((st r = QUEUED \<or> st r = PAUSED) \<and> st r' = CANCELLED \<or>
      (st r = RUNNING \<or> st r = CANCEL_REQUESTED) \<and> st r' = CANCEL_REQUESTED)"
| "job_edge (FinishCancel env jid worker) r r' \<longleftrightarrow> job_id r = jid \<and> st r = CANCEL_REQUESTED \<and> st r' = CANCELLED"
| "job_edge (Succeed env jid worker) r r' \<longleftrightarrow> job_id r = jid \<and> st r = RUNNING \<and> st r' = SUCCEEDED"
| "job_edge (Fail env jid worker code message retryable) r r' \<longleftrightarrow>
     job_id r = jid \<and> (st r = RUNNING \<or> st r = CANCEL_REQUESTED) \<and> st r' = FAILED \<and> job_retryable r' = retryable"
| "job_edge (Resume env jid) r r' \<longleftrightarrow>
     job_id r = jid \<and> (st r = PAUSED \<or> st r = FAILED) \<and> job_retryable r \<and> st r' = QUEUED"
| "job_edge (RecoverJobs e now) r r' \<longleftrightarrow>
     (st r = QUEUED \<or> st r = RUNNING \<or> st r = CANCEL_REQUESTED) \<and>
     st r' = (if job_type r \<in> set RESUMABLE_JOB_TYPES then PAUSED else FAILED) \<and>
     job_retryable r' = (st r' = PAUSED)"
| "job_edge (Create env jt target stage res) r r' \<longleftrightarrow> False"
| "job_edge (ProcessesChange os) r r' \<longleftrightarrow> False"

definition row_moves :: "job_op \<Rightarrow> job_row \<Rightarrow> job_row \<Rightarrow> bool" where
  "row_moves op r r' \<longleftrightarrow> r' = r \<or>
     job_id r' = job_id r \<and> job_type r' = job_type r \<and> job_target_id r' = job_target_id r \<and>
     job_created_at r' = job_created_at r \<and> job_edge op r r'"

lemmas job_operations_evolve =
  create_evolves claim_evolves owned_ops_evolve request_cancel_evolves resume_evolves
  recover_interrupted_evolves jobs_evolve_refl

lemma job_step_evolves: "jobs_inv (snd s) \<Longrightarrow> jobs_evolve (snd s) (snd (job_step s x))"
  by (cases s; cases x) (simp_all add: job_operations_evolve)

lemma jobs_inv_empty [simp]: "jobs_inv empty_db"
  by (simp add: jobs_inv_def empty_db_def one_active_def)

interpretation job_runs: invariant_system job_step "(os0, empty_db)" "\<lambda>s. jobs_inv (snd s)" for os0
proof
  show "jobs_inv (snd (job_step s x))" if "jobs_inv (snd s)" for s x
    using job_step_evolves [OF that, of x] by (simp add: jobs_evolve_def)
qed simp

lemma job_run_evolves: "jobs_inv (snd s) \<Longrightarrow> jobs_evolve (snd s) (snd (run job_step s xs))"
proof (induction xs arbitrary: s)
  case (Cons x xs)
  have one: "jobs_evolve (snd s) (snd (job_step s x))" by (rule job_step_evolves [OF Cons.prems])
  then have "jobs_inv (snd (job_step s x))" by (simp add: jobs_evolve_def)
  from jobs_evolve_trans [OF one Cons.IH [OF this]] show ?case by simp
qed (simp add: jobs_evolve_refl)

section \<open>Every operation moves jobs along its own edges\<close>

lemma row_moves_refl [simp]: "row_moves op r r"
  by (simp add: row_moves_def)

lemma rows_stay [simp]: "list_all2 (row_moves op) rows rows"
  by (simp add: list_all2_same)

lemma update_where_moves:
  assumes "\<And>r. r \<in> set rows \<Longrightarrow> p r \<Longrightarrow> row_moves op r (f r)"
  shows "list_all2 (row_moves op) rows (update_where p f rows)"
  using assms by (auto simp: update_where_def list_all2_map2 list_all2_same)

lemma owned_update_moves:
  assumes "\<And>r owner. owned_by jid owner sts r \<Longrightarrow> row_moves op r (f r)"
  shows "list_all2 (row_moves op) (jobs db) (jobs (snd (snd (owned_update env jid worker sts f msg os db))))"
  unfolding owned_update_def
  by (auto simp: Let_def assms split: sum.splits prod.splits intro!: update_where_moves)

lemma owned_ops_move:
  "list_all2 (row_moves (Heartbeat env jid worker secs)) (jobs db)
     (jobs (snd (snd (heartbeat_job env jid worker secs os db))))"
  "list_all2 (row_moves (Checkpoint env jid worker stage current ptotal res)) (jobs db)
     (jobs (snd (snd (checkpoint_job env jid worker stage current ptotal res os db))))"
  "list_all2 (row_moves (FinishCancel env jid worker)) (jobs db) (jobs (snd (snd (finish_cancel env jid worker os db))))"
  "list_all2 (row_moves (Succeed env jid worker)) (jobs db) (jobs (snd (snd (succeed_job env jid worker os db))))"
  "list_all2 (row_moves (Fail env jid worker code message retryable)) (jobs db)
     (jobs (snd (snd (fail_job env jid worker code message retryable os db))))"
  unfolding heartbeat_job_def checkpoint_job_def finish_cancel_def succeed_job_def fail_job_def finish_owned_def
  by (auto intro!: owned_update_moves simp: row_moves_def owned_by_def)

lemma transaction_moves:
  assumes "\<And>os' db'. body os db = (Inr (), os', db') \<Longrightarrow> list_all2 (row_moves op) (jobs db) (jobs db')"
  shows "list_all2 (row_moves op) (jobs db) (jobs (snd (snd (then_get jid (os_transaction body os db)))))"
proof (cases "os_transaction body os db")
  case (fields r os' db')
  then show ?thesis by (cases rule: os_transaction_cases) (use assms fields in auto)
qed

lemma claim_moves:
  assumes "jobs_inv db"
  shows "list_all2 (row_moves (Claim env jid worker secs)) (jobs db) (jobs (snd (snd (claim_job env jid worker secs os db))))"
  unfolding claim_job_def
proof (rule transaction_moves)
  fix os' db' assume "claim_body env jid worker secs os db = (Inr (), os', db')"
  then show "list_all2 (row_moves (Claim env jid worker secs)) (jobs db) (jobs db')"
  proof (rule claim_body_Inr)
    fix db1 row owner
    assume m: "assert_no_maintenance env os db = Inr ((), db1)" and l: "locked_row jid db1 = Inr row"
      and q: "st row = QUEUED"
      and db': "db' = update_jobs (\<lambda>r. job_id r = jid)
         (\<lambda>r. r\<lparr>job_state := RUNNING, job_lease_owner := Some owner,
                job_lease_expires_at := Some (je_now env + seconds secs), job_updated_at := je_now env\<rparr>) db1"
    note f = assert_no_maintenance_Inr [OF m]
    have "jobs_inv db1" using assms f by (simp add: jobs_inv_def)
    note same = locked_row_unique [OF this l]
    show ?thesis
      unfolding db' update_jobs_frame f(1)
      by (rule update_where_moves) (use same q f(1) in \<open>auto simp: row_moves_def\<close>)
  qed
qed

lemma request_cancel_moves:
  assumes "jobs_inv db"
  shows "list_all2 (row_moves (RequestCancel env jid)) (jobs db) (jobs (snd (snd (request_cancel env jid os db))))"
  unfolding request_cancel_def
proof (rule transaction_moves)
  fix os' db' assume ok: "request_cancel_body env jid os db = (Inr (), os', db')"
  then obtain db1 row where m: "assert_no_maintenance env os db = Inr ((), db1)"
    and l: "locked_row jid db1 = Inr row"
    unfolding request_cancel_body_def by (auto split: sum.splits prod.splits)
  note f = assert_no_maintenance_Inr [OF m]
  have "jobs_inv db1" using assms f by (simp add: jobs_inv_def)
  note same = locked_row_unique [OF this l]
  obtain g where db': "db' = update_jobs (\<lambda>r. job_id r = jid) g db1"
    and g: "\<And>r. st r = st row \<Longrightarrow> job_id r = jid \<Longrightarrow> row_moves (RequestCancel env jid) r (g r)"
    using ok m l unfolding request_cancel_body_def
    by (fastforce simp: row_moves_def split: if_splits)
  show "list_all2 (row_moves (RequestCancel env jid)) (jobs db) (jobs db')"
    unfolding db' update_jobs_frame f(1)
    by (rule update_where_moves) (use same g f(1) in auto)
qed

lemma resume_moves:
  assumes "jobs_inv db"
  shows "list_all2 (row_moves (Resume env jid)) (jobs db) (jobs (snd (snd (resume_job env jid os db))))"
  unfolding resume_job_def
proof (rule transaction_moves)
  fix os' db' assume ok: "resume_body env jid os db = (Inr (), os', db')"
  then obtain db1 row owner where m: "assert_no_maintenance env os db = Inr ((), db1)"
    and l: "locked_row jid db1 = Inr row" and s: "st row = PAUSED \<or> st row = FAILED" "job_retryable row"
    and db': "db' = update_jobs (\<lambda>r. job_id r = jid)
      (\<lambda>r. r\<lparr>job_state := QUEUED, job_lease_owner := Some owner, job_stage := ''queued'',
             job_error_code := None, job_error_message := None, job_updated_at := je_now env\<rparr>) db1"
    unfolding resume_body_def by (auto split: sum.splits prod.splits option.splits if_splits)
  note f = assert_no_maintenance_Inr [OF m]
  have "jobs_inv db1" using assms f by (simp add: jobs_inv_def)
  note same = locked_row_unique [OF this l]
  show "list_all2 (row_moves (Resume env jid)) (jobs db) (jobs db')"
    unfolding db' update_jobs_frame f(1)
    by (rule update_where_moves) (use same s f(1) in \<open>auto simp: row_moves_def\<close>)
qed

lemma recover_moves:
  assumes "jobs_inv db"
  shows "list_all2 (row_moves (RecoverJobs e now)) (jobs db) (jobs (snd (recover_interrupted e os now db)))"
proof (cases "recover_interrupted e os now db")
  case (Pair r db')
  show ?thesis
  proof (cases r)
    case (Inl e)
    with Pair have "db' = db" unfolding recover_interrupted_def by (auto dest: transaction_error_rollback)
    with Pair show ?thesis by simp
  next
    case (Inr n)
    show ?thesis
      using recover_interrupted_rows(1) [OF assms Pair [unfolded Inr]] Pair
      by (auto simp: list_all2_map2 list_all2_same recovered_def row_moves_def recoverable_state_def)
  qed
qed

lemma create_moves:
  "\<exists>new. jobs (snd (snd (create_job env jt target stage res os db))) = jobs db @ new \<and>
     length new \<le> 1 \<and> (\<forall>r\<in>set new. st r = QUEUED)"
proof (cases "os_transaction (create_body env jt target stage res) os db")
  case (fields r os' db')
  then show ?thesis
  proof (cases rule: os_transaction_cases)
    case err
    with fields show ?thesis by (simp add: create_job_def)
  next
    case (ok x)
    then obtain db1 owner where mt: "assert_no_maintenance env os db = Inr ((), db1)"
      and i: "insert_job (new_job env jt target stage res owner) db1 = Inr db'"
      unfolding create_body_def by (auto split: sum.splits prod.splits option.splits)
    then have "jobs db' = jobs db @ [new_job env jt target stage res owner]"
      using assert_no_maintenance_Inr(1) [OF mt] by (auto simp: insert_job_def split: if_splits)
    with fields show ?thesis
      by (simp add: create_job_def) (simp add: new_job_def)
  qed
qed

lemmas operations_move =
  claim_moves owned_ops_move request_cancel_moves resume_moves recover_moves

text \<open>Only creating a job adds one, in the queued state.\<close>

lemma job_step_moves:
  assumes "jobs_inv (snd s)"
  shows "\<exists>old new. jobs (snd (job_step s op)) = old @ new \<and> list_all2 (row_moves op) (jobs (snd s)) old \<and>
    (\<forall>r\<in>set new. st r = QUEUED) \<and> (new = [] \<or> (\<exists>env jt target stage res. op = Create env jt target stage res))"
proof (cases "\<exists>env jt target stage res. op = Create env jt target stage res")
  case True
  with create_moves show ?thesis by (cases s) (fastforce intro: rows_stay)
next
  case False
  with assms have "list_all2 (row_moves op) (jobs (snd s)) (jobs (snd (job_step s op)))"
    by (cases s; cases op) (auto intro: operations_move)
  then show ?thesis by force
qed

end
