(* ===== verification/Jobs_Claims.thy ===== *)
theory Jobs_Claims
  imports Jobs_Props
begin

text \<open>
  The properties of the job service: mutual exclusion per target and the state machine over all
  runs, exactness of recovery, fencing of workers that lost their job, progress of the normal path,
  and what the stored error texts may contain.
\<close>

section \<open>A concrete table of jobs\<close>

definition sample_job_env :: job_env where
  "sample_job_env = \<lparr>je_process = sample_process, je_owner_random = 0, je_uuid = ''j1'', je_now = 0\<rparr>"

definition created :: "os_state \<times> state_db" where
  "created = snd (create_job sample_job_env ''corpus_check'' ''corpus'' ''queued'' None idle_os empty_db)"

definition claimed :: "os_state \<times> state_db" where
  "claimed = snd (claim_job sample_job_env ''j1'' ''w'' 30 (fst created) (snd created))"

lemma created_inv [simp]: "jobs_inv (snd created)"
  using create_evolves [OF jobs_inv_empty] by (simp add: created_def jobs_evolve_def)

lemma claimed_inv [simp]: "jobs_inv (snd claimed)"
  using claim_evolves [OF created_inv] by (simp add: claimed_def jobs_evolve_def)

section \<open>All runs\<close>

text \<open>
  C5: At most one job changes a target at a time. In every state that creations, claims, heartbeats,
  checkpoints, cancellations, failures, resumptions, recoveries and the coming and going of
  processes can produce, job ids are unique, two active jobs never share a target, and a job has a
  lease owner and an expiry exactly as its state says.
\<close>

theorem one_active_job_per_target:
  assumes "reachable_from job_step (os0, empty_db) (os, db)"
  shows "distinct (map job_id (jobs db)) \<and>
    (\<forall>r \<in> set (jobs db). \<forall>r' \<in> set (jobs db).
       active r \<and> active r' \<and> job_target_id r = job_target_id r' \<longrightarrow> r = r') \<and>
    (\<forall>r \<in> set (jobs db). row_ok r)"
  using job_runs.reachable_inv [OF assms] by (simp add: jobs_inv_def one_active_def)

theorem one_active_job_per_target_witness:
  "distinct (map job_id (jobs (snd created))) \<and> list_all row_ok (jobs (snd created))"
proof -
  have "reachable_from job_step (idle_os, empty_db) (fst created, snd created)"
    using reach_step [OF reach_init, of job_step "(idle_os, empty_db)"
        "Create sample_job_env ''corpus_check'' ''corpus'' ''queued'' None"]
    by (simp add: created_def)
  from one_active_job_per_target [OF this] show ?thesis by (simp add: list_all_iff)
qed

text \<open>
  C8: A job only ever moves along the edges of the operation that is performed. After any sequence of
  operations, one more takes every job that exists to the states \<open>job_edge\<close> gives that operation (a
  claim takes only the named queued job to running, a running job reaches cancelled only through a
  request and the acknowledgement of its worker, a resumption needs a retryable paused or failed job, and
  so on) or leaves it as it is; the place, id, type, target and creation time of a job never change;
  only creating a job adds one, queued; and a job that was cancelled, has succeeded or failed for good
  never changes again.
\<close>

theorem job_state_machine:
  assumes "jobs_inv db0" and "run job_step (os0, db0) ops = (os, db)" and "job_step (os, db) op = (os', db')"
  shows "(\<exists>old new. jobs db' = old @ new \<and> list_all2 (row_moves op) (jobs db) old \<and>
      (\<forall>r\<in>set new. st r = QUEUED) \<and> (new = [] \<or> (\<exists>env jt target stage res. op = Create env jt target stage res))) \<and>
    (\<forall>i<length (jobs db0). frozen (jobs db0 ! i) \<longrightarrow> i < length (jobs db') \<and> jobs db' ! i = jobs db0 ! i)"
proof
  from job_run_evolves [of "(os0, db0)" ops] assms(1,2) have inv: "jobs_inv db" by (simp add: jobs_evolve_def)
  then show "\<exists>old new. jobs db' = old @ new \<and> list_all2 (row_moves op) (jobs db) old \<and>
      (\<forall>r\<in>set new. st r = QUEUED) \<and> (new = [] \<or> (\<exists>env jt target stage res. op = Create env jt target stage res))"
    using job_step_moves [of "(os, db)" op] assms(3) by simp
  have "run job_step (os0, db0) (ops @ [op]) = (os', db')" using assms(2,3) by simp
  with job_run_evolves [of "(os0, db0)" "ops @ [op]"] assms(1) have "jobs_evolve db0 db'" by simp
  then obtain old new where o: "jobs db' = old @ new" "list_all2 row_evolves (jobs db0) old"
    by (auto simp: jobs_evolve_def)
  show "\<forall>i<length (jobs db0). frozen (jobs db0 ! i) \<longrightarrow> i < length (jobs db') \<and> jobs db' ! i = jobs db0 ! i"
  proof (intro allI impI)
    fix i assume i: "i < length (jobs db0)" "frozen (jobs db0 ! i)"
    then have len: "i < length old" using o(2) by (simp add: list_all2_lengthD)
    with list_all2_nthD [OF o(2) i(1)] i(2) o(1) show "i < length (jobs db') \<and> jobs db' ! i = jobs db0 ! i"
      by (simp add: nth_append row_evolves_def)
  qed
qed

theorem job_state_machine_witness:
  "\<exists>old new. jobs (snd (job_step claimed (Succeed sample_job_env ''j1'' ''w''))) = old @ new \<and>
     list_all2 (row_moves (Succeed sample_job_env ''j1'' ''w'')) (jobs (snd claimed)) old \<and> new = []"
  using job_state_machine [OF claimed_inv _ prod.collapse [symmetric], of "fst claimed" "[]" "fst claimed" "snd claimed"
      "Succeed sample_job_env ''j1'' ''w''"]
  by auto

section \<open>Recovery\<close>

text \<open>
  C25: Recovery is exact. When it returns, it has interrupted precisely the queued, running and
  cancelling jobs whose process is gone, or whose lease ran out, or (for an owner that names no
  process) that are queued or have no lease; an interrupted job is paused if its type can be
  resumed and failed otherwise; no other row, no ledger row and no maintenance row changes.
\<close>

theorem job_recovery_exact:
  assumes "jobs_inv db" and "recover_interrupted e os now db = (Inr n, db')"
  shows "jobs db' = map (\<lambda>r.
      if recoverable_state (st r) \<and>
         (owner_alive e os (job_lease_owner r) = Inr (Some False) \<or> lease_expired now r \<or>
          owner_alive e os (job_lease_owner r) = Inr None \<and>
            (st r = QUEUED \<or> job_lease_expires_at r = None))
      then interrupted now (job_type r \<in> set RESUMABLE_JOB_TYPES) r else r) (jobs db) \<and>
    usage_events db' = usage_events db \<and> paid_call_leases db' = paid_call_leases db \<and>
    maintenance_state db' = maintenance_state db"
proof -
  note rows = recover_interrupted_rows [OF assms]
  have "recovered (owner_alive e os) now r =
      (if recoverable_state (st r) \<and>
         (owner_alive e os (job_lease_owner r) = Inr (Some False) \<or> lease_expired now r \<or>
          owner_alive e os (job_lease_owner r) = Inr None \<and>
            (st r = QUEUED \<or> job_lease_expires_at r = None))
      then interrupted now (job_type r \<in> set RESUMABLE_JOB_TYPES) r else r)" if "r \<in> set (jobs db)" for r
  proof (cases "recoverable_state (st r)")
    case True
    with rows(5) [OF that] obtain a where "owner_alive e os (job_lease_owner r) = Inr a" by blast
    with True show ?thesis by (auto simp: recovered_def keep_job_def)
  qed (simp add: recovered_def)
  with rows show ?thesis by simp
qed

lemma claimed_recovery:
  "recover_interrupted (proc_engine sample_process) idle_os 5 (snd claimed) =
     (Inr 1, snd (recover_interrupted (proc_engine sample_process) idle_os 5 (snd claimed)))"
proof -
  have "fst (recover_interrupted (proc_engine sample_process) idle_os 5 (snd claimed)) = Inr 1" by code_simp
  then show ?thesis by (simp add: prod_eq_iff)
qed

theorem job_recovery_exact_witness:
  "usage_events (snd (recover_interrupted (proc_engine sample_process) idle_os 5 (snd claimed))) =
     usage_events (snd claimed) \<and>
   map job_id (jobs (snd (recover_interrupted (proc_engine sample_process) idle_os 5 (snd claimed)))) = [''j1'']"
proof -
  have ids: "map job_id (jobs (snd claimed)) = [''j1'']" by code_simp
  show ?thesis
    using job_recovery_exact [OF claimed_inv claimed_recovery] ids
    by (auto simp: o_def if_distrib [of job_id])
qed

lemma get_job_update:
  assumes "jobs_inv db" and "locked_row jid db = Inr row" and "\<And>r. job_id (f r) = job_id r"
  shows "locked_row jid (update_jobs (\<lambda>r. job_id r = jid) f db) = Inr (f row)"
proof -
  have row: "row \<in> set (jobs db)" "job_id row = jid" using locked_row_Inr [OF assms(2)] by auto
  have "f row \<in> set (jobs (update_jobs (\<lambda>r. job_id r = jid) f db))" using row by force
  moreover have "distinct (map job_id (jobs (update_jobs (\<lambda>r. job_id r = jid) f db)))"
    using assms(1,3) by (simp add: jobs_inv_def)
  ultimately show ?thesis
    using select_first_key [of job_id _ "f row"] assms(3) row(2) by (fastforce simp: locked_row_def)
qed

lemma claim_effect:
  assumes "jobs_inv db" and "claim_job env jid worker secs os db = (Inr rec, os', db')"
  obtains owner row where "worker_owner env worker os = Inr (owner, os')" "locked_row jid db' = Inr row"
    "st row = RUNNING" "job_lease_owner row = Some owner"
    "job_lease_expires_at row = Some (je_now env + seconds secs)" "jr_state rec = RUNNING"
    "jr_lease_owner rec = Some owner" "\<not> maintenance_flag db'"
proof (cases "os_transaction (claim_body env jid worker secs) os db")
  case (fields r os1 db1)
  with assms(2) have e: "os1 = os'" "db1 = db'" "\<exists>u. r = Inr u" "get_job jid db' = Inr rec"
    by (auto simp: claim_job_def then_get_def split: sum.splits prod.splits)
  from fields have body: "claim_body env jid worker secs os db = (Inr (), os', db')"
    using e by (auto elim!: os_transaction_cases)
  show ?thesis
  proof (rule claim_body_Inr [OF body])
    fix db2 row owner
    assume m: "assert_no_maintenance env os db = Inr ((), db2)" and l: "locked_row jid db2 = Inr row"
      and w: "worker_owner env worker os = Inr (owner, os')"
      and db': "db' = update_jobs (\<lambda>r. job_id r = jid)
         (\<lambda>r. r\<lparr>job_state := RUNNING, job_lease_owner := Some owner,
                job_lease_expires_at := Some (je_now env + seconds secs), job_updated_at := je_now env\<rparr>) db2"
    note f = assert_no_maintenance_Inr [OF m]
    have "jobs_inv db2" using assms(1) f by (simp add: jobs_inv_def)
    from get_job_update [OF this l] have row': "locked_row jid db' = Inr (row\<lparr>job_state := RUNNING,
        job_lease_owner := Some owner, job_lease_expires_at := Some (je_now env + seconds secs),
        job_updated_at := je_now env\<rparr>)" by (simp add: db')
    with e(4) have "jr_state rec = RUNNING" "jr_lease_owner rec = Some owner"
      by (auto simp: get_job_def job_record_of_def split: sum.splits)
    with that [OF w row'] f(4) show thesis by (simp add: db')
  qed
qed

text \<open>
  A worker of a running process keeps its job while its lease is valid. Right after a claim, no
  recovery before the lease ends touches the job, as long as the operating system holds the lock of
  the claiming process.
\<close>

theorem claimed_job_kept:
  assumes "owners_inv os" and "jobs_inv db" and "claim_job env jid worker secs os db = (Inr rec, os', db')"
    and "set (os_locked os') \<subseteq> set (os_locked os'')" and "now < je_now env + seconds secs"
    and "recover_interrupted (proc_engine (je_process env)) os'' now db' = (Inr n, db'')"
  shows "locked_row jid db'' = locked_row jid db' \<and> jr_state rec = RUNNING"
proof -
  obtain owner row where w: "worker_owner env worker os = Inr (owner, os')"
    and row: "locked_row jid db' = Inr row" "job_lease_owner row = Some owner"
      "job_lease_expires_at row = Some (je_now env + seconds secs)" and rs: "jr_state rec = RUNNING"
    using claim_effect [OF assms(2,3)] by blast
  obtain o1 where o1: "process_owner (je_process env) (je_owner_random env) os = Inr (o1, os')" "owner = o1 @ '':'' @ worker"
    using w by (auto simp: worker_owner_def split: sum.splits)
  have run: "owner_running (proc_engine (je_process env)) os'' o1"
    using process_owner_running [OF assms(1) o1(1)] assms(4) by (auto simp: owner_running_def)
  have inv': "jobs_inv db'"
    using claim_evolves [OF assms(2), of env jid worker secs os] assms(3) by (simp add: jobs_evolve_def)
  have "recovered (owner_alive (proc_engine (je_process env)) os'') now row = row"
    using workspace_owner.running_worker_kept [OF _ run] row o1(2) assms(5) by (simp add: lease_expired_def)
  then have "row \<in> set (jobs db'')"
    using recover_interrupted_rows(1) [OF inv' assms(6)] locked_row_Inr [OF row(1)] by (metis image_eqI list.set_map)
  moreover have "distinct (map job_id (jobs db''))"
    using recover_interrupted_evolves [OF inv', of "proc_engine (je_process env)" os'' now] assms(6)
    by (simp add: jobs_evolve_def jobs_inv_def)
  ultimately show ?thesis
    using select_first_key [of job_id "jobs db''" row] locked_row_Inr [OF row(1)] row(1) rs
    by (simp add: locked_row_def)
qed
lemma sample_claim:
  obtains rec where "claim_job sample_job_env ''j1'' ''w'' 30 (fst created) (snd created) =
    (Inr rec, fst claimed, snd claimed)"
proof -
  have "\<not> isl (fst (claim_job sample_job_env ''j1'' ''w'' 30 (fst created) (snd created)))" by code_simp
  then obtain rec where "fst (claim_job sample_job_env ''j1'' ''w'' 30 (fst created) (snd created)) = Inr rec"
    by (metis isl_def sum.exhaust)
  with that show ?thesis by (simp add: claimed_def prod_eq_iff)
qed

lemma created_owners_inv: "owners_inv (fst created)"
proof -
  have "fst created = \<lparr>os_locked = [owner_lock_path ''/w'' (uuid_hex 0)],
      os_owners = [((7, ''/w''), proc_owner (uuid_hex 0))]\<rparr>" by code_simp
  with process_owner_inv [OF idle_os_owners_inv sample_process_owner] show ?thesis by simp
qed

theorem claimed_job_kept_witness:
  "locked_row ''j1'' (snd (recover_interrupted (proc_engine sample_process) (fst claimed) 29000000 (snd claimed))) =
     locked_row ''j1'' (snd claimed)"
proof -
  obtain rec where c: "claim_job sample_job_env ''j1'' ''w'' 30 (fst created) (snd created) =
      (Inr rec, fst claimed, snd claimed)" by (rule sample_claim)
  have "fst (recover_interrupted (proc_engine sample_process) (fst claimed) 29000000 (snd claimed)) = Inr 0"
    by code_simp
  then have r: "recover_interrupted (proc_engine (je_process sample_job_env)) (fst claimed) 29000000 (snd claimed) =
      (Inr 0, snd (recover_interrupted (proc_engine sample_process) (fst claimed) 29000000 (snd claimed)))"
    by (simp add: sample_job_env_def prod_eq_iff)
  have t: "(29000000 :: int) < je_now sample_job_env + seconds 30" by code_simp
  from claimed_job_kept [OF created_owners_inv created_inv c order_refl t r] show ?thesis by blast
qed

section \<open>Ownership\<close>

lemma owned_update_refused:
  assumes "\<And>r. r \<in> set (jobs db) \<Longrightarrow> job_id r = jid \<Longrightarrow> job_lease_owner r = None"
  shows "jobs (snd (snd (owned_update env jid worker sts f msg os db))) = jobs db \<and>
    isl (fst (owned_update env jid worker sts f msg os db))"
proof (cases "worker_owner env worker os")
  case (Inr x)
  obtain owner os' where x: "x = (owner, os')" by (cases x)
  have none: "\<not> owned_by jid owner sts r" if "r \<in> set (jobs db)" for r
    using assms [OF that] by (auto simp: owned_by_def)
  then have "rowcount (owned_by jid owner sts) (jobs db) = 0" by (simp add: rowcount_zero)
  with none Inr x show ?thesis by (simp add: owned_update_def Let_def update_where_none)
qed (simp add: owned_update_def)

text \<open>
  C24: A worker that lost its job is fenced off. Once a recovery has interrupted a job, every
  heartbeat, checkpoint, success, failure and end of cancellation that any worker still sends for
  it is refused, and none of them changes the table, until the job is resumed and claimed again.
\<close>

theorem interrupted_worker_fenced:
  assumes "jobs_inv db" and "recover_interrupted e os now db = (Inr n, db')"
    and "r \<in> set (jobs db)" and "recoverable_state (st r)"
    and "owner_alive e os (job_lease_owner r) = Inr (Some False) \<or> lease_expired now r"
    and "x \<in> {heartbeat_job env (job_id r) worker secs os' db',
              checkpoint_job env (job_id r) worker stage current ptotal res os' db',
              finish_cancel env (job_id r) worker os' db', succeed_job env (job_id r) worker os' db',
              fail_job env (job_id r) worker code message retry os' db'}"
  shows "(\<exists>err. fst x = Inl err) \<and> jobs (snd (snd x)) = jobs db'"
proof -
  note rows = recover_interrupted_rows [OF assms(1,2)]
  have d: "distinct (map job_id (jobs db))" using assms(1) by (simp add: jobs_inv_def)
  have "job_lease_owner q = None" if q: "q \<in> set (jobs db')" "job_id q = job_id r" for q
  proof -
    obtain q0 where q0: "q0 \<in> set (jobs db)" "q = recovered (owner_alive e os) now q0"
      using q(1) by (auto simp: rows(1))
    with q(2) have "q0 = r" using distinct_key_unique [OF d q0(1) assms(3)] by simp
    with q0 assms(4,5) show ?thesis by (auto simp: recovered_def keep_job_def)
  qed
  note refused = owned_update_refused [of db' "job_id r" env worker, OF this]
  from assms(6) refused show ?thesis
    unfolding heartbeat_job_def checkpoint_job_def finish_cancel_def succeed_job_def fail_job_def finish_owned_def
    by (auto simp: isl_def)
qed

theorem interrupted_worker_fenced_witness:
  "isl (fst (succeed_job sample_job_env ''j1'' ''w'' (fst claimed)
     (snd (recover_interrupted (proc_engine sample_process) idle_os 5 (snd claimed)))))"
proof -
  let ?r = "jobs (snd claimed) ! 0"
  have "length (jobs (snd claimed)) = 1" by code_simp
  then have r: "?r \<in> set (jobs (snd claimed))" by (intro nth_mem) simp
  have "recoverable_state (st ?r)" "job_id ?r = ''j1''"
    "owner_alive (proc_engine sample_process) idle_os (job_lease_owner ?r) = Inr (Some False)" by code_simp+
  with interrupted_worker_fenced [OF claimed_inv claimed_recovery r, of
      "succeed_job sample_job_env ''j1'' ''w'' (fst claimed)
         (snd (recover_interrupted (proc_engine sample_process) idle_os 5 (snd claimed)))"
      sample_job_env "''w''" _ "fst claimed"]
  show ?thesis by (auto simp: isl_def)
qed

lemma owned_update_accepted:
  assumes inv: "jobs_inv db" and row: "locked_row jid db = Inr row"
    and own: "worker_owner env worker os = Inr (owner, os')" "job_lease_owner row = Some owner" "st row \<in> set sts"
    and f: "\<And>r. job_id (f r) = job_id r"
  shows "owned_update env jid worker sts f msg os db =
    (job_record_of (f row), os', update_jobs (\<lambda>r. job_id r = jid) f db)"
proof -
  have r: "row \<in> set (jobs db)" "job_id row = jid" using locked_row_Inr [OF row] by auto
  have d: "distinct (map job_id (jobs db))" using inv by (simp add: jobs_inv_def)
  have eq: "owned_by jid owner sts r' \<longleftrightarrow> job_id r' = jid" if "r' \<in> set (jobs db)" for r'
    using locked_row_unique [OF inv row that] own(2,3) by (auto simp: owned_by_def)
  then have up: "update_jobs (owned_by jid owner sts) f db = update_jobs (\<lambda>r. job_id r = jid) f db"
    by (auto simp: update_jobs_def update_where_def)
  have "rowcount (owned_by jid owner sts) (jobs db) = rowcount (\<lambda>r. job_id r = jid) (jobs db)"
    unfolding rowcount_def using eq by (intro arg_cong [where f = length] filter_cong) auto
  also have "\<dots> = 1" using filter_key [OF d r(1)] r(2) by (simp add: rowcount_def)
  finally show ?thesis
    using get_job_update [OF inv row f] by (simp add: owned_update_def own(1) up get_job_def)
qed

lemma claim_refused:
  assumes "locked_row jid db = Inr row" and "st row \<noteq> QUEUED"
  shows "isl (fst (claim_job env jid worker secs os db)) \<and> snd (snd (claim_job env jid worker secs os db)) = db"
proof -
  have "locked_row jid db1 = locked_row jid db" if "assert_no_maintenance env os db = Inr (u, db1)" for u db1
    using assert_no_maintenance_Inr(1) [OF that] by (simp add: locked_row_def)
  then show ?thesis
    using assms unfolding claim_job_def then_get_def os_transaction_def claim_body_def
    by (auto split: sum.splits prod.splits)
qed

text \<open>
  A claim is exclusive and good for finishing the job. After a successful claim the record
  handed out is running and owned by the worker; a second claim by anybody is refused and changes
  nothing; and the worker that claimed can report success, after which the job is
  \<^verbatim>\<open>succeeded\<close> and owned by nobody.
\<close>

theorem claim_exclusive:
  assumes "jobs_inv db" and "claim_job env jid worker secs os db = (Inr rec, os', db')"
  shows "jr_state rec = RUNNING \<and>
    isl (fst (claim_job env' jid worker' secs' os'' db')) \<and>
    snd (snd (claim_job env' jid worker' secs' os'' db')) = db' \<and>
    (\<forall>row. locked_row jid db' = Inr row \<and> job_resume_json row \<noteq> Malformed \<longrightarrow>
      (\<exists>fin. fst (succeed_job env jid worker os' db') = Inr fin \<and> jr_state fin = SUCCEEDED \<and>
        jr_lease_owner fin = None \<and> jr_id fin = jid))"
proof -
  obtain owner row where w: "worker_owner env worker os = Inr (owner, os')"
    and row: "locked_row jid db' = Inr row" "st row = RUNNING" "job_lease_owner row = Some owner"
    and rec: "jr_state rec = RUNNING"
    using claim_effect [OF assms] by blast
  have inv': "jobs_inv db'"
    using claim_evolves [OF assms(1), of env jid worker secs os] assms(2) by (simp add: jobs_evolve_def)
  obtain o1 where o1: "process_owner (je_process env) (je_owner_random env) os = Inr (o1, os')" "owner = o1 @ '':'' @ worker"
    using w by (auto simp: worker_owner_def split: sum.splits)
  have w': "worker_owner env worker os' = Inr (owner, os')"
    using process_owner_idempotent [OF o1(1), of "je_owner_random env"] o1(2) by (simp add: worker_owner_def)
  have id: "job_id row = jid" using locked_row_Inr [OF row(1)] by simp
  have s: "fst (succeed_job env jid worker os' db') = job_record_of (row\<lparr>job_state := SUCCEEDED, job_stage := ''complete'',
      job_retryable := False, job_lease_owner := None, job_lease_expires_at := None, job_updated_at := je_now env\<rparr>)"
    unfolding succeed_job_def finish_owned_def
    by (subst owned_update_accepted [OF inv' row(1) w' row(3)]) (simp_all add: row(2))
  show ?thesis
    using rec claim_refused [OF row(1), of env' worker' secs' os''] row(1,2) s id
    by (auto simp: job_record_of_def json_loads_def split: json_text.splits)
qed

theorem claim_exclusive_witness:
  "isl (fst (claim_job sample_job_env ''j1'' ''other'' 30 (fst claimed) (snd claimed)))"
proof -
  obtain rec where c: "claim_job sample_job_env ''j1'' ''w'' 30 (fst created) (snd created) =
      (Inr rec, fst claimed, snd claimed)" by (rule sample_claim)
  from claim_exclusive [OF created_inv c, of sample_job_env "''other''" 30 "fst claimed"] show ?thesis by blast
qed

section \<open>Stored texts\<close>

lemma set_split_ws_acc: "w \<in> set (split_ws_acc acc t) \<Longrightarrow> set w \<subseteq> set acc \<union> set t"
  by (induction acc t rule: split_ws_acc.induct) (fastforce split: if_splits)+

lemma set_split_ws: "w \<in> set (split_ws t) \<Longrightarrow> set w \<subseteq> set t"
  using set_split_ws_acc [of w "[]" t] by (simp add: split_ws_def)

lemma take_filter_default:
  "list_all P d \<Longrightarrow> \<forall>c \<in> set (if take n (filter P v) = [] then d else take n (filter P v)). P c"
  by (auto simp: list_all_iff dest: in_set_takeD)

lemma set_join: "set (join sep ws) \<subseteq> (\<Union>w \<in> set ws. set w) \<union> set sep"
  by (induction sep ws rule: join.induct) auto

text \<open>
  What a failed job stores of its error is bounded and clean. The code has between one and
  eighty characters, all letters, digits, underscores or hyphens; the message has at most a thousand
  characters, no NUL and no white space other than blanks.
\<close>

theorem sanitized_error:
  "sanitize_code code \<noteq> [] \<and> length (sanitize_code code) \<le> 80 \<and>
   (\<forall>c \<in> set (sanitize_code code). is_alnum c \<or> c = CHR ''_'' \<or> c = CHR ''-'') \<and>
   length (sanitize_message message) \<le> 1000 \<and>
   (\<forall>c \<in> set (sanitize_message message). of_char c \<noteq> (0 :: nat) \<and> (is_space c \<longrightarrow> c = CHR '' ''))"
proof (intro conjI ballI)
  let ?m = "filter (\<lambda>c. of_char c \<noteq> (0 :: nat)) message"
  have chars: "c = CHR '' '' \<or> (\<exists>w \<in> set (split_ws ?m). c \<in> set w)" if "c \<in> set (sanitize_message message)" for c
    using that set_join [of "'' ''" "split_ws ?m"] by (auto simp: sanitize_message_def dest: in_set_takeD)
  fix c assume "c \<in> set (sanitize_message message)"
  from chars [OF this] show "of_char c \<noteq> (0 :: nat)" and "is_space c \<longrightarrow> c = CHR '' ''"
    using split_ws_words [of ?m] by (auto simp: list_all_iff dest: subsetD [OF set_split_ws])
next
  show "length (sanitize_code code) \<le> 80" "sanitize_code code \<noteq> []"
    by (simp_all add: sanitize_code_def Let_def)
  show "is_alnum c \<or> c = CHR ''_'' \<or> c = CHR ''-''" if "c \<in> set (sanitize_code code)" for c
  proof -
    have d: "list_all (\<lambda>c. is_alnum c \<or> c = CHR ''_'' \<or> c = CHR ''-'') ''job_error''" by code_simp
    from take_filter_default [OF d, of 80 code] that show ?thesis
      unfolding sanitize_code_def Let_def by blast
  qed
  show "length (sanitize_message message) \<le> 1000" by (simp add: sanitize_message_def)
qed

theorem sanitized_error_witness:
  "sanitize_code ''http 500!'' \<noteq> [] \<and> length (sanitize_message ''a  b'') \<le> 1000"
  using sanitized_error [of "''http 500!''" "''a  b''"] by blast

end
