(* ===== verification/Sha256.thy ===== *)
theory Sha256
  imports Prelude "HOL-Library.Word"
begin

text \<open>
  The digests that the session service takes from Python's standard library: SHA-256 (FIPS 180-4) on
  byte lists, its hexadecimal digest, HMAC-SHA-256 (RFC 2104), and UTF-8 on the code points below
  256.
\<close>

unbundle bit_operations_syntax

type_synonym word32 = "32 word"
type_synonym byte = "8 word"

section \<open>The compression function\<close>

text \<open>
  The constants are the first 32 bits of the fractional parts of the cube roots of the first 64
  primes, the initial state those of the square roots of the first eight; \<open>int_root\<close> computes the
  integer part of a root bit by bit.
\<close>

fun int_root :: "nat \<Rightarrow> int \<Rightarrow> nat \<Rightarrow> int \<Rightarrow> int" where
  "int_root k x 0 r = r"
| "int_root k x (Suc i) r = (let q = r + 2 ^ i in int_root k x i (if q ^ k \<le> x then q else r))"

definition small_primes :: "int list" where
  "small_primes = filter (\<lambda>n. list_all (\<lambda>d. n mod d \<noteq> 0) [2..n - 1]) [2..311]"

definition sha256_k :: "word32 list" where
  "sha256_k = map (\<lambda>p. word_of_int (int_root 3 (p * 2 ^ 96) 36 0)) small_primes"

definition sha256_init :: "word32 list" where
  "sha256_init = map (\<lambda>p. word_of_int (int_root 2 (p * 2 ^ 64) 36 0)) (take 8 small_primes)"

definition rotr :: "nat \<Rightarrow> word32 \<Rightarrow> word32" where
  "rotr n x = drop_bit n x OR push_bit (32 - n) x"

text \<open>The message schedule, newest word first: it starts with sixteen words and grows to 64.\<close>

fun schedule :: "nat \<Rightarrow> word32 list \<Rightarrow> word32 list" where
  "schedule 0 ws = ws"
| "schedule (Suc n) ws =
     (let w15 = ws ! 14; w2 = ws ! 1;
          s0 = rotr 7 w15 XOR rotr 18 w15 XOR drop_bit 3 w15;
          s1 = rotr 17 w2 XOR rotr 19 w2 XOR drop_bit 10 w2
      in schedule n ((ws ! 15 + s0 + ws ! 6 + s1) # ws))"

type_synonym state8 =
  "word32 \<times> word32 \<times> word32 \<times> word32 \<times> word32 \<times> word32 \<times> word32 \<times> word32"

fun sha256_round :: "state8 \<Rightarrow> word32 \<times> word32 \<Rightarrow> state8" where
  "sha256_round (a, b, c, d, e, f, g, h) (k, w) =
     (let s1 = rotr 6 e XOR rotr 11 e XOR rotr 25 e;
          ch = (e AND f) XOR (NOT e AND g);
          t1 = h + s1 + ch + k + w;
          s0 = rotr 2 a XOR rotr 13 a XOR rotr 22 a;
          mj = (a AND b) XOR (a AND c) XOR (b AND c)
      in (t1 + (s0 + mj), a, b, c, d + t1, e, f, g))"

definition compress :: "word32 list \<Rightarrow> word32 list \<Rightarrow> word32 list" where
  "compress hs block =
     (let ws = rev (schedule 48 (rev block));
          s = (hs ! 0, hs ! 1, hs ! 2, hs ! 3, hs ! 4, hs ! 5, hs ! 6, hs ! 7);
          (a, b, c, d, e, f, g, h) = foldl sha256_round s (zip sha256_k ws)
      in map2 (+) hs [a, b, c, d, e, f, g, h])"

section \<open>Messages\<close>

definition be_bytes :: "nat \<Rightarrow> 64 word \<Rightarrow> byte list" where
  "be_bytes k n = map (\<lambda>i. ucast (drop_bit (8 * (k - 1 - i)) n)) [0..<k]"

definition pad :: "byte list \<Rightarrow> byte list" where
  "pad m = m @ [128] @ replicate ((119 - length m mod 64) mod 64) 0 @ be_bytes 8 (word_of_int (int (8 * length m)))"

fun words_of_bytes :: "byte list \<Rightarrow> word32 list" where
  "words_of_bytes (a # b # c # d # rest) =
     (push_bit 24 (ucast a) OR push_bit 16 (ucast b) OR push_bit 8 (ucast c) OR ucast d) # words_of_bytes rest"
| "words_of_bytes _ = []"

function blocks :: "word32 list \<Rightarrow> word32 list list" where
  "blocks ws = (if ws = [] then [] else take 16 ws # blocks (drop 16 ws))"
  by pat_completeness auto
termination
  by (relation "measure length") auto

definition sha256 :: "byte list \<Rightarrow> byte list" where
  "sha256 m =
     concat (map (\<lambda>w. be_bytes 4 (ucast w)) (foldl compress sha256_init (blocks (words_of_bytes (pad m)))))"

definition hex_byte :: "byte \<Rightarrow> string" where
  "hex_byte b =
     (let d = (\<lambda>x. char_of (if x < 10 then 48 + x else 87 + x))
      in [d (uint (drop_bit 4 b)), d (uint (b AND 0x0f))])"

definition hexdigest :: "byte list \<Rightarrow> string" where
  "hexdigest bs = concat (map hex_byte bs)"

definition utf8 :: "string \<Rightarrow> byte list" where
  "utf8 s =
     concat (map (\<lambda>c. let n = of_char c :: int in
       if n < 128 then [word_of_int n] else [word_of_int (192 + n div 64), word_of_int (128 + n mod 64)]) s)"

definition hmac_sha256 :: "byte list \<Rightarrow> byte list \<Rightarrow> byte list" where
  "hmac_sha256 key msg =
     (let k0 = (if length key > 64 then sha256 key else key);
          k = k0 @ replicate (64 - length k0) 0
      in sha256 (map (\<lambda>b. b XOR 0x5c) k @ sha256 (map (\<lambda>b. b XOR 0x36) k @ msg)))"

section \<open>Facts\<close>

lemma length_be_bytes [simp]: "length (be_bytes k n) = k"
  by (simp add: be_bytes_def)

text \<open>A padded message is a whole number of 64-byte blocks.\<close>

lemma pad_rem: "r < 64 \<Longrightarrow> (r + (119 - r) mod 64 + 9) mod 64 = (0 :: nat)"
proof (cases "r \<le> 55")
  case True
  then have "(119 - r) mod 64 = 55 - r" by (simp add: mod_if)
  with True show ?thesis by simp
next
  case False
  assume "r < 64"
  with False have "(119 - r) mod 64 = 119 - r" "r + (119 - r) + 9 = 128" by simp_all
  then show ?thesis by simp
qed

lemma length_pad: "length (pad m) mod 64 = 0"
proof -
  have "length (pad m) = length m + ((119 - length m mod 64) mod 64 + 9)" by (simp add: pad_def)
  then have "length (pad m) mod 64 = (length m mod 64 + ((119 - length m mod 64) mod 64 + 9)) mod 64"
    by (simp only: mod_add_left_eq)
  then show ?thesis using pad_rem [of "length m mod 64"] by (simp add: add.assoc)
qed

end
