(* ===== verification/Session.thy ===== *)
theory Session
  imports Schema Sha256
begin

text \<open>
  Local browser sessions (\<^verbatim>\<open>app/security/local_session.py\<close>): a launcher prints a one-time launch
  token, the browser exchanges it for a session cookie and a CSRF token, and every request is
  validated against the stored hashes. The random values of a call (\<^verbatim>\<open>secrets.token_urlsafe\<close>,
  \<^verbatim>\<open>uuid.uuid4()\<close>) and the clock are arguments.
\<close>

section \<open>Data\<close>

record local_installation_row =
  li_installation_id :: string
  li_secret_hash :: string
  li_created_at :: datetime

record session_db =
  launcher_tokens :: "launcher_token_row list"
  local_sessions :: "local_session_row list"
  local_installation :: "local_installation_row option"

record exchanged_session =
  es_token :: string
  es_csrf_token :: string
  es_expires_at :: datetime

definition SESSION_HOURS :: int where "SESSION_HOURS = 12"

definition LAUNCH_MINUTES :: int where "LAUNCH_MINUTES = 5"

section \<open>Hashes\<close>

definition hash_of :: "string \<Rightarrow> string" where
  "hash_of v = hexdigest (sha256 (utf8 v))"

definition csrf_token_of :: "string \<Rightarrow> string" where
  "csrf_token_of session_token = hexdigest (hmac_sha256 (utf8 session_token) (utf8 ''nyc-housing-csrf-v1''))"

section \<open>Statements\<close>

text \<open>\<^verbatim>\<open>one_or_none()\<close>.\<close>

definition one_or_none :: "('r \<Rightarrow> bool) \<Rightarrow> 'r list \<Rightarrow> 'r option result" where
  "one_or_none p rows =
     (case filter p rows of
        [] \<Rightarrow> Inr None
      | [r] \<Rightarrow> Inr (Some r)
      | _ \<Rightarrow> Inl (RuntimeError ''MultipleResultsFound''))"

definition insert_launch :: "launcher_token_row \<Rightarrow> session_db \<Rightarrow> session_db result" where
  "insert_launch r db =
     (if lt_id r \<in> lt_id ` set (launcher_tokens db) \<or> lt_token_hash r \<in> lt_token_hash ` set (launcher_tokens db)
      then Inl (IntegrityError ''UNIQUE constraint failed: launcher_tokens'')
      else Inr (db\<lparr>launcher_tokens := launcher_tokens db @ [r]\<rparr>))"

definition insert_session :: "local_session_row \<Rightarrow> session_db \<Rightarrow> session_db result" where
  "insert_session r db =
     (if ls_id r \<in> ls_id ` set (local_sessions db) \<or> ls_token_hash r \<in> ls_token_hash ` set (local_sessions db)
      then Inl (IntegrityError ''UNIQUE constraint failed: local_sessions'')
      else Inr (db\<lparr>local_sessions := local_sessions db @ [r]\<rparr>))"

section \<open>Operations\<close>

definition ensure_installation :: "string \<Rightarrow> string \<Rightarrow> datetime \<Rightarrow> session_db \<Rightarrow> session_db" where
  "ensure_installation uid secret now db =
     (case local_installation db of
        Some _ \<Rightarrow> db
      | None \<Rightarrow>
          db\<lparr>local_installation :=
            Some \<lparr>li_installation_id = uid, li_secret_hash = hash_of secret, li_created_at = now\<rparr>\<rparr>)"

definition issue_launch_token ::
  "string \<Rightarrow> string \<Rightarrow> datetime \<Rightarrow> session_db \<Rightarrow> string result \<times> session_db" where
  "issue_launch_token uid token now db =
     transaction (\<lambda>d.
       case insert_launch
           \<lparr>lt_id = uid, lt_token_hash = hash_of token, lt_created_at = now,
            lt_expires_at = now + minutes LAUNCH_MINUTES, lt_consumed_at = None\<rparr> d of
         Inl e \<Rightarrow> Inl e
       | Inr d' \<Rightarrow> Inr (token, d')) db"

definition begin_process ::
  "string \<Rightarrow> string \<Rightarrow> datetime \<Rightarrow> session_db \<Rightarrow> string result \<times> session_db" where
  "begin_process uid token now db =
     issue_launch_token uid token now (db\<lparr>launcher_tokens := [], local_sessions := []\<rparr>)"

definition launch_error :: error where
  "launch_error = LocalSessionError ''Invalid or expired launch credential.''"

definition exchange_body ::
  "string \<Rightarrow> string \<Rightarrow> datetime \<Rightarrow> string \<Rightarrow> (session_db, exchanged_session) tx" where
  "exchange_body uid session_token now launch_token db =
     (case one_or_none (\<lambda>r. lt_token_hash r = hash_of launch_token) (launcher_tokens db) of
        Inl e \<Rightarrow> Inl e
      | Inr None \<Rightarrow> Inl launch_error
      | Inr (Some row) \<Rightarrow>
          if lt_consumed_at row \<noteq> None \<or> lt_expires_at row \<le> now then Inl launch_error
          else (let p = (\<lambda>r. lt_id r = lt_id row \<and> lt_consumed_at r = None) in
            if rowcount p (launcher_tokens db) \<noteq> 1 then Inl launch_error
            else (let db1 = db\<lparr>launcher_tokens :=
                        update_where p (\<lambda>r. r\<lparr>lt_consumed_at := Some now\<rparr>) (launcher_tokens db)\<rparr>;
                      csrf = csrf_token_of session_token;
                      expires = now + hours SESSION_HOURS
                  in case insert_session
                        \<lparr>ls_id = uid, ls_token_hash = hash_of session_token, ls_csrf_hash = hash_of csrf,
                         ls_created_at = now, ls_expires_at = expires, ls_last_seen_at = now\<rparr> db1 of
                       Inl e \<Rightarrow> Inl e
                     | Inr db2 \<Rightarrow>
                         Inr (\<lparr>es_token = session_token, es_csrf_token = csrf, es_expires_at = expires\<rparr>, db2))))"

definition exchange ::
  "string \<Rightarrow> string \<Rightarrow> datetime \<Rightarrow> string \<Rightarrow> session_db \<Rightarrow> exchanged_session result \<times> session_db" where
  "exchange uid session_token now launch_token db =
     (if launch_token = [] \<or> length launch_token > 256 then (Inl launch_error, db)
      else transaction (exchange_body uid session_token now launch_token) db)"

definition validate ::
  "datetime \<Rightarrow> string option \<Rightarrow> string option \<Rightarrow> bool \<Rightarrow> session_db \<Rightarrow> bool result \<times> session_db" where
  "validate now session_token csrf_token require_csrf db =
     (case session_token of
        None \<Rightarrow> (Inr False, db)
      | Some token \<Rightarrow>
          if token = [] then (Inr False, db)
          else (case one_or_none (\<lambda>r. ls_token_hash r = hash_of token) (local_sessions db) of
                  Inl e \<Rightarrow> (Inl e, db)
                | Inr None \<Rightarrow> (Inr False, db)
                | Inr (Some row) \<Rightarrow>
                    if ls_expires_at row \<le> now then (Inr False, db)
                    else if require_csrf \<and>
                      (case csrf_token of None \<Rightarrow> True | Some c \<Rightarrow> c = [] \<or> ls_csrf_hash row \<noteq> hash_of c)
                    then (Inr False, db)
                    else (Inr True,
                      db\<lparr>local_sessions :=
                        update_where (\<lambda>r. ls_id r = ls_id row) (\<lambda>r. r\<lparr>ls_last_seen_at := now\<rparr>)
                          (local_sessions db)\<rparr>)))"

definition auth_required :: error where
  "auth_required = LocalSessionError ''Local session authentication required.''"

definition rotate_csrf :: "datetime \<Rightarrow> string option \<Rightarrow> session_db \<Rightarrow> string result \<times> session_db" where
  "rotate_csrf now session_token db =
     (case session_token of
        None \<Rightarrow> (Inl auth_required, db)
      | Some token \<Rightarrow>
          if token = [] then (Inl auth_required, db)
          else (let csrf = csrf_token_of token;
                    p = (\<lambda>r. ls_token_hash r = hash_of token \<and> ls_expires_at r > now);
                    db' = db\<lparr>local_sessions :=
                      update_where p (\<lambda>r. r\<lparr>ls_csrf_hash := hash_of csrf, ls_last_seen_at := now\<rparr>)
                        (local_sessions db)\<rparr>
                in if rowcount p (local_sessions db) \<noteq> 1 then (Inl auth_required, db')
                   else (Inr csrf, db')))"

end
