(* ===== verification/Session_Claims.thy ===== *)
theory Session_Claims
  imports Session
begin

text \<open>
  Security properties of the local sessions: a launch token opens at most one session and only
  within its five minutes, a session lives at most twelve hours and not beyond the start of the next
  process, and a state-changing request needs the CSRF token derived from the session.
\<close>

section \<open>Invariant\<close>

definition launch_ok :: "launcher_token_row \<Rightarrow> bool" where
  "launch_ok r \<longleftrightarrow> lt_expires_at r = lt_created_at r + minutes LAUNCH_MINUTES"

definition session_ok :: "local_session_row \<Rightarrow> bool" where
  "session_ok r \<longleftrightarrow>
     ls_expires_at r = ls_created_at r + hours SESSION_HOURS \<and>
     (\<exists>t. ls_token_hash r = hash_of t \<and> ls_csrf_hash r = hash_of (csrf_token_of t))"

definition consumed :: "launcher_token_row \<Rightarrow> bool" where
  "consumed r \<longleftrightarrow> lt_consumed_at r \<noteq> None"

definition session_inv :: "session_db \<Rightarrow> bool" where
  "session_inv db \<longleftrightarrow>
     distinct (map lt_id (launcher_tokens db)) \<and> distinct (map lt_token_hash (launcher_tokens db)) \<and>
     distinct (map ls_id (local_sessions db)) \<and> distinct (map ls_token_hash (local_sessions db)) \<and>
     (\<forall>r \<in> set (launcher_tokens db). launch_ok r) \<and> (\<forall>r \<in> set (local_sessions db). session_ok r) \<and>
     length (local_sessions db) \<le> rowcount consumed (launcher_tokens db)"

definition empty_session_db :: session_db where
  "empty_session_db = \<lparr>launcher_tokens = [], local_sessions = [], local_installation = None\<rparr>"

lemma one_or_none_Some:
  "one_or_none p rows = Inr (Some r) \<Longrightarrow> r \<in> set rows \<and> p r \<and> (\<forall>q \<in> set rows. p q \<longrightarrow> q = r)"
proof -
  assume "one_or_none p rows = Inr (Some r)"
  then have "filter p rows = [r]" by (auto simp: one_or_none_def split: list.splits)
  then have "set (filter p rows) = {r}" by simp
  then show ?thesis by (auto simp: set_eq_iff)
qed

lemma one_or_none_key:
  assumes "distinct (map k rows)" and "r \<in> set rows" and "k r = x"
  shows "one_or_none (\<lambda>q. k q = x) rows = Inr (Some r)"
  using filter_key [OF assms(1,2)] assms(3) by (simp add: one_or_none_def)

lemma one_or_none_absent: "(\<And>r. r \<in> set rows \<Longrightarrow> \<not> p r) \<Longrightarrow> one_or_none p rows = Inr None"
proof -
  assume "\<And>r. r \<in> set rows \<Longrightarrow> \<not> p r"
  then have "filter p rows = []" by (simp add: filter_empty_conv)
  then show ?thesis by (simp add: one_or_none_def)
qed

lemma exchange_body_Inr:
  assumes "exchange_body uid tok now ltok db = Inr (s, db')"
  obtains row where "row \<in> set (launcher_tokens db)" "lt_token_hash row = hash_of ltok"
    "lt_consumed_at row = None" "now < lt_expires_at row"
    "launcher_tokens db' = update_where (\<lambda>r. lt_id r = lt_id row \<and> lt_consumed_at r = None)
       (\<lambda>r. r\<lparr>lt_consumed_at := Some now\<rparr>) (launcher_tokens db)"
    "local_sessions db' = local_sessions db @
       [\<lparr>ls_id = uid, ls_token_hash = hash_of tok, ls_csrf_hash = hash_of (csrf_token_of tok),
         ls_created_at = now, ls_expires_at = now + hours SESSION_HOURS, ls_last_seen_at = now\<rparr>]"
    "uid \<notin> ls_id ` set (local_sessions db)" "hash_of tok \<notin> ls_token_hash ` set (local_sessions db)"
    "s = \<lparr>es_token = tok, es_csrf_token = csrf_token_of tok, es_expires_at = now + hours SESSION_HOURS\<rparr>"
    "\<forall>q \<in> set (launcher_tokens db). lt_token_hash q = hash_of ltok \<longrightarrow> q = row"
proof -
  from assms obtain row where o: "one_or_none (\<lambda>r. lt_token_hash r = hash_of ltok) (launcher_tokens db) = Inr (Some row)"
    unfolding exchange_body_def by (simp split: sum.splits option.splits)
  note row = one_or_none_Some [OF o]
  have c: "lt_consumed_at row = None" "now < lt_expires_at row"
    using assms unfolding exchange_body_def o by (auto simp: Let_def split: if_splits)
  let ?s = "\<lparr>ls_id = uid, ls_token_hash = hash_of tok, ls_csrf_hash = hash_of (csrf_token_of tok),
     ls_created_at = now, ls_expires_at = now + hours SESSION_HOURS, ls_last_seen_at = now\<rparr>"
  let ?db1 = "db\<lparr>launcher_tokens := update_where (\<lambda>r. lt_id r = lt_id row \<and> lt_consumed_at r = None)
     (\<lambda>r. r\<lparr>lt_consumed_at := Some now\<rparr>) (launcher_tokens db)\<rparr>"
  have i: "insert_session ?s ?db1 = Inr db'"
    and s: "s = \<lparr>es_token = tok, es_csrf_token = csrf_token_of tok, es_expires_at = now + hours SESSION_HOURS\<rparr>"
    using assms c unfolding exchange_body_def o by (simp_all add: Let_def split: if_splits sum.splits)
  from i have db': "db' = ?db1\<lparr>local_sessions := local_sessions db @ [?s]\<rparr>" "uid \<notin> ls_id ` set (local_sessions db)"
      "hash_of tok \<notin> ls_token_hash ` set (local_sessions db)"
    unfolding insert_session_def by (simp_all split: if_splits)
  show ?thesis
    by (rule that [of row]) (use row c s db' in simp_all)
qed

lemma exchange_Inr:
  "exchange uid tok now ltok db = (Inr s, db') \<Longrightarrow> exchange_body uid tok now ltok db = Inr (s, db')"
  by (auto simp: exchange_def transaction_commit split: if_splits)

lemma exchange_Inl: "exchange uid tok now ltok db = (Inl e, db') \<Longrightarrow> db' = db"
  by (auto simp: exchange_def dest: transaction_error_rollback split: if_splits)

text \<open>Consuming one more token makes room for one more session.\<close>

lemma consumed_grows:
  fixes rows :: "launcher_token_row list"
  assumes "distinct (map lt_id rows)" and "row \<in> set rows" and "lt_consumed_at row = None"
  shows "rowcount consumed (update_where (\<lambda>r. lt_id r = lt_id row \<and> lt_consumed_at r = None)
      (\<lambda>r. r\<lparr>lt_consumed_at := Some now\<rparr>) rows) = rowcount consumed rows + 1"
  using assms
proof (induction rows)
  case (Cons a rows)
  let ?p = "\<lambda>r. lt_id r = lt_id row \<and> lt_consumed_at r = None" and ?f = "\<lambda>r. r\<lparr>lt_consumed_at := Some now\<rparr>"
  show ?case
  proof (cases "a = row")
    case True
    with Cons.prems have "update_where ?p ?f rows = rows"
      by (intro update_where_none) (auto simp: image_iff)
    with True Cons.prems show ?thesis by (simp add: update_where_def rowcount_def consumed_def)
  next
    case False
    with Cons.prems have r: "row \<in> set rows" "lt_id a \<noteq> lt_id row" by (auto simp: image_iff)
    with Cons.IH Cons.prems have "rowcount consumed (update_where ?p ?f rows) = rowcount consumed rows + 1" by simp
    moreover have "update_where ?p ?f (a # rows) = a # update_where ?p ?f rows"
      using r(2) by (simp add: update_where_def)
    ultimately show ?thesis by (simp add: rowcount_def)
  qed
qed simp

lemma issue_inv:
  assumes "session_inv db"
  shows "session_inv (snd (issue_launch_token uid token now db))"
  unfolding issue_launch_token_def
  by (rule transaction_invariant [where P = session_inv, OF assms])
    (use assms in \<open>auto simp: session_inv_def insert_launch_def launch_ok_def rowcount_def consumed_def
      split: sum.splits if_splits\<close>)

lemma exchange_inv:
  assumes inv: "session_inv db"
  shows "session_inv (snd (exchange uid tok now ltok db))"
proof (cases "exchange uid tok now ltok db")
  case (Pair r db')
  show ?thesis
  proof (cases r)
    case (Inl e)
    with Pair inv show ?thesis by (auto dest: exchange_Inl)
  next
    case (Inr s)
    show ?thesis
    proof (rule exchange_body_Inr [OF exchange_Inr [OF Pair [unfolded Inr]]])
      fix row :: launcher_token_row
      let ?p = "\<lambda>r. lt_id r = lt_id row \<and> lt_consumed_at r = None"
      assume row: "row \<in> set (launcher_tokens db)" "lt_consumed_at row = None"
        and lt: "launcher_tokens db' = update_where ?p (\<lambda>r. r\<lparr>lt_consumed_at := Some now\<rparr>) (launcher_tokens db)"
        and ls: "local_sessions db' = local_sessions db @
           [\<lparr>ls_id = uid, ls_token_hash = hash_of tok, ls_csrf_hash = hash_of (csrf_token_of tok),
             ls_created_at = now, ls_expires_at = now + hours SESSION_HOURS, ls_last_seen_at = now\<rparr>]"
        and new: "uid \<notin> ls_id ` set (local_sessions db)" "hash_of tok \<notin> ls_token_hash ` set (local_sessions db)"
      have d: "distinct (map lt_id (launcher_tokens db))" using inv by (simp add: session_inv_def)
      note more = consumed_grows [OF d row, of now, folded lt]
      have "\<forall>r \<in> set (launcher_tokens db'). launch_ok r"
        using inv by (auto simp: lt session_inv_def launch_ok_def)
      moreover have "distinct (map lt_id (launcher_tokens db'))" "distinct (map lt_token_hash (launcher_tokens db'))"
        using inv by (simp_all add: lt session_inv_def)
      moreover have "\<forall>r \<in> set (local_sessions db'). session_ok r"
        using inv by (auto simp: ls session_inv_def session_ok_def)
      moreover have "distinct (map ls_id (local_sessions db'))" "distinct (map ls_token_hash (local_sessions db'))"
        using inv new by (auto simp: ls session_inv_def)
      moreover have "length (local_sessions db') \<le> rowcount consumed (launcher_tokens db')"
        using inv more by (simp add: ls session_inv_def)
      ultimately show ?thesis using Pair by (simp add: session_inv_def)
    qed
  qed
qed

lemma session_update_inv:
  assumes "session_inv db" and "\<And>r. ls_id (f r) = ls_id r \<and> ls_token_hash (f r) = ls_token_hash r"
    and "\<And>r. session_ok r \<Longrightarrow> p r \<Longrightarrow> session_ok (f r)"
  shows "session_inv (db\<lparr>local_sessions := update_where p f (local_sessions db)\<rparr>)"
  using assms by (auto simp: session_inv_def)

lemma validate_inv: "session_inv db \<Longrightarrow> session_inv (snd (validate now tok csrf req db))"
  unfolding validate_def
  by (auto split: option.splits sum.splits intro!: session_update_inv simp: session_ok_def)

lemma rotate_inv: "session_inv db \<Longrightarrow> session_inv (snd (rotate_csrf now tok db))"
  unfolding rotate_csrf_def
  by (auto simp: Let_def split: option.splits intro!: session_update_inv simp: session_ok_def)

section \<open>Runs\<close>

datatype session_op =
    Begin string string datetime
  | Issue string string datetime
  | Exchange string string datetime string
  | Validate datetime "string option" "string option" bool
  | RotateCsrf datetime "string option"
  | Ensure string string datetime

fun session_step :: "session_db \<Rightarrow> session_op \<Rightarrow> session_db" where
  "session_step db (Begin uid token now) = snd (begin_process uid token now db)"
| "session_step db (Issue uid token now) = snd (issue_launch_token uid token now db)"
| "session_step db (Exchange uid tok now ltok) = snd (exchange uid tok now ltok db)"
| "session_step db (Validate now tok csrf req) = snd (validate now tok csrf req db)"
| "session_step db (RotateCsrf now tok) = snd (rotate_csrf now tok db)"
| "session_step db (Ensure uid secret now) = ensure_installation uid secret now db"

lemma ensure_inv: "session_inv db \<Longrightarrow> session_inv (ensure_installation uid secret now db)"
  by (auto simp: ensure_installation_def session_inv_def split: option.splits)

lemma session_inv_reset: "session_inv (db\<lparr>launcher_tokens := [], local_sessions := []\<rparr>)"
  by (simp add: session_inv_def)

interpretation session_runs: invariant_system session_step empty_session_db session_inv
proof
  show "session_inv empty_session_db" by (simp add: session_inv_def empty_session_db_def)
  show "session_inv (session_step db x)" if "session_inv db" for db x
    using that
    by (cases x)
      (simp_all add: begin_process_def issue_inv session_inv_reset exchange_inv validate_inv rotate_inv ensure_inv)
qed
section \<open>Launch tokens\<close>

definition spent :: "string \<Rightarrow> session_db \<Rightarrow> bool" where
  "spent h db \<longleftrightarrow> (\<forall>r \<in> set (launcher_tokens db). lt_token_hash r = h \<longrightarrow> consumed r)"

fun issues_hash :: "string \<Rightarrow> session_op \<Rightarrow> bool" where
  "issues_hash h (Begin uid token now) \<longleftrightarrow> hash_of token = h"
| "issues_hash h (Issue uid token now) \<longleftrightarrow> hash_of token = h"
| "issues_hash h _ \<longleftrightarrow> False"

lemma spent_issue:
  assumes "spent h db" and "hash_of token \<noteq> h"
  shows "spent h (snd (issue_launch_token uid token now db))"
  unfolding issue_launch_token_def
  by (rule transaction_invariant [where P = "spent h", OF assms(1)])
    (use assms in \<open>auto simp: spent_def insert_launch_def split: sum.splits if_splits\<close>)

lemma spent_exchange:
  assumes "spent h db"
  shows "spent h (snd (exchange uid tok now ltok db))"
proof (cases "exchange uid tok now ltok db")
  case (Pair r db')
  show ?thesis
  proof (cases r)
    case (Inl e)
    with Pair assms show ?thesis by (auto dest: exchange_Inl)
  next
    case (Inr s)
    show ?thesis
    proof (rule exchange_body_Inr [OF exchange_Inr [OF Pair [unfolded Inr]]])
      fix row :: launcher_token_row
      assume lt: "launcher_tokens db' = update_where (\<lambda>r. lt_id r = lt_id row \<and> lt_consumed_at r = None)
          (\<lambda>r. r\<lparr>lt_consumed_at := Some now\<rparr>) (launcher_tokens db)"
      have "consumed r" if r: "r \<in> set (launcher_tokens db')" "lt_token_hash r = h" for r
        using r(1) unfolding lt
        by (cases rule: in_update_where) (use assms r(2) in \<open>simp_all add: spent_def consumed_def\<close>)
      then show ?thesis using Pair by (simp add: spent_def)
    qed
  qed
qed

lemma launch_frame:
  "launcher_tokens (snd (validate now tok csrf req db)) = launcher_tokens db"
  "launcher_tokens (snd (rotate_csrf now tok db)) = launcher_tokens db"
  "launcher_tokens (ensure_installation uid secret now db) = launcher_tokens db"
  by (auto simp: validate_def rotate_csrf_def ensure_installation_def Let_def
      split: option.splits sum.splits)

lemma spent_reset: "spent h (db\<lparr>launcher_tokens := [], local_sessions := []\<rparr>)"
  by (simp add: spent_def)

lemma spent_frame: "launcher_tokens db' = launcher_tokens db \<Longrightarrow> spent h db' = spent h db"
  by (simp add: spent_def)

lemma spent_run:
  "spent h db \<Longrightarrow> list_all (\<lambda>x. \<not> issues_hash h x) ops \<Longrightarrow> spent h (run session_step db ops)"
proof (induction ops arbitrary: db)
  case (Cons x ops)
  have "spent h (session_step db x)"
  proof (cases x)
    case (Begin uid token now)
    with Cons.prems show ?thesis by (simp add: begin_process_def spent_issue spent_reset)
  next
    case (Issue uid token now)
    with Cons.prems show ?thesis by (simp add: spent_issue)
  qed (use Cons.prems in \<open>simp_all add: spent_exchange spent_frame [OF launch_frame(1)] spent_frame [OF launch_frame(2)]
      spent_frame [OF launch_frame(3)]\<close>)
  with Cons show ?case by simp
qed simp

lemma exchange_refused:
  assumes "session_inv db" and "spent (hash_of ltok) db"
  shows "exchange uid tok now ltok db = (Inl launch_error, db)"
proof (cases "\<exists>r \<in> set (launcher_tokens db). lt_token_hash r = hash_of ltok")
  case True
  then obtain r where r: "r \<in> set (launcher_tokens db)" "lt_token_hash r = hash_of ltok" by blast
  have "one_or_none (\<lambda>q. lt_token_hash q = hash_of ltok) (launcher_tokens db) = Inr (Some r)"
    using assms(1) r by (intro one_or_none_key) (simp_all add: session_inv_def)
  moreover have "lt_consumed_at r \<noteq> None" using assms(2) r by (auto simp: spent_def consumed_def)
  ultimately show ?thesis by (simp add: exchange_def transaction_def exchange_body_def)
next
  case False
  then have "one_or_none (\<lambda>q. lt_token_hash q = hash_of ltok) (launcher_tokens db) = Inr None"
    by (intro one_or_none_absent) blast
  then show ?thesis by (simp add: exchange_def transaction_def exchange_body_def)
qed

text \<open>
  C12: A launch token opens at most one session. After a successful exchange, whatever else happens
  (new processes, other tokens, exchanges, validations, rotations), as long as nobody issues a token
  with the same hash again, a second exchange of it is refused and changes nothing.
\<close>

theorem launch_token_single_use:
  assumes "session_inv db" and "exchange uid tok now ltok db = (Inr s, db')"
    and "list_all (\<lambda>x. \<not> issues_hash (hash_of ltok) x) ops"
  shows "exchange uid' tok' now' ltok (run session_step db' ops) = (Inl launch_error, run session_step db' ops)"
proof -
  have "spent (hash_of ltok) db'"
  proof (rule exchange_body_Inr [OF exchange_Inr [OF assms(2)]])
    fix row :: launcher_token_row
    assume lt: "launcher_tokens db' = update_where (\<lambda>r. lt_id r = lt_id row \<and> lt_consumed_at r = None)
        (\<lambda>r. r\<lparr>lt_consumed_at := Some now\<rparr>) (launcher_tokens db)"
      and u: "\<forall>q \<in> set (launcher_tokens db). lt_token_hash q = hash_of ltok \<longrightarrow> q = row"
    have "consumed r" if r: "r \<in> set (launcher_tokens db')" "lt_token_hash r = hash_of ltok" for r
      using r(1) unfolding lt
    proof (cases rule: in_update_where)
      case same
      with u r(2) show ?thesis by (auto simp: consumed_def)
    qed (simp add: consumed_def)
    then show ?thesis by (simp add: spent_def)
  qed
  then have "spent (hash_of ltok) (run session_step db' ops)" by (rule spent_run [OF _ assms(3)])
  moreover have "session_inv db'" using exchange_inv [OF assms(1), of uid tok now ltok] assms(2) by simp
  then have "session_inv (run session_step db' ops)" by (rule session_runs.run_from_inv)
  ultimately show ?thesis by (rule exchange_refused [rotated])
qed

text \<open>A concrete launch; the hashes stay symbolic.\<close>

definition launched :: session_db where
  "launched = snd (begin_process ''l1'' ''launch'' 0 empty_session_db)"

lemma launched_inv: "session_inv launched"
  using session_runs.run_inv [of "[Begin ''l1'' ''launch'' 0]"] by (simp add: launched_def)

lemma launched_tokens:
  "launcher_tokens launched = [\<lparr>lt_id = ''l1'', lt_token_hash = hash_of ''launch'', lt_created_at = 0,
     lt_expires_at = minutes LAUNCH_MINUTES, lt_consumed_at = None\<rparr>]" "local_sessions launched = []"
  by (simp_all add: launched_def begin_process_def issue_launch_token_def transaction_def insert_launch_def
      empty_session_db_def)

lemma launched_exchange:
  obtains db' where "exchange ''s1'' ''session'' 60 ''launch'' launched =
    (Inr \<lparr>es_token = ''session'', es_csrf_token = csrf_token_of ''session'', es_expires_at = 60 + hours SESSION_HOURS\<rparr>, db')"
proof -
  have "0 < minutes LAUNCH_MINUTES" "60 < minutes LAUNCH_MINUTES" by code_simp+
  then show ?thesis
    using that by (simp add: exchange_def transaction_def exchange_body_def one_or_none_def launched_tokens
        rowcount_def Let_def insert_session_def)
qed

theorem launch_token_single_use_witness:
  "\<exists>db'. snd (exchange ''s1'' ''session'' 60 ''launch'' launched) = db' \<and>
     exchange ''s2'' ''other'' 61 ''launch'' db' = (Inl launch_error, db')"
proof -
  obtain db' where e: "exchange ''s1'' ''session'' 60 ''launch'' launched =
      (Inr \<lparr>es_token = ''session'', es_csrf_token = csrf_token_of ''session'', es_expires_at = 60 + hours SESSION_HOURS\<rparr>, db')"
    by (rule launched_exchange)
  from launch_token_single_use [OF launched_inv e, of "[]" "''s2''" "''other''" 61] show ?thesis by (simp add: e)
qed

section \<open>Sessions\<close>

text \<open>
  C36: In every reachable state there are at most as many sessions as launch tokens were consumed
  since the process began, session hashes are unique, no session outlives its twelve hours and no
  launch token its five minutes.
\<close>

theorem sessions_bounded:
  assumes "reachable_from session_step empty_session_db db"
  shows "length (local_sessions db) \<le> rowcount (\<lambda>r. lt_consumed_at r \<noteq> None) (launcher_tokens db) \<and>
    distinct (map ls_token_hash (local_sessions db)) \<and>
    (\<forall>tok csrf req now r. tok \<noteq> [] \<and> r \<in> set (local_sessions db) \<and> ls_token_hash r = hash_of tok \<and>
       ls_created_at r + hours SESSION_HOURS \<le> now \<longrightarrow> validate now (Some tok) csrf req db = (Inr False, db)) \<and>
    (\<forall>uid tok now ltok r. r \<in> set (launcher_tokens db) \<and> lt_token_hash r = hash_of ltok \<and>
       lt_created_at r + minutes LAUNCH_MINUTES \<le> now \<longrightarrow> exchange uid tok now ltok db = (Inl launch_error, db))"
proof -
  have inv: "session_inv db" by (rule session_runs.reachable_inv [OF assms])
  have "validate now (Some tok) csrf req db = (Inr False, db)"
    if "tok \<noteq> []" "r \<in> set (local_sessions db)" "ls_token_hash r = hash_of tok" "ls_created_at r + hours SESSION_HOURS \<le> now"
    for tok csrf req now r
    using inv that one_or_none_key [of ls_token_hash "local_sessions db" r "hash_of tok"]
    by (auto simp: validate_def session_inv_def session_ok_def)
  moreover have "exchange uid tok now ltok db = (Inl launch_error, db)"
    if "r \<in> set (launcher_tokens db)" "lt_token_hash r = hash_of ltok" "lt_created_at r + minutes LAUNCH_MINUTES \<le> now"
    for uid tok now ltok r
    using inv that one_or_none_key [of lt_token_hash "launcher_tokens db" r "hash_of ltok"]
    by (auto simp: exchange_def transaction_def exchange_body_def session_inv_def launch_ok_def)
  moreover have "consumed = (\<lambda>r. lt_consumed_at r \<noteq> None)" by (simp add: consumed_def fun_eq_iff)
  ultimately show ?thesis using inv by (auto simp: session_inv_def)
qed

theorem sessions_bounded_witness:
  "exchange ''s'' ''t'' (minutes LAUNCH_MINUTES) ''launch'' launched = (Inl launch_error, launched)"
proof -
  have "reachable_from session_step empty_session_db launched"
    using reach_step [OF reach_init, of session_step empty_session_db "Begin ''l1'' ''launch'' 0"] by (simp add: launched_def)
  from sessions_bounded [OF this] launched_tokens(1) show ?thesis by simp
qed

lemma validate_session:
  assumes "session_inv db" and "r \<in> set (local_sessions db)" and "ls_token_hash r = hash_of tok" and "tok \<noteq> []"
    and "now < ls_expires_at r"
  shows "fst (validate now (Some tok) csrf req db) =
    Inr (\<not> req \<or> (\<exists>c. csrf = Some c \<and> c \<noteq> [] \<and> hash_of c = ls_csrf_hash r))"
    and "fst (validate now (Some tok) csrf req db) = Inr False \<Longrightarrow> snd (validate now (Some tok) csrf req db) = db"
  using assms one_or_none_key [of ls_token_hash "local_sessions db" r "hash_of tok"]
  by (auto simp: validate_def session_inv_def split: option.splits)

lemma hexdigest_nonempty: "bs \<noteq> [] \<Longrightarrow> hexdigest bs \<noteq> []"
  by (cases bs) (auto simp: hexdigest_def hex_byte_def Let_def)

lemma length_compress: "length hs = 8 \<Longrightarrow> length (compress hs bl) = 8"
  by (auto simp: compress_def Let_def split: prod.splits)

lemma length_foldl_compress: "length hs = 8 \<Longrightarrow> length (foldl compress hs bls) = 8"
  by (induction bls arbitrary: hs) (simp_all add: length_compress)

lemma length_sha256_init: "length sha256_init = 8"
proof -
  let ?ps = "[2, 3, 5, 7, 11, 13, 17, 19] :: int list"
  have "list_all (\<lambda>n. list_all (\<lambda>d. n mod d \<noteq> 0) [2..n - 1] \<and> 2 \<le> n \<and> n \<le> 311) ?ps" by code_simp
  then have "\<forall>n \<in> set ?ps. list_all (\<lambda>d. n mod d \<noteq> 0) [2..n - 1] \<and> 2 \<le> n \<and> n \<le> 311"
    by (simp only: list_all_iff)
  then have "set ?ps \<subseteq> set small_primes"
    unfolding small_primes_def set_filter set_upto atLeastAtMost_iff subset_iff mem_Collect_eq by blast
  then have "card (set ?ps) \<le> length small_primes" by (meson card_length card_mono finite_set le_trans)
  then show ?thesis by (simp add: sha256_init_def)
qed

lemma sha256_nonempty: "sha256 m \<noteq> []"
proof -
  obtain w ws where "foldl compress sha256_init (blocks (words_of_bytes (pad m))) = w # ws"
    using length_foldl_compress [of sha256_init "blocks (words_of_bytes (pad m))"]
    by (cases "foldl compress sha256_init (blocks (words_of_bytes (pad m)))") (simp_all add: length_sha256_init)
  moreover have "be_bytes 4 (ucast w) \<noteq> []" by (metis length_be_bytes list.size(3) zero_neq_numeral)
  ultimately show ?thesis by (simp add: sha256_def)
qed

lemma csrf_token_nonempty: "csrf_token_of tok \<noteq> []"
  unfolding csrf_token_of_def hmac_sha256_def Let_def by (rule hexdigest_nonempty) (rule sha256_nonempty)

text \<open>
  C35: The credentials handed out by an exchange work, and only those. Until the session expires the
  session token is accepted, with the CSRF token also for state-changing requests; a CSRF token with
  another hash is rejected and changes nothing; and asking for the CSRF token again (another tab)
  returns the same one, so the copies held by other tabs stay valid.
\<close>

theorem exchanged_credentials:
  assumes "session_inv db" and "exchange uid tok now ltok db = (Inr s, db')" and "tok \<noteq> []"
    and "now' < now + hours SESSION_HOURS"
  shows "es_token s = tok \<and> fst (validate now' (Some (es_token s)) (Some (es_csrf_token s)) True db') = Inr True \<and>
    fst (validate now' (Some (es_token s)) None False db') = Inr True \<and>
    (\<forall>c. hash_of c \<noteq> hash_of (es_csrf_token s) \<longrightarrow>
       validate now' (Some (es_token s)) (Some c) True db' = (Inr False, db')) \<and>
    validate now' (Some (es_token s)) None True db' = (Inr False, db') \<and>
    fst (rotate_csrf now' (Some (es_token s)) db') = Inr (es_csrf_token s)"
proof (rule exchange_body_Inr [OF exchange_Inr [OF assms(2)]])
  let ?r = "\<lparr>ls_id = uid, ls_token_hash = hash_of tok, ls_csrf_hash = hash_of (csrf_token_of tok),
     ls_created_at = now, ls_expires_at = now + hours SESSION_HOURS, ls_last_seen_at = now\<rparr>"
  assume ls: "local_sessions db' = local_sessions db @ [?r]"
    and s: "s = \<lparr>es_token = tok, es_csrf_token = csrf_token_of tok, es_expires_at = now + hours SESSION_HOURS\<rparr>"
  have inv': "session_inv db'" using exchange_inv [OF assms(1), of uid tok now ltok] assms(2) by simp
  have r: "?r \<in> set (local_sessions db')" by (simp add: ls)
  note v = validate_session [OF inv' r _ assms(3), of now', simplified, OF assms(4)]
  have "rowcount (\<lambda>q. ls_token_hash q = hash_of tok \<and> ls_expires_at q > now') (local_sessions db') = 1"
    using rowcount_key [of ls_token_hash "local_sessions db'" ?r "\<lambda>q. ls_expires_at q > now'"] inv' r assms(4)
    by (simp add: session_inv_def)
  then have "fst (rotate_csrf now' (Some tok) db') = Inr (csrf_token_of tok)"
    using assms(3) by (simp add: rotate_csrf_def Let_def)
  then show ?thesis
    using v csrf_token_nonempty [of tok] by (auto simp: s prod_eq_iff)
qed

theorem exchanged_credentials_witness:
  "\<exists>s db'. exchange ''s1'' ''session'' 60 ''launch'' launched = (Inr s, db') \<and>
     fst (validate 120 (Some (es_token s)) (Some (es_csrf_token s)) True db') = Inr True"
proof -
  obtain db' where e: "exchange ''s1'' ''session'' 60 ''launch'' launched =
      (Inr \<lparr>es_token = ''session'', es_csrf_token = csrf_token_of ''session'', es_expires_at = 60 + hours SESSION_HOURS\<rparr>, db')"
    by (rule launched_exchange)
  have "120 < 60 + hours SESSION_HOURS" by code_simp
  from exchanged_credentials [OF launched_inv e _ this] show ?thesis by (auto simp: e)
qed

text \<open>
  Starting a process revokes everything that came before. After \<^verbatim>\<open>begin_process\<close> no session token
  is accepted, no CSRF token can be obtained, and only the launch token just issued (or one with its
  hash) can be exchanged.
\<close>

theorem begin_process_revokes:
  "fst (begin_process uid token now db) = Inr token \<and>
   fst (validate now' st csrf req (snd (begin_process uid token now db))) = Inr False \<and>
   isl (fst (rotate_csrf now' st (snd (begin_process uid token now db)))) \<and>
   (\<forall>uid' tok' ltok. hash_of ltok \<noteq> hash_of token \<longrightarrow>
      fst (exchange uid' tok' now' ltok (snd (begin_process uid token now db))) = Inl launch_error)"
proof -
  let ?db = "snd (begin_process uid token now db)"
  have db: "local_sessions ?db = []" "map lt_token_hash (launcher_tokens ?db) = [hash_of token]"
      "fst (begin_process uid token now db) = Inr token"
    by (simp_all add: begin_process_def issue_launch_token_def transaction_def insert_launch_def)
  have "one_or_none (\<lambda>r. lt_token_hash r = hash_of ltok) (launcher_tokens ?db) = Inr None"
    if "hash_of ltok \<noteq> hash_of token" for ltok
    using db(2) that by (intro one_or_none_absent) auto
  then show ?thesis
    using db by (auto simp: validate_def rotate_csrf_def one_or_none_def exchange_def transaction_def
        exchange_body_def rowcount_def Let_def split: option.splits)
qed

theorem begin_process_revokes_witness:
  "fst (validate 5 (Some ''session'') None False (snd (begin_process ''l2'' ''again'' 4 launched))) = Inr False"
  using begin_process_revokes [of "''l2''" "''again''" 4 launched 5 "Some ''session''" None False] by blast

end
