(* ===== verification/Ledger.thy ===== *)
theory Ledger
  imports Maintenance
begin

text \<open>
  The spend ledger (\<^verbatim>\<open>app/usage/ledger.py\<close>): an append-only table of usage events, from which the
  state of every provider attempt is derived, and a table of leases that bounds the paid calls in
  flight. \<open>reserve\<close> admits an attempt under the monthly, per-operation and concurrency limits;
  \<open>settle\<close> and \<open>mark_uncertain\<close> finish it; \<open>correct_uncertain\<close> reconciles an uncertain one;
  \<open>recover_usage_attempts\<close> turns the reservations of dead processes into uncertain charges.

  The random parts of a call (\<^verbatim>\<open>uuid.uuid4()\<close>) and the time-zone database are in \<open>ledger_env\<close>.
\<close>

section \<open>Data\<close>

record usage_reservation =
  ur_operation_id :: string
  ur_attempt_id :: string
  ur_reserved_usd :: rat
  ur_cost_known :: bool

record usage_summary =
  us_month :: month
  us_timezone :: string
  us_cap_usd :: rat
  us_settled_usd :: rat
  us_reserved_usd :: rat
  us_uncertain_usd :: rat
  us_remaining_usd :: rat
  us_unknown_cost_attempts :: nat
  us_unknown_cost_in_flight :: nat
  us_unknown_cost_uncertain :: nat
  us_history_pruned_before :: "string option"

record attempt_state =
  as_operation_id :: string
  as_reserved_at :: datetime
  as_status :: string
  as_amount :: rat
  as_cost_known :: bool

record unresolved_attempt =
  ua_attempt_id :: string
  ua_operation_id :: string
  ua_provider :: string
  ua_profile_id :: string
  ua_status :: string
  ua_amount_usd :: rat
  ua_cost_known :: bool
  ua_reserved_at :: datetime

record ledger_env =
  le_process :: process
  le_owner_random :: nat
  le_uuid :: "nat \<Rightarrow> string"
  le_tzdb :: tzdb

record reserve_request =
  rq_operation_id :: string
  rq_attempt_id :: string
  rq_provider :: string
  rq_profile_id :: string
  rq_projected_usd :: decimal
  rq_monthly_cap_usd :: rat
  rq_per_operation_cap_usd :: rat
  rq_timezone :: string
  rq_price_snapshot :: json_object
  rq_lease_seconds :: int
  rq_max_concurrent :: int
  rq_cost_known :: bool

section \<open>Reading the ledger\<close>

definition money :: "decimal \<Rightarrow> rat result" where
  "money v =
     (case v of
        NonFinite \<Rightarrow> Inl (ValueError ''Spend amount must be finite.'')
      | Dec x \<Rightarrow> quantize8 x)"

definition event_rows :: "state_db \<Rightarrow> usage_event list" where
  "event_rows db = sort_key (\<lambda>r. (ue_created_at r, ue_id r)) (usage_events db)"

definition cost_known_of :: "usage_event \<Rightarrow> bool" where
  "cost_known_of r =
     (case ue_price_snapshot_json r of
        Malformed \<Rightarrow> True
      | Dumped j \<Rightarrow> map_of j ''cost_known'' \<noteq> Some (JBool False))"

text \<open>\<^verbatim>\<open>by_type = {row["event_type"]: row for row in rows}\<close>: the last row of a type wins.\<close>

definition by_type :: "usage_event_type \<Rightarrow> usage_event list \<Rightarrow> usage_event option" where
  "by_type t rows =
     (case filter (\<lambda>r. ue_event_type r = t) rows of [] \<Rightarrow> None | r # rs \<Rightarrow> Some (last (r # rs)))"

definition final_row :: "usage_event list \<Rightarrow> usage_event \<Rightarrow> usage_event" where
  "final_row rows reserve =
     (case by_type CORRECTION rows of
        Some r \<Rightarrow> r
      | None \<Rightarrow>
          (case by_type SETTLE rows of
             Some r \<Rightarrow> r
           | None \<Rightarrow> (case by_type UNCERTAIN rows of Some r \<Rightarrow> r | None \<Rightarrow> reserve)))"

definition attempt_state_of :: "usage_event list \<Rightarrow> attempt_state option" where
  "attempt_state_of rows =
     (case by_type RESERVE rows of
        None \<Rightarrow> None
      | Some reserve \<Rightarrow>
          (let final = final_row rows reserve in
           Some \<lparr>as_operation_id = ue_operation_id reserve,
                 as_reserved_at = ue_created_at reserve,
                 as_status = ue_status final,
                 as_amount = ue_amount_usd final,
                 as_cost_known = cost_known_of final\<rparr>))"

text \<open>The keys of \<^verbatim>\<open>grouped\<close>, in order of first appearance.\<close>

definition attempt_ids :: "usage_event list \<Rightarrow> string list" where
  "attempt_ids events = rev (remdups (rev (map ue_attempt_id events)))"

definition attempt_rows :: "usage_event list \<Rightarrow> string \<Rightarrow> usage_event list" where
  "attempt_rows events a = filter (\<lambda>r. ue_attempt_id r = a) events"

definition attempt_states :: "usage_event list \<Rightarrow> (string \<times> attempt_state) list" where
  "attempt_states events =
     List.map_filter (\<lambda>a. map_option (Pair a) (attempt_state_of (attempt_rows events a)))
       (attempt_ids events)"

definition status_of :: "(string \<times> attempt_state) list \<Rightarrow> string \<Rightarrow> string option" where
  "status_of states a = map_option as_status (map_of states a)"

definition zone_offset :: "tzdb \<Rightarrow> string \<Rightarrow> (datetime \<Rightarrow> timedelta) result" where
  "zone_offset tz name =
     (case tz name of None \<Rightarrow> Inl (ZoneInfoNotFound name) | Some off \<Rightarrow> Inr off)"

definition sum_states :: "(attempt_state \<Rightarrow> bool) \<Rightarrow> (string \<times> attempt_state) list \<Rightarrow> rat" where
  "sum_states p states = sum_where (\<lambda>x. p (snd x)) (\<lambda>x. as_amount (snd x)) states"

section \<open>Statements\<close>

definition insert_event :: "usage_event \<Rightarrow> state_db \<Rightarrow> state_db result" where
  "insert_event r db =
     (if ue_id r \<in> set (map ue_id (usage_events db))
      then Inl (IntegrityError ''UNIQUE constraint failed: usage_events.id'')
      else Inr (db\<lparr>usage_events := usage_events db @ [r]\<rparr>))"

definition insert_lease :: "paid_call_lease \<Rightarrow> state_db \<Rightarrow> state_db result" where
  "insert_lease l db =
     (if pl_attempt_id l \<in> set (map pl_attempt_id (paid_call_leases db))
      then Inl (IntegrityError ''UNIQUE constraint failed: paid_call_leases.attempt_id'')
      else Inr (db\<lparr>paid_call_leases := paid_call_leases db @ [l]\<rparr>))"

definition delete_lease :: "string \<Rightarrow> state_db \<Rightarrow> state_db" where
  "delete_lease a db =
     db\<lparr>paid_call_leases := delete_where (\<lambda>l. pl_attempt_id l = a) (paid_call_leases db)\<rparr>"

section \<open>Recovery\<close>

text \<open>
  \<^verbatim>\<open>snapshot.get("process_owner")\<close> as \<^verbatim>\<open>owner_alive\<close> reads it: a falsy value is no owner, and a
  truthy value that is not a string has no \<^verbatim>\<open>startswith\<close>.
\<close>

definition snapshot_owner :: "json_object \<Rightarrow> string option result" where
  "snapshot_owner j =
     (case map_of j ''process_owner'' of
        None \<Rightarrow> Inr None
      | Some (JStr s) \<Rightarrow> Inr (Some s)
      | Some JNull \<Rightarrow> Inr None
      | Some (JBool False) \<Rightarrow> Inr None
      | Some (JInt n) \<Rightarrow> if n = 0 then Inr None else Inl (AttributeError ''startswith'')
      | Some (JReal x) \<Rightarrow> if x = 0 then Inr None else Inl (AttributeError ''startswith'')
      | Some (JList []) \<Rightarrow> Inr None
      | Some (JObj []) \<Rightarrow> Inr None
      | Some _ \<Rightarrow> Inl (AttributeError ''startswith''))"

definition recovery_event :: "string \<Rightarrow> datetime \<Rightarrow> usage_event \<Rightarrow> json_object \<Rightarrow> usage_event" where
  "recovery_event uid now row j =
     \<lparr>ue_id = uid,
      ue_operation_id = ue_operation_id row,
      ue_attempt_id = ue_attempt_id row,
      ue_event_type = UNCERTAIN,
      ue_provider = ue_provider row,
      ue_profile_id = ue_profile_id row,
      ue_amount_usd = ue_amount_usd row,
      ue_input_tokens = None,
      ue_output_tokens = None,
      ue_price_snapshot_json =
        Dumped (AList.update ''recovery_reason''
          (JStr ''Provider process stopped before settlement.'') j),
      ue_status = ''uncertain'',
      ue_created_at = now\<rparr>"

definition keep_reservation :: "bool option \<Rightarrow> paid_call_lease list \<Rightarrow> string \<Rightarrow> datetime \<Rightarrow> bool" where
  "keep_reservation alive leases a now \<longleftrightarrow>
     alive = Some True \<or>
     (alive = None \<and>
      (case select_first (\<lambda>l. pl_attempt_id l = a) leases of
         None \<Rightarrow> now | Some l \<Rightarrow> pl_expires_at l) > now)"

fun recover_rows ::
  "(string option \<Rightarrow> bool option result) \<Rightarrow> (nat \<Rightarrow> string) \<Rightarrow> datetime \<Rightarrow>
   (string \<times> attempt_state) list \<Rightarrow> paid_call_lease list \<Rightarrow> usage_event list \<Rightarrow>
   nat \<Rightarrow> state_db \<Rightarrow> (nat \<times> state_db) result" where
  "recover_rows alive uid now states leases [] n db = Inr (n, db)"
| "recover_rows alive uid now states leases (row # rows) n db =
     (if ue_event_type row \<noteq> RESERVE \<or> status_of states (ue_attempt_id row) \<noteq> Some ''reserved''
      then recover_rows alive uid now states leases rows n db
      else (case json_loads (ue_price_snapshot_json row) of
              Inl e \<Rightarrow> Inl e
            | Inr j \<Rightarrow>
                (case snapshot_owner j of
                   Inl e \<Rightarrow> Inl e
                 | Inr owner \<Rightarrow>
                     (case alive owner of
                        Inl e \<Rightarrow> Inl e
                      | Inr a \<Rightarrow>
                          if keep_reservation a leases (ue_attempt_id row) now
                          then recover_rows alive uid now states leases rows n db
                          else (case insert_event (recovery_event (uid n) now row j) db of
                                  Inl e \<Rightarrow> Inl e
                                | Inr db' \<Rightarrow>
                                    recover_rows alive uid now states leases rows (n + 1)
                                      (delete_lease (ue_attempt_id row) db'))))))"

definition recover_usage_attempts ::
  "(string option \<Rightarrow> bool option result) \<Rightarrow> (nat \<Rightarrow> string) \<Rightarrow> datetime \<Rightarrow> (state_db, nat) tx" where
  "recover_usage_attempts alive uid now db =
     (let events = event_rows db in
      recover_rows alive uid now (attempt_states events) (paid_call_leases db) events 0 db)"

section \<open>Operations\<close>

definition counted :: "attempt_state \<Rightarrow> bool" where
  "counted s \<longleftrightarrow> as_status s \<in> {''reserved'', ''settled'', ''uncertain''}"

definition outstanding :: "attempt_state \<Rightarrow> bool" where
  "outstanding s \<longleftrightarrow> as_status s \<in> {''reserved'', ''uncertain''}"

definition month_total :: "(datetime \<Rightarrow> timedelta) \<Rightarrow> datetime \<Rightarrow> (string \<times> attempt_state) list \<Rightarrow> rat" where
  "month_total off now states =
     sum_states (\<lambda>s. month_in_zone off (as_reserved_at s) = month_in_zone off now \<and> counted s) states"

definition outstanding_prior :: "(datetime \<Rightarrow> timedelta) \<Rightarrow> datetime \<Rightarrow> (string \<times> attempt_state) list \<Rightarrow> rat" where
  "outstanding_prior off now states =
     sum_states (\<lambda>s. month_in_zone off (as_reserved_at s) \<noteq> month_in_zone off now \<and> outstanding s) states"

definition operation_total :: "string \<Rightarrow> (string \<times> attempt_state) list \<Rightarrow> rat" where
  "operation_total op states = sum_states (\<lambda>s. as_operation_id s = op \<and> counted s) states"

definition reserve_event ::
  "string \<Rightarrow> datetime \<Rightarrow> string \<Rightarrow> rat \<Rightarrow> reserve_request \<Rightarrow> usage_event" where
  "reserve_event uid now owner projected rq =
     \<lparr>ue_id = uid,
      ue_operation_id = rq_operation_id rq,
      ue_attempt_id = rq_attempt_id rq,
      ue_event_type = RESERVE,
      ue_provider = rq_provider rq,
      ue_profile_id = rq_profile_id rq,
      ue_amount_usd = projected,
      ue_input_tokens = None,
      ue_output_tokens = None,
      ue_price_snapshot_json =
        Dumped (AList.update ''process_owner'' (JStr owner)
          (AList.update ''cost_known'' (JBool (rq_cost_known rq)) (rq_price_snapshot rq))),
      ue_status = ''reserved'',
      ue_created_at = now\<rparr>"

text \<open>The body of the transaction of \<^verbatim>\<open>UsageLedger.reserve\<close>.\<close>

definition reserve_body ::
  "ledger_env \<Rightarrow> os_state \<Rightarrow> datetime \<Rightarrow> string \<Rightarrow> rat \<Rightarrow> reserve_request \<Rightarrow>
   (state_db, usage_reservation) tx" where
  "reserve_body env os now owner projected rq db0 =
     (case maintenance_active (proc_engine (le_process env)) os db0 of
        Inl e \<Rightarrow> Inl e
      | Inr (True, _) \<Rightarrow>
          Inl (PaidCapacityUnavailable ''Workspace maintenance is active; paid work was not admitted.'')
      | Inr (False, db1) \<Rightarrow>
     (case recover_usage_attempts (owner_alive (proc_engine (le_process env)) os) (le_uuid env) now db1 of
        Inl e \<Rightarrow> Inl e
      | Inr (n, db2) \<Rightarrow>
          let events = event_rows db2 in
          if rq_attempt_id rq \<in> set (map ue_attempt_id events)
          then Inl (SpendDenied ''This provider attempt has already been accounted for.'')
          else (let states = attempt_states events in
     (case zone_offset (le_tzdb env) (rq_timezone rq) of
        Inl e \<Rightarrow> Inl e
      | Inr off \<Rightarrow>
          if rq_cost_known rq \<and>
             operation_total (rq_operation_id rq) states + projected > rq_per_operation_cap_usd rq
          then Inl (SpendDenied ''The operation would exceed its configured spend ceiling.'')
          else if rq_cost_known rq \<and>
             month_total off now states + outstanding_prior off now states + projected
               > rq_monthly_cap_usd rq
          then Inl (SpendDenied ''The request would exceed the local monthly API budget.'')
          else if int (length (paid_call_leases db2)) \<ge> rq_max_concurrent rq
          then Inl (PaidCapacityUnavailable
            ''The configured concurrent paid-request limit is already active in this workspace.'')
          else (case insert_event (reserve_event (le_uuid env n) now owner projected rq) db2 of
                  Inl e \<Rightarrow> Inl e
                | Inr db3 \<Rightarrow>
                    (case insert_lease
                        \<lparr>pl_attempt_id = rq_attempt_id rq, pl_operation_id = rq_operation_id rq,
                         pl_expires_at = now + seconds (rq_lease_seconds rq), pl_created_at = now\<rparr> db3 of
                       Inl e \<Rightarrow> Inl e
                     | Inr db4 \<Rightarrow>
                         Inr (\<lparr>ur_operation_id = rq_operation_id rq, ur_attempt_id = rq_attempt_id rq,
                               ur_reserved_usd = projected, ur_cost_known = rq_cost_known rq\<rparr>, db4)))))))"

definition reserve ::
  "ledger_env \<Rightarrow> datetime \<Rightarrow> reserve_request \<Rightarrow> os_state \<Rightarrow> state_db \<Rightarrow>
   usage_reservation result \<times> os_state \<times> state_db" where
  "reserve env now rq os db =
     (case money (rq_projected_usd rq) of
        Inl e \<Rightarrow> (Inl e, os, db)
      | Inr projected \<Rightarrow>
          if projected < 0
          then (Inl (ValueError ''Projected spend cannot be negative.''), os, db)
          else if \<not> rq_cost_known rq \<and> projected \<noteq> 0
          then (Inl (ValueError ''Unknown-cost reservations cannot claim a USD amount.''), os, db)
          else (case process_owner (le_process env) (le_owner_random env) os of
                  Inl e \<Rightarrow> (Inl e, os, db)
                | Inr (owner, os') \<Rightarrow>
                    (case transaction (reserve_body env os' now owner projected rq) db of
                       (r, db') \<Rightarrow> (r, os', db'))))"

definition finish_status :: "usage_event_type \<Rightarrow> string" where
  "finish_status t = (if t = SETTLE then ''settled'' else event_value t)"

definition finish_body ::
  "(nat \<Rightarrow> string) \<Rightarrow> datetime \<Rightarrow> usage_reservation \<Rightarrow> usage_event_type \<Rightarrow> decimal \<Rightarrow>
   int option \<Rightarrow> int option \<Rightarrow> json_object \<Rightarrow> string \<Rightarrow> string \<Rightarrow> (state_db, unit) tx" where
  "finish_body uid now rsv t amount itoks otoks snap provider profile db =
     (case status_of (attempt_states (event_rows db)) (ur_attempt_id rsv) of
        Some st \<Rightarrow>
          if st \<noteq> ''reserved''
          then Inl (SpendDenied ''Provider attempt is not an outstanding reservation.'')
          else (case money amount of
                  Inl e \<Rightarrow> Inl e
                | Inr usd \<Rightarrow>
                    (case insert_event
                        \<lparr>ue_id = uid 0, ue_operation_id = ur_operation_id rsv,
                         ue_attempt_id = ur_attempt_id rsv, ue_event_type = t,
                         ue_provider = provider, ue_profile_id = profile, ue_amount_usd = usd,
                         ue_input_tokens = itoks, ue_output_tokens = otoks,
                         ue_price_snapshot_json = Dumped snap, ue_status = finish_status t,
                         ue_created_at = now\<rparr> db of
                       Inl e \<Rightarrow> Inl e
                     | Inr db' \<Rightarrow> Inr ((), delete_lease (ur_attempt_id rsv) db')))
      | None \<Rightarrow> Inl (SpendDenied ''Provider attempt is not an outstanding reservation.''))"

definition settle ::
  "(nat \<Rightarrow> string) \<Rightarrow> datetime \<Rightarrow> usage_reservation \<Rightarrow> decimal \<Rightarrow> int option \<Rightarrow> int option \<Rightarrow>
   json_object \<Rightarrow> string \<Rightarrow> string \<Rightarrow> state_db \<Rightarrow> unit result \<times> state_db" where
  "settle uid now rsv actual itoks otoks snap provider profile db =
     transaction (finish_body uid now rsv SETTLE actual itoks otoks snap provider profile) db"

definition mark_uncertain ::
  "(nat \<Rightarrow> string) \<Rightarrow> datetime \<Rightarrow> usage_reservation \<Rightarrow> json_object \<Rightarrow> string \<Rightarrow> string \<Rightarrow>
   state_db \<Rightarrow> unit result \<times> state_db" where
  "mark_uncertain uid now rsv snap provider profile db =
     transaction (finish_body uid now rsv UNCERTAIN (Dec (ur_reserved_usd rsv)) None None snap
       provider profile) db"

definition correction_event ::
  "string \<Rightarrow> datetime \<Rightarrow> string \<Rightarrow> attempt_state \<Rightarrow> usage_event \<Rightarrow> json_object \<Rightarrow> rat \<Rightarrow> string \<Rightarrow>
   int option \<Rightarrow> int option \<Rightarrow> usage_event" where
  "correction_event u now attempt st previous j usd reason itoks otoks =
     \<lparr>ue_id = u, ue_operation_id = as_operation_id st, ue_attempt_id = attempt,
      ue_event_type = CORRECTION, ue_provider = ue_provider previous,
      ue_profile_id = ue_profile_id previous, ue_amount_usd = usd, ue_input_tokens = itoks,
      ue_output_tokens = otoks,
      ue_price_snapshot_json =
        Dumped (AList.update ''cost_known'' (JBool True)
          (AList.update ''correction_reason'' (JStr (strip reason)) j)),
      ue_status = ''settled'', ue_created_at = now\<rparr>"

definition correct_body ::
  "(string option \<Rightarrow> bool option result) \<Rightarrow> (nat \<Rightarrow> string) \<Rightarrow> datetime \<Rightarrow> string \<Rightarrow> rat \<Rightarrow> string \<Rightarrow>
   int option \<Rightarrow> int option \<Rightarrow> (state_db, unit) tx" where
  "correct_body alive uid now attempt actual reason itoks otoks db0 =
     (case recover_usage_attempts alive uid now db0 of
        Inl e \<Rightarrow> Inl e
      | Inr (n, db) \<Rightarrow>
          let rows = event_rows db in
          (case map_of (attempt_states rows) attempt of
             None \<Rightarrow> Inl (SpendDenied ''Only an uncertain provider attempt can be corrected.'')
           | Some st \<Rightarrow>
               if as_status st \<noteq> ''uncertain''
               then Inl (SpendDenied ''Only an uncertain provider attempt can be corrected.'')
               else (case select_first (\<lambda>r. ue_attempt_id r = attempt \<and> ue_event_type r = UNCERTAIN) rows of
                       None \<Rightarrow> Inl (RuntimeError ''StopIteration'')
                     | Some previous \<Rightarrow>
                         (case json_loads (ue_price_snapshot_json previous) of
                            Inl e \<Rightarrow> Inl e
                          | Inr j \<Rightarrow>
                              (case money (Dec actual) of
                                 Inl e \<Rightarrow> Inl e
                               | Inr usd \<Rightarrow>
                                   (case insert_event (correction_event (uid n) now attempt st previous j usd reason itoks otoks) db of
                                      Inl e \<Rightarrow> Inl e
                                    | Inr db' \<Rightarrow> Inr ((), db')))))))"

definition correct_uncertain ::
  "ledger_env \<Rightarrow> os_state \<Rightarrow> datetime \<Rightarrow> string \<Rightarrow> decimal \<Rightarrow> string \<Rightarrow> int option \<Rightarrow> int option \<Rightarrow>
   state_db \<Rightarrow> unit result \<times> state_db" where
  "correct_uncertain env os now attempt actual reason itoks otoks db =
     (if strip reason = [] \<or> length reason > 500
      then (Inl (ValueError ''A bounded correction reason is required.''), db)
      else (case actual of
              NonFinite \<Rightarrow> (Inl (ValueError ''Actual cost must be finite and nonnegative.''), db)
            | Dec x \<Rightarrow>
                if x < 0 then (Inl (ValueError ''Actual cost must be finite and nonnegative.''), db)
                else transaction
                  (correct_body (owner_alive (proc_engine (le_process env)) os) (le_uuid env) now
                     attempt x reason itoks otoks) db))"

definition recover_interrupted_usage ::
  "ledger_env \<Rightarrow> os_state \<Rightarrow> datetime \<Rightarrow> state_db \<Rightarrow> nat result \<times> state_db" where
  "recover_interrupted_usage env os now db =
     transaction
       (recover_usage_attempts (owner_alive (proc_engine (le_process env)) os) (le_uuid env) now) db"

definition in_summary :: "(datetime \<Rightarrow> timedelta) \<Rightarrow> datetime \<Rightarrow> attempt_state \<Rightarrow> bool" where
  "in_summary off now s \<longleftrightarrow>
     month_in_zone off (as_reserved_at s) = month_in_zone off now \<or> outstanding s"

definition summary_amount :: "(datetime \<Rightarrow> timedelta) \<Rightarrow> datetime \<Rightarrow> (string \<times> attempt_state) list \<Rightarrow> string \<Rightarrow> rat" where
  "summary_amount off now states st =
     sum_states (\<lambda>s. in_summary off now s \<and> as_status s = st) states"

definition summary_unknown :: "(datetime \<Rightarrow> timedelta) \<Rightarrow> datetime \<Rightarrow> (string \<times> attempt_state) list \<Rightarrow> string \<Rightarrow> nat" where
  "summary_unknown off now states st =
     length (filter (\<lambda>x. in_summary off now (snd x) \<and> as_status (snd x) = st \<and>
       \<not> as_cost_known (snd x)) states)"

definition summary_figures ::
  "(datetime \<Rightarrow> timedelta) \<Rightarrow> datetime \<Rightarrow> rat \<Rightarrow> string \<Rightarrow> string option \<Rightarrow>
   (string \<times> attempt_state) list \<Rightarrow> usage_summary result" where
  "summary_figures off now cap timezone pruned states =
     (let amt = summary_amount off now states; unk = summary_unknown off now states;
          used = amt ''reserved'' + amt ''settled'' + amt ''uncertain''
      in case money (Dec cap) of
           Inl e \<Rightarrow> Inl e
         | Inr capq \<Rightarrow>
      (case money (Dec (amt ''settled'')) of
           Inl e \<Rightarrow> Inl e
         | Inr settled \<Rightarrow>
      (case money (Dec (amt ''reserved'')) of
           Inl e \<Rightarrow> Inl e
         | Inr reserved \<Rightarrow>
      (case money (Dec (amt ''uncertain'')) of
           Inl e \<Rightarrow> Inl e
         | Inr uncertain \<Rightarrow>
             Inr \<lparr>us_month = month_in_zone off now, us_timezone = timezone,
                  us_cap_usd = capq, us_settled_usd = settled,
                  us_reserved_usd = reserved, us_uncertain_usd = uncertain,
                  us_remaining_usd = max 0 (capq - used),
                  us_unknown_cost_attempts =
                    unk ''reserved'' + unk ''settled'' + unk ''uncertain'',
                  us_unknown_cost_in_flight = unk ''reserved'',
                  us_unknown_cost_uncertain = unk ''uncertain'',
                  us_history_pruned_before = pruned\<rparr>))))"

text \<open>
  The transaction of \<^verbatim>\<open>summary\<close> only recovers and reads; the figures are computed after it
  committed, so an unknown zone raises with the recovery already stored.
\<close>

definition usage_summary_of ::
  "ledger_env \<Rightarrow> os_state \<Rightarrow> datetime \<Rightarrow> rat \<Rightarrow> string \<Rightarrow> string option \<Rightarrow> state_db \<Rightarrow>
   usage_summary result \<times> state_db" where
  "usage_summary_of env os now cap timezone pruned db =
     (case recover_interrupted_usage env os now db of
        (Inl e, db') \<Rightarrow> (Inl e, db')
      | (Inr _, db') \<Rightarrow>
          (case zone_offset (le_tzdb env) timezone of
             Inl e \<Rightarrow> (Inl e, db')
           | Inr off \<Rightarrow>
               (summary_figures off now cap timezone pruned (attempt_states (event_rows db')), db')))"

definition unresolved_attempts ::
  "ledger_env \<Rightarrow> os_state \<Rightarrow> datetime \<Rightarrow> state_db \<Rightarrow> unresolved_attempt list result \<times> state_db" where
  "unresolved_attempts env os now db =
     (case recover_interrupted_usage env os now db of
        (Inl e, db') \<Rightarrow> (Inl e, db')
      | (Inr _, db') \<Rightarrow>
          (let events = event_rows db'; states = attempt_states events in
           (Inr (List.map_filter
              (\<lambda>r. if ue_event_type r = RESERVE
                   then (case map_of states (ue_attempt_id r) of
                           None \<Rightarrow> None
                         | Some s \<Rightarrow>
                             if outstanding s
                             then Some \<lparr>ua_attempt_id = ue_attempt_id r,
                                        ua_operation_id = ue_operation_id r,
                                        ua_provider = ue_provider r,
                                        ua_profile_id = ue_profile_id r,
                                        ua_status = as_status s, ua_amount_usd = as_amount s,
                                        ua_cost_known = as_cost_known s,
                                        ua_reserved_at = ue_created_at r\<rparr>
                             else None)
                   else None) events), db')))"

end
