(* ===== verification/Network.thy ===== *)
theory Network
  imports Prelude
begin

text \<open>
  The network policy of a workspace (\<^verbatim>\<open>app/workspace/network.py\<close>): which URLs may be contacted, in
  particular while the workspace is offline. The parts of Python's \<^verbatim>\<open>urllib.parse\<close> and
  \<^verbatim>\<open>ipaddress\<close> (Python 3.12) that the decision rests on are modelled here: the scheme, the network
  location and the host name of a URL, and the textual forms of IP addresses.
\<close>

section \<open>Strings\<close>

fun split_on :: "char \<Rightarrow> string \<Rightarrow> string list" where
  "split_on sep [] = [[]]"
| "split_on sep (c # cs) =
     (if c = sep then [] # split_on sep cs
      else (case split_on sep cs of w # ws \<Rightarrow> (c # w) # ws | [] \<Rightarrow> [[c]]))"

definition partition_at :: "char \<Rightarrow> string \<Rightarrow> string \<times> string option" where
  "partition_at sep s =
     (let a = takeWhile (\<lambda>c. c \<noteq> sep) s in
      (a, if length a < length s then Some (drop (length a + 1) s) else None))"

text \<open>\<^verbatim>\<open>str.rpartition(sep)\<close>: the part before the last separator, if there is one, and the rest.\<close>

definition rpartition_at :: "char \<Rightarrow> string \<Rightarrow> string option \<times> string" where
  "rpartition_at sep s =
     (case partition_at sep (rev s) of (a, r) \<Rightarrow> (map_option rev r, rev a))"

definition lower_char :: "char \<Rightarrow> char" where
  "lower_char c =
     (let n = of_char c :: nat in
      if (65 \<le> n \<and> n \<le> 90) \<or> (192 \<le> n \<and> n \<le> 222 \<and> n \<noteq> 215) then char_of (n + 32) else c)"

definition lower :: "string \<Rightarrow> string" where
  "lower s = map lower_char s"

definition digit_value :: "char \<Rightarrow> int option" where
  "digit_value c =
     (let n = of_char c :: int in
      if 48 \<le> n \<and> n \<le> 57 then Some (n - 48)
      else if 97 \<le> n \<and> n \<le> 102 then Some (n - 87)
      else if 65 \<le> n \<and> n \<le> 70 then Some (n - 55) else None)"

definition is_decimal :: "char \<Rightarrow> bool" where
  "is_decimal c \<longleftrightarrow> (let n = of_char c :: nat in 48 \<le> n \<and> n \<le> 57)"

definition is_ascii_alpha :: "char \<Rightarrow> bool" where
  "is_ascii_alpha c \<longleftrightarrow> (let n = of_char c :: nat in (65 \<le> n \<and> n \<le> 90) \<or> (97 \<le> n \<and> n \<le> 122))"

definition value_base :: "int \<Rightarrow> string \<Rightarrow> int" where
  "value_base b s = foldl (\<lambda>acc c. acc * b + (case digit_value c of Some d \<Rightarrow> d | None \<Rightarrow> 0)) 0 s"

section \<open>IP addresses\<close>

definition parse_octet :: "string \<Rightarrow> int option" where
  "parse_octet s =
     (if s = [] \<or> \<not> list_all is_decimal s \<or> length s > 3 \<or> (s \<noteq> ''0'' \<and> hd s = CHR ''0'') \<or> value_base 10 s > 255
      then None else Some (value_base 10 s))"

definition parse_ipv4 :: "string \<Rightarrow> int list option" where
  "parse_ipv4 s =
     (case split_on CHR ''.'' s of
        [a, b, c, d] \<Rightarrow>
          (case (parse_octet a, parse_octet b, parse_octet c, parse_octet d) of
             (Some p, Some q, Some r, Some t) \<Rightarrow> Some [p, q, r, t]
           | _ \<Rightarrow> None)
      | _ \<Rightarrow> None)"

definition parse_hextet :: "string \<Rightarrow> int option" where
  "parse_hextet s =
     (if s = [] \<or> length s > 4 \<or> \<not> list_all (\<lambda>c. digit_value c \<noteq> None) s then None
      else Some (value_base 16 s))"

definition hextets :: "string list \<Rightarrow> int list option" where
  "hextets ps = those (map parse_hextet ps)"

text \<open>
  The last part of an IPv6 address may be a dotted IPv4 address, which stands for two hextets.
\<close>

definition ipv6_parts :: "string \<Rightarrow> (string list \<times> int list) option" where
  "ipv6_parts addr =
     (let parts = split_on CHR '':'' addr in
      if length parts < 3 then None
      else if CHR ''.'' \<in> set (last parts)
      then (case parse_ipv4 (last parts) of
              Some [a, b, c, d] \<Rightarrow> Some (butlast parts, [a * 256 + b, c * 256 + d])
            | _ \<Rightarrow> None)
      else Some (parts, []))"

text \<open>
  \<^verbatim>\<open>IPv6Address._ip_int_from_string\<close>: at most one run of zeros may be left out, and a colon at
  either end must belong to it. The result is the list of the eight hextets.
\<close>

definition parse_ipv6 :: "string \<Rightarrow> int list option" where
  "parse_ipv6 s =
     (case partition_at CHR ''%'' s of
        (addr, scope) \<Rightarrow>
          if (case scope of None \<Rightarrow> False | Some z \<Rightarrow> z = [] \<or> CHR ''%'' \<in> set z) \<or> CHR ''/'' \<in> set addr then None
          else
     (case ipv6_parts addr of
        None \<Rightarrow> None
      | Some (parts, tail) \<Rightarrow>
          let n = length parts + length tail;
              gaps = filter (\<lambda>i. parts ! i = []) (filter (\<lambda>i. i < length parts) [1..<n - 1])
          in if n > 9 \<or> length gaps > 1 then None
             else (case gaps of
                     [k] \<Rightarrow>
                       (let hi = take k parts; lo = drop (k + 1) parts;
                            hi' = (if hd parts = [] then tl hi else hi);
                            lo' = (if tail = [] \<and> last parts = [] then butlast lo else lo)
                        in if (hd parts = [] \<and> hi' \<noteq> []) \<or> (tail = [] \<and> last parts = [] \<and> lo' \<noteq> []) then None
                           else (case (hextets hi', hextets lo') of
                                   (Some h, Some l) \<Rightarrow>
                                     if length h + length l + length tail \<ge> 8 then None
                                     else Some (h @ replicate (8 - (length h + length l + length tail)) 0 @ l @ tail)
                                 | _ \<Rightarrow> None))
                   | _ \<Rightarrow>
                       if n \<noteq> 8 then None
                       else map_option (\<lambda>h. h @ tail) (hextets parts))))"

definition ip_is_loopback :: "string \<Rightarrow> bool option" where
  "ip_is_loopback host =
     (case parse_ipv4 host of
        Some os \<Rightarrow> Some (hd os = 127)
      | None \<Rightarrow> map_option (\<lambda>hs. hs = [0, 0, 0, 0, 0, 0, 0, 1]) (parse_ipv6 host))"

section \<open>URLs\<close>

record split_url =
  su_scheme :: string
  su_netloc :: string
  su_query :: string
  su_fragment :: string

definition is_scheme_char :: "char \<Rightarrow> bool" where
  "is_scheme_char c \<longleftrightarrow> is_ascii_alpha c \<or> is_decimal c \<or> c \<in> {CHR ''+'', CHR ''-'', CHR ''.''}"

definition clean_url :: "string \<Rightarrow> string" where
  "clean_url s =
     filter (\<lambda>c. of_char c \<notin> {9, 10, 13 :: nat}) (dropWhile (\<lambda>c. of_char c \<le> (32 :: nat)) s)"

definition split_scheme :: "string \<Rightarrow> string \<times> string" where
  "split_scheme url =
     (case partition_at CHR '':'' url of
        (s, Some rest) \<Rightarrow>
          if s \<noteq> [] \<and> is_ascii_alpha (hd s) \<and> list_all is_scheme_char s then (lower s, rest) else ([], url)
      | (_, None) \<Rightarrow> ([], url))"

definition valid_bracketed :: "string \<Rightarrow> bool" where
  "valid_bracketed netloc \<longleftrightarrow>
     (if CHR ''['' \<in> set netloc \<or> CHR '']'' \<in> set netloc
      then CHR ''['' \<in> set netloc \<and> CHR '']'' \<in> set netloc \<and>
        (let inner = (case snd (partition_at CHR ''['' netloc) of None \<Rightarrow> [] | Some r \<Rightarrow> fst (partition_at CHR '']'' r))
         in if starts_with inner ''v''
            then (case partition_at CHR ''.'' (drop 1 inner) of
                    (h, Some r) \<Rightarrow> h \<noteq> [] \<and> list_all (\<lambda>c. digit_value c \<noteq> None) h \<and> r \<noteq> []
                  | (_, None) \<Rightarrow> False)
            else parse_ipv4 inner = None \<and> parse_ipv6 inner \<noteq> None)
      else True)"

definition urlsplit :: "string \<Rightarrow> split_url result" where
  "urlsplit u =
     (case split_scheme (clean_url u) of
        (scheme, rest) \<Rightarrow>
          let has = starts_with rest ''//'';
              netloc = (if has then takeWhile (\<lambda>c. c \<notin> {CHR ''/'', CHR ''?'', CHR ''#''}) (drop 2 rest) else []);
              path = (if has then drop (2 + length netloc) rest else rest);
              (p1, frag) = partition_at CHR ''#'' path;
              (p2, query) = partition_at CHR ''?'' p1
          in if has \<and> \<not> valid_bracketed netloc then Inl (ValueError ''Invalid IPv6 URL'')
             else Inr \<lparr>su_scheme = scheme, su_netloc = netloc,
                       su_query = (case query of None \<Rightarrow> [] | Some q \<Rightarrow> q),
                       su_fragment = (case frag of None \<Rightarrow> [] | Some f \<Rightarrow> f)\<rparr>)"

definition url_hostname :: "split_url \<Rightarrow> string option" where
  "url_hostname u =
     (let info = snd (rpartition_at CHR ''@'' (su_netloc u));
          host = (case partition_at CHR ''['' info of
                    (_, Some b) \<Rightarrow> fst (partition_at CHR '']'' b)
                  | (_, None) \<Rightarrow> fst (partition_at CHR '':'' info))
      in if host = [] then None
         else (case partition_at CHR ''%'' host of
                 (h, Some z) \<Rightarrow> Some (lower h @ ''%'' @ z)
               | (h, None) \<Rightarrow> Some (lower h)))"

definition url_username :: "split_url \<Rightarrow> string option" where
  "url_username u = map_option (\<lambda>i. fst (partition_at CHR '':'' i)) (fst (rpartition_at CHR ''@'' (su_netloc u)))"

definition url_password :: "split_url \<Rightarrow> string option" where
  "url_password u =
     (case fst (rpartition_at CHR ''@'' (su_netloc u)) of
        None \<Rightarrow> None | Some i \<Rightarrow> snd (partition_at CHR '':'' i))"

section \<open>The policy\<close>

record network_policy =
  np_offline :: bool
  np_allow_loopback_services :: bool
  np_allowed_loopback_urls :: "string list"

definition is_loopback :: "string \<Rightarrow> bool" where
  "is_loopback hostname \<longleftrightarrow>
     (if lower hostname = ''localhost'' then True
      else (case ip_is_loopback hostname of Some b \<Rightarrow> b | None \<Rightarrow> False))"

definition assert_url_allowed :: "network_policy \<Rightarrow> string \<Rightarrow> string \<Rightarrow> unit result" where
  "assert_url_allowed pol url purpose =
     (case urlsplit url of
        Inl e \<Rightarrow> Inl e
      | Inr parsed \<Rightarrow>
          (case url_hostname parsed of
             None \<Rightarrow> Inl (NetworkAccessDenied (''Unsupported URL for '' @ purpose @ ''.''))
           | Some host \<Rightarrow>
               if su_scheme parsed \<notin> {''http'', ''https''}
               then Inl (NetworkAccessDenied (''Unsupported URL for '' @ purpose @ ''.''))
               else if \<not> np_offline pol then Inr ()
               else if np_allow_loopback_services pol \<and> is_loopback host
               then (if np_allowed_loopback_urls pol = [] \<or> url \<in> set (np_allowed_loopback_urls pol) then Inr ()
                     else Inl (NetworkAccessDenied
                       (''Offline mode permits only the selected local endpoint for '' @ purpose @ ''.'')))
               else Inl (NetworkAccessDenied
                 (''Offline mode blocks outbound network access for '' @ purpose @ ''.''))))"

section \<open>What offline mode allows\<close>

lemma parse_ipv4_shape: "parse_ipv4 s = Some os \<Longrightarrow> \<exists>a b c d. os = [a, b, c, d]"
  by (auto simp: parse_ipv4_def split: list.splits option.splits prod.splits)

lemma is_loopback_iff:
  "is_loopback h \<longleftrightarrow>
     lower h = ''localhost'' \<or> (\<exists>a b c. parse_ipv4 h = Some [127, a, b, c]) \<or>
     (parse_ipv4 h = None \<and> parse_ipv6 h = Some [0, 0, 0, 0, 0, 0, 0, 1])"
  using parse_ipv4_shape [of h]
  by (auto simp: is_loopback_def ip_is_loopback_def split: option.splits)

end
