(* ===== verification/Profiles.thy ===== *)
theory Profiles
  imports Network
begin

text \<open>
  Provider profiles (\<^verbatim>\<open>app/providers/profiles.py\<close>): the built-in profiles, their lookup, the rule for
  what counts as verified pricing, and the checks on custom endpoints and credential slots. A price
  is a \<^verbatim>\<open>Decimal\<close> literal: its text, which \<^verbatim>\<open>str\<close> gives back, and its value.
\<close>

datatype profile_kind = ANSWER | EMBEDDING

fun kind_value :: "profile_kind \<Rightarrow> string" where
  "kind_value ANSWER = ''answer''"
| "kind_value EMBEDDING = ''embedding''"

type_synonym price = "string \<times> rat"

record provider_profile =
  pp_id :: string
  pp_version :: int
  pp_kind :: profile_kind
  pp_provider :: string
  pp_credential_slot :: "string option"
  pp_model :: string
  pp_endpoint :: "string option"
  pp_dimension :: "nat option"
  pp_input_usd_per_million :: "price option"
  pp_output_usd_per_million :: "price option"
  pp_max_input_tokens :: int
  pp_max_output_tokens :: "int option"
  pp_token_estimator :: string
  pp_request_timeout_seconds :: rat
  pp_max_attempts :: int
  pp_price_effective_date :: "string option"
  pp_price_source :: "string option"
  pp_stores_response :: bool
  pp_compatibility_verified :: bool

definition paid :: "provider_profile \<Rightarrow> bool" where
  "paid p \<longleftrightarrow> pp_provider p \<noteq> ''fake''"

definition pricing_verified :: "provider_profile \<Rightarrow> bool" where
  "pricing_verified p \<longleftrightarrow>
     pp_input_usd_per_million p \<noteq> None \<and>
     (pp_kind p = EMBEDDING \<or> pp_output_usd_per_million p \<noteq> None)"

definition PROFILES :: "(string \<times> provider_profile) list" where
  "PROFILES =
     [(''fake-answer-small'',
       \<lparr>pp_id = ''fake-answer-small'', pp_version = 1, pp_kind = ANSWER, pp_provider = ''fake'',
        pp_credential_slot = None, pp_model = ''fake-answer-small'', pp_endpoint = None,
        pp_dimension = None, pp_input_usd_per_million = Some (''0'', 0),
        pp_output_usd_per_million = Some (''0'', 0), pp_max_input_tokens = 16000,
        pp_max_output_tokens = Some 1000, pp_token_estimator = ''utf8_bytes_upper_bound_v1'',
        pp_request_timeout_seconds = 60, pp_max_attempts = 1, pp_price_effective_date = None,
        pp_price_source = None, pp_stores_response = False, pp_compatibility_verified = True\<rparr>),
      (''fake-small-16'',
       \<lparr>pp_id = ''fake-small-16'', pp_version = 1, pp_kind = EMBEDDING, pp_provider = ''fake'',
        pp_credential_slot = None, pp_model = ''fake-small-16'', pp_endpoint = None,
        pp_dimension = Some 16, pp_input_usd_per_million = Some (''0'', 0),
        pp_output_usd_per_million = None, pp_max_input_tokens = 8000,
        pp_max_output_tokens = None, pp_token_estimator = ''utf8_bytes_upper_bound_v1'',
        pp_request_timeout_seconds = 60, pp_max_attempts = 1, pp_price_effective_date = None,
        pp_price_source = None, pp_stores_response = False, pp_compatibility_verified = True\<rparr>),
      (''openai-answer-luna-v1'',
       \<lparr>pp_id = ''openai-answer-luna-v1'', pp_version = 1, pp_kind = ANSWER, pp_provider = ''openai'',
        pp_credential_slot = Some ''openai'', pp_model = ''gpt-5.6-luna'',
        pp_endpoint = Some ''https://api.openai.com/v1/responses'',
        pp_dimension = None, pp_input_usd_per_million = Some (''0.20'', 20 / 100),
        pp_output_usd_per_million = Some (''1.20'', 120 / 100), pp_max_input_tokens = 32000,
        pp_max_output_tokens = Some 1200, pp_token_estimator = ''utf8_bytes_upper_bound_v1'',
        pp_request_timeout_seconds = 60, pp_max_attempts = 1,
        pp_price_effective_date = Some ''2026-09-14'',
        pp_price_source = Some ''https://developers.openai.com/api/docs/models/gpt-5.6-luna'',
        pp_stores_response = False, pp_compatibility_verified = True\<rparr>),
      (''openai-embedding-3-small-v1'',
       \<lparr>pp_id = ''openai-embedding-3-small-v1'', pp_version = 1, pp_kind = EMBEDDING,
        pp_provider = ''openai'', pp_credential_slot = Some ''openai'',
        pp_model = ''text-embedding-3-small'',
        pp_endpoint = Some ''https://api.openai.com/v1/embeddings'',
        pp_dimension = Some 1536, pp_input_usd_per_million = Some (''0.02'', 2 / 100),
        pp_output_usd_per_million = None, pp_max_input_tokens = 8191,
        pp_max_output_tokens = None, pp_token_estimator = ''utf8_bytes_upper_bound_v1'',
        pp_request_timeout_seconds = 60, pp_max_attempts = 1,
        pp_price_effective_date = Some ''2026-09-14'',
        pp_price_source = Some ''https://developers.openai.com/api/docs/models/text-embedding-3-small'',
        pp_stores_response = False, pp_compatibility_verified = True\<rparr>)]"

definition get_profile :: "string \<Rightarrow> profile_kind option \<Rightarrow> provider_profile result" where
  "get_profile pid kind =
     (case map_of PROFILES pid of
        None \<Rightarrow> Inl (ValueError (''Unknown provider profile: '' @ pid))
      | Some p \<Rightarrow>
          (case kind of
             Some k \<Rightarrow>
               if pp_kind p \<noteq> k
               then Inl (ValueError (''Profile '' @ pid @ '' is not a '' @ kind_value k @ '' profile.''))
               else Inr p
           | None \<Rightarrow> Inr p))"

definition is_ascii_lower :: "char \<Rightarrow> bool" where
  "is_ascii_lower c \<longleftrightarrow> (let n = of_char c :: nat in 97 \<le> n \<and> n \<le> 122)"

text \<open>\<^verbatim>\<open>^[a-z][a-z0-9-]{0,63}$\<close> under \<^verbatim>\<open>fullmatch\<close>.\<close>

definition auth_slot_pattern :: "string \<Rightarrow> bool" where
  "auth_slot_pattern s \<longleftrightarrow>
     s \<noteq> [] \<and> length s \<le> 64 \<and> is_ascii_lower (hd s) \<and>
     list_all (\<lambda>c. is_ascii_lower c \<or> is_decimal c \<or> c = CHR ''-'') (tl s)"

definition validate_auth_slot :: "string \<Rightarrow> string result" where
  "validate_auth_slot v =
     (let n = lower (strip v) in
      if auth_slot_pattern n then Inr n
      else Inl (ValueError (''Credential slot must start with a letter and contain only lowercase '' @
        ''letters, digits, or hyphens (maximum 64 characters).'')))"

definition validate_endpoint :: "string \<Rightarrow> unit result" where
  "validate_endpoint v =
     (case urlsplit v of
        Inl e \<Rightarrow> Inl e
      | Inr u \<Rightarrow>
          (case url_hostname u of
             None \<Rightarrow> Inl (ValueError (''Custom endpoint must be an absolute URL without credentials, query, '' @ ''or fragment.''))
           | Some host \<Rightarrow>
               if url_username u \<noteq> None \<or> url_password u \<noteq> None \<or> su_query u \<noteq> [] \<or> su_fragment u \<noteq> []
               then Inl (ValueError (''Custom endpoint must be an absolute URL without credentials, query, '' @ ''or fragment.''))
               else if su_scheme u = ''https'' then Inr ()
               else if su_scheme u = ''http'' \<and> is_loopback host then Inr ()
               else Inl (ValueError ''Custom endpoints require HTTPS, except for loopback HTTP.'')))"

definition replace_compatibility :: "provider_profile \<Rightarrow> bool \<Rightarrow> provider_profile" where
  "replace_compatibility p verified = p\<lparr>pp_compatibility_verified := verified\<rparr>"

end
