(* ===== verification/Python_Values.thy ===== *)
theory Python_Values
  imports Network
begin

text \<open>
  Operations of Python on decoded JSON values and on floating-point numbers, as the components use
  them: \<^verbatim>\<open>dict.get\<close>, iteration, truth, \<^verbatim>\<open>int(...)\<close>, relative paths, and IEEE 754 binary64 arithmetic rounded to
  nearest, ties to even. A float is the rational it denotes; the values of the modelled computations
  stay far below the overflow threshold.
\<close>

section \<open>JSON values\<close>

text \<open>\<^verbatim>\<open>value.get(key)\<close> on a decoded JSON value: only a dictionary has the method.\<close>

definition json_get :: "json \<Rightarrow> string \<Rightarrow> json option result" where
  "json_get j k =
     (case j of JObj fs \<Rightarrow> Inr (map_of fs k) | _ \<Rightarrow> Inl (AttributeError ''get''))"

text \<open>Iteration over a decoded JSON value: a dictionary gives its keys, a string its characters.\<close>

definition json_iter :: "json \<Rightarrow> json list result" where
  "json_iter j =
     (case j of
        JList xs \<Rightarrow> Inr xs
      | JObj fs \<Rightarrow> Inr (map (\<lambda>f. JStr (fst f)) fs)
      | JStr s \<Rightarrow> Inr (map (\<lambda>c. JStr [c]) s)
      | _ \<Rightarrow> Inl (TypeError ''object is not iterable''))"

definition truthy :: "json \<Rightarrow> bool" where
  "truthy j \<longleftrightarrow>
     (case j of
        JNull \<Rightarrow> False | JBool b \<Rightarrow> b | JInt n \<Rightarrow> n \<noteq> 0 | JReal x \<Rightarrow> x \<noteq> 0
      | JStr s \<Rightarrow> s \<noteq> [] | JList xs \<Rightarrow> xs \<noteq> [] | JObj fs \<Rightarrow> fs \<noteq> [] | _ \<Rightarrow> True)"

text \<open>\<^verbatim>\<open>int(text)\<close>: digits with single underscores between them, a sign and surrounding space.\<close>

definition int_literal :: "string \<Rightarrow> int result" where
  "int_literal t =
     (let s = strip t;
          body = (if s \<noteq> [] \<and> hd s \<in> {CHR ''+'', CHR ''-''} then tl s else s);
          groups = split_on CHR ''_'' body;
          digits = concat groups
      in if list_all (\<lambda>g. g \<noteq> [] \<and> list_all is_decimal g) groups \<and> length digits \<le> 4300
         then Inr (if hd s = CHR ''-'' then - value_base 10 digits else value_base 10 digits)
         else Inl (ValueError ''invalid literal for int() with base 10''))"

definition truncate :: "rat \<Rightarrow> int" where
  "truncate x = (if x < 0 then \<lceil>x\<rceil> else \<lfloor>x\<rfloor>)"

definition py_int :: "json \<Rightarrow> int result" where
  "py_int j =
     (case j of
        JInt n \<Rightarrow> Inr n
      | JBool b \<Rightarrow> Inr (if b then 1 else 0)
      | JReal x \<Rightarrow> Inr (truncate x)
      | JNaN \<Rightarrow> Inl (ValueError ''cannot convert float NaN to integer'')
      | JInfinity \<Rightarrow> Inl (OverflowError ''cannot convert float infinity to integer'')
      | JNegInfinity \<Rightarrow> Inl (OverflowError ''cannot convert float infinity to integer'')
      | JStr s \<Rightarrow> int_literal s
      | _ \<Rightarrow> Inl (TypeError ''int() argument must be a string, a bytes-like object or a real number''))"

section \<open>Paths\<close>

type_synonym path = "string list"

definition under :: "path \<Rightarrow> path \<Rightarrow> bool" where
  "under base p \<longleftrightarrow> take (length base) p = base"

text \<open>\<^verbatim>\<open>Path(relative)\<close>: empty and \<^verbatim>\<open>.\<close> components vanish.\<close>

definition path_parts :: "string \<Rightarrow> path" where
  "path_parts s = filter (\<lambda>c. c \<noteq> [] \<and> c \<noteq> ''.'') (split_on CHR ''/'' s)"

section \<open>Floating-point numbers\<close>

function bit_length :: "int \<Rightarrow> int" where
  "bit_length n = (if n \<le> 0 then 0 else 1 + bit_length (n div 2))"
  by auto
termination by (relation "measure nat") auto

definition pow2 :: "int \<Rightarrow> rat" where
  "pow2 k = (if 0 \<le> k then of_int (2 ^ nat k) else 1 / of_int (2 ^ nat (- k)))"

text \<open>The largest power of two that is at most a positive number.\<close>

definition floor_log2 :: "rat \<Rightarrow> int" where
  "floor_log2 x =
     (case quotient_of x of (p, q) \<Rightarrow>
        let k = bit_length p - bit_length q in if pow2 k \<le> x then k else k - 1)"

definition round64 :: "rat \<Rightarrow> rat" where
  "round64 x =
     (if x = 0 then 0
      else (let q = max (floor_log2 \<bar>x\<bar> - 52) (- 1074)
            in of_int (round_half_even (x / pow2 q)) * pow2 q))"

definition fadd :: "rat \<Rightarrow> rat \<Rightarrow> rat" where "fadd x y = round64 (x + y)"
definition fmul :: "rat \<Rightarrow> rat \<Rightarrow> rat" where "fmul x y = round64 (x * y)"
definition fdiv :: "rat \<Rightarrow> rat \<Rightarrow> rat" where "fdiv x y = round64 (x / y)"

lemma pow2_pos [simp]: "0 < pow2 k"
  by (simp add: pow2_def)

lemma round64_nonneg: "0 \<le> x \<Longrightarrow> 0 \<le> round64 x"
  by (auto simp: round64_def Let_def intro!: mult_nonneg_nonneg round_half_even_nonneg less_imp_le [OF pow2_pos]
      divide_nonneg_pos)

lemma float_nonneg:
  "0 \<le> x \<Longrightarrow> 0 \<le> y \<Longrightarrow> 0 \<le> fadd x y" "0 \<le> x \<Longrightarrow> 0 \<le> y \<Longrightarrow> 0 \<le> fmul x y" "0 \<le> x \<Longrightarrow> 0 < y \<Longrightarrow> 0 \<le> fdiv x y"
  by (simp_all add: fadd_def fmul_def fdiv_def round64_nonneg)

end
