(* ===== verification/Runtime.thy ===== *)
theory Runtime
  imports Prelude
begin

text \<open>
  Cancellation signals and deadlines (\<^verbatim>\<open>app/jobs/runtime.py\<close>), as the provider gateway, the property
  connector and the property export read them.
\<close>

section \<open>Cancellation and deadlines\<close>

text \<open>
  One reading of the cancellation signal and of the clock: whether the event is set, and
  \<^verbatim>\<open>expires_at - monotonic()\<close> of the deadline, if there is one.
\<close>

record runtime_reading =
  rt_cancelled :: bool
  rt_left :: "rat option"

definition raise_if_cancelled :: "runtime_reading \<Rightarrow> unit result" where
  "raise_if_cancelled rt =
     (if rt_cancelled rt then Inl (OperationCancelled ''The operation was cancelled.'') else Inr ())"

definition remaining_seconds :: "rat \<Rightarrow> rat" where
  "remaining_seconds left = max 0 left"

definition raise_if_expired :: "runtime_reading \<Rightarrow> unit result" where
  "raise_if_expired rt =
     (case rt_left rt of
        None \<Rightarrow> Inr ()
      | Some l \<Rightarrow>
          if remaining_seconds l \<le> 0
          then Inl (OperationDeadlineExceeded ''The operation deadline was exceeded.'') else Inr ())"

definition check_runtime :: "runtime_reading \<Rightarrow> unit result" where
  "check_runtime rt =
     (case raise_if_cancelled rt of Inl e \<Rightarrow> Inl e | Inr _ \<Rightarrow> raise_if_expired rt)"

end
