(* ===== verification/Gateway.thy ===== *)
theory Gateway
  imports Ledger Profiles Sha256 Python_Values Runtime
begin

text \<open>
  The provider gateway (\<^verbatim>\<open>app/providers/gateway.py\<close>, with \<^verbatim>\<open>app/providers/tokens.py\<close> and
  \<^verbatim>\<open>app/jobs/runtime.py\<close>): the only code that sends a paid answer request. A call checks the profile,
  the credential and the network policy, reserves its projected cost in the spend ledger, sends one
  request and finishes the reservation: settled with the reported usage, or marked uncertain.

  The state a call works on is \<open>world\<close>: the lock files and the database, the requests that were sent
  and the text passed to \<^verbatim>\<open>on_text_delta\<close>. The HTTP client is not part of the repository: what it
  answers is an argument of the call (\<open>transport\<close>). \<^verbatim>\<open>httpx.HTTPError\<close> is the \<open>HttpError\<close>
  constructor; a body is \<open>None\<close> when \<^verbatim>\<open>response.json()\<close> rejects it. What other processes commit
  to the database while the request is under way is the function \<open>ge_interference\<close>.
\<close>

section \<open>Timeouts\<close>

definition request_timeout :: "runtime_reading \<Rightarrow> provider_profile \<Rightarrow> rat" where
  "request_timeout rt p =
     (case rt_left rt of
        None \<Rightarrow> pp_request_timeout_seconds p
      | Some l \<Rightarrow> max (1 / 10) (min (remaining_seconds l) (pp_request_timeout_seconds p)))"

section \<open>Tokens and prices\<close>

definition input_token_bound :: "string \<Rightarrow> bool \<Rightarrow> int" where
  "input_token_bound text answer = max 1 (int (length (utf8 text))) + (if answer then 64 else 0)"

definition estimate_tokens :: "string \<Rightarrow> int" where
  "estimate_tokens text = max 1 ((int (length (utf8 text)) + 3) div 4)"

definition cost :: "provider_profile \<Rightarrow> int \<Rightarrow> int \<Rightarrow> rat option result" where
  "cost p itoks otoks =
     (let output_rate = (case pp_output_usd_per_million p of Some (_, r) \<Rightarrow> r | None \<Rightarrow> 0) in
      case pp_input_usd_per_million p of
        None \<Rightarrow> Inr None
      | Some (_, input_rate) \<Rightarrow>
          (case quantize8 ((of_int itoks * input_rate + of_int otoks * output_rate) / 1000000) of
             Inl e \<Rightarrow> Inl e
           | Inr c \<Rightarrow> Inr (Some c)))"

definition opt_str :: "string option \<Rightarrow> json" where
  "opt_str x = (case x of None \<Rightarrow> JNull | Some s \<Rightarrow> JStr s)"

definition price_snapshot :: "provider_profile \<Rightarrow> json_object" where
  "price_snapshot p =
     [(''profile_id'', JStr (pp_id p)),
      (''profile_version'', JInt (pp_version p)),
      (''provider'', JStr (pp_provider p)),
      (''model'', JStr (pp_model p)),
      (''endpoint'', opt_str (pp_endpoint p)),
      (''cost_known'', JBool (pricing_verified p)),
      (''input_usd_per_million'', opt_str (map_option fst (pp_input_usd_per_million p))),
      (''output_usd_per_million'', opt_str (map_option fst (pp_output_usd_per_million p))),
      (''effective_date'', opt_str (pp_price_effective_date p)),
      (''source'', opt_str (pp_price_source p))]"

section \<open>Reading a response\<close>

fun text_pieces :: "json list \<Rightarrow> string list result" where
  "text_pieces [] = Inr []"
| "text_pieces (c # cs) =
     (case json_get c ''type'' of
        Inl e \<Rightarrow> Inl e
      | Inr t \<Rightarrow>
          (case (if t = Some (JStr ''output_text'')
                 then (case json_get c ''text'' of
                         Inl e \<Rightarrow> Inl e
                       | Inr (Some (JStr s)) \<Rightarrow> Inr [s]
                       | Inr _ \<Rightarrow> Inr [])
                 else Inr []) of
             Inl e \<Rightarrow> Inl e
           | Inr p \<Rightarrow> (case text_pieces cs of Inl e \<Rightarrow> Inl e | Inr ps \<Rightarrow> Inr (p @ ps))))"

definition get_list :: "json \<Rightarrow> string \<Rightarrow> json list result" where
  "get_list j k =
     (case json_get j k of
        Inl e \<Rightarrow> Inl e
      | Inr None \<Rightarrow> Inr []
      | Inr (Some v) \<Rightarrow> json_iter v)"

fun output_pieces :: "json list \<Rightarrow> string list result" where
  "output_pieces [] = Inr []"
| "output_pieces (item # items) =
     (case get_list item ''content'' of
        Inl e \<Rightarrow> Inl e
      | Inr contents \<Rightarrow>
          (case text_pieces contents of
             Inl e \<Rightarrow> Inl e
           | Inr p \<Rightarrow> (case output_pieces items of Inl e \<Rightarrow> Inl e | Inr ps \<Rightarrow> Inr (p @ ps))))"

definition response_text :: "json \<Rightarrow> string result" where
  "response_text payload =
     (case json_get payload ''output_text'' of
        Inl e \<Rightarrow> Inl e
      | Inr direct \<Rightarrow>
          (case (case direct of Some (JStr d) \<Rightarrow> strip d | _ \<Rightarrow> []) of
             [] \<Rightarrow>
               (case get_list payload ''output'' of
                  Inl e \<Rightarrow> Inl e
                | Inr items \<Rightarrow>
                    (case output_pieces items of
                       Inl e \<Rightarrow> Inl e
                     | Inr pieces \<Rightarrow>
                         (case strip (join [CHR 0x0A] pieces) of
                            [] \<Rightarrow> Inl (ValueError ''missing output text'')
                          | c # cs \<Rightarrow> Inr (c # cs))))
           | c # cs \<Rightarrow> Inr (c # cs)))"

definition usage_field :: "json \<Rightarrow> string \<Rightarrow> int \<Rightarrow> int result" where
  "usage_field usage k d =
     (case json_get usage k of
        Inl e \<Rightarrow> Inl e
      | Inr None \<Rightarrow> Inr d
      | Inr (Some v) \<Rightarrow> py_int v)"

definition usage_of :: "json \<Rightarrow> json result" where
  "usage_of payload =
     (case json_get payload ''usage'' of
        Inl e \<Rightarrow> Inl e
      | Inr None \<Rightarrow> Inr (JObj [])
      | Inr (Some u) \<Rightarrow> Inr (if truthy u then u else JObj []))"

section \<open>The world of a call\<close>

record http_request =
  hr_url :: string
  hr_authorization :: string
  hr_accept :: "string option"
  hr_body :: json_object
  hr_timeout :: rat

record world =
  w_os :: os_state
  w_db :: state_db
  w_sent :: "http_request list"
  w_deltas :: "string list"

type_synonym 'a act = "world \<Rightarrow> 'a result \<times> world"

definition bind_act :: "'a act \<Rightarrow> ('a \<Rightarrow> 'b act) \<Rightarrow> 'b act" where
  "bind_act m f w = (case m w of (Inl e, w') \<Rightarrow> (Inl e, w') | (Inr x, w') \<Rightarrow> f x w')"

definition lift_act :: "'a result \<Rightarrow> 'a act" where
  "lift_act r w = (r, w)"

definition raise_act :: "error \<Rightarrow> 'a act" where
  "raise_act e w = (Inl e, w)"

text \<open>\<^verbatim>\<open>try: m except p: h\<close>.\<close>

definition handle_act :: "'a act \<Rightarrow> (error \<Rightarrow> bool) \<Rightarrow> 'a act \<Rightarrow> 'a act" where
  "handle_act m p h w =
     (case m w of
        (Inl e, w') \<Rightarrow> if p e then h w' else (Inl e, w')
      | (Inr x, w') \<Rightarrow> (Inr x, w'))"

definition db_act :: "(state_db \<Rightarrow> 'a result \<times> state_db) \<Rightarrow> 'a act" where
  "db_act f w = (case f (w_db w) of (r, db') \<Rightarrow> (r, w\<lparr>w_db := db'\<rparr>))"

definition send_act :: "http_request \<Rightarrow> unit act" where
  "send_act rq w = (Inr (), w\<lparr>w_sent := w_sent w @ [rq]\<rparr>)"

record gateway_env =
  ge_ledger :: ledger_env
  ge_reserve_at :: datetime
  ge_finish_at :: datetime
  ge_finish_uid :: "nat \<Rightarrow> string"
  ge_network :: network_policy
  ge_per_operation_budget_usd :: rat
  ge_monthly_budget_usd :: rat
  ge_budget_timezone :: string
  ge_max_concurrent_paid_requests :: int
  ge_operation_cap :: "decimal option"
  ge_operation_uuid :: string
  ge_attempt_uuid :: string
  ge_interference :: "state_db \<Rightarrow> state_db"

record answer_call =
  ac_prompt :: string
  ac_profile :: provider_profile
  ac_credential :: "string option"
  ac_operation_id :: "string option"
  ac_before :: runtime_reading
  ac_allow_unknown_cost :: bool
  ac_on_text_delta :: "(string \<Rightarrow> error option) option"
  ac_operation_cap_usd :: "decimal option"

datatype sse_line = OtherLine | DataBlank | DataDone | DataJson json | DataMalformed

text \<open>
  What the client delivers. A plain response has its status, the reading of cancellation and clock
  after it, and its body. A streamed one has its status and its lines, each with the reading made
  when it arrives; \<open>Inl\<close> is an exception raised by the iterator, which ends it.
\<close>

record transport =
  tr_submit :: runtime_reading
  tr_response :: "(int \<times> runtime_reading \<times> json option) result"
  tr_stream :: "(int \<times> (runtime_reading \<times> sse_line) result list) result"

record provider_answer =
  pa_text :: string
  pa_input_tokens :: int
  pa_output_tokens :: int
  pa_operation_id :: string
  pa_attempt_id :: string
  pa_cost_usd :: "rat option"
  pa_cost_known :: bool

section \<open>Reservation, settlement and uncertainty\<close>

definition invalid_cap :: "decimal \<Rightarrow> bool" where
  "invalid_cap c \<longleftrightarrow> (case c of NonFinite \<Rightarrow> True | Dec x \<Rightarrow> x < 0)"

fun collect_caps :: "decimal option list \<Rightarrow> rat list result" where
  "collect_caps [] = Inr []"
| "collect_caps (None # cs) = collect_caps cs"
| "collect_caps (Some NonFinite # cs) =
     Inl (ValueError ''Operation cost ceiling must be finite and nonnegative.'')"
| "collect_caps (Some (Dec x) # cs) =
     (if x < 0 then Inl (ValueError ''Operation cost ceiling must be finite and nonnegative.'')
      else (case collect_caps cs of Inl e \<Rightarrow> Inl e | Inr xs \<Rightarrow> Inr (x # xs)))"

definition min_cap :: "rat \<Rightarrow> rat list \<Rightarrow> rat" where
  "min_cap budget caps = foldl min budget caps"

text \<open>\<^verbatim>\<open>ProviderGateway.__init__\<close> checks its ceiling once.\<close>

definition make_gateway :: "gateway_env \<Rightarrow> gateway_env result" where
  "make_gateway env =
     (case ge_operation_cap env of
        None \<Rightarrow> Inr env
      | Some c \<Rightarrow>
          if invalid_cap c
          then Inl (ValueError ''Operation cost ceiling must be finite and nonnegative.'') else Inr env)"

definition reserve_request_of ::
  "gateway_env \<Rightarrow> string \<Rightarrow> provider_profile \<Rightarrow> rat option \<Rightarrow> rat list \<Rightarrow> reserve_request" where
  "reserve_request_of env operation p projected caps =
     \<lparr>rq_operation_id = operation, rq_attempt_id = ge_attempt_uuid env, rq_provider = pp_provider p,
      rq_profile_id = pp_id p,
      rq_projected_usd = Dec (case projected of Some c \<Rightarrow> c | None \<Rightarrow> 0),
      rq_monthly_cap_usd = ge_monthly_budget_usd env,
      rq_per_operation_cap_usd = min_cap (ge_per_operation_budget_usd env) caps,
      rq_timezone = ge_budget_timezone env, rq_price_snapshot = price_snapshot p,
      rq_lease_seconds = 120, rq_max_concurrent = ge_max_concurrent_paid_requests env,
      rq_cost_known = pricing_verified p\<rparr>"

definition ledger_reserve :: "gateway_env \<Rightarrow> reserve_request \<Rightarrow> usage_reservation act" where
  "ledger_reserve env rq w =
     (case reserve (ge_ledger env) (ge_reserve_at env) rq (w_os w) (w_db w) of
        (r, os', db') \<Rightarrow> (r, w\<lparr>w_os := os', w_db := db'\<rparr>))"

definition gateway_reserve ::
  "gateway_env \<Rightarrow> string \<Rightarrow> provider_profile \<Rightarrow> rat option \<Rightarrow> bool \<Rightarrow> decimal option \<Rightarrow>
   usage_reservation act" where
  "gateway_reserve env operation p projected allow_unknown cap =
     bind_act (lift_act (collect_caps [ge_operation_cap env, cap])) (\<lambda>caps.
       if \<not> pricing_verified p \<and> \<not> allow_unknown
       then raise_act (ProviderExecutionError
         (''This profile has unknown pricing. Automatic and capped paid work '' @
          ''is disabled; a one-off manual request requires explicit '' @
          ''unknown-cost approval and is outside USD budget caps.''))
       else ledger_reserve env (reserve_request_of env operation p projected caps))"

definition gateway_settle ::
  "gateway_env \<Rightarrow> usage_reservation \<Rightarrow> provider_profile \<Rightarrow> rat option \<Rightarrow> int \<Rightarrow> int \<Rightarrow> unit act" where
  "gateway_settle env rsv p actual itoks otoks =
     db_act (settle (ge_finish_uid env) (ge_finish_at env) rsv
       (Dec (case actual of Some c \<Rightarrow> c | None \<Rightarrow> 0)) (Some itoks) (Some otoks)
       (price_snapshot p) (pp_provider p) (pp_id p))"

definition gateway_uncertain ::
  "gateway_env \<Rightarrow> usage_reservation \<Rightarrow> provider_profile \<Rightarrow> unit act" where
  "gateway_uncertain env rsv p =
     db_act (mark_uncertain (ge_finish_uid env) (ge_finish_at env) rsv (price_snapshot p)
       (pp_provider p) (pp_id p))"

definition uncertain_then :: "gateway_env \<Rightarrow> usage_reservation \<Rightarrow> provider_profile \<Rightarrow> error \<Rightarrow> 'a act" where
  "uncertain_then env rsv p e = bind_act (gateway_uncertain env rsv p) (\<lambda>_. raise_act e)"

text \<open>\<^verbatim>\<open>_check\<close> with a reservation: the attempt is marked uncertain before the exception propagates.\<close>

definition check_reserved ::
  "gateway_env \<Rightarrow> usage_reservation \<Rightarrow> provider_profile \<Rightarrow> runtime_reading \<Rightarrow> unit act" where
  "check_reserved env rsv p rt =
     (case check_runtime rt of
        Inr _ \<Rightarrow> lift_act (Inr ())
      | Inl e \<Rightarrow> uncertain_then env rsv p e)"

definition deliver :: "(string \<Rightarrow> error option) option \<Rightarrow> string \<Rightarrow> unit act" where
  "deliver cb text w =
     (case cb of
        None \<Rightarrow> (Inr (), w)
      | Some f \<Rightarrow>
          (case f text of
             None \<Rightarrow> (Inr (), w\<lparr>w_deltas := w_deltas w @ [text]\<rparr>)
           | Some e \<Rightarrow> (Inl e, w\<lparr>w_deltas := w_deltas w @ [text]\<rparr>)))"

section \<open>Requests\<close>

definition is_http_error :: "error \<Rightarrow> bool" where
  "is_http_error e \<longleftrightarrow> (case e of HttpError _ \<Rightarrow> True | _ \<Rightarrow> False)"

text \<open>\<^verbatim>\<open>except (TypeError, ValueError, KeyError)\<close>, with the program's own subclasses of them.\<close>

definition is_malformed :: "error \<Rightarrow> bool" where
  "is_malformed e \<longleftrightarrow>
     (case e of
        TypeError _ \<Rightarrow> True | ValueError _ \<Rightarrow> True | KeyError _ \<Rightarrow> True
      | ZoneInfoNotFound _ \<Rightarrow> True | LocalSessionError _ \<Rightarrow> True | LocalSettingsError _ \<Rightarrow> True
      | _ \<Rightarrow> False)"

definition no_usable_response :: error where
  "no_usable_response = ProviderExecutionError ''The answer provider did not return a usable response.''"

definition failed_after_submission :: error where
  "failed_after_submission = ProviderExecutionError ''The answer provider failed after request submission.''"

definition malformed_response :: error where
  "malformed_response = ProviderExecutionError ''The answer provider response was malformed.''"

definition status_digits :: "int \<Rightarrow> string" where
  "status_digits n = (if n < 10 then [char_of (48 + n)]
     else if n < 100 then [char_of (48 + n div 10), char_of (48 + n mod 10)]
     else [char_of (48 + n div 100), char_of (48 + n div 10 mod 10), char_of (48 + n mod 10)])"

definition rejected_request :: "int \<Rightarrow> error" where
  "rejected_request status =
     ProviderExecutionError (''The answer provider rejected the request ('' @ status_digits status @ '').'')"

definition bearer :: "string option \<Rightarrow> string" where
  "bearer c = ''Bearer '' @ (case c of Some s \<Rightarrow> s | None \<Rightarrow> ''None'')"

definition check_status ::
  "gateway_env \<Rightarrow> usage_reservation \<Rightarrow> provider_profile \<Rightarrow> int \<Rightarrow> unit act" where
  "check_status env rsv p status =
     (if status \<ge> 500 then uncertain_then env rsv p failed_after_submission
      else if status \<ge> 400
      then bind_act (gateway_settle env rsv p (Some 0) 0 0) (\<lambda>_. raise_act (rejected_request status))
      else lift_act (Inr ()))"

definition answer_payload ::
  "gateway_env \<Rightarrow> usage_reservation \<Rightarrow> answer_call \<Rightarrow> string \<Rightarrow> json_object \<Rightarrow> transport \<Rightarrow> json act" where
  "answer_payload env rsv c endpoint body tr =
     (let p = ac_profile c in
      bind_act (send_act \<lparr>hr_url = endpoint, hr_authorization = bearer (ac_credential c), hr_accept = None,
                          hr_body = body, hr_timeout = request_timeout (tr_submit tr) p\<rparr>) (\<lambda>_.
      case tr_response tr of
        Inl e \<Rightarrow> if is_http_error e then uncertain_then env rsv p no_usable_response else raise_act e
      | Inr (status, rt, content) \<Rightarrow>
          bind_act (check_reserved env rsv p rt) (\<lambda>_.
          bind_act (check_status env rsv p status) (\<lambda>_.
          case content of
            None \<Rightarrow> raise_act (ValueError ''Expecting value'')
          | Some j \<Rightarrow> lift_act (Inr j)))))"

definition final_event :: "json option \<Rightarrow> bool" where
  "final_event t \<longleftrightarrow>
     t \<in> {Some (JStr ''response.completed''), Some (JStr ''response.failed''), Some (JStr ''response.incomplete'')}"

text \<open>One decoded event: the new value of \<^verbatim>\<open>completed\<close>. A list or a dictionary as the type is
  unhashable and cannot be looked up in the set of final types.\<close>

definition stream_event ::
  "(string \<Rightarrow> error option) option \<Rightarrow> json \<Rightarrow> json option \<Rightarrow> json option act" where
  "stream_event cb ev completed =
     bind_act (lift_act (json_get ev ''type'')) (\<lambda>t.
       if t = Some (JStr ''response.output_text.delta'')
       then bind_act (lift_act (json_get ev ''delta'')) (\<lambda>d.
              case d of
                Some (JStr s) \<Rightarrow>
                  if s = [] then lift_act (Inr completed)
                  else bind_act (deliver cb s) (\<lambda>_. lift_act (Inr completed))
              | _ \<Rightarrow> raise_act (ValueError ''invalid text delta''))
       else case t of
         Some (JList _) \<Rightarrow> raise_act (TypeError ''unhashable type: list'')
       | Some (JObj _) \<Rightarrow> raise_act (TypeError ''unhashable type: dict'')
       | _ \<Rightarrow>
           if final_event t
           then bind_act (lift_act (json_get ev ''response'')) (\<lambda>r.
                  case r of
                    Some (JObj fs) \<Rightarrow> lift_act (Inr (Some (JObj fs)))
                  | _ \<Rightarrow> raise_act (ValueError ''missing final response''))
           else lift_act (Inr completed))"

fun stream_lines ::
  "gateway_env \<Rightarrow> usage_reservation \<Rightarrow> answer_call \<Rightarrow> (runtime_reading \<times> sse_line) result list \<Rightarrow>
   json option \<Rightarrow> json option act" where
  "stream_lines env rsv c [] completed = lift_act (Inr completed)"
| "stream_lines env rsv c (Inl e # _) completed = raise_act e"
| "stream_lines env rsv c (Inr (rt, line) # rest) completed =
     bind_act (check_reserved env rsv (ac_profile c) rt) (\<lambda>_.
       case line of
         DataJson ev \<Rightarrow>
           bind_act (stream_event (ac_on_text_delta c) ev completed) (stream_lines env rsv c rest)
       | DataMalformed \<Rightarrow> raise_act (ValueError ''Expecting value'')
       | _ \<Rightarrow> stream_lines env rsv c rest completed)"

definition streaming_answer_payload ::
  "gateway_env \<Rightarrow> usage_reservation \<Rightarrow> answer_call \<Rightarrow> string \<Rightarrow> json_object \<Rightarrow> transport \<Rightarrow> json act" where
  "streaming_answer_payload env rsv c endpoint body tr =
     (let p = ac_profile c in
      bind_act
        (handle_act
          (bind_act (send_act \<lparr>hr_url = endpoint, hr_authorization = bearer (ac_credential c),
                               hr_accept = Some ''text/event-stream'', hr_body = body,
                               hr_timeout = request_timeout (tr_submit tr) p\<rparr>) (\<lambda>_.
           case tr_stream tr of
             Inl e \<Rightarrow> raise_act e
           | Inr (status, lines) \<Rightarrow>
               bind_act (check_status env rsv p status) (\<lambda>_. stream_lines env rsv c lines None)))
          is_http_error
          (uncertain_then env rsv p no_usable_response))
        (\<lambda>completed.
          case completed of
            None \<Rightarrow> raise_act (ValueError ''missing response.completed event'')
          | Some j \<Rightarrow> lift_act (Inr j)))"

section \<open>An answer request\<close>

definition contains :: "string \<Rightarrow> string \<Rightarrow> bool" where
  "contains s t \<longleftrightarrow> list_ex (\<lambda>n. take (length t) (drop n s) = t) [0..<length s + 1]"

definition fake_text :: "string \<Rightarrow> string" where
  "fake_text prompt =
     ''Synthetic provider output for interface testing only; this is not '' @
     ''a substantive legal answer '' @
     (if contains prompt ''Property evidence:'' then ''[P1]'' else ''[E1]'') @ ''.''"

definition answer_result ::
  "gateway_env \<Rightarrow> string \<Rightarrow> string \<Rightarrow> int \<Rightarrow> int \<Rightarrow> rat option \<Rightarrow> provider_answer" where
  "answer_result env operation text itoks otoks actual =
     \<lparr>pa_text = text, pa_input_tokens = itoks, pa_output_tokens = otoks, pa_operation_id = operation,
      pa_attempt_id = ge_attempt_uuid env, pa_cost_usd = actual, pa_cost_known = (actual \<noteq> None)\<rparr>"

definition settle_and_return ::
  "gateway_env \<Rightarrow> usage_reservation \<Rightarrow> provider_profile \<Rightarrow> string \<Rightarrow> string \<Rightarrow> int \<Rightarrow> int \<Rightarrow>
   provider_answer act" where
  "settle_and_return env rsv p operation text itoks otoks =
     bind_act (lift_act (cost p itoks otoks)) (\<lambda>actual.
     bind_act (gateway_settle env rsv p actual itoks otoks) (\<lambda>_.
     lift_act (Inr (answer_result env operation text itoks otoks actual))))"

definition fake_answer ::
  "gateway_env \<Rightarrow> usage_reservation \<Rightarrow> answer_call \<Rightarrow> string \<Rightarrow> int \<Rightarrow> provider_answer act" where
  "fake_answer env rsv c operation itoks =
     (let text = fake_text (ac_prompt c) in
      bind_act (deliver (ac_on_text_delta c) text) (\<lambda>_.
      settle_and_return env rsv (ac_profile c) operation text itoks (estimate_tokens text)))"

definition request_payload :: "answer_call \<Rightarrow> bool \<Rightarrow> json_object" where
  "request_payload c stream =
     [(''model'', JStr (pp_model (ac_profile c))), (''input'', JStr (ac_prompt c)),
      (''max_output_tokens'', case pp_max_output_tokens (ac_profile c) of Some n \<Rightarrow> JInt n | None \<Rightarrow> JNull),
      (''store'', JBool False)] @
     (if stream
      then [(''stream'', JBool True), (''stream_options'', JObj [(''include_obfuscation'', JBool False)])]
      else [])"

definition stream_response :: "answer_call \<Rightarrow> bool" where
  "stream_response c \<longleftrightarrow> ac_on_text_delta c \<noteq> None \<and> pp_provider (ac_profile c) = ''openai''"

definition read_usage :: "json \<Rightarrow> string \<Rightarrow> int \<Rightarrow> (int \<times> int) result" where
  "read_usage payload text itoks =
     (case usage_of payload of
        Inl e \<Rightarrow> Inl e
      | Inr usage \<Rightarrow>
          (case usage_field usage ''input_tokens'' itoks of
             Inl e \<Rightarrow> Inl e
           | Inr i \<Rightarrow>
               (case usage_field usage ''output_tokens'' (estimate_tokens text) of
                  Inl e \<Rightarrow> Inl e
                | Inr n \<Rightarrow> Inr (i, n))))"

text \<open>The body of the \<^verbatim>\<open>try\<close> of \<^verbatim>\<open>answer\<close>: the text and the two token counts.\<close>

definition request_and_read ::
  "gateway_env \<Rightarrow> usage_reservation \<Rightarrow> answer_call \<Rightarrow> string \<Rightarrow> int \<Rightarrow> transport \<Rightarrow>
   (string \<times> int \<times> int) act" where
  "request_and_read env rsv c endpoint itoks tr =
     (let stream = stream_response c; body = request_payload c stream in
      bind_act
        (if stream then streaming_answer_payload env rsv c endpoint body tr
         else answer_payload env rsv c endpoint body tr) (\<lambda>payload.
      bind_act (lift_act (json_get payload ''status'')) (\<lambda>status.
      if status = Some (JStr ''incomplete'')
      then raise_act (ValueError ''incomplete provider response'')
      else
      bind_act (lift_act (response_text payload)) (\<lambda>text.
      bind_act (if stream then lift_act (Inr ()) else deliver (ac_on_text_delta c) text) (\<lambda>_.
      bind_act (lift_act (read_usage payload text itoks)) (\<lambda>toks.
      lift_act (Inr (text, toks))))))))"

definition provider_call ::
  "gateway_env \<Rightarrow> usage_reservation \<Rightarrow> answer_call \<Rightarrow> string \<Rightarrow> string \<Rightarrow> int \<Rightarrow> transport \<Rightarrow>
   provider_answer act" where
  "provider_call env rsv c operation endpoint itoks tr =
     bind_act
       (handle_act (request_and_read env rsv c endpoint itoks tr) is_malformed
         (uncertain_then env rsv (ac_profile c) malformed_response)) (\<lambda>res.
     case res of (text, i, n) \<Rightarrow>
       settle_and_return env rsv (ac_profile c) operation text i n)"

text \<open>
  The checks before the reservation. \<open>Inr\<close> is the endpoint, \<open>None\<close> for the built-in fake provider.
\<close>

definition admit :: "gateway_env \<Rightarrow> answer_call \<Rightarrow> string option result" where
  "admit env c =
     (let p = ac_profile c in
      if pp_kind p \<noteq> ANSWER
      then Inl (ProviderExecutionError ''Selected profile is not an answer profile.'')
      else if \<not> pp_compatibility_verified p
      then Inl (ProviderExecutionError
        (''The custom answer endpoint has not passed its explicit '' @ ''compatibility check.''))
      else
      (case check_runtime (ac_before c) of
         Inl e \<Rightarrow> Inl e
       | Inr _ \<Rightarrow>
      (case (if pp_provider p = ''fake'' then Inr None
             else if ac_credential c = None \<or> ac_credential c = Some []
             then Inl (ProviderExecutionError ''The selected provider credential is missing.'')
             else (case pp_endpoint p of
                     None \<Rightarrow> Inl (AssertionError [])
                   | Some url \<Rightarrow>
                       (case assert_url_allowed (ge_network env) url ''answer provider'' of
                          Inl e \<Rightarrow> Inl e
                        | Inr _ \<Rightarrow> Inr (Some url)))) of
         Inl e \<Rightarrow> Inl e
       | Inr endpoint \<Rightarrow>
           if input_token_bound (ac_prompt c) True > pp_max_input_tokens p
           then Inl (ProviderExecutionError ''Answer input exceeds the profile token limit.'')
           else Inr endpoint)))"

definition operation_of :: "gateway_env \<Rightarrow> answer_call \<Rightarrow> string" where
  "operation_of env c =
     (case ac_operation_id c of None \<Rightarrow> ge_operation_uuid env | Some s \<Rightarrow> if s = [] then ge_operation_uuid env else s)"

definition interfere :: "gateway_env \<Rightarrow> unit act" where
  "interfere env w = (Inr (), w\<lparr>w_db := ge_interference env (w_db w)\<rparr>)"

definition answer :: "gateway_env \<Rightarrow> answer_call \<Rightarrow> transport \<Rightarrow> provider_answer act" where
  "answer env c tr =
     (let p = ac_profile c; operation = operation_of env c;
          itoks = input_token_bound (ac_prompt c) True;
          otoks = (case pp_max_output_tokens p of Some n \<Rightarrow> n | None \<Rightarrow> 0)
      in bind_act (lift_act (admit env c)) (\<lambda>endpoint.
         bind_act (lift_act (cost p itoks otoks)) (\<lambda>projected.
         bind_act (gateway_reserve env operation p projected (ac_allow_unknown_cost c) (ac_operation_cap_usd c)) (\<lambda>rsv.
         bind_act (interfere env) (\<lambda>_.
         case endpoint of
           None \<Rightarrow> fake_answer env rsv c operation itoks
         | Some url \<Rightarrow> provider_call env rsv c operation url itoks tr)))))"

end
