(* ===== verification/Ledger_Props.thy ===== *)
theory Ledger_Props
  imports Ledger
begin

text \<open>
  Correctness of the spend ledger. The table of events is abstracted to a map from attempts to
  attempt states; the invariant \<open>ledger_inv\<close> says that every attempt has a well-formed history
  (reserved, then settled or uncertain, an uncertain one possibly corrected) and that the leases
  are exactly the attempts still reserved. Every operation keeps it and refines an operation on the
  abstract map.
\<close>

section \<open>The abstraction\<close>

definition event_at :: "state_db \<Rightarrow> string \<Rightarrow> usage_event_type \<Rightarrow> usage_event option" where
  "event_at db a t =
     select_first (\<lambda>r. ue_attempt_id r = a \<and> ue_event_type r = t) (usage_events db)"

definition event_key :: "usage_event \<Rightarrow> string \<times> usage_event_type" where
  "event_key r = (ue_attempt_id r, ue_event_type r)"

definition keys_distinct :: "state_db \<Rightarrow> bool" where
  "keys_distinct db \<longleftrightarrow> distinct (map event_key (usage_events db))"

definition ledger_abs :: "state_db \<Rightarrow> string \<rightharpoonup> attempt_state" where
  "ledger_abs db a = attempt_state_of (attempt_rows (event_rows db) a)"

fun status_for :: "usage_event_type \<Rightarrow> string" where
  "status_for RESERVE = ''reserved''"
| "status_for SETTLE = ''settled''"
| "status_for UNCERTAIN = ''uncertain''"
| "status_for CORRECTION = ''settled''"

definition has_status :: "state_db \<Rightarrow> string \<Rightarrow> string \<Rightarrow> bool" where
  "has_status db a st \<longleftrightarrow> (\<exists>s. ledger_abs db a = Some s \<and> as_status s = st)"

text \<open>The events an attempt may have together.\<close>

definition history_ok :: "state_db \<Rightarrow> string \<Rightarrow> bool" where
  "history_ok db a \<longleftrightarrow>
     (event_at db a RESERVE = None \<longrightarrow> event_at db a SETTLE = None \<and> event_at db a UNCERTAIN = None) \<and>
     (event_at db a UNCERTAIN = None \<longrightarrow> event_at db a CORRECTION = None) \<and>
     (event_at db a SETTLE = None \<or> event_at db a UNCERTAIN = None)"

definition ledger_inv :: "state_db \<Rightarrow> bool" where
  "ledger_inv db \<longleftrightarrow>
     distinct (map ue_id (usage_events db)) \<and>
     keys_distinct db \<and>
     (\<forall>r \<in> set (usage_events db). ue_status r = status_for (ue_event_type r)) \<and>
     (\<forall>a. history_ok db a) \<and>
     distinct (map pl_attempt_id (paid_call_leases db)) \<and>
     (\<forall>a. a \<in> set (map pl_attempt_id (paid_call_leases db)) \<longleftrightarrow> has_status db a ''reserved'')"

lemma has_status_map: "has_status db a st \<longleftrightarrow> map_option as_status (ledger_abs db a) = Some st"
  by (auto simp: has_status_def)

lemma ledger_abs_cong:
  "usage_events db' = usage_events db \<Longrightarrow> ledger_abs db' = ledger_abs db"
  by (rule ext) (simp add: ledger_abs_def event_rows_def)

lemma event_at_cong: "usage_events db' = usage_events db \<Longrightarrow> event_at db' = event_at db"
  by (intro ext) (simp add: event_at_def)

lemma ledger_inv_cong:
  assumes "usage_events db' = usage_events db" and "paid_call_leases db' = paid_call_leases db"
  shows "ledger_inv db' = ledger_inv db"
  by (simp add: ledger_inv_def keys_distinct_def has_status_def history_ok_def assms
      event_at_cong [OF assms(1)] ledger_abs_cong [OF assms(1)])

lemma mset_single_list: "mset xs = {#x#} \<Longrightarrow> xs = [x]"
  by (metis mset.simps(1,2) mset_single_iff_right)

lemma filter_conj_key:
  "filter (\<lambda>r. ue_attempt_id r = a \<and> ue_event_type r = t) xs = filter (\<lambda>r. event_key r = (a, t)) xs"
  by (simp add: event_key_def)

lemma by_type_event_at:
  assumes "keys_distinct db"
  shows "by_type t (attempt_rows (event_rows db) a) = event_at db a t"
proof -
  let ?p = "\<lambda>r. event_key r = (a, t)"
  have e: "filter (\<lambda>r. ue_event_type r = t) (attempt_rows (event_rows db) a) = filter ?p (event_rows db)"
    unfolding attempt_rows_def filter_filter
    by (rule filter_cong) (auto simp: event_key_def)
  have m: "mset (filter ?p (event_rows db)) = mset (filter ?p (usage_events db))"
    by (simp add: event_rows_def)
  show ?thesis
  proof (cases "event_at db a t")
    case None
    then have "filter ?p (usage_events db) = []"
      by (auto simp: event_at_def select_first_None filter_empty_conv event_key_def)
    with m have "filter ?p (event_rows db) = []" by simp
    with e None show ?thesis by (simp add: by_type_def)
  next
    case (Some r)
    then have r: "r \<in> set (usage_events db)" "event_key r = (a, t)"
      by (auto simp: event_at_def event_key_def dest: select_first_Some)
    from filter_key [OF assms [unfolded keys_distinct_def] r(1)] r(2)
    have "filter ?p (usage_events db) = [r]" by simp
    with m have "filter ?p (event_rows db) = [r]"
      by (intro mset_single_list) simp
    with e Some show ?thesis by (simp add: by_type_def)
  qed
qed

text \<open>The state of an attempt, read off the at most four events it has.\<close>

lemma ledger_abs_events:
  assumes "keys_distinct db"
  shows "ledger_abs db a =
    (case event_at db a RESERVE of
       None \<Rightarrow> None
     | Some rv \<Rightarrow>
         (let f = (case event_at db a CORRECTION of
                     Some r \<Rightarrow> r
                   | None \<Rightarrow> (case event_at db a SETTLE of
                       Some r \<Rightarrow> r
                     | None \<Rightarrow> (case event_at db a UNCERTAIN of Some r \<Rightarrow> r | None \<Rightarrow> rv)))
          in Some \<lparr>as_operation_id = ue_operation_id rv, as_reserved_at = ue_created_at rv,
                   as_status = ue_status f, as_amount = ue_amount_usd f,
                   as_cost_known = cost_known_of f\<rparr>))"
  unfolding ledger_abs_def attempt_state_of_def final_row_def by_type_event_at [OF assms] ..

lemma ledger_abs_local:
  assumes "keys_distinct db" and "keys_distinct db'" and "\<And>t. event_at db' b t = event_at db b t"
  shows "ledger_abs db' b = ledger_abs db b"
  by (simp only: ledger_abs_events [OF assms(1)] ledger_abs_events [OF assms(2)] assms(3))

lemma event_at_Some:
  "event_at db a t = Some r \<Longrightarrow> r \<in> set (usage_events db) \<and> ue_attempt_id r = a \<and> ue_event_type r = t"
  by (auto simp: event_at_def dest: select_first_Some)

lemma ledger_inv_status:
  assumes "ledger_inv db" and "event_at db a t = Some r"
  shows "ue_status r = status_for t"
  using assms event_at_Some [OF assms(2)] by (auto simp: ledger_inv_def)

lemma ledger_inv_keys: "ledger_inv db \<Longrightarrow> keys_distinct db"
  by (simp add: ledger_inv_def)

text \<open>Under the invariant the status says which events the attempt has.\<close>

lemma reserved_events:
  assumes "ledger_inv db" and "ledger_abs db a = Some s" and "as_status s = ''reserved''"
  obtains rv where "event_at db a RESERVE = Some rv" "event_at db a SETTLE = None"
    "event_at db a UNCERTAIN = None" "event_at db a CORRECTION = None"
    "s = \<lparr>as_operation_id = ue_operation_id rv, as_reserved_at = ue_created_at rv,
          as_status = ue_status rv, as_amount = ue_amount_usd rv, as_cost_known = cost_known_of rv\<rparr>"
proof -
  note st = ledger_inv_status [OF assms(1), of a]
  from assms(2) obtain rv where rv: "event_at db a RESERVE = Some rv"
    by (auto simp: ledger_abs_events [OF ledger_inv_keys [OF assms(1)]] split: option.splits)
  have 1: "event_at db a CORRECTION = None"
    using assms(2,3) rv st by (auto simp: ledger_abs_events [OF ledger_inv_keys [OF assms(1)]] Let_def
        split: option.splits)
  then have 2: "event_at db a SETTLE = None"
    using assms(2,3) rv st by (auto simp: ledger_abs_events [OF ledger_inv_keys [OF assms(1)]] Let_def
        split: option.splits)
  with 1 have 3: "event_at db a UNCERTAIN = None"
    using assms(2,3) rv st by (auto simp: ledger_abs_events [OF ledger_inv_keys [OF assms(1)]] Let_def
        split: option.splits)
  show ?thesis
    using that [OF rv 2 3 1] assms(2) rv 1 2 3
    by (simp add: ledger_abs_events [OF ledger_inv_keys [OF assms(1)]])
qed

lemma uncertain_events:
  assumes "ledger_inv db" and "ledger_abs db a = Some s" and "as_status s = ''uncertain''"
  obtains rv un where "event_at db a RESERVE = Some rv" "event_at db a SETTLE = None"
    "event_at db a UNCERTAIN = Some un" "event_at db a CORRECTION = None"
    "s = \<lparr>as_operation_id = ue_operation_id rv, as_reserved_at = ue_created_at rv,
          as_status = ue_status un, as_amount = ue_amount_usd un, as_cost_known = cost_known_of un\<rparr>"
proof -
  note abs = ledger_abs_events [OF ledger_inv_keys [OF assms(1)]]
  note st = ledger_inv_status [OF assms(1), of a]
  from assms(2) obtain rv where rv: "event_at db a RESERVE = Some rv"
    by (auto simp: abs split: option.splits)
  have 1: "event_at db a CORRECTION = None"
    using assms(2,3) rv st by (auto simp: abs Let_def split: option.splits)
  then have 2: "event_at db a SETTLE = None"
    using assms(2,3) rv st by (auto simp: abs Let_def split: option.splits)
  with 1 obtain un where 3: "event_at db a UNCERTAIN = Some un"
    using assms(2,3) rv st by (cases "event_at db a UNCERTAIN") (auto simp: abs Let_def)
  show ?thesis
    using that [OF rv 2 3 1] assms(2) rv 1 2 3 by (simp add: abs)
qed

section \<open>Single statements\<close>

lemma insert_event_Inr:
  "insert_event r db = Inr db' \<longleftrightarrow>
     ue_id r \<notin> ue_id ` set (usage_events db) \<and> db' = db\<lparr>usage_events := usage_events db @ [r]\<rparr>"
  by (auto simp: insert_event_def)

lemma event_at_insert:
  assumes "insert_event r db = Inr db'"
  shows "event_at db' a t =
    (case event_at db a t of
       Some x \<Rightarrow> Some x
     | None \<Rightarrow> if ue_attempt_id r = a \<and> ue_event_type r = t then Some r else None)"
  using assms by (auto simp: event_at_def insert_event_Inr split: option.splits)

lemma event_at_delete_lease [simp]: "event_at (delete_lease a db) = event_at db"
  by (rule event_at_cong) (simp add: delete_lease_def)

lemma ledger_abs_delete_lease [simp]: "ledger_abs (delete_lease a db) = ledger_abs db"
  by (rule ledger_abs_cong) (simp add: delete_lease_def)

lemma history_ok_cong: "event_at db' = event_at db \<Longrightarrow> history_ok db' = history_ok db"
  by (rule ext) (simp add: history_ok_def)

lemma keys_distinct_insert:
  assumes "keys_distinct db" and "insert_event r db = Inr db'"
    and "event_at db (ue_attempt_id r) (ue_event_type r) = None"
  shows "keys_distinct db'"
  using assms
  by (auto simp: keys_distinct_def insert_event_Inr event_at_def select_first_None event_key_def)

text \<open>
  The laws every event insertion shares: only the attempt of the event changes, and the table-wide
  parts of the invariant survive.
\<close>

lemma insert_event_laws:
  assumes inv: "ledger_inv db" and ins: "insert_event r db = Inr db'"
    and none: "event_at db (ue_attempt_id r) (ue_event_type r) = None"
    and st: "ue_status r = status_for (ue_event_type r)"
  shows insert_keys: "keys_distinct db'"
    and insert_abs: "ledger_abs db' = (ledger_abs db)(ue_attempt_id r := ledger_abs db' (ue_attempt_id r))"
    and insert_inv: "\<And>db''. history_ok db' (ue_attempt_id r) \<Longrightarrow> usage_events db'' = usage_events db' \<Longrightarrow>
      distinct (map pl_attempt_id (paid_call_leases db'')) \<Longrightarrow>
      (\<And>b. b \<in> set (map pl_attempt_id (paid_call_leases db'')) \<longleftrightarrow> has_status db' b ''reserved'') \<Longrightarrow>
      ledger_inv db''"
proof -
  from ins have *: "ue_id r \<notin> ue_id ` set (usage_events db)"
    "usage_events db' = usage_events db @ [r]"
    by (simp_all add: insert_event_Inr)
  show kd: "keys_distinct db'"
    by (rule keys_distinct_insert [OF ledger_inv_keys [OF inv] ins none])
  have other: "event_at db' b t = event_at db b t" if "b \<noteq> ue_attempt_id r" for b t
    using that by (simp add: event_at_insert [OF ins] split: option.splits)
  show "ledger_abs db' = (ledger_abs db)(ue_attempt_id r := ledger_abs db' (ue_attempt_id r))"
  proof
    fix b
    show "ledger_abs db' b = ((ledger_abs db)(ue_attempt_id r := ledger_abs db' (ue_attempt_id r))) b"
      using ledger_abs_local [OF ledger_inv_keys [OF inv] kd other] by (cases "b = ue_attempt_id r") simp_all
  qed
  fix db'' :: state_db
  assume h: "history_ok db' (ue_attempt_id r)" and e: "usage_events db'' = usage_events db'"
    and d: "distinct (map pl_attempt_id (paid_call_leases db''))"
    and l: "\<And>b. b \<in> set (map pl_attempt_id (paid_call_leases db'')) \<longleftrightarrow> has_status db' b ''reserved''"
  have "history_ok db' b" for b
    using h inv other by (cases "b = ue_attempt_id r") (auto simp: history_ok_def ledger_inv_def)
  then show "ledger_inv db''"
    using inv * kd st d l e
    by (auto simp: ledger_inv_def keys_distinct_def has_status_def event_at_cong [OF e]
        ledger_abs_cong [OF e] history_ok_cong [OF event_at_cong [OF e]])
qed

lemma leases_reserved:
  "ledger_inv db \<Longrightarrow> a \<in> pl_attempt_id ` set (paid_call_leases db) \<longleftrightarrow> has_status db a ''reserved''"
  by (simp add: ledger_inv_def)

text \<open>
  A reserved attempt is finished by an event that settles it or marks it uncertain, together with
  the deletion of its lease.
\<close>

lemma finish_step:
  assumes inv: "ledger_inv db" and abs: "ledger_abs db a = Some s" and st: "as_status s = ''reserved''"
    and ins: "insert_event r db = Inr db1" and a: "ue_attempt_id r = a"
    and t: "ue_event_type r = SETTLE \<or> ue_event_type r = UNCERTAIN"
    and rs: "ue_status r = status_for (ue_event_type r)"
  shows "ledger_inv (delete_lease a db1)" and "ledger_abs (delete_lease a db1) = (ledger_abs db)(a \<mapsto>
      s\<lparr>as_status := ue_status r, as_amount := ue_amount_usd r, as_cost_known := cost_known_of r\<rparr>)"
proof -
  obtain rv where ev: "event_at db a RESERVE = Some rv" "event_at db a SETTLE = None"
      "event_at db a UNCERTAIN = None" "event_at db a CORRECTION = None"
    and s: "s = \<lparr>as_operation_id = ue_operation_id rv, as_reserved_at = ue_created_at rv,
          as_status = ue_status rv, as_amount = ue_amount_usd rv, as_cost_known = cost_known_of rv\<rparr>"
    using reserved_events [OF inv abs st] by blast
  from ev t a have none: "event_at db (ue_attempt_id r) (ue_event_type r) = None" by auto
  note laws = insert_event_laws [OF inv ins none rs] and at = event_at_insert [OF ins]
  have new: "ledger_abs db1 a = Some (s\<lparr>as_status := ue_status r, as_amount := ue_amount_usd r,
      as_cost_known := cost_known_of r\<rparr>)"
    using t by (auto simp: ledger_abs_events [OF laws(1)] at ev a s)
  then show "ledger_abs (delete_lease a db1) = (ledger_abs db)(a \<mapsto>
      s\<lparr>as_status := ue_status r, as_amount := ue_amount_usd r, as_cost_known := cost_known_of r\<rparr>)"
    using laws(2) by (simp add: a)
  have leases: "paid_call_leases db1 = paid_call_leases db"
    using ins by (simp add: insert_event_Inr)
  have "status_for (ue_event_type r) \<noteq> ''reserved''" using t by auto
  with new rs laws(2) have "has_status db1 b ''reserved'' \<longleftrightarrow> b \<noteq> a \<and> has_status db b ''reserved''" for b
    by (cases "b = a") (auto simp: has_status_def a fun_upd_def)
  moreover have "history_ok db1 (ue_attempt_id r)"
    using t by (auto simp: history_ok_def at ev a)
  moreover have "set (map pl_attempt_id (paid_call_leases (delete_lease a db1))) =
      set (map pl_attempt_id (paid_call_leases db)) - {a}"
    by (auto simp: delete_lease_def leases)
  moreover have "distinct (map pl_attempt_id (paid_call_leases (delete_lease a db1)))"
    using inv by (simp add: delete_lease_def leases ledger_inv_def)
  moreover have "usage_events (delete_lease a db1) = usage_events db1"
    by (simp add: delete_lease_def)
  ultimately show "ledger_inv (delete_lease a db1)"
    using leases_reserved [OF inv] by (intro laws(3)) auto
qed

text \<open>An uncertain attempt is corrected by one event; the leases are not touched.\<close>

lemma correct_step:
  assumes inv: "ledger_inv db" and abs: "ledger_abs db a = Some s" and st: "as_status s = ''uncertain''"
    and ins: "insert_event r db = Inr db'" and a: "ue_attempt_id r = a"
    and t: "ue_event_type r = CORRECTION" and rs: "ue_status r = ''settled''"
  shows "ledger_inv db'" and "ledger_abs db' = (ledger_abs db)(a \<mapsto>
      s\<lparr>as_status := ''settled'', as_amount := ue_amount_usd r, as_cost_known := cost_known_of r\<rparr>)"
proof -
  obtain rv un where ev: "event_at db a RESERVE = Some rv" "event_at db a SETTLE = None"
      "event_at db a UNCERTAIN = Some un" "event_at db a CORRECTION = None"
    and s: "s = \<lparr>as_operation_id = ue_operation_id rv, as_reserved_at = ue_created_at rv,
          as_status = ue_status un, as_amount = ue_amount_usd un, as_cost_known = cost_known_of un\<rparr>"
    using uncertain_events [OF inv abs st] by blast
  from ev t a have none: "event_at db (ue_attempt_id r) (ue_event_type r) = None" by auto
  from rs t have rs': "ue_status r = status_for (ue_event_type r)" by simp
  note laws = insert_event_laws [OF inv ins none rs'] and at = event_at_insert [OF ins]
  have new: "ledger_abs db' a = Some (s\<lparr>as_status := ''settled'', as_amount := ue_amount_usd r,
      as_cost_known := cost_known_of r\<rparr>)"
    by (simp add: ledger_abs_events [OF laws(1)] at ev a s rs t)
  then show "ledger_abs db' = (ledger_abs db)(a \<mapsto>
      s\<lparr>as_status := ''settled'', as_amount := ue_amount_usd r, as_cost_known := cost_known_of r\<rparr>)"
    using laws(2) by (simp add: a)
  have leases: "paid_call_leases db' = paid_call_leases db"
    using ins by (simp add: insert_event_Inr)
  from new abs st laws(2) have "has_status db' b ''reserved'' \<longleftrightarrow> has_status db b ''reserved''" for b
    by (cases "b = a") (auto simp: has_status_def a fun_upd_def)
  moreover have "history_ok db' (ue_attempt_id r)"
    by (simp add: history_ok_def at ev a t)
  ultimately show "ledger_inv db'"
    using inv leases_reserved [OF inv]
    by (intro laws(3)) (auto simp: leases ledger_inv_def)
qed

text \<open>A new attempt is admitted by its first event and its lease.\<close>

lemma reserve_step:
  assumes inv: "ledger_inv db" and fresh: "a \<notin> set (map ue_attempt_id (usage_events db))"
    and ins: "insert_event r db = Inr db1" and a: "ue_attempt_id r = a"
    and t: "ue_event_type r = RESERVE" and rs: "ue_status r = ''reserved''"
    and lease: "insert_lease l db1 = Inr db'" and l: "pl_attempt_id l = a"
  shows "ledger_inv db'" and "ledger_abs db' = (ledger_abs db)(a \<mapsto>
      \<lparr>as_operation_id = ue_operation_id r, as_reserved_at = ue_created_at r,
       as_status = ''reserved'', as_amount = ue_amount_usd r, as_cost_known = cost_known_of r\<rparr>)"
    and "ledger_abs db a = None"
proof -
  have ev: "event_at db a u = None" for u
    using fresh by (auto simp: event_at_def select_first_None)
  then have none: "event_at db (ue_attempt_id r) (ue_event_type r) = None" by (simp add: a)
  from rs t have rs': "ue_status r = status_for (ue_event_type r)" by simp
  note laws = insert_event_laws [OF inv ins none rs'] and at = event_at_insert [OF ins]
  from lease l ins have lz: "usage_events db' = usage_events db1"
      "paid_call_leases db' = paid_call_leases db @ [l]"
      "a \<notin> set (map pl_attempt_id (paid_call_leases db))"
    by (auto simp: insert_lease_def insert_event_Inr split: if_splits)
  show "ledger_abs db a = None"
    by (simp add: ledger_abs_events [OF ledger_inv_keys [OF inv]] ev)
  have new: "ledger_abs db1 a = Some \<lparr>as_operation_id = ue_operation_id r,
      as_reserved_at = ue_created_at r, as_status = ''reserved'', as_amount = ue_amount_usd r,
      as_cost_known = cost_known_of r\<rparr>"
    by (simp add: ledger_abs_events [OF laws(1)] at ev a t rs)
  then show "ledger_abs db' = (ledger_abs db)(a \<mapsto>
      \<lparr>as_operation_id = ue_operation_id r, as_reserved_at = ue_created_at r,
       as_status = ''reserved'', as_amount = ue_amount_usd r, as_cost_known = cost_known_of r\<rparr>)"
    using laws(2) by (simp add: a ledger_abs_cong [OF lz(1)])
  from new laws(2) have "has_status db1 b ''reserved'' \<longleftrightarrow> b = a \<or> has_status db b ''reserved''" for b
    by (cases "b = a") (auto simp: has_status_def a fun_upd_def)
  moreover have "history_ok db1 (ue_attempt_id r)"
    by (simp add: history_ok_def at ev a t)
  ultimately show "ledger_inv db'"
    using inv lz l leases_reserved [OF inv]
    by (intro laws(3)) (auto simp: ledger_inv_def)
qed

section \<open>Recovery\<close>

text \<open>What recovery may do to the map: turn reserved attempts into uncertain ones, nothing else.\<close>

definition recovers :: "state_db \<Rightarrow> state_db \<Rightarrow> bool" where
  "recovers db db' \<longleftrightarrow>
     (\<forall>a. ledger_abs db' a = ledger_abs db a \<or>
        (\<exists>s. ledger_abs db a = Some s \<and> as_status s = ''reserved'' \<and>
           ledger_abs db' a = Some (s\<lparr>as_status := ''uncertain''\<rparr>)))"

text \<open>The test that makes recovery skip a reservation.\<close>

definition kept ::
  "(string option \<Rightarrow> bool option result) \<Rightarrow> paid_call_lease list \<Rightarrow> datetime \<Rightarrow> usage_event \<Rightarrow> bool" where
  "kept alive leases now r \<longleftrightarrow>
     (\<exists>j owner al. json_loads (ue_price_snapshot_json r) = Inr j \<and> snapshot_owner j = Inr owner \<and>
        alive owner = Inr al \<and> keep_reservation al leases (ue_attempt_id r) now)"

definition only_ledger_changed :: "state_db \<Rightarrow> state_db \<Rightarrow> bool" where
  "only_ledger_changed db db' \<longleftrightarrow>
     jobs db' = jobs db \<and> maintenance_state db' = maintenance_state db \<and>
     (\<exists>new. usage_events db' = usage_events db @ new)"

lemma only_ledger_changed_refl [simp]: "only_ledger_changed db db"
  by (simp add: only_ledger_changed_def)

lemma only_ledger_changed_trans:
  "only_ledger_changed db db1 \<Longrightarrow> only_ledger_changed db1 db2 \<Longrightarrow> only_ledger_changed db db2"
  by (auto simp: only_ledger_changed_def)

lemma only_ledger_changed_insert:
  "insert_event r db = Inr db' \<Longrightarrow> only_ledger_changed db (delete_lease a db')"
  "insert_event r db = Inr db' \<Longrightarrow> only_ledger_changed db db'"
  by (auto simp: only_ledger_changed_def insert_event_Inr delete_lease_def)

lemma recovers_refl [simp]: "recovers db db"
  by (simp add: recovers_def)

lemma recovers_trans:
  assumes "recovers db db1" and "recovers db1 db2"
  shows "recovers db db2"
  unfolding recovers_def
proof
  fix a
  from assms(1) consider "ledger_abs db1 a = ledger_abs db a"
    | s where "ledger_abs db a = Some s" "as_status s = ''reserved''"
        "ledger_abs db1 a = Some (s\<lparr>as_status := ''uncertain''\<rparr>)"
    unfolding recovers_def by blast
  then show "ledger_abs db2 a = ledger_abs db a \<or>
        (\<exists>s. ledger_abs db a = Some s \<and> as_status s = ''reserved'' \<and>
           ledger_abs db2 a = Some (s\<lparr>as_status := ''uncertain''\<rparr>))"
  proof cases
    case 1
    with assms(2) show ?thesis unfolding recovers_def by metis
  next
    case (2 s)
    with assms(2) have "ledger_abs db2 a = ledger_abs db1 a"
      unfolding recovers_def by fastforce
    with 2 show ?thesis by simp
  qed
qed

lemma recovers_cases:
  assumes "recovers db db'"
  obtains (same) "ledger_abs db' a = ledger_abs db a"
  | (recovered) s where "ledger_abs db a = Some s" "as_status s = ''reserved''"
      "ledger_abs db' a = Some (s\<lparr>as_status := ''uncertain''\<rparr>)"
  using assms unfolding recovers_def by blast

lemma recovers_not_reserved:
  assumes "recovers db db'" and "ledger_abs db a = Some s" and "as_status s \<noteq> ''reserved''"
  shows "ledger_abs db' a = Some s"
  using assms unfolding recovers_def by (metis option.inject)

lemma event_at_mem:
  assumes "keys_distinct db" and "r \<in> set (usage_events db)"
  shows "event_at db (ue_attempt_id r) (ue_event_type r) = Some r"
proof -
  have "(\<lambda>x. ue_attempt_id x = ue_attempt_id r \<and> ue_event_type x = ue_event_type r) =
      (\<lambda>x. event_key x = event_key r)"
    by (auto simp: event_key_def)
  then show ?thesis
    using select_first_key [of event_key, OF assms(1) [unfolded keys_distinct_def] assms(2)]
    by (simp add: event_at_def)
qed

lemma cost_known_recovery_event:
  "json_loads (ue_price_snapshot_json r) = Inr j \<Longrightarrow>
     cost_known_of (recovery_event u now r j) = cost_known_of r"
  by (auto simp: cost_known_of_def recovery_event_def json_loads_def update_conv'
      split: json_text.splits)

text \<open>One turn of the loop that recovers a reservation.\<close>

lemma recover_one:
  assumes inv: "ledger_inv db" and row: "row \<in> set (usage_events db)" "ue_event_type row = RESERVE"
    and st: "has_status db (ue_attempt_id row) ''reserved''"
    and j: "json_loads (ue_price_snapshot_json row) = Inr j"
    and ins: "insert_event (recovery_event u now row j) db = Inr db1"
  defines "a \<equiv> ue_attempt_id row"
  shows "ledger_inv (delete_lease a db1)" and "recovers db (delete_lease a db1)"
    and "\<And>b. b \<noteq> a \<Longrightarrow> ledger_abs (delete_lease a db1) b = ledger_abs db b"
    and "has_status (delete_lease a db1) a ''uncertain''"
proof -
  let ?e = "recovery_event u now row j"
  from st obtain s where s: "ledger_abs db a = Some s" "as_status s = ''reserved''"
    by (auto simp: has_status_def a_def)
  from event_at_mem [OF ledger_inv_keys [OF inv] row(1)] row(2)
  have "event_at db a RESERVE = Some row" by (simp add: a_def)
  with reserved_events [OF inv s] have "as_amount s = ue_amount_usd row" "as_cost_known s = cost_known_of row"
    by (metis attempt_state.select_convs option.sel)+
  then have same: "s\<lparr>as_status := ue_status ?e, as_amount := ue_amount_usd ?e, as_cost_known := cost_known_of ?e\<rparr>
      = s\<lparr>as_status := ''uncertain''\<rparr>"
    using cost_known_recovery_event [OF j, of u now] by (simp add: recovery_event_def)
  note step = finish_step [OF inv s ins]
  have "ue_attempt_id ?e = a" "ue_event_type ?e = UNCERTAIN" "ue_status ?e = status_for (ue_event_type ?e)"
    by (simp_all add: recovery_event_def a_def)
  with step same have 1: "ledger_inv (delete_lease a db1)"
    and 2: "ledger_abs (delete_lease a db1) = (ledger_abs db)(a \<mapsto> s\<lparr>as_status := ''uncertain''\<rparr>)"
    by simp_all
  show "ledger_inv (delete_lease a db1)" by (rule 1)
  show "recovers db (delete_lease a db1)" using s 2 by (auto simp: recovers_def)
  show "\<And>b. b \<noteq> a \<Longrightarrow> ledger_abs (delete_lease a db1) b = ledger_abs db b" using 2 by simp
  show "has_status (delete_lease a db1) a ''uncertain''" using 2 by (simp add: has_status_def)
qed

text \<open>What a whole recovery over a list of rows has done.\<close>

definition recovery_result ::
  "(string option \<Rightarrow> bool option result) \<Rightarrow> paid_call_lease list \<Rightarrow> datetime \<Rightarrow> usage_event list \<Rightarrow>
   state_db \<Rightarrow> state_db \<Rightarrow> bool" where
  "recovery_result alive leases now rows db db' \<longleftrightarrow>
     ledger_inv db' \<and> recovers db db' \<and> only_ledger_changed db db' \<and>
     (\<forall>r \<in> set rows. ue_event_type r = RESERVE \<longrightarrow> has_status db' (ue_attempt_id r) ''reserved'' \<longrightarrow>
        kept alive leases now r) \<and>
     (\<forall>a. ledger_abs db' a \<noteq> ledger_abs db a \<longrightarrow>
        (\<exists>r \<in> set rows. ue_event_type r = RESERVE \<and> ue_attempt_id r = a \<and> \<not> kept alive leases now r))"

lemma recovers_reserved:
  assumes "recovers db db'" and "has_status db' a ''reserved''"
  shows "has_status db a ''reserved''"
proof -
  from assms(1) have "ledger_abs db' a = ledger_abs db a \<or> has_status db a ''reserved''"
    by (auto simp: recovers_def has_status_def)
  with assms(2) show ?thesis by (auto simp: has_status_def)
qed

lemma recovery_result_skip:
  assumes "recovery_result alive leases now rows db db'"
    and "ue_event_type row = RESERVE \<Longrightarrow>
      \<not> has_status db (ue_attempt_id row) ''reserved'' \<or> kept alive leases now row"
  shows "recovery_result alive leases now (row # rows) db db'"
  using assms recovers_reserved [of db db' "ue_attempt_id row"] unfolding recovery_result_def by auto

lemma recovery_result_recover:
  assumes res: "recovery_result alive leases now rows db1 db'"
    and row: "ue_event_type row = RESERVE" "\<not> kept alive leases now row"
    and one: "recovers db db1" "only_ledger_changed db db1" "has_status db1 (ue_attempt_id row) ''uncertain''"
    and other: "\<And>b. b \<noteq> ue_attempt_id row \<Longrightarrow> ledger_abs db1 b = ledger_abs db b"
  shows "recovery_result alive leases now (row # rows) db db'"
proof -
  have "\<not> has_status db' (ue_attempt_id row) ''reserved''"
    using res one(3) recovers_reserved unfolding recovery_result_def has_status_map by fastforce
  moreover have "recovers db db'" "only_ledger_changed db db'"
    using res one recovers_trans only_ledger_changed_trans unfolding recovery_result_def by blast+
  moreover have "\<exists>r \<in> set (row # rows). ue_event_type r = RESERVE \<and> ue_attempt_id r = a \<and>
      \<not> kept alive leases now r" if "ledger_abs db' a \<noteq> ledger_abs db a" for a
    using that res row other unfolding recovery_result_def
    by (metis list.set_intros(1) list.set_intros(2))
  ultimately show ?thesis using res unfolding recovery_result_def by auto
qed

lemma recover_rows_correct:
  assumes "recover_rows alive uid now states leases rows n db = Inr (n', db')"
    and "ledger_inv db" and "set rows \<subseteq> set (usage_events db)" and "distinct (map event_key rows)"
    and "\<forall>r \<in> set rows. ue_event_type r = RESERVE \<longrightarrow>
      status_of states (ue_attempt_id r) = map_option as_status (ledger_abs db (ue_attempt_id r))"
  shows "recovery_result alive leases now rows db db'"
  using assms
proof (induction rows arbitrary: n db)
  case Nil
  then show ?case by (simp add: recovery_result_def)
next
  case (Cons row rows)
  let ?a = "ue_attempt_id row"
  have rest: "set rows \<subseteq> set (usage_events db)" "distinct (map event_key rows)"
    "\<forall>r \<in> set rows. ue_event_type r = RESERVE \<longrightarrow>
      status_of states (ue_attempt_id r) = map_option as_status (ledger_abs db (ue_attempt_id r))"
    using Cons.prems by auto
  have st: "ue_event_type row = RESERVE \<Longrightarrow>
      status_of states ?a = Some ''reserved'' \<longleftrightarrow> has_status db ?a ''reserved''"
    using Cons.prems(5) by (simp add: has_status_map)
  show ?case
  proof (cases "ue_event_type row = RESERVE \<and> status_of states ?a = Some ''reserved''")
    case False
    with Cons.prems(1) have "recover_rows alive uid now states leases rows n db = Inr (n', db')"
      by auto
    with Cons.IH [OF _ Cons.prems(2) rest] False st show ?thesis
      by (intro recovery_result_skip) auto
  next
    case True
    obtain j owner al where jo: "json_loads (ue_price_snapshot_json row) = Inr j"
        "snapshot_owner j = Inr owner" "alive owner = Inr al"
      using Cons.prems(1) True by (auto split: sum.splits)
    show ?thesis
    proof (cases "keep_reservation al leases ?a now")
      case k: True
      then have "kept alive leases now row" using jo by (auto simp: kept_def)
      with k Cons.prems(1) True jo Cons.IH [OF _ Cons.prems(2) rest] show ?thesis
        by (intro recovery_result_skip) simp_all
    next
      case k: False
      with Cons.prems(1) True jo obtain db1 where ins: "insert_event (recovery_event (uid n) now row j) db = Inr db1"
        and step: "recover_rows alive uid now states leases rows (n + 1) (delete_lease ?a db1) = Inr (n', db')"
        by (auto split: sum.splits)
      have row: "row \<in> set (usage_events db)" "ue_event_type row = RESERVE" using Cons.prems(3) True by auto
      note one = recover_one [OF Cons.prems(2) row _ jo(1) ins]
      have res: "has_status db ?a ''reserved''" using True st by simp
      have sub: "set rows \<subseteq> set (usage_events (delete_lease ?a db1))"
        using rest(1) ins by (auto simp: insert_event_Inr delete_lease_def)
      have "ue_attempt_id r \<noteq> ?a" if "r \<in> set rows" "ue_event_type r = RESERVE" for r
        using Cons.prems(4) that row(2) by (auto simp: event_key_def image_iff)
      with rest(3) one(3) [OF res] have "\<forall>r \<in> set rows. ue_event_type r = RESERVE \<longrightarrow>
          status_of states (ue_attempt_id r) =
          map_option as_status (ledger_abs (delete_lease ?a db1) (ue_attempt_id r))"
        by simp
      note IH = Cons.IH [OF step one(1) [OF res] sub rest(2) this]
      have "\<not> kept alive leases now row" using jo k by (auto simp: kept_def)
      from recovery_result_recover [OF IH row(2) this one(2) [OF res] only_ledger_changed_insert(1) [OF ins]
          one(4) [OF res] one(3) [OF res]]
      show ?thesis .
    qed
  qed
qed

lemma map_of_map_filter_distinct:
  "distinct xs \<Longrightarrow> map_of (List.map_filter (\<lambda>a. map_option (Pair a) (f a)) xs) a =
     (if a \<in> set xs then f a else None)"
  by (induction xs) (auto simp: map_filter_simps split: option.splits)

lemma attempt_ids_set [simp]: "set (attempt_ids es) = ue_attempt_id ` set es"
  and attempt_ids_distinct [simp]: "distinct (attempt_ids es)"
  by (simp_all add: attempt_ids_def)

lemma attempt_state_of_Nil [simp]: "attempt_state_of [] = None"
  by (simp add: attempt_state_of_def by_type_def)

text \<open>The dictionary that the operations compute is the abstract map.\<close>

lemma map_of_attempt_states: "map_of (attempt_states (event_rows db)) = ledger_abs db"
proof
  fix a
  have "attempt_rows es a = []" if "a \<notin> ue_attempt_id ` set es" for es
    using that by (auto simp: attempt_rows_def filter_empty_conv)
  then show "map_of (attempt_states (event_rows db)) a = ledger_abs db a"
    by (simp add: attempt_states_def map_of_map_filter_distinct ledger_abs_def)
qed

lemma status_of_states: "status_of (attempt_states (event_rows db)) a = map_option as_status (ledger_abs db a)"
  by (simp add: status_of_def map_of_attempt_states)

lemma set_event_rows [simp]: "set (event_rows db) = set (usage_events db)"
  by (simp add: event_rows_def)

lemma recover_usage_correct:
  assumes "recover_usage_attempts alive uid now db = Inr (n, db')" and "ledger_inv db"
  shows "recovery_result alive (paid_call_leases db) now (usage_events db) db db'"
proof -
  have "recovery_result alive (paid_call_leases db) now (event_rows db) db db'"
  proof (rule recover_rows_correct)
    show "recover_rows alive uid now (attempt_states (event_rows db)) (paid_call_leases db)
        (event_rows db) 0 db = Inr (n, db')"
      using assms(1) by (simp add: recover_usage_attempts_def Let_def)
    show "distinct (map event_key (event_rows db))"
      using ledger_inv_keys [OF assms(2)]
      by (simp add: keys_distinct_def event_rows_def distinct_map_sort_key)
  qed (use assms(2) in \<open>simp_all add: status_of_states\<close>)
  then show ?thesis by (simp add: recovery_result_def)
qed

section \<open>Sums over the abstract map\<close>

definition exposure :: "(attempt_state \<Rightarrow> bool) \<Rightarrow> (string \<rightharpoonup> attempt_state) \<Rightarrow> rat" where
  "exposure p m = (\<Sum>a \<in> {a \<in> dom m. p (the (m a))}. as_amount (the (m a)))"

lemma exposure_empty [simp]: "exposure p Map.empty = 0"
  by (simp add: exposure_def)

lemma exposure_insert:
  assumes "finite (dom m)" and "m a = None"
  shows "exposure p (m(a \<mapsto> s)) = exposure p m + (if p s then as_amount s else 0)"
proof -
  let ?S = "{b \<in> dom m. p (the (m b))}"
  have a: "a \<notin> ?S" using assms(2) by auto
  have S: "{b \<in> dom (m(a \<mapsto> s)). p (the ((m(a \<mapsto> s)) b))} = (if p s then insert a ?S else ?S)"
    using assms(2) by auto
  have "(\<Sum>b \<in> ?S. as_amount (the ((m(a \<mapsto> s)) b))) = (\<Sum>b \<in> ?S. as_amount (the (m b)))"
    using a by (intro sum.cong) auto
  then show ?thesis
    unfolding exposure_def S using assms(1) a by (cases "p s") simp_all
qed

lemma exposure_update:
  assumes "finite (dom m)" and "m a = Some s0"
  shows "exposure p (m(a \<mapsto> s)) =
    exposure p m - (if p s0 then as_amount s0 else 0) + (if p s then as_amount s else 0)"
proof -
  have f: "finite (dom (m(a := None)))" using assms(1) by simp
  have "exposure p ((m(a := None))(a \<mapsto> s0)) = exposure p (m(a := None)) + (if p s0 then as_amount s0 else 0)"
    by (rule exposure_insert [OF f]) simp
  moreover have "(m(a := None))(a \<mapsto> s0) = m" using assms(2) by auto
  moreover have "exposure p ((m(a := None))(a \<mapsto> s)) = exposure p (m(a := None)) + (if p s then as_amount s else 0)"
    by (rule exposure_insert [OF f]) simp
  ultimately show ?thesis by simp
qed

lemma sum_states_map_of:
  "distinct (map fst xs) \<Longrightarrow> sum_states p xs = exposure p (map_of xs)"
proof (induction xs)
  case Nil
  then show ?case by (simp add: sum_states_def)
next
  case (Cons x xs)
  obtain a s where x: "x = (a, s)" by (cases x)
  with Cons.prems have none: "map_of xs a = None" by (auto simp: map_of_eq_None_iff)
  have "sum_states p (x # xs) = (if p s then as_amount s else 0) + sum_states p xs"
    by (simp add: sum_states_def x)
  also have "sum_states p xs = exposure p (map_of xs)" using Cons by simp
  also have "(if p s then as_amount s else 0) + exposure p (map_of xs) = exposure p ((map_of xs)(a \<mapsto> s))"
    by (simp only: exposure_insert [OF finite_dom_map_of none] add.commute)
  also have "(map_of xs)(a \<mapsto> s) = map_of (x # xs)" by (simp add: x fun_eq_iff)
  finally show ?case .
qed

lemma distinct_attempt_states: "distinct (map fst (attempt_states es))"
proof -
  have "map fst (List.map_filter (\<lambda>a. map_option (Pair a) (f a)) xs) = filter (\<lambda>a. f a \<noteq> None) xs"
    for f :: "string \<Rightarrow> attempt_state option" and xs
    by (induction xs) (auto simp: map_filter_simps split: option.splits)
  then show ?thesis by (simp add: attempt_states_def)
qed

lemma sum_states_exposure:
  "sum_states p (attempt_states (event_rows db)) = exposure p (ledger_abs db)"
  by (simp add: sum_states_map_of distinct_attempt_states map_of_attempt_states)

lemma finite_dom_ledger_abs [simp]: "finite (dom (ledger_abs db))"
  by (simp flip: map_of_attempt_states add: finite_dom_map_of)

lemma exposure_recovers:
  assumes rec: "recovers db db'"
    and p: "\<And>s. as_status s = ''reserved'' \<Longrightarrow> p (s\<lparr>as_status := ''uncertain''\<rparr>) = p s"
  shows "exposure p (ledger_abs db') = exposure p (ledger_abs db)"
proof -
  have same: "(a \<in> dom (ledger_abs db') \<and> p (the (ledger_abs db' a))) =
      (a \<in> dom (ledger_abs db) \<and> p (the (ledger_abs db a))) \<and>
      (a \<in> dom (ledger_abs db) \<longrightarrow> as_amount (the (ledger_abs db' a)) = as_amount (the (ledger_abs db a)))" for a
  proof -
    from rec consider "ledger_abs db' a = ledger_abs db a"
      | s where "ledger_abs db a = Some s" "as_status s = ''reserved''"
          "ledger_abs db' a = Some (s\<lparr>as_status := ''uncertain''\<rparr>)"
      unfolding recovers_def by blast
    then show ?thesis
    proof cases
      case 1
      then have "a \<in> dom (ledger_abs db') \<longleftrightarrow> a \<in> dom (ledger_abs db)" by (simp only: domIff)
      with 1 show ?thesis by simp
    next
      case (2 s)
      with p [of s] show ?thesis by (simp add: domIff)
    qed
  qed
  show ?thesis
    unfolding exposure_def using same by (intro sum.cong) auto
qed

section \<open>The figures of the budget\<close>

text \<open>What the next reservation is charged against the monthly cap on top of.\<close>

definition budget_used :: "(datetime \<Rightarrow> timedelta) \<Rightarrow> datetime \<Rightarrow> state_db \<Rightarrow> rat" where
  "budget_used off now db =
     month_total off now (attempt_states (event_rows db)) +
     outstanding_prior off now (attempt_states (event_rows db))"

definition in_budget :: "(datetime \<Rightarrow> timedelta) \<Rightarrow> datetime \<Rightarrow> attempt_state \<Rightarrow> bool" where
  "in_budget off now s \<longleftrightarrow>
     (if month_in_zone off (as_reserved_at s) = month_in_zone off now then counted s else outstanding s)"

lemma sum_states_disjoint:
  assumes "\<And>s. \<not> (p s \<and> q s)"
  shows "sum_states p xs + sum_states q xs = sum_states (\<lambda>s. p s \<or> q s) xs"
  using assms by (induction xs) (auto simp: sum_states_def)

lemma budget_used_exposure: "budget_used off now db = exposure (in_budget off now) (ledger_abs db)"
proof -
  have "budget_used off now db = sum_states (\<lambda>s.
      month_in_zone off (as_reserved_at s) = month_in_zone off now \<and> counted s \<or>
      month_in_zone off (as_reserved_at s) \<noteq> month_in_zone off now \<and> outstanding s)
      (attempt_states (event_rows db))"
    unfolding budget_used_def month_total_def outstanding_prior_def
    by (rule sum_states_disjoint) auto
  also have "\<dots> = sum_states (in_budget off now) (attempt_states (event_rows db))"
    by (intro arg_cong2 [where f = sum_states] ext refl) (auto simp: in_budget_def)
  finally show ?thesis by (simp add: sum_states_exposure)
qed

lemma in_budget_uncertain:
  "as_status s = ''reserved'' \<Longrightarrow> in_budget off now (s\<lparr>as_status := ''uncertain''\<rparr>) = in_budget off now s"
  by (simp add: in_budget_def counted_def outstanding_def)

lemma operation_total_exposure:
  "operation_total op (attempt_states (event_rows db)) =
     exposure (\<lambda>s. as_operation_id s = op \<and> counted s) (ledger_abs db)"
  by (simp add: operation_total_def sum_states_exposure)

lemma summary_used:
  "summary_amount off now xs ''reserved'' + summary_amount off now xs ''settled'' +
     summary_amount off now xs ''uncertain'' = sum_states (in_budget off now) xs"
  by (induction xs)
    (auto simp: summary_amount_def sum_states_def in_summary_def in_budget_def counted_def outstanding_def)

section \<open>Operations\<close>

lemma reserve_body_Inr:
  assumes "reserve_body env os now owner projected rq db = Inr (rsv, db')"
  obtains db1 n db2 off db3 where
    "maintenance_active (proc_engine (le_process env)) os db = Inr (False, db1)"
    "recover_usage_attempts (owner_alive (proc_engine (le_process env)) os) (le_uuid env) now db1 = Inr (n, db2)"
    "rq_attempt_id rq \<notin> set (map ue_attempt_id (usage_events db2))"
    "zone_offset (le_tzdb env) (rq_timezone rq) = Inr off"
    "rq_cost_known rq \<Longrightarrow> operation_total (rq_operation_id rq) (attempt_states (event_rows db2)) + projected
       \<le> rq_per_operation_cap_usd rq"
    "rq_cost_known rq \<Longrightarrow> budget_used off now db2 + projected \<le> rq_monthly_cap_usd rq"
    "int (length (paid_call_leases db2)) < rq_max_concurrent rq"
    "insert_event (reserve_event (le_uuid env n) now owner projected rq) db2 = Inr db3"
    "insert_lease \<lparr>pl_attempt_id = rq_attempt_id rq, pl_operation_id = rq_operation_id rq,
       pl_expires_at = now + seconds (rq_lease_seconds rq), pl_created_at = now\<rparr> db3 = Inr db'"
    "rsv = \<lparr>ur_operation_id = rq_operation_id rq, ur_attempt_id = rq_attempt_id rq,
       ur_reserved_usd = projected, ur_cost_known = rq_cost_known rq\<rparr>"
  using assms unfolding reserve_body_def budget_used_def
  by (auto simp: Let_def split: sum.splits prod.splits bool.splits if_splits)

lemma reserve_Inr:
  assumes "reserve env now rq os db = (Inr rsv, os', db')"
  obtains projected owner where "money (rq_projected_usd rq) = Inr projected" "0 \<le> projected"
    "\<not> rq_cost_known rq \<Longrightarrow> projected = 0"
    "process_owner (le_process env) (le_owner_random env) os = Inr (owner, os')"
    "reserve_body env os' now owner projected rq db = Inr (rsv, db')"
  using assms unfolding reserve_def
  by (auto simp: transaction_commit split: sum.splits prod.splits if_splits)

lemma reserve_Inl: "reserve env now rq os db = (Inl e, os', db') \<Longrightarrow> db' = db"
  unfolding reserve_def
  by (auto dest: transaction_error_rollback split: sum.splits prod.splits if_splits)

lemma cost_known_reserve_event [simp]:
  "cost_known_of (reserve_event u now owner projected rq) = rq_cost_known rq"
  by (simp add: cost_known_of_def reserve_event_def update_conv')

text \<open>The state that a successful reservation gives its attempt.\<close>

definition reserved_state :: "datetime \<Rightarrow> reserve_request \<Rightarrow> rat \<Rightarrow> attempt_state" where
  "reserved_state now rq projected =
     \<lparr>as_operation_id = rq_operation_id rq, as_reserved_at = now, as_status = ''reserved'',
      as_amount = projected, as_cost_known = rq_cost_known rq\<rparr>"

lemma insert_lease_Inr:
  "insert_lease l db = Inr db' \<longleftrightarrow>
     pl_attempt_id l \<notin> pl_attempt_id ` set (paid_call_leases db) \<and>
     db' = db\<lparr>paid_call_leases := paid_call_leases db @ [l]\<rparr>"
  by (auto simp: insert_lease_def)

text \<open>
  A successful reservation is a recovery followed by one new attempt; \<open>db2\<close> is the database
  between the two, on which the limits are checked.
\<close>

lemma reserve_effect:
  assumes inv: "ledger_inv db" and res: "reserve env now rq os db = (Inr rsv, os', db')"
  obtains db1 db2 projected off where
    "db1 = db \<or> db1 = clear_maintenance db"
    "recovery_result (owner_alive (proc_engine (le_process env)) os') (paid_call_leases db) now
       (usage_events db) db1 db2"
    "recovers db db2" "ledger_inv db2" "ledger_inv db'" "money (rq_projected_usd rq) = Inr projected" "0 \<le> projected"
    "rsv = \<lparr>ur_operation_id = rq_operation_id rq, ur_attempt_id = rq_attempt_id rq,
       ur_reserved_usd = projected, ur_cost_known = rq_cost_known rq\<rparr>"
    "le_tzdb env (rq_timezone rq) = Some off"
    "ledger_abs db2 (rq_attempt_id rq) = None"
    "ledger_abs db' = (ledger_abs db2)(rq_attempt_id rq \<mapsto> reserved_state now rq projected)"
    "rq_cost_known rq \<Longrightarrow> operation_total (rq_operation_id rq) (attempt_states (event_rows db2)) + projected
       \<le> rq_per_operation_cap_usd rq"
    "rq_cost_known rq \<Longrightarrow> budget_used off now db2 + projected \<le> rq_monthly_cap_usd rq"
    "int (length (paid_call_leases db')) \<le> rq_max_concurrent rq"
    "only_ledger_changed db1 db'" "\<not> maintenance_flag db'"
proof -
  obtain projected owner where m: "money (rq_projected_usd rq) = Inr projected" "0 \<le> projected"
    and body: "reserve_body env os' now owner projected rq db = Inr (rsv, db')"
    using reserve_Inr [OF res] by blast
  obtain db1 n db2 off db3 where
    ma: "maintenance_active (proc_engine (le_process env)) os' db = Inr (False, db1)"
    and rc: "recover_usage_attempts (owner_alive (proc_engine (le_process env)) os') (le_uuid env) now db1 = Inr (n, db2)"
    and fresh: "rq_attempt_id rq \<notin> set (map ue_attempt_id (usage_events db2))"
    and off: "zone_offset (le_tzdb env) (rq_timezone rq) = Inr off"
    and opc: "rq_cost_known rq \<Longrightarrow> operation_total (rq_operation_id rq) (attempt_states (event_rows db2)) + projected
       \<le> rq_per_operation_cap_usd rq"
    and moc: "rq_cost_known rq \<Longrightarrow> budget_used off now db2 + projected \<le> rq_monthly_cap_usd rq"
    and len: "int (length (paid_call_leases db2)) < rq_max_concurrent rq"
    and ins: "insert_event (reserve_event (le_uuid env n) now owner projected rq) db2 = Inr db3"
    and lease: "insert_lease \<lparr>pl_attempt_id = rq_attempt_id rq, pl_operation_id = rq_operation_id rq,
       pl_expires_at = now + seconds (rq_lease_seconds rq), pl_created_at = now\<rparr> db3 = Inr db'"
    and rsv: "rsv = \<lparr>ur_operation_id = rq_operation_id rq, ur_attempt_id = rq_attempt_id rq,
       ur_reserved_usd = projected, ur_cost_known = rq_cost_known rq\<rparr>"
    using reserve_body_Inr [OF body] by blast
  note fr = maintenance_active_frame [OF ma]
  have inv1: "ledger_inv db1" using inv ledger_inv_cong [OF fr(1,2)] by simp
  from recover_usage_correct [OF rc inv1] fr
  have rr: "recovery_result (owner_alive (proc_engine (le_process env)) os') (paid_call_leases db) now
      (usage_events db) db1 db2" by simp
  then have rec: "recovers db1 db2" and inv2: "ledger_inv db2" and ol: "only_ledger_changed db1 db2"
    by (simp_all add: recovery_result_def)
  note step = reserve_step [OF inv2 fresh ins _ _ _ lease]
  have ev: "ledger_inv db'" "ledger_abs db' = (ledger_abs db2)(rq_attempt_id rq \<mapsto> reserved_state now rq projected)"
      "ledger_abs db2 (rq_attempt_id rq) = None"
    using step cost_known_reserve_event [of "le_uuid env n" now owner projected rq]
    by (simp_all add: reserve_event_def reserved_state_def)
  have "only_ledger_changed db1 db'"
    using ol ins lease by (auto simp: only_ledger_changed_def insert_event_Inr insert_lease_Inr)
  moreover have "\<not> maintenance_flag db'"
    using maintenance_active_False(1) [OF ma] calculation
    by (simp add: maintenance_flag_def only_ledger_changed_def)
  moreover have "recovers db db2" using rec by (simp add: recovers_def ledger_abs_cong [OF fr(1)])
  moreover have "int (length (paid_call_leases db')) \<le> rq_max_concurrent rq"
    using len ins lease by (auto simp: insert_event_Inr insert_lease_Inr)
  moreover have "le_tzdb env (rq_timezone rq) = Some off"
    using off by (simp add: zone_offset_def split: option.splits)
  ultimately show ?thesis
    using that [OF maintenance_active_False(2) [OF ma] rr _ inv2 ev(1) m rsv _ ev(3,2) opc moc] by blast
qed

lemma reserved_state_simps [simp]:
  "as_amount (reserved_state now rq x) = x"
  "as_operation_id (reserved_state now rq x) = rq_operation_id rq"
  "counted (reserved_state now rq x)"
  "in_budget off now (reserved_state now rq x)"
  "as_status (reserved_state now rq x) = ''reserved''"
  by (simp_all add: reserved_state_def counted_def in_budget_def)

text \<open>Recovery leaves every figure that the limits are checked against as it was.\<close>

lemma recovers_figures:
  assumes "recovers db db'"
  shows "budget_used off now db' = budget_used off now db"
    and "operation_total op (attempt_states (event_rows db')) = operation_total op (attempt_states (event_rows db))"
  unfolding budget_used_exposure operation_total_exposure
  by (rule exposure_recovers [OF assms], simp add: in_budget_uncertain counted_def)+

text \<open>The event that a finish writes, and the exact outcome of \<open>_finish\<close>.\<close>

definition finish_event ::
  "string \<Rightarrow> datetime \<Rightarrow> usage_reservation \<Rightarrow> usage_event_type \<Rightarrow> rat \<Rightarrow> int option \<Rightarrow> int option \<Rightarrow>
   json_object \<Rightarrow> string \<Rightarrow> string \<Rightarrow> usage_event" where
  "finish_event u now rsv t usd itoks otoks snap provider profile =
     \<lparr>ue_id = u, ue_operation_id = ur_operation_id rsv, ue_attempt_id = ur_attempt_id rsv,
      ue_event_type = t, ue_provider = provider, ue_profile_id = profile, ue_amount_usd = usd,
      ue_input_tokens = itoks, ue_output_tokens = otoks, ue_price_snapshot_json = Dumped snap,
      ue_status = finish_status t, ue_created_at = now\<rparr>"

definition snapshot_cost_known :: "json_object \<Rightarrow> bool" where
  "snapshot_cost_known snap \<longleftrightarrow> map_of snap ''cost_known'' \<noteq> Some (JBool False)"

lemma finish_event_simps [simp]:
  "ue_attempt_id (finish_event u now rsv t usd i w snap p q) = ur_attempt_id rsv"
  "ue_event_type (finish_event u now rsv t usd i w snap p q) = t"
  "ue_amount_usd (finish_event u now rsv t usd i w snap p q) = usd"
  "ue_id (finish_event u now rsv t usd i w snap p q) = u"
  "ue_status (finish_event u now rsv t usd i w snap p q) = finish_status t"
  "cost_known_of (finish_event u now rsv t usd i w snap p q) = snapshot_cost_known snap"
  by (simp_all add: finish_event_def cost_known_of_def snapshot_cost_known_def)

definition not_outstanding :: error where
  "not_outstanding = SpendDenied ''Provider attempt is not an outstanding reservation.''"

lemma finish_body_denied:
  "\<not> has_status db (ur_attempt_id rsv) ''reserved'' \<Longrightarrow>
     finish_body uid now rsv t amount i w snap p q db = Inl not_outstanding"
  by (auto simp: finish_body_def status_of_states has_status_map not_outstanding_def split: option.splits)

lemma finish_body_reserved:
  "has_status db (ur_attempt_id rsv) ''reserved'' \<Longrightarrow>
     finish_body uid now rsv t amount i w snap p q db =
       (case money amount of
          Inl e \<Rightarrow> Inl e
        | Inr usd \<Rightarrow>
            (case insert_event (finish_event (uid 0) now rsv t usd i w snap p q) db of
               Inl e \<Rightarrow> Inl e
             | Inr db' \<Rightarrow> Inr ((), delete_lease (ur_attempt_id rsv) db')))"
  by (auto simp: has_status_def finish_body_def status_of_states finish_event_def cong: sum.case_cong)

lemma finish_status_for: "t = SETTLE \<or> t = UNCERTAIN \<Longrightarrow> finish_status t = status_for t"
  by (auto simp: finish_status_def)

lemma finish_effect:
  assumes inv: "ledger_inv db" and t: "t = SETTLE \<or> t = UNCERTAIN"
    and fin: "finish_body uid now rsv t amount i w snap p q db = Inr (u, db')"
  obtains s usd where "ledger_abs db (ur_attempt_id rsv) = Some s" "as_status s = ''reserved''"
    "money amount = Inr usd" "ledger_inv db'" "only_ledger_changed db db'"
    "ledger_abs db' = (ledger_abs db)(ur_attempt_id rsv \<mapsto>
       s\<lparr>as_status := finish_status t, as_amount := usd, as_cost_known := snapshot_cost_known snap\<rparr>)"
    "paid_call_leases db' = delete_where (\<lambda>l. pl_attempt_id l = ur_attempt_id rsv) (paid_call_leases db)"
proof -
  have hs: "has_status db (ur_attempt_id rsv) ''reserved''"
    using fin finish_body_denied by fastforce
  then obtain s where s: "ledger_abs db (ur_attempt_id rsv) = Some s" "as_status s = ''reserved''"
    by (auto simp: has_status_def)
  from fin obtain usd db1 where usd: "money amount = Inr usd"
    and ins: "insert_event (finish_event (uid 0) now rsv t usd i w snap p q) db = Inr db1"
    and db': "db' = delete_lease (ur_attempt_id rsv) db1"
    by (auto simp: finish_body_reserved [OF hs] split: sum.splits)
  note step = finish_step [OF inv s ins, simplified, OF t finish_status_for [OF t]]
  have "paid_call_leases db' = delete_where (\<lambda>l. pl_attempt_id l = ur_attempt_id rsv) (paid_call_leases db)"
    using ins by (auto simp: db' delete_lease_def insert_event_Inr)
  with that [OF s usd] step only_ledger_changed_insert(1) [OF ins] show ?thesis
    by (simp add: db' finish_status_for [OF t])
qed

lemma finish_returns:
  assumes "has_status db (ur_attempt_id rsv) ''reserved''" and "money amount = Inr usd"
    and "uid 0 \<notin> ue_id ` set (usage_events db)"
  shows "\<exists>db'. finish_body uid now rsv t amount i w snap p q db = Inr ((), db')"
  using assms by (auto simp: finish_body_reserved insert_event_def split: sum.splits)

text \<open>The outcome of a correction.\<close>

lemma correct_effect:
  assumes inv: "ledger_inv db"
    and cor: "correct_body alive uid now a actual reason i w db = Inr (u, db')"
  obtains db2 s usd where "recovery_result alive (paid_call_leases db) now (usage_events db) db db2"
    "ledger_abs db2 a = Some s" "as_status s = ''uncertain''" "money (Dec actual) = Inr usd"
    "ledger_inv db'" "only_ledger_changed db db'"
    "ledger_abs db' = (ledger_abs db2)(a \<mapsto> s\<lparr>as_status := ''settled'', as_amount := usd, as_cost_known := True\<rparr>)"
    "paid_call_leases db' = paid_call_leases db2"
proof -
  from cor obtain n db2 where rc: "recover_usage_attempts alive uid now db = Inr (n, db2)"
    unfolding correct_body_def by (auto split: sum.splits)
  from cor rc obtain s where s: "ledger_abs db2 a = Some s" "as_status s = ''uncertain''"
    unfolding correct_body_def
    by (auto simp: Let_def map_of_attempt_states split: option.splits if_splits)
  from cor rc s obtain pv j usd where usd: "money (Dec actual) = Inr usd"
    and ins: "insert_event (correction_event (uid n) now a s pv j usd reason i w) db2 = Inr db'"
    unfolding correct_body_def
    by (simp add: Let_def map_of_attempt_states split: sum.splits option.splits)
  note rr = recover_usage_correct [OF rc inv]
  then have inv2: "ledger_inv db2" and ol: "only_ledger_changed db db2" by (simp_all add: recovery_result_def)
  note step = correct_step [OF inv2 s ins, unfolded correction_event_def, simplified, folded correction_event_def]
  have "paid_call_leases db' = paid_call_leases db2" using ins by (simp add: insert_event_Inr)
  with that [OF rr s usd step(1) only_ledger_changed_trans [OF ol only_ledger_changed_insert(2) [OF ins]]]
    step(2) show ?thesis
    by (simp add: cost_known_of_def correction_event_def update_conv')
qed

text \<open>Clients of the liveness interface: a reservation whose owner runs is kept by every recovery.\<close>

context owner_liveness
begin

lemma running_reservation_kept:
  assumes "json_loads (ue_price_snapshot_json r) = Inr j"
    and "map_of j ''process_owner'' = Some (JStr w)" and "running os w"
  shows "kept (alive os) leases now r"
  using assms alive_owner [OF assms(3)] by (auto simp: kept_def snapshot_owner_def keep_reservation_def)

end

lemma recovery_unchanged_kept:
  assumes "recovery_result alive leases now rows db db'" and "keys_distinct db"
    and "set rows = set (usage_events db)" and "r \<in> set rows" and "ue_event_type r = RESERVE"
    and "kept alive leases now r"
  shows "ledger_abs db' (ue_attempt_id r) = ledger_abs db (ue_attempt_id r)"
proof (rule ccontr)
  assume "ledger_abs db' (ue_attempt_id r) \<noteq> ledger_abs db (ue_attempt_id r)"
  then obtain r' where r': "r' \<in> set rows" "ue_event_type r' = RESERVE" "ue_attempt_id r' = ue_attempt_id r"
      "\<not> kept alive leases now r'"
    using assms(1) unfolding recovery_result_def by blast
  with assms have "r' = r"
    using distinct_key_unique [of event_key "usage_events db" r' r]
    by (simp add: keys_distinct_def event_key_def)
  with r' assms(6) show False by simp
qed

text \<open>The row that a reservation writes names the process that reserved.\<close>

lemma reserve_row:
  assumes "reserve env now rq os db = (Inr rsv, os', db')"
  obtains r j owner where "r \<in> set (usage_events db')" "ue_event_type r = RESERVE"
    "ue_attempt_id r = rq_attempt_id rq" "json_loads (ue_price_snapshot_json r) = Inr j"
    "map_of j ''process_owner'' = Some (JStr owner)"
    "process_owner (le_process env) (le_owner_random env) os = Inr (owner, os')"
proof -
  obtain projected owner where own: "process_owner (le_process env) (le_owner_random env) os = Inr (owner, os')"
    and body: "reserve_body env os' now owner projected rq db = Inr (rsv, db')"
    using reserve_Inr [OF assms] by blast
  show ?thesis
  proof (rule reserve_body_Inr [OF body])
    fix n db2 db3
    assume ins: "insert_event (reserve_event (le_uuid env n) now owner projected rq) db2 = Inr db3"
      and lease: "insert_lease \<lparr>pl_attempt_id = rq_attempt_id rq, pl_operation_id = rq_operation_id rq,
         pl_expires_at = now + seconds (rq_lease_seconds rq), pl_created_at = now\<rparr> db3 = Inr db'"
    have "reserve_event (le_uuid env n) now owner projected rq \<in> set (usage_events db')"
      using ins lease by (auto simp: insert_event_Inr insert_lease_Inr)
    from that [OF this _ _ _ _ own] show thesis
      by (simp add: reserve_event_def json_loads_def update_conv')
  qed
qed

lemma recover_interrupted_effect:
  assumes "ledger_inv db" and "recover_interrupted_usage env os now db = (Inr n, db')"
  shows "recovery_result (owner_alive (proc_engine (le_process env)) os) (paid_call_leases db) now
    (usage_events db) db db'"
  using assms by (auto simp: recover_interrupted_usage_def transaction_commit intro: recover_usage_correct)

text \<open>The leases never outnumber the ones there were, unless a reservation is admitted.\<close>

lemma lease_count:
  assumes "ledger_inv db" and "ledger_inv db'"
    and "\<And>a. has_status db' a ''reserved'' \<Longrightarrow> has_status db a ''reserved''"
  shows "length (paid_call_leases db') \<le> length (paid_call_leases db)"
proof -
  have d: "length (paid_call_leases x) = card (pl_attempt_id ` set (paid_call_leases x))" if "ledger_inv x" for x
    using that distinct_card [of "map pl_attempt_id (paid_call_leases x)"] by (simp add: ledger_inv_def)
  have "pl_attempt_id ` set (paid_call_leases db') \<subseteq> pl_attempt_id ` set (paid_call_leases db)"
    using assms leases_reserved by blast
  then show ?thesis by (simp add: d assms(1,2) card_mono)
qed

section \<open>The attempt life cycle\<close>

text \<open>
  The abstract specification: an attempt is reserved once, a reserved attempt becomes settled or
  uncertain, an uncertain one may be settled by a correction; its operation and its month are fixed
  by the reservation.
\<close>

inductive lifecycle :: "(string \<rightharpoonup> attempt_state) \<Rightarrow> (string \<rightharpoonup> attempt_state) \<Rightarrow> bool" where
  lc_reserve: "m a = None \<Longrightarrow> as_status s = ''reserved'' \<Longrightarrow> 0 \<le> as_amount s \<Longrightarrow> lifecycle m (m(a \<mapsto> s))"
| lc_finish: "m a = Some s \<Longrightarrow> as_status s = ''reserved'' \<Longrightarrow> st \<in> {''settled'', ''uncertain''} \<Longrightarrow>
    lifecycle m (m(a \<mapsto> s\<lparr>as_status := st, as_amount := x, as_cost_known := k\<rparr>))"
| lc_correct: "m a = Some s \<Longrightarrow> as_status s = ''uncertain'' \<Longrightarrow> 0 \<le> x \<Longrightarrow>
    lifecycle m (m(a \<mapsto> s\<lparr>as_status := ''settled'', as_amount := x, as_cost_known := True\<rparr>))"

inductive_cases lifecycleE: "lifecycle m m'"

lemma lifecycle_recover_set:
  assumes "finite D" and "\<And>a. a \<notin> D \<Longrightarrow> m' a = m a"
    and "\<And>a. a \<in> D \<Longrightarrow> \<exists>s. m a = Some s \<and> as_status s = ''reserved'' \<and> m' a = Some (s\<lparr>as_status := ''uncertain''\<rparr>)"
  shows "lifecycle\<^sup>*\<^sup>* m m'"
  using assms
proof (induction D arbitrary: m rule: finite_induct)
  case empty
  then have "m' = m" by auto
  then show ?case by simp
next
  case (insert a D)
  then obtain s where s: "m a = Some s" "as_status s = ''reserved''" "m' a = Some (s\<lparr>as_status := ''uncertain''\<rparr>)"
    by blast
  let ?m1 = "m(a \<mapsto> s\<lparr>as_status := ''uncertain''\<rparr>)"
  have "lifecycle m ?m1"
    using lc_finish [where m = m and a = a and s = s and st = "''uncertain''" and x = "as_amount s"
      and k = "as_cost_known s"] s by simp
  moreover have "lifecycle\<^sup>*\<^sup>* ?m1 m'"
  proof (rule insert.IH)
    show "\<And>b. b \<notin> D \<Longrightarrow> m' b = ?m1 b" using insert.prems(1) s by auto
    show "\<And>b. b \<in> D \<Longrightarrow> \<exists>s. ?m1 b = Some s \<and> as_status s = ''reserved'' \<and> m' b = Some (s\<lparr>as_status := ''uncertain''\<rparr>)"
      using insert.prems(2) insert.hyps(2) by (metis fun_upd_other insert_iff)
  qed
  ultimately show ?case by (rule converse_rtranclp_into_rtranclp)
qed

lemma lifecycle_recovers:
  assumes "recovers db db'"
  shows "lifecycle\<^sup>*\<^sup>* (ledger_abs db) (ledger_abs db')"
proof (rule lifecycle_recover_set [of "{a. ledger_abs db' a \<noteq> ledger_abs db a}"])
  have "{a. ledger_abs db' a \<noteq> ledger_abs db a} \<subseteq> dom (ledger_abs db)"
    using assms by (auto simp: recovers_def)
  then show "finite {a. ledger_abs db' a \<noteq> ledger_abs db a}"
    by (rule finite_subset) simp
qed (use assms in \<open>auto simp: recovers_def\<close>)

lemma lifecycle_settled:
  assumes "lifecycle\<^sup>*\<^sup>* m m'" and "m a = Some s" and "as_status s = ''settled''"
  shows "m' a = Some s"
  using assms
proof (induction rule: rtranclp_induct)
  case (step m1 m2)
  from step.hyps(2) step.IH [OF step.prems] step.prems show ?case
    by (cases rule: lifecycle.cases) (auto simp: fun_upd_def)
qed simp

lemma lifecycle_dom:
  "lifecycle\<^sup>*\<^sup>* m m' \<Longrightarrow> m a = Some s \<Longrightarrow>
     \<exists>s'. m' a = Some s' \<and> as_operation_id s' = as_operation_id s \<and> as_reserved_at s' = as_reserved_at s"
proof (induction rule: rtranclp_induct)
  case (step m1 m2)
  from step.hyps(2) step.IH [OF step.prems] show ?case
    by (cases rule: lifecycle.cases) (auto simp: fun_upd_def)
qed simp

end
