(* ===== verification/Ledger_Claims.thy ===== *)
theory Ledger_Claims
  imports Ledger_Props "HOL-Library.Sublist"
begin

text \<open>
  The properties of the spend ledger, over whole operations and over runs of them: admission stays
  within the three limits, every attempt is accounted exactly once, recovery charges the
  reservations of dead processes and only those, and the figures shown to the user are the figures
  the admission is checked against. The operations refine the attempt life cycle \<open>lifecycle\<close>, an
  inductive relation on the abstract map.
\<close>

section \<open>A concrete ledger\<close>

definition sample_tzdb :: tzdb where
  "sample_tzdb z = (if z = ''UTC'' then Some (\<lambda>_. 0) else None)"

definition sample_env :: ledger_env where
  "sample_env =
     \<lparr>le_process = sample_process, le_owner_random = 0,
      le_uuid = (\<lambda>n. if n = 0 then ''u0'' else ''u1''), le_tzdb = sample_tzdb\<rparr>"

definition later_env :: ledger_env where
  "later_env = sample_env\<lparr>le_uuid := (\<lambda>n. if n = 0 then ''v0'' else ''v1'')\<rparr>"

definition sample_request :: reserve_request where
  "sample_request =
     \<lparr>rq_operation_id = ''op'', rq_attempt_id = ''a1'', rq_provider = ''openai'',
      rq_profile_id = ''p'', rq_projected_usd = Dec (1/2), rq_monthly_cap_usd = 10,
      rq_per_operation_cap_usd = 1, rq_timezone = ''UTC'', rq_price_snapshot = [],
      rq_lease_seconds = 120, rq_max_concurrent = 2, rq_cost_known = True\<rparr>"

definition sample_reservation :: usage_reservation where
  "sample_reservation =
     \<lparr>ur_operation_id = ''op'', ur_attempt_id = ''a1'', ur_reserved_usd = 1/2, ur_cost_known = True\<rparr>"

text \<open>The operating system and the database after the sample request was admitted.\<close>

definition sample_os :: os_state where
  "sample_os = fst (snd (reserve sample_env 0 sample_request idle_os empty_db))"

definition sample_db :: state_db where
  "sample_db = snd (snd (reserve sample_env 0 sample_request idle_os empty_db))"

lemma sample_reserve:
  "reserve sample_env 0 sample_request idle_os empty_db = (Inr sample_reservation, sample_os, sample_db)"
proof -
  have "fst (reserve sample_env 0 sample_request idle_os empty_db) = Inr sample_reservation"
    by code_simp
  then show ?thesis by (simp add: sample_os_def sample_db_def prod_eq_iff)
qed

lemma ledger_abs_empty_db [simp]: "ledger_abs empty_db = Map.empty"
  by (rule ext) (simp add: ledger_abs_def event_rows_def empty_db_def attempt_rows_def)

lemma ledger_inv_empty_db [simp]: "ledger_inv empty_db"
  by (simp add: ledger_inv_def keys_distinct_def history_ok_def event_at_def has_status_def)
    (simp add: empty_db_def)

lemma ledger_inv_sample_db [simp]: "ledger_inv sample_db"
  by (rule reserve_effect [OF ledger_inv_empty_db sample_reserve])

lemma sample_reserved: "has_status sample_db ''a1'' ''reserved''"
proof -
  have "map_option as_status (ledger_abs sample_db ''a1'') = Some ''reserved''" by code_simp
  then show ?thesis by (simp add: has_status_map)
qed

section \<open>Admission\<close>

text \<open>
  C1: A reservation that is admitted stays within every configured limit. The amount it stores is
  the quantised projection; the monthly exposure (what was reserved, settled or left uncertain this
  month plus what is still outstanding from earlier months) and the exposure of the operation grow by
  exactly that amount. A reservation of known cost leaves them within the monthly cap and the cap of the
  operation; one of unknown cost, which the caps are not checked for, has the amount zero and leaves both
  as they were. At most \<^verbatim>\<open>max_concurrent\<close> leases exist, and the ledger stays well formed with the
  attempt reserved.
\<close>

theorem reserve_within_limits:
  assumes "ledger_inv db" and "reserve env now rq os db = (Inr rsv, os', db')"
  shows "\<exists>off projected.
    le_tzdb env (rq_timezone rq) = Some off \<and> money (rq_projected_usd rq) = Inr projected \<and>
    0 \<le> projected \<and> ur_reserved_usd rsv = projected \<and>
    budget_used off now db' = budget_used off now db + projected \<and>
    operation_total (rq_operation_id rq) (attempt_states (event_rows db')) =
      operation_total (rq_operation_id rq) (attempt_states (event_rows db)) + projected \<and>
    (if rq_cost_known rq
     then budget_used off now db' \<le> rq_monthly_cap_usd rq \<and>
          operation_total (rq_operation_id rq) (attempt_states (event_rows db')) \<le> rq_per_operation_cap_usd rq
     else projected = 0) \<and>
    int (length (paid_call_leases db')) \<le> rq_max_concurrent rq \<and>
    ledger_abs db' (rq_attempt_id rq) = Some (reserved_state now rq projected) \<and> ledger_inv db'"
proof (rule reserve_effect [OF assms])
  fix db2 projected off
  assume rec: "recovers db db2" and inv': "ledger_inv db'"
    and m: "money (rq_projected_usd rq) = Inr projected" "0 \<le> projected"
    and rsv: "rsv = \<lparr>ur_operation_id = rq_operation_id rq, ur_attempt_id = rq_attempt_id rq,
       ur_reserved_usd = projected, ur_cost_known = rq_cost_known rq\<rparr>"
    and off: "le_tzdb env (rq_timezone rq) = Some off"
    and none: "ledger_abs db2 (rq_attempt_id rq) = None"
    and abs: "ledger_abs db' = (ledger_abs db2)(rq_attempt_id rq \<mapsto> reserved_state now rq projected)"
    and opc: "rq_cost_known rq \<Longrightarrow> operation_total (rq_operation_id rq) (attempt_states (event_rows db2))
      + projected \<le> rq_per_operation_cap_usd rq"
    and moc: "rq_cost_known rq \<Longrightarrow> budget_used off now db2 + projected \<le> rq_monthly_cap_usd rq"
    and len: "int (length (paid_call_leases db')) \<le> rq_max_concurrent rq"
  have used: "budget_used off now db' = budget_used off now db2 + projected"
    and opt: "operation_total (rq_operation_id rq) (attempt_states (event_rows db')) =
      operation_total (rq_operation_id rq) (attempt_states (event_rows db2)) + projected"
    by (simp_all add: budget_used_exposure operation_total_exposure abs exposure_insert none)
  have at: "ledger_abs db' (rq_attempt_id rq) = Some (reserved_state now rq projected)"
    by (simp add: abs)
  have "projected = 0" if "\<not> rq_cost_known rq"
    using reserve_Inr [OF assms(2)] m(1) that by (metis sum.inject(2))
  then show ?thesis
    using m off opc moc len inv' at
    by (intro exI [of _ off] exI [of _ projected] conjI)
      (simp_all add: used opt recovers_figures [OF rec] rsv)
qed

theorem reserve_within_limits_witness:
  "\<exists>off projected. sample_tzdb ''UTC'' = Some off \<and> money (Dec (1/2)) = Inr projected \<and>
     budget_used off 0 sample_db = budget_used off 0 empty_db + projected \<and>
     budget_used off 0 sample_db \<le> 10"
  using reserve_within_limits [OF ledger_inv_empty_db sample_reserve]
  by (auto simp: sample_env_def sample_request_def)

lemma reserve_known_attempt:
  assumes "ledger_inv db" and "ledger_abs db (rq_attempt_id rq) \<noteq> None"
    and "reserve env now rq os db = (r, os', db')"
  shows "(\<exists>e. r = Inl e) \<and> db' = db"
proof (cases r)
  case (Inl e)
  with assms(3) show ?thesis by (auto dest: reserve_Inl)
next
  case (Inr rsv)
  show ?thesis
  proof (rule reserve_effect [OF assms(1) assms(3) [unfolded Inr]])
    fix db2
    assume "recovers db db2" "ledger_abs db2 (rq_attempt_id rq) = None"
    with assms(2) show ?thesis unfolding recovers_def by (metis option.distinct(1))
  qed
qed

text \<open>
  No attempt is accounted twice. A reservation under an attempt id that the ledger already
  knows is refused, whatever became of that attempt, and the database is left as it was.
\<close>

theorem reserve_once:
  assumes "ledger_inv db" and "reserve env now rq os db = (Inr rsv, os', db')"
    and "rq_attempt_id rq2 = rq_attempt_id rq"
  shows "\<exists>e. fst (reserve env2 now2 rq2 os2 db') = Inl e \<and> snd (snd (reserve env2 now2 rq2 os2 db')) = db'"
proof -
  have "ledger_inv db' \<and> ledger_abs db' (rq_attempt_id rq2) \<noteq> None"
    by (rule reserve_effect [OF assms(1,2)]) (simp add: assms(3))
  then show ?thesis
    using reserve_known_attempt [of db' rq2 env2 now2 os2] by (metis prod.collapse)
qed

theorem reserve_once_witness:
  "\<exists>e. fst (reserve sample_env 5 sample_request sample_os sample_db) = Inl e"
  using reserve_once [OF ledger_inv_empty_db sample_reserve refl, of sample_env 5 sample_os] by blast

section \<open>Finishing an attempt\<close>

text \<open>
  C19: \<^verbatim>\<open>settle\<close> is exact. On an attempt that is outstanding it stores the quantised amount, marks
  the attempt settled, frees its lease and changes no other attempt; with an amount that is not a
  finite number of at most 28 digits, or on an attempt that is not outstanding, it raises and
  changes nothing.
\<close>

theorem settle_outcome:
  assumes "ledger_inv db" and "uid 0 \<notin> ue_id ` set (usage_events db)"
  shows
    "(case ledger_abs db (ur_attempt_id rsv) of
        Some s \<Rightarrow>
          if as_status s = ''reserved''
          then (case money actual of
                  Inl e \<Rightarrow> settle uid now rsv actual i w snap p q db = (Inl e, db)
                | Inr usd \<Rightarrow>
                    (\<exists>db'. settle uid now rsv actual i w snap p q db = (Inr (), db') \<and> ledger_inv db' \<and>
                       ledger_abs db' = (ledger_abs db)(ur_attempt_id rsv \<mapsto>
                         s\<lparr>as_status := ''settled'', as_amount := usd,
                           as_cost_known := snapshot_cost_known snap\<rparr>) \<and>
                       ur_attempt_id rsv \<notin> pl_attempt_id ` set (paid_call_leases db')))
          else settle uid now rsv actual i w snap p q db = (Inl not_outstanding, db)
      | None \<Rightarrow> settle uid now rsv actual i w snap p q db = (Inl not_outstanding, db))"
proof (cases "has_status db (ur_attempt_id rsv) ''reserved''")
  case False
  then show ?thesis
    by (auto simp: settle_def has_status_def transaction_Inl finish_body_denied split: option.splits)
next
  case True
  then obtain s where s: "ledger_abs db (ur_attempt_id rsv) = Some s" "as_status s = ''reserved''"
    by (auto simp: has_status_def)
  show ?thesis
  proof (cases "money actual")
    case (Inl e)
    with True s show ?thesis by (simp add: settle_def transaction_Inl finish_body_reserved)
  next
    case (Inr usd)
    with finish_returns [OF True Inr, of uid] assms(2) obtain db'
      where fin: "finish_body uid now rsv SETTLE actual i w snap p q db = Inr ((), db')" by blast
    then have "settle uid now rsv actual i w snap p q db = (Inr (), db')"
      by (simp add: settle_def transaction_Inr)
    moreover have "ledger_inv db' \<and> ledger_abs db' = (ledger_abs db)(ur_attempt_id rsv \<mapsto>
        s\<lparr>as_status := ''settled'', as_amount := usd, as_cost_known := snapshot_cost_known snap\<rparr>) \<and>
        ur_attempt_id rsv \<notin> pl_attempt_id ` set (paid_call_leases db')"
      by (rule finish_effect [OF assms(1) _ fin]) (use s Inr in \<open>auto simp: finish_status_def\<close>)
    ultimately show ?thesis using s Inr by simp
  qed
qed

theorem settle_outcome_witness:
  "\<exists>db' s. settle (\<lambda>_. ''u9'') 7 sample_reservation (Dec (1/4)) (Some 10) (Some 20) [] ''openai'' ''p'' sample_db
       = (Inr (), db') \<and> ledger_abs db' ''a1'' = Some s \<and> as_status s = ''settled'' \<and> as_amount s = 1/4"
proof -
  have id: "ur_attempt_id sample_reservation = ''a1''" by (simp add: sample_reservation_def)
  have "list_all (\<lambda>r. ue_id r \<noteq> ''u9'') (usage_events sample_db)" by code_simp
  then have fresh: "(\<lambda>_. ''u9'') (0::nat) \<notin> ue_id ` set (usage_events sample_db)"
    by (auto simp: list_all_iff)
  have m: "money (Dec (1/4)) = Inr (1/4)" by code_simp
  from sample_reserved obtain s where s: "ledger_abs sample_db ''a1'' = Some s" "as_status s = ''reserved''"
    by (auto simp: has_status_def)
  show ?thesis
    using settle_outcome [OF ledger_inv_sample_db fresh, where rsv = sample_reservation
        and actual = "Dec (1/4)" and now = 7 and i = "Some 10" and w = "Some 20" and snap = "[]"
        and p = "''openai''" and q = "''p''"]
    by (auto simp: id s m)
qed

definition finish_call ::
  "usage_event_type \<Rightarrow> (nat \<Rightarrow> string) \<Rightarrow> datetime \<Rightarrow> usage_reservation \<Rightarrow> decimal \<Rightarrow> int option \<Rightarrow>
   int option \<Rightarrow> json_object \<Rightarrow> string \<Rightarrow> string \<Rightarrow> state_db \<Rightarrow> unit result \<times> state_db" where
  "finish_call t uid now rsv amount i w snap p q db =
     (if t = SETTLE then settle uid now rsv amount i w snap p q db
      else mark_uncertain uid now rsv snap p q db)"

lemma finish_call_transaction:
  "finish_call t uid now rsv amount i w snap p q db =
     transaction (finish_body uid now rsv (if t = SETTLE then SETTLE else UNCERTAIN)
       (if t = SETTLE then amount else Dec (ur_reserved_usd rsv))
       (if t = SETTLE then i else None) (if t = SETTLE then w else None) snap p q) db"
  by (simp add: finish_call_def settle_def mark_uncertain_def)

text \<open>
  C20: An attempt is finished at most once. After a successful \<^verbatim>\<open>settle\<close> or \<^verbatim>\<open>mark_uncertain\<close>, every
  further call of either on the attempt is refused with the same error and changes nothing, so no
  charge can be replaced or counted twice by a retry.
\<close>

theorem finish_once:
  assumes "ledger_inv db" and "finish_call t uid now rsv amount i w snap p q db = (Inr (), db')"
    and "ur_attempt_id rsv' = ur_attempt_id rsv"
  shows "finish_call t' uid' now' rsv' amount' i' w' snap' p' q' db' = (Inl not_outstanding, db')"
proof -
  from assms(2) have fin: "finish_body uid now rsv (if t = SETTLE then SETTLE else UNCERTAIN)
      (if t = SETTLE then amount else Dec (ur_reserved_usd rsv))
      (if t = SETTLE then i else None) (if t = SETTLE then w else None) snap p q db = Inr ((), db')"
    by (simp add: finish_call_transaction transaction_commit)
  have "\<not> has_status db' (ur_attempt_id rsv') ''reserved''"
    by (rule finish_effect [OF assms(1) _ fin])
      (auto simp: has_status_def assms(3) finish_status_def split: if_splits)
  then show ?thesis
    by (simp add: finish_call_transaction transaction_Inl finish_body_denied)
qed

lemma sample_settle:
  "finish_call SETTLE (\<lambda>_. ''u9'') 7 sample_reservation (Dec (1/4)) None None [] ''openai'' ''p'' sample_db
     = (Inr (), snd (finish_call SETTLE (\<lambda>_. ''u9'') 7 sample_reservation (Dec (1/4)) None None [] ''openai''
         ''p'' sample_db))"
proof -
  have "fst (finish_call SETTLE (\<lambda>_. ''u9'') 7 sample_reservation (Dec (1/4)) None None [] ''openai'' ''p''
      sample_db) = Inr ()" by code_simp
  then show ?thesis by (simp add: prod_eq_iff)
qed

theorem finish_once_witness:
  "fst (finish_call UNCERTAIN (\<lambda>_. ''u8'') 9 sample_reservation (Dec 0) None None [] ''openai'' ''p''
     (snd (finish_call SETTLE (\<lambda>_. ''u9'') 7 sample_reservation (Dec (1/4)) None None [] ''openai'' ''p''
        sample_db))) = Inl not_outstanding"
  using finish_once [OF ledger_inv_sample_db sample_settle refl, where t' = UNCERTAIN
      and uid' = "\<lambda>_. ''u8''" and now' = 9 and amount' = "Dec 0" and snap' = "[]" and i' = None
      and w' = None and p' = "''openai''" and q' = "''p''"] by simp

lemma exposure_finish:
  assumes "ledger_abs db a = Some s" and "as_status s = ''reserved''"
    and "ledger_abs db' = (ledger_abs db)(a \<mapsto> s\<lparr>as_status := ''settled'', as_amount := usd, as_cost_known := k\<rparr>)"
    and "0 \<le> usd" and "usd \<le> as_amount s"
  shows "budget_used off now db' \<le> budget_used off now db"
  using assms
  by (auto simp: budget_used_exposure exposure_update in_budget_def counted_def outstanding_def)

text \<open>
  Finishing never raises the exposure above what was reserved. Marking an attempt uncertain
  with its own reservation leaves the monthly exposure exactly as it was, and settling it for at
  most the reserved amount does not raise it, so the caps checked at admission keep holding.
\<close>

theorem finish_keeps_caps:
  assumes "ledger_inv db" and "ledger_abs db (ur_attempt_id rsv) = Some s"
    and "finish_call t uid now rsv amount i w snap p q db = (Inr (), db')"
    and "ur_reserved_usd rsv = as_amount s" and "money (Dec (as_amount s)) = Inr (as_amount s)" and "0 \<le> as_amount s"
    and "\<And>usd. t = SETTLE \<Longrightarrow> money amount = Inr usd \<Longrightarrow> 0 \<le> usd \<and> usd \<le> as_amount s"
  shows "budget_used off month_of db' \<le> budget_used off month_of db \<and>
    (t \<noteq> SETTLE \<longrightarrow> budget_used off month_of db' = budget_used off month_of db)"
proof (cases "t = SETTLE")
  case True
  with assms(3) have fin: "finish_body uid now rsv SETTLE amount i w snap p q db = Inr ((), db')"
    by (simp add: finish_call_transaction transaction_commit)
  show ?thesis
    by (rule finish_effect [OF assms(1) _ fin])
      (use assms(2,7) True in \<open>auto simp: finish_status_def intro: exposure_finish\<close>)
next
  case False
  with assms(3) have fin: "finish_body uid now rsv UNCERTAIN (Dec (as_amount s)) None None snap p q db = Inr ((), db')"
    by (simp add: finish_call_transaction transaction_commit assms(4))
  have "budget_used off month_of db' = budget_used off month_of db"
    by (rule finish_effect [OF assms(1) _ fin])
      (use assms(2,5) in \<open>auto simp: finish_status_def budget_used_exposure exposure_update
          in_budget_def counted_def outstanding_def\<close>)
  with False show ?thesis by simp
qed

lemma sample_state: "ledger_abs sample_db ''a1'' = Some (reserved_state 0 sample_request (1/2))"
  by code_simp

theorem finish_keeps_caps_witness:
  "budget_used (\<lambda>_. 0) 0 (snd (finish_call SETTLE (\<lambda>_. ''u9'') 7 sample_reservation (Dec (1/4)) None None []
     ''openai'' ''p'' sample_db)) \<le> budget_used (\<lambda>_. 0) 0 sample_db"
proof -
  have id: "ur_attempt_id sample_reservation = ''a1''" "ur_reserved_usd sample_reservation = 1/2"
    by (simp_all add: sample_reservation_def)
  have m: "money (Dec (1/4)) = Inr (1/4)" "money (Dec (1/2)) = Inr (1/2)" by code_simp+
  show ?thesis
    using finish_keeps_caps [OF ledger_inv_sample_db _ sample_settle,
        of "reserved_state 0 sample_request (1/2)" "\<lambda>_. 0" 0]
    by (simp add: id m sample_state)
qed

lemma correct_uncertain_Inr:
  assumes "correct_uncertain env os now a actual reason i w db = (Inr (), db')"
  obtains x where "actual = Dec x" "0 \<le> x" "strip reason \<noteq> []" "length reason \<le> 500"
    "correct_body (owner_alive (proc_engine (le_process env)) os) (le_uuid env) now a x reason i w db = Inr ((), db')"
  using assms unfolding correct_uncertain_def
  by (auto simp: transaction_commit split: if_splits decimal.splits)

text \<open>
  Only an uncertain attempt can be corrected, and only once. A correction with a bounded reason
  and a finite nonnegative amount first recovers abandoned reservations, then settles the attempt
  at the quantised amount with a known cost; the leases other than the recovered ones stay, and
  afterwards the attempt is no longer correctable.
\<close>

theorem correct_uncertain_once:
  assumes "ledger_inv db" and "correct_uncertain env os now a actual reason i w db = (Inr (), db')"
  shows "\<exists>x usd s. actual = Dec x \<and> 0 \<le> x \<and> money actual = Inr usd \<and> 0 \<le> usd \<and>
      ledger_abs db a = Some s \<and> as_status s \<in> {''reserved'', ''uncertain''} \<and>
      ledger_abs db' a = Some (s\<lparr>as_status := ''settled'', as_amount := usd, as_cost_known := True\<rparr>) \<and>
      ledger_inv db' \<and> strip reason \<noteq> [] \<and> length reason \<le> 500 \<and>
      (\<forall>env' os' now' x' reason' i' w'.
         fst (correct_uncertain env' os' now' a x' reason' i' w' db') \<noteq> Inr ())"
proof -
  obtain x where x: "actual = Dec x" "0 \<le> x" "strip reason \<noteq> []" "length reason \<le> 500"
    and body: "correct_body (owner_alive (proc_engine (le_process env)) os) (le_uuid env) now a x reason i w db
      = Inr ((), db')"
    using correct_uncertain_Inr [OF assms(2)] by blast
  obtain db2 s usd where rr: "recovery_result (owner_alive (proc_engine (le_process env)) os)
      (paid_call_leases db) now (usage_events db) db db2"
    and s: "ledger_abs db2 a = Some s" "as_status s = ''uncertain''" and usd: "money (Dec x) = Inr usd"
    and inv': "ledger_inv db'"
    and abs: "ledger_abs db' = (ledger_abs db2)(a \<mapsto> s\<lparr>as_status := ''settled'', as_amount := usd, as_cost_known := True\<rparr>)"
    using correct_effect [OF assms(1) body] by metis
  have settled: "ledger_abs db' a = Some (s\<lparr>as_status := ''settled'', as_amount := usd, as_cost_known := True\<rparr>)"
    by (simp add: abs)
  have final: "fst (correct_uncertain env' os' now' a x' reason' i' w' db') \<noteq> Inr ()"
    for env' os' now' x' reason' i' w'
  proof
    assume "fst (correct_uncertain env' os' now' a x' reason' i' w' db') = Inr ()"
    then obtain db'' where "correct_uncertain env' os' now' a x' reason' i' w' db' = (Inr (), db'')"
      by (metis prod.collapse)
    then obtain y where "correct_body (owner_alive (proc_engine (le_process env')) os') (le_uuid env')
        now' a y reason' i' w' db' = Inr ((), db'')"
      by (blast elim: correct_uncertain_Inr)
    then obtain db3 s' where "recovers db' db3" "ledger_abs db3 a = Some s'" "as_status s' = ''uncertain''"
      using correct_effect [OF inv'] unfolding recovery_result_def by metis
    with recovers_not_reserved [OF _ settled] show False by fastforce
  qed
  have rec: "recovers db db2" using rr by (simp add: recovery_result_def)
  obtain s0 where "ledger_abs db a = Some s0" "as_status s0 \<in> {''reserved'', ''uncertain''}"
      "s0\<lparr>as_status := ''settled'', as_amount := usd, as_cost_known := True\<rparr> =
       s\<lparr>as_status := ''settled'', as_amount := usd, as_cost_known := True\<rparr>"
    using rec s by (cases rule: recovers_cases [of db db2 a]) auto
  moreover have "0 \<le> usd" using usd x(2) by (auto simp: money_def intro: quantize8_nonneg)
  ultimately show ?thesis using x usd inv' final settled by metis
qed

theorem correct_uncertain_once_witness:
  "\<exists>s. ledger_abs (snd (correct_uncertain later_env idle_os 9 ''a1'' (Dec (1/3)) ''invoice'' None None sample_db))
     ''a1'' = Some s \<and> as_status s = ''settled''"
proof -
  have "fst (correct_uncertain later_env idle_os 9 ''a1'' (Dec (1/3)) ''invoice'' None None sample_db) = Inr ()" by code_simp
  then have "correct_uncertain later_env idle_os 9 ''a1'' (Dec (1/3)) ''invoice'' None None sample_db =
      (Inr (), snd (correct_uncertain later_env idle_os 9 ''a1'' (Dec (1/3)) ''invoice'' None None sample_db))"
    by (simp add: prod_eq_iff)
  from correct_uncertain_once [OF ledger_inv_sample_db this] show ?thesis by auto
qed

section \<open>Recovery\<close>

text \<open>
  Which reservations are abandoned, said without the code's own test. A reservation whose event names a
  process of the workspace (a token, possibly with the name of a worker after a colon) is abandoned once
  that process no longer holds the lock file of its token. Any other reservation is abandoned unless a
  lease on it has not expired; one without a lease is abandoned.
\<close>

definition names_process :: "usage_event \<Rightarrow> string \<Rightarrow> bool" where
  "names_process r t \<longleftrightarrow>
     (\<exists>j k. json_loads (ue_price_snapshot_json r) = Inr j \<and> canonical_uuid_hex t \<and>
        (k = [] \<or> hd k = CHR '':'') \<and>
        map_of j ''process_owner'' = Some (JStr (''proc:'' @ t @ k)))"

definition abandoned :: "engine \<Rightarrow> os_state \<Rightarrow> paid_call_lease list \<Rightarrow> datetime \<Rightarrow> usage_event \<Rightarrow> bool" where
  "abandoned e os leases now r \<longleftrightarrow>
     (if \<exists>t. names_process r t
      then \<not> (\<exists>t. names_process r t \<and> owner_lock_path (eng_root e) t \<in> set (os_locked os))
      else \<not> (\<exists>l\<in>set leases. pl_attempt_id l = ue_attempt_id r \<and> now < pl_expires_at l))"

lemma owner_token_parts:
  assumes "canonical_uuid_hex t" and "k = [] \<or> hd k = CHR '':''"
  shows "owner_token (''proc:'' @ t @ k) = t"
  using assms owner_token_proc [OF assms(1)] by (cases k) (auto simp: proc_owner_def)

lemma owner_parts:
  assumes "starts_with w ''proc:''"
  obtains k where "w = ''proc:'' @ owner_token w @ k" "k = [] \<or> hd k = CHR '':''"
proof
  have prefix: "take 5 w = ''proc:''" using assms by (simp add: starts_with_def numeral_eq_Suc)
  show "w = ''proc:'' @ owner_token w @ dropWhile (\<lambda>c. c \<noteq> CHR '':'') (drop 5 w)"
    using prefix append_take_drop_id [of 5 w] by (simp add: owner_token_def del: append_take_drop_id)
  show "dropWhile (\<lambda>c. c \<noteq> CHR '':'') (drop 5 w) = [] \<or> hd (dropWhile (\<lambda>c. c \<noteq> CHR '':'') (drop 5 w)) = CHR '':''"
    using hd_dropWhile by blast
qed

lemma names_process_owner:
  assumes "json_loads (ue_price_snapshot_json r) = Inr j" and "snapshot_owner j = Inr owner"
  shows "names_process r t \<longleftrightarrow>
    (\<exists>w. owner = Some w \<and> starts_with w ''proc:'' \<and> owner_token w = t \<and> canonical_uuid_hex t)"
proof
  assume "names_process r t"
  then obtain k where k: "canonical_uuid_hex t" "k = [] \<or> hd k = CHR '':''"
      "map_of j ''process_owner'' = Some (JStr (''proc:'' @ t @ k))"
    using assms(1) by (auto simp: names_process_def)
  with assms(2) have "owner = Some (''proc:'' @ t @ k)" by (simp add: snapshot_owner_def)
  with k owner_token_parts [OF k(1,2)] starts_with_append [of "''proc:''" "t @ k"]
  show "\<exists>w. owner = Some w \<and> starts_with w ''proc:'' \<and> owner_token w = t \<and> canonical_uuid_hex t" by blast
next
  assume "\<exists>w. owner = Some w \<and> starts_with w ''proc:'' \<and> owner_token w = t \<and> canonical_uuid_hex t"
  then obtain w where w: "owner = Some w" "starts_with w ''proc:''" "owner_token w = t" "canonical_uuid_hex t"
    by blast
  have "map_of j ''process_owner'' = Some (JStr w)"
    using assms(2) w(1)
    by (auto simp: snapshot_owner_def split: option.splits json.splits bool.splits list.splits if_splits)
  with owner_parts [OF w(2)] w(3,4) assms(1) show "names_process r t"
    unfolding names_process_def by metis
qed

lemma select_first_lease:
  assumes "distinct (map pl_attempt_id leases)"
  shows "now < (case select_first (\<lambda>l. pl_attempt_id l = a) leases of None \<Rightarrow> now | Some l \<Rightarrow> pl_expires_at l)
    \<longleftrightarrow> (\<exists>l\<in>set leases. pl_attempt_id l = a \<and> now < pl_expires_at l)"
proof (cases "select_first (\<lambda>l. pl_attempt_id l = a) leases")
  case None
  then have "\<forall>l\<in>set leases. pl_attempt_id l \<noteq> a" by (simp add: select_first_None)
  with None show ?thesis by auto
next
  case (Some l)
  then have l: "l \<in> set leases" "pl_attempt_id l = a" by (auto dest: select_first_Some)
  have "l' = l" if "l' \<in> set leases" "pl_attempt_id l' = a" for l'
    by (rule distinct_key_unique [OF assms that(1) l(1)]) (simp add: that(2) l(2))
  then have "(\<exists>l\<in>set leases. pl_attempt_id l = a \<and> now < pl_expires_at l) \<longleftrightarrow> now < pl_expires_at l"
    using l by blast
  with Some show ?thesis by simp
qed

lemma kept_abandoned:
  assumes "json_loads (ue_price_snapshot_json r) = Inr j" and "snapshot_owner j = Inr owner"
    and "owner_alive e os owner = Inr al" and "distinct (map pl_attempt_id leases)"
  shows "kept (owner_alive e os) leases now r \<longleftrightarrow> \<not> abandoned e os leases now r"
proof -
  have "kept (owner_alive e os) leases now r \<longleftrightarrow> keep_reservation al leases (ue_attempt_id r) now"
    using assms(1-3) by (simp add: kept_def)
  also have "\<dots> \<longleftrightarrow> \<not> abandoned e os leases now r"
  proof (cases "\<exists>t. names_process r t")
    case True
    then obtain t where t: "names_process r t" ..
    then obtain w where w: "owner = Some w" "starts_with w ''proc:''" "canonical_uuid_hex (owner_token w)"
      using names_process_owner [OF assms(1,2), of t] by auto
    have "w \<noteq> []" using w(2) by (auto simp: starts_with_def)
    have "owner_alive e os owner = (case workspace_root e of Inl err \<Rightarrow> Inl err
        | Inr rt \<Rightarrow> (case lease_acquire (file_lease_new (owner_lock_path rt (owner_token w))) os of
            Inl _ \<Rightarrow> Inr (Some True) | Inr (l, os') \<Rightarrow> Inr (Some False)))"
      unfolding owner_alive_def w(1) using \<open>w \<noteq> []\<close> w(2,3) by simp
    then have "al = Some (owner_lock_path (eng_root e) (owner_token w) \<in> set (os_locked os))"
      using assms(3)
      by (simp add: workspace_root_def lease_acquire_def file_lease_new_def split: option.splits if_splits)
    moreover have "names_process r t \<longleftrightarrow> t = owner_token w" for t
      using names_process_owner [OF assms(1,2)] w by auto
    ultimately show ?thesis by (simp add: abandoned_def keep_reservation_def)
  next
    case False
    then have "\<not> (\<exists>w. owner = Some w \<and> starts_with w ''proc:'' \<and> canonical_uuid_hex (owner_token w))"
      by (simp add: names_process_owner [OF assms(1,2)])
    with assms(3) have "al = None"
      by (cases owner) (simp_all add: owner_alive_def split: if_splits)
    moreover have "now < (case select_first (\<lambda>l. pl_attempt_id l = a) leases of None \<Rightarrow> now | Some l \<Rightarrow> pl_expires_at l)
        \<longleftrightarrow> (\<exists>l\<in>set leases. pl_attempt_id l = a \<and> now < pl_expires_at l)" for a
      by (rule select_first_lease [OF assms(4)])
    ultimately show ?thesis using False by (simp add: abandoned_def keep_reservation_def)
  qed
  finally show ?thesis .
qed

lemma recover_rows_reads:
  assumes "recover_rows alive uid now states leases rows n db = Inr (m, db')" and "r \<in> set rows"
    and "ue_event_type r = RESERVE" and "status_of states (ue_attempt_id r) = Some ''reserved''"
  obtains j owner al where "json_loads (ue_price_snapshot_json r) = Inr j" "snapshot_owner j = Inr owner"
    "alive owner = Inr al"
  using assms by (induction rows arbitrary: n db) (auto split: if_splits sum.splits)

text \<open>
  C21: Recovery is precise. When it returns, every reservation that was abandoned has become an
  uncertain charge of the same amount and has lost its lease, every reservation that was not is still
  reserved with its lease, every other attempt is as it was, and neither the monthly exposure nor the
  total of any operation has changed. A reservation is abandoned when its event names a process that no
  longer holds its lock or, when the event names no process, when it has no unexpired lease.
\<close>

theorem recovery_precise:
  assumes "ledger_inv db" and "recover_interrupted_usage env os now db = (Inr n, db')"
    and "r \<in> set (usage_events db)" and "ue_event_type r = RESERVE"
    and "ledger_abs db (ue_attempt_id r) = Some s" and "as_status s = ''reserved''"
  shows "ledger_abs db' (ue_attempt_id r) =
      (if abandoned (proc_engine (le_process env)) os (paid_call_leases db) now r
       then Some (s\<lparr>as_status := ''uncertain''\<rparr>) else Some s) \<and>
    (ue_attempt_id r \<in> pl_attempt_id ` set (paid_call_leases db') \<longleftrightarrow>
       \<not> abandoned (proc_engine (le_process env)) os (paid_call_leases db) now r) \<and>
    (\<forall>a. \<not> has_status db a ''reserved'' \<longrightarrow> ledger_abs db' a = ledger_abs db a) \<and>
    budget_used off month_of db' = budget_used off month_of db \<and>
    operation_total op (attempt_states (event_rows db')) = operation_total op (attempt_states (event_rows db)) \<and>
    ledger_inv db'"
proof -
  let ?alive = "owner_alive (proc_engine (le_process env)) os"
  let ?k = "\<not> abandoned (proc_engine (le_process env)) os (paid_call_leases db) now r"
  have run: "recover_usage_attempts ?alive (le_uuid env) now db = Inr (n, db')"
    using assms(2) by (simp add: recover_interrupted_usage_def transaction_commit)
  have "status_of (attempt_states (event_rows db)) (ue_attempt_id r) = Some ''reserved''"
    by (simp add: status_of_states assms(5,6))
  with recover_rows_reads [OF run [unfolded recover_usage_attempts_def Let_def] _ assms(4)] assms(3)
  obtain j owner al where "json_loads (ue_price_snapshot_json r) = Inr j" "snapshot_owner j = Inr owner"
      "?alive owner = Inr al" by auto
  from kept_abandoned [OF this] assms(1)
  have kept: "kept ?alive (paid_call_leases db) now r \<longleftrightarrow> ?k" by (simp add: ledger_inv_def)
  note rr = recover_interrupted_effect [OF assms(1,2)]
  then have rec: "recovers db db'" and inv': "ledger_inv db'"
    and left: "has_status db' (ue_attempt_id r) ''reserved'' \<Longrightarrow> ?k"
    using assms(3,4) kept by (auto simp: recovery_result_def)
  have abs: "ledger_abs db' (ue_attempt_id r) = (if ?k then Some s else Some (s\<lparr>as_status := ''uncertain''\<rparr>))"
  proof (cases ?k)
    case True
    with recovery_unchanged_kept [OF rr ledger_inv_keys [OF assms(1)] refl assms(3,4)] kept assms(5)
    show ?thesis by simp
  next
    case False
    with left have "\<not> has_status db' (ue_attempt_id r) ''reserved''" by blast
    with rec assms(5,6) False show ?thesis
      by (cases rule: recovers_cases [of db db' "ue_attempt_id r"]) (auto simp: has_status_def)
  qed
  have "has_status db' (ue_attempt_id r) ''reserved'' \<longleftrightarrow> ?k"
    using abs assms(6) by (auto simp: has_status_def)
  moreover have "\<not> has_status db a ''reserved'' \<Longrightarrow> ledger_abs db' a = ledger_abs db a" for a
    using rec by (cases rule: recovers_cases [of db db' a]) (auto simp: has_status_def)
  ultimately show ?thesis
    using abs inv' recovers_figures [OF rec] leases_reserved [OF inv'] by metis
qed

lemma sample_recover:
  "recover_interrupted_usage later_env idle_os 9 sample_db =
     (Inr 1, snd (recover_interrupted_usage later_env idle_os 9 sample_db))"
proof -
  have "fst (recover_interrupted_usage later_env idle_os 9 sample_db) = Inr 1" by code_simp
  then show ?thesis by (simp add: prod_eq_iff)
qed

theorem recovery_precise_witness:
  "ledger_abs (snd (recover_interrupted_usage later_env idle_os 9 sample_db)) ''a1'' =
     Some ((reserved_state 0 sample_request (1/2))\<lparr>as_status := ''uncertain''\<rparr>)"
proof -
  have ev: "usage_events sample_db = [reserve_event ''u0'' 0 (proc_owner (uuid_hex 0)) (1/2) sample_request]"
    by code_simp
  let ?r = "reserve_event ''u0'' 0 (proc_owner (uuid_hex 0)) (1/2) sample_request"
  have r: "ue_event_type ?r = RESERVE" "ue_attempt_id ?r = ''a1''"
    by (simp_all add: reserve_event_def sample_request_def)
  have "json_loads (ue_price_snapshot_json ?r) = Inr [(''cost_known'', JBool True),
      (''process_owner'', JStr (proc_owner (uuid_hex 0)))]"
    by (simp add: reserve_event_def sample_request_def json_loads_def)
  then have "names_process ?r (uuid_hex 0)"
    by (simp add: names_process_def proc_owner_def exI [of _ "[]"])
  then have "abandoned (proc_engine (le_process later_env)) idle_os (paid_call_leases sample_db) 9 ?r"
    by (auto simp: abandoned_def idle_os_def)
  then show ?thesis
    using recovery_precise [OF ledger_inv_sample_db sample_recover, of ?r] by (simp add: ev r sample_state)
qed

section \<open>Runs of the ledger\<close>

text \<open>
  The operations of the ledger as labels. \<open>OsChanges\<close> is everything that other processes do to
  the locks: processes start, end and crash. The concurrency limit is the workspace setting that
  the provider gateway passes with every reservation.
\<close>

datatype ledger_op =
    Reserve ledger_env datetime reserve_request
  | Finish usage_event_type "nat \<Rightarrow> string" datetime usage_reservation decimal "int option" "int option"
      json_object string string
  | Correct ledger_env datetime string decimal string "int option" "int option"
  | Recover ledger_env datetime
  | Summary ledger_env datetime rat string "string option"
  | Unresolved ledger_env datetime
  | OsChanges os_state

fun ledger_step :: "int \<Rightarrow> os_state \<times> state_db \<Rightarrow> ledger_op \<Rightarrow> os_state \<times> state_db" where
  "ledger_step limit (os, db) (Reserve env now rq) = snd (reserve env now (rq\<lparr>rq_max_concurrent := limit\<rparr>) os db)"
| "ledger_step limit (os, db) (Finish t uid now rsv amount i w snap p q) =
     (os, snd (finish_call t uid now rsv amount i w snap p q db))"
| "ledger_step limit (os, db) (Correct env now a actual reason i w) =
     (os, snd (correct_uncertain env os now a actual reason i w db))"
| "ledger_step limit (os, db) (Recover env now) = (os, snd (recover_interrupted_usage env os now db))"
| "ledger_step limit (os, db) (Summary env now cap zone pruned) =
     (os, snd (usage_summary_of env os now cap zone pruned db))"
| "ledger_step limit (os, db) (Unresolved env now) = (os, snd (unresolved_attempts env os now db))"
| "ledger_step limit (os, db) (OsChanges os') = (os', db)"

text \<open>What every operation does to the ledger, errors included.\<close>

definition ledger_evolves :: "state_db \<Rightarrow> state_db \<Rightarrow> bool" where
  "ledger_evolves db db' \<longleftrightarrow>
     ledger_inv db' \<and> lifecycle\<^sup>*\<^sup>* (ledger_abs db) (ledger_abs db') \<and>
     (\<exists>new. usage_events db' = usage_events db @ new) \<and> jobs db' = jobs db"

lemma ledger_evolves_refl: "ledger_inv db \<Longrightarrow> ledger_evolves db db"
  by (simp add: ledger_evolves_def)

lemma reserve_evolves:
  assumes "ledger_inv db"
  shows "ledger_evolves db (snd (snd (reserve env now rq os db)))"
proof (cases "reserve env now rq os db")
  case (fields r os' db')
  show ?thesis
  proof (cases r)
    case (Inl e)
    with fields assms show ?thesis by (auto dest: reserve_Inl intro: ledger_evolves_refl)
  next
    case (Inr rsv)
    show ?thesis
    proof (rule reserve_effect [OF assms fields [unfolded Inr]])
      fix db1 db2 projected
      assume d: "db1 = db \<or> db1 = clear_maintenance db" and rec: "recovers db db2" and "ledger_inv db'"
        and p: "0 \<le> projected" and none: "ledger_abs db2 (rq_attempt_id rq) = None"
        and abs: "ledger_abs db' = (ledger_abs db2)(rq_attempt_id rq \<mapsto> reserved_state now rq projected)"
        and ol: "only_ledger_changed db1 db'"
      moreover have "lifecycle (ledger_abs db2) (ledger_abs db')"
        unfolding abs by (rule lc_reserve) (simp_all add: none p)
      ultimately show ?thesis
        using lifecycle_recovers [OF rec] fields
        by (auto simp: ledger_evolves_def only_ledger_changed_def)
    qed
  qed
qed

lemma finish_evolves:
  assumes "ledger_inv db"
  shows "ledger_evolves db (snd (finish_call t uid now rsv amount i w snap p q db))"
  unfolding finish_call_transaction
proof (rule transaction_invariant)
  fix u db'
  let ?t = "if t = SETTLE then SETTLE else UNCERTAIN"
  assume fin: "finish_body uid now rsv ?t (if t = SETTLE then amount else Dec (ur_reserved_usd rsv))
      (if t = SETTLE then i else None) (if t = SETTLE then w else None) snap p q db = Inr (u, db')"
  show "ledger_evolves db db'"
    by (rule finish_effect [OF assms _ fin])
      (auto simp: ledger_evolves_def only_ledger_changed_def finish_status_def intro!: r_into_rtranclp lc_finish)
qed (rule ledger_evolves_refl [OF assms])

lemma recover_evolves:
  assumes "ledger_inv db"
  shows "ledger_evolves db (snd (recover_interrupted_usage env os now db))"
  unfolding recover_interrupted_usage_def
proof (rule transaction_invariant)
  fix n db'
  assume "recover_usage_attempts (owner_alive (proc_engine (le_process env)) os) (le_uuid env) now db = Inr (n, db')"
  from recover_usage_correct [OF this assms] show "ledger_evolves db db'"
    by (auto simp: ledger_evolves_def recovery_result_def only_ledger_changed_def intro: lifecycle_recovers)
qed (rule ledger_evolves_refl [OF assms])

lemma correct_evolves:
  assumes "ledger_inv db"
  shows "ledger_evolves db (snd (correct_uncertain env os now a actual reason i w db))"
proof (cases "correct_uncertain env os now a actual reason i w db")
  case (Pair r db')
  show ?thesis
  proof (cases r)
    case (Inl e)
    with Pair have "db' = db"
      unfolding correct_uncertain_def by (auto dest: transaction_error_rollback split: if_splits decimal.splits)
    with Pair assms show ?thesis by (simp add: ledger_evolves_refl)
  next
    case (Inr u)
    obtain x where x: "0 \<le> x" and body: "correct_body (owner_alive (proc_engine (le_process env)) os)
        (le_uuid env) now a x reason i w db = Inr ((), db')"
      using correct_uncertain_Inr Pair Inr by (metis old.unit.exhaust)
    obtain db2 s usd where "recovers db db2" and s: "ledger_abs db2 a = Some s" "as_status s = ''uncertain''"
      and usd: "money (Dec x) = Inr usd" and "ledger_inv db'" "only_ledger_changed db db'"
      and abs: "ledger_abs db' = (ledger_abs db2)(a \<mapsto> s\<lparr>as_status := ''settled'', as_amount := usd, as_cost_known := True\<rparr>)"
      using correct_effect [OF assms body] unfolding recovery_result_def by metis
    moreover have "0 \<le> usd" using usd x by (auto simp: money_def intro: quantize8_nonneg)
    with s abs have "lifecycle (ledger_abs db2) (ledger_abs db')" by (simp add: lc_correct)
    ultimately show ?thesis
      using lifecycle_recovers [of db db2] Pair
      by (auto simp: ledger_evolves_def only_ledger_changed_def intro: rtranclp.rtrancl_into_rtrancl)
  qed
qed

lemma queries_evolve:
  assumes "ledger_inv db"
  shows "ledger_evolves db (snd (usage_summary_of env os now cap zone pruned db))"
    and "ledger_evolves db (snd (unresolved_attempts env os now db))"
  using recover_evolves [OF assms, of env os now]
  unfolding usage_summary_of_def unresolved_attempts_def
  by (auto simp: Let_def split: prod.splits sum.splits)

lemmas operations_evolve =
  reserve_evolves finish_evolves correct_evolves recover_evolves queries_evolve ledger_evolves_refl

lemma ledger_step_evolves:
  "ledger_inv (snd s) \<Longrightarrow> ledger_evolves (snd s) (snd (ledger_step limit s x))"
  by (cases s; cases x) (auto simp: operations_evolve)

lemma run_evolves:
  "ledger_inv (snd s) \<Longrightarrow> ledger_evolves (snd s) (snd (run (ledger_step limit) s xs))"
proof (induction xs arbitrary: s)
  case (Cons x xs)
  have one: "ledger_evolves (snd s) (snd (ledger_step limit s x))"
    by (rule ledger_step_evolves [OF Cons.prems])
  then have "ledger_evolves (snd (ledger_step limit s x)) (snd (run (ledger_step limit) s (x # xs)))"
    using Cons.IH by (simp add: ledger_evolves_def)
  with one show ?case by (auto simp: ledger_evolves_def)
qed (simp add: ledger_evolves_refl)

section \<open>Live reservations\<close>

text \<open>The engine an operation works with, and the operations that finish an attempt.\<close>

fun op_engine :: "ledger_op \<Rightarrow> engine option" where
  "op_engine (Reserve env now rq) = Some (proc_engine (le_process env))"
| "op_engine (Correct env now a actual reason i w) = Some (proc_engine (le_process env))"
| "op_engine (Recover env now) = Some (proc_engine (le_process env))"
| "op_engine (Summary env now cap zone pruned) = Some (proc_engine (le_process env))"
| "op_engine (Unresolved env now) = Some (proc_engine (le_process env))"
| "op_engine (Finish t uid now rsv amount i w snap p q) = None"
| "op_engine (OsChanges os) = None"

fun finishes :: "string \<Rightarrow> ledger_op \<Rightarrow> bool" where
  "finishes a (Finish t uid now rsv amount i w snap p q) \<longleftrightarrow> ur_attempt_id rsv = a"
| "finishes a op \<longleftrightarrow> False"

text \<open>
  A run during which one process stays alive: before every operation the operating system still holds the
  lock file of the token \<open>t\<close>, whatever has happened to the other locks. The operations are those of
  processes of the workspace at \<open>rt\<close>, and none of them finishes the attempt \<open>a\<close>.
\<close>

fun runs_while_locked :: "int \<Rightarrow> string \<Rightarrow> string \<Rightarrow> string \<Rightarrow> os_state \<times> state_db \<Rightarrow> ledger_op list \<Rightarrow> bool" where
  "runs_while_locked limit rt t a s [] \<longleftrightarrow> True"
| "runs_while_locked limit rt t a s (op # ops) \<longleftrightarrow>
     owner_lock_path rt t \<in> set (os_locked (fst s)) \<and>
     (case op_engine op of None \<Rightarrow> True | Some e \<Rightarrow> eng_root e = rt) \<and>
     \<not> finishes a op \<and> runs_while_locked limit rt t a (ledger_step limit s op) ops"

text \<open>The attempt is reserved, by an event that names the process of the token.\<close>

definition reserved_by :: "string \<Rightarrow> string \<Rightarrow> attempt_state \<Rightarrow> state_db \<Rightarrow> bool" where
  "reserved_by t a s db \<longleftrightarrow>
     ledger_inv db \<and> ledger_abs db a = Some s \<and> as_status s = ''reserved'' \<and> canonical_uuid_hex t \<and>
     (\<exists>r j. r \<in> set (usage_events db) \<and> ue_event_type r = RESERVE \<and> ue_attempt_id r = a \<and>
        json_loads (ue_price_snapshot_json r) = Inr j \<and> map_of j ''process_owner'' = Some (JStr (proc_owner t)))"

lemma reserved_by_step:
  assumes "reserved_by t a s db" and "ledger_evolves db db'" and "ledger_abs db' a = ledger_abs db a"
  shows "reserved_by t a s db'"
  using assms unfolding reserved_by_def ledger_evolves_def by (metis UnI1 set_append)

text \<open>A recovery returns only if it could probe the owner, and then the workspace has its root.\<close>

lemma recovery_keeps_reserved:
  assumes "reserved_by t a s db" and lock: "owner_lock_path (eng_root e) t \<in> set (os_locked os)"
    and rr: "recovery_result (owner_alive e os) leases now (usage_events db) db1 db2"
    and "ledger_abs db1 = ledger_abs db" and root: "workspace_root e = Inr (eng_root e)"
    and "usage_events db1 = usage_events db"
  shows "ledger_abs db2 a = ledger_abs db a"
proof -
  obtain r j where r: "r \<in> set (usage_events db)" "ue_event_type r = RESERVE" "ue_attempt_id r = a"
      "json_loads (ue_price_snapshot_json r) = Inr j" "map_of j ''process_owner'' = Some (JStr (proc_owner t))"
    and t: "canonical_uuid_hex t" and inv: "ledger_inv db"
    using assms(1) unfolding reserved_by_def by blast
  have "owner_running e os (proc_owner t)"
    using root t lock unfolding owner_running_def by blast
  note keep = workspace_owner.running_reservation_kept [OF r(4,5) this]
  have "keys_distinct db1" using ledger_inv_keys [OF inv] assms(6) by (simp add: keys_distinct_def)
  from recovery_unchanged_kept [OF rr this _ r(1,2) keep] assms(4,6) r(3) show ?thesis by simp
qed

lemma recovery_root:
  assumes "reserved_by t a s db" and rc: "recover_usage_attempts (owner_alive e os) uid now db = Inr (n, db')"
  shows "workspace_root e = Inr (eng_root e)"
proof -
  obtain r j where r: "r \<in> set (usage_events db)" "ue_event_type r = RESERVE" "ue_attempt_id r = a"
      "json_loads (ue_price_snapshot_json r) = Inr j" "map_of j ''process_owner'' = Some (JStr (proc_owner t))"
    and t: "canonical_uuid_hex t" and "ledger_abs db a = Some s" "as_status s = ''reserved''"
    using assms(1) unfolding reserved_by_def by blast
  then have "status_of (attempt_states (event_rows db)) (ue_attempt_id r) = Some ''reserved''"
    by (simp add: status_of_states)
  with recover_rows_reads [OF rc [unfolded recover_usage_attempts_def Let_def] _ r(2)] r(1)
  obtain j' owner al where j': "json_loads (ue_price_snapshot_json r) = Inr j'" "snapshot_owner j' = Inr owner"
    and al: "owner_alive e os owner = Inr al"
    by (metis set_event_rows)
  with r(4,5) have "owner = Some (proc_owner t)" by (simp add: snapshot_owner_def)
  with al have "owner_alive e os (Some (proc_owner t)) = Inr al" by simp
  then show ?thesis
    using t by (auto simp: owner_alive_def starts_with_proc owner_token_proc workspace_root_def
        split: sum.splits option.splits if_splits)
qed

lemma recover_reserved:
  assumes "reserved_by t a s db" and "owner_lock_path (eng_root (proc_engine (le_process env))) t \<in> set (os_locked os)"
  shows "ledger_abs (snd (recover_interrupted_usage env os now db)) a = ledger_abs db a"
  unfolding recover_interrupted_usage_def
proof (rule transaction_invariant [where P = "\<lambda>d. ledger_abs d a = ledger_abs db a"])
  fix n db'
  assume rc: "recover_usage_attempts (owner_alive (proc_engine (le_process env)) os) (le_uuid env) now db = Inr (n, db')"
  have "ledger_inv db" using assms(1) by (simp add: reserved_by_def)
  from recovery_keeps_reserved [OF assms recover_usage_correct [OF rc this] refl recovery_root [OF assms(1) rc] refl]
  show "ledger_abs db' a = ledger_abs db a" .
qed simp

lemma reserve_reserved:
  assumes "reserved_by t a s db" and "owner_lock_path (eng_root (proc_engine (le_process env))) t \<in> set (os_locked os)"
  shows "ledger_abs (snd (snd (reserve env now rq os db))) a = ledger_abs db a"
proof (cases "reserve env now rq os db")
  case (fields r os' db')
  show ?thesis
  proof (cases r)
    case (Inl e)
    with fields show ?thesis by (auto dest: reserve_Inl)
  next
    case (Inr rsv)
    have inv: "ledger_inv db" and at: "ledger_abs db a \<noteq> None" using assms(1) by (simp_all add: reserved_by_def)
    obtain owner where own: "process_owner (le_process env) (le_owner_random env) os = Inr (owner, os')"
      using reserve_Inr [OF fields [unfolded Inr]] by blast
    then have rt: "workspace_root (proc_engine (le_process env)) = Inr (eng_root (proc_engine (le_process env)))"
      and sub: "set (os_locked os) \<subseteq> set (os_locked os')"
      by (auto elim!: process_owner_cases simp: workspace_root_def split: option.splits if_splits)
    show ?thesis
    proof (rule reserve_effect [OF inv fields [unfolded Inr]])
      fix db1 db2 projected
      assume d: "db1 = db \<or> db1 = clear_maintenance db"
        and rr: "recovery_result (owner_alive (proc_engine (le_process env)) os') (paid_call_leases db) now
          (usage_events db) db1 db2"
        and none: "ledger_abs db2 (rq_attempt_id rq) = None"
        and abs: "ledger_abs db' = (ledger_abs db2)(rq_attempt_id rq \<mapsto> reserved_state now rq projected)"
      from d have ev: "usage_events db1 = usage_events db" by (auto simp: clear_maintenance_def)
      have "owner_lock_path (eng_root (proc_engine (le_process env))) t \<in> set (os_locked os')"
        using assms(2) sub by blast
      from recovery_keeps_reserved [OF assms(1) this rr ledger_abs_cong [OF ev] rt ev]
      have "ledger_abs db2 a = ledger_abs db a" .
      with at none have "a \<noteq> rq_attempt_id rq" "ledger_abs db' a = ledger_abs db a" by (auto simp: abs)
      then show ?thesis using fields by simp
    qed
  qed
qed

lemma correct_reserved:
  assumes "reserved_by t a s db" and "owner_lock_path (eng_root (proc_engine (le_process env))) t \<in> set (os_locked os)"
  shows "ledger_abs (snd (correct_uncertain env os now a' actual reason i w db)) a = ledger_abs db a"
proof (cases "correct_uncertain env os now a' actual reason i w db")
  case (Pair r db')
  show ?thesis
  proof (cases r)
    case (Inl e)
    with Pair show ?thesis
      unfolding correct_uncertain_def by (auto dest: transaction_error_rollback split: if_splits decimal.splits)
  next
    case (Inr u)
    have inv: "ledger_inv db" and st: "ledger_abs db a = Some s" "as_status s = ''reserved''"
      using assms(1) by (simp_all add: reserved_by_def)
    obtain x where body: "correct_body (owner_alive (proc_engine (le_process env)) os)
        (le_uuid env) now a' x reason i w db = Inr ((), db')"
      using correct_uncertain_Inr Pair Inr by (metis old.unit.exhaust)
    then obtain n dbr where "recover_usage_attempts (owner_alive (proc_engine (le_process env)) os) (le_uuid env) now db
        = Inr (n, dbr)" unfolding correct_body_def by (auto split: sum.splits)
    note rt = recovery_root [OF assms(1) this]
    obtain db2 s' usd where rr: "recovery_result (owner_alive (proc_engine (le_process env)) os) (paid_call_leases db) now
          (usage_events db) db db2" and s': "ledger_abs db2 a' = Some s'" "as_status s' = ''uncertain''"
      and abs: "ledger_abs db' = (ledger_abs db2)(a' \<mapsto> s'\<lparr>as_status := ''settled'', as_amount := usd, as_cost_known := True\<rparr>)"
      using correct_effect [OF inv body] by metis
    from recovery_keeps_reserved [OF assms rr refl rt refl] have same: "ledger_abs db2 a = ledger_abs db a" .
    with s' st have "a' \<noteq> a" by auto
    with abs same Pair show ?thesis by simp
  qed
qed

lemma finish_reserved:
  assumes "ledger_inv db" and "ur_attempt_id rsv \<noteq> a"
  shows "ledger_abs (snd (finish_call t uid now rsv amount i w snap p q db)) a = ledger_abs db a"
  unfolding finish_call_transaction
proof (rule transaction_invariant [where P = "\<lambda>d. ledger_abs d a = ledger_abs db a"])
  fix u db'
  assume fin: "finish_body uid now rsv (if t = SETTLE then SETTLE else UNCERTAIN)
      (if t = SETTLE then amount else Dec (ur_reserved_usd rsv))
      (if t = SETTLE then i else None) (if t = SETTLE then w else None) snap p q db = Inr (u, db')"
  show "ledger_abs db' a = ledger_abs db a"
    by (rule finish_effect [OF assms(1) _ fin]) (use assms(2) in auto)
qed simp

lemma step_reserved:
  assumes "reserved_by t a s (snd st)" and "owner_lock_path rt t \<in> set (os_locked (fst st))"
    and "case op_engine op of None \<Rightarrow> True | Some e \<Rightarrow> eng_root e = rt" and "\<not> finishes a op"
  shows "reserved_by t a s (snd (ledger_step limit st op))"
proof (rule reserved_by_step [OF assms(1)])
  have inv: "ledger_inv (snd st)" using assms(1) by (simp add: reserved_by_def)
  then show "ledger_evolves (snd st) (snd (ledger_step limit st op))" by (rule ledger_step_evolves)
  obtain os db where st: "st = (os, db)" by (cases st)
  have queries: "snd (usage_summary_of env os now cap zone pruned db) = snd (recover_interrupted_usage env os now db)"
    "snd (unresolved_attempts env os now db) = snd (recover_interrupted_usage env os now db)" for env now cap zone pruned
    unfolding usage_summary_of_def unresolved_attempts_def by (auto simp: Let_def split: prod.splits sum.splits)
  show "ledger_abs (snd (ledger_step limit st op)) a = ledger_abs (snd st) a"
    using assms inv
    by (cases op) (auto simp: st queries intro: reserve_reserved recover_reserved correct_reserved finish_reserved)
qed

lemma run_reserved:
  "reserved_by t a s (snd st) \<Longrightarrow> runs_while_locked limit rt t a st ops \<Longrightarrow>
   reserved_by t a s (snd (run (ledger_step limit) st ops))"
proof (induction ops arbitrary: st)
  case (Cons op ops)
  then have "reserved_by t a s (snd (ledger_step limit st op))" by (auto intro: step_reserved)
  from Cons.IH [OF this] Cons.prems(2) show ?case by simp
qed simp

text \<open>
  C6: A live request is never taken away. After a reservation was admitted, let any sequence of ledger
  operations run, by any processes of the workspace and at any times, while other processes start, end
  and crash; as long as the operating system still holds the lock file of the reserving process (the
  other locks may go) and nobody finishes this attempt, it stays exactly as it was reserved, however long
  after its lease expired, and its concurrency slot stays taken.
\<close>

theorem live_reservation_kept:
  assumes "owners_inv os" and "ledger_inv db" and "reserve env now rq os db = (Inr rsv, os', db')"
    and "process_owner (le_process env) (le_owner_random env) os = Inr (proc_owner t, os')"
    and "runs_while_locked limit (eng_root (proc_engine (le_process env))) t (rq_attempt_id rq) (os', db') ops"
    and "run (ledger_step limit) (os', db') ops = (os'', db'')"
  shows "ledger_abs db'' (rq_attempt_id rq) = ledger_abs db' (rq_attempt_id rq) \<and>
    has_status db'' (rq_attempt_id rq) ''reserved'' \<and>
    rq_attempt_id rq \<in> pl_attempt_id ` set (paid_call_leases db'')"
proof -
  obtain projected where st: "ledger_abs db' (rq_attempt_id rq) = Some (reserved_state now rq projected)"
    and inv: "ledger_inv db'"
    by (rule reserve_effect [OF assms(2,3)]) auto
  obtain r j owner where r: "r \<in> set (usage_events db')" "ue_event_type r = RESERVE"
      "ue_attempt_id r = rq_attempt_id rq" "json_loads (ue_price_snapshot_json r) = Inr j"
      "map_of j ''process_owner'' = Some (JStr owner)"
    and "process_owner (le_process env) (le_owner_random env) os = Inr (owner, os')"
    using reserve_row [OF assms(3)] by blast
  then have "owner = proc_owner t" using assms(4) by simp
  have "canonical_uuid_hex t"
    using process_owner_running [OF assms(1,4)] by (auto simp: owner_running_def proc_owner_def)
  with st inv r \<open>owner = proc_owner t\<close> have "reserved_by t (rq_attempt_id rq) (reserved_state now rq projected) db'"
    unfolding reserved_by_def by auto
  with run_reserved [of _ _ _ "(os', db')", OF _ assms(5)] assms(6)
  have "reserved_by t (rq_attempt_id rq) (reserved_state now rq projected) db''" by simp
  then show ?thesis
    using st leases_reserved [of db'' "rq_attempt_id rq"] by (auto simp: reserved_by_def has_status_def)
qed

text \<open>The sample process stays; another one comes and crashes, and a day later a third one recovers.\<close>

definition crowd :: "ledger_op list" where
  "crowd =
     [OsChanges (sample_os\<lparr>os_locked := owner_lock_path ''/w'' (uuid_hex 1) # os_locked sample_os\<rparr>),
      OsChanges sample_os, Recover later_env (seconds 86400)]"

lemma sample_owner: "process_owner sample_process 0 idle_os = Inr (proc_owner (uuid_hex 0), sample_os)"
  by code_simp

lemma crowd_runs: "runs_while_locked 2 ''/w'' (uuid_hex 0) ''a1'' (sample_os, sample_db) crowd"
  by code_simp

theorem live_reservation_kept_witness:
  "''a1'' \<in> pl_attempt_id ` set (paid_call_leases (snd (run (ledger_step 2) (sample_os, sample_db) crowd)))"
proof -
  have "process_owner (le_process sample_env) (le_owner_random sample_env) idle_os =
      Inr (proc_owner (uuid_hex 0), sample_os)"
    by (simp add: sample_owner sample_env_def)
  from live_reservation_kept [OF idle_os_owners_inv ledger_inv_empty_db sample_reserve this _ prod.collapse [symmetric],
      of 2 crowd] crowd_runs
  show ?thesis by (simp add: sample_env_def sample_request_def sample_process_def)
qed

text \<open>
  C7: The ledger refines the attempt life cycle and is an audit trail. Over any sequence of
  operations by any processes, the events already stored are never changed or removed, the derived
  map moves only along the life cycle, an attempt once settled keeps its final amount, and an
  attempt keeps the operation and the month it was reserved for.
\<close>

theorem ledger_refines_lifecycle:
  assumes "ledger_inv db" and "run (ledger_step limit) (os, db) ops = (os', db')"
  shows "lifecycle\<^sup>*\<^sup>* (ledger_abs db) (ledger_abs db') \<and> prefix (usage_events db) (usage_events db') \<and>
    (\<forall>a s. ledger_abs db a = Some s \<and> as_status s = ''settled'' \<longrightarrow> ledger_abs db' a = Some s) \<and>
    (\<forall>a s. ledger_abs db a = Some s \<longrightarrow> (\<exists>s'. ledger_abs db' a = Some s' \<and>
       as_operation_id s' = as_operation_id s \<and> as_reserved_at s' = as_reserved_at s))"
proof -
  from run_evolves [of "(os, db)" limit ops] assms
  have lc: "lifecycle\<^sup>*\<^sup>* (ledger_abs db) (ledger_abs db')" and "\<exists>new. usage_events db' = usage_events db @ new"
    by (simp_all add: ledger_evolves_def)
  then show ?thesis
    using lifecycle_settled [OF lc] lifecycle_dom [OF lc] by (auto simp: prefix_def)
qed

theorem ledger_refines_lifecycle_witness:
  "lifecycle\<^sup>*\<^sup>* Map.empty (ledger_abs (snd (run (ledger_step 2) (idle_os, empty_db)
     [Reserve sample_env 0 sample_request, OsChanges idle_os, Recover later_env 9])))"
  using ledger_refines_lifecycle [OF ledger_inv_empty_db prod.collapse [symmetric], of 2 idle_os
      "[Reserve sample_env 0 sample_request, OsChanges idle_os, Recover later_env 9]"]
  by (simp only: ledger_abs_empty_db)

definition lease_bound :: "int \<Rightarrow> state_db \<Rightarrow> bool" where
  "lease_bound limit db \<longleftrightarrow> ledger_inv db \<and> int (length (paid_call_leases db)) \<le> max 0 limit"

lemma lease_bound_fewer:
  assumes "lease_bound limit db" and "ledger_inv db'"
    and "\<And>a. has_status db' a ''reserved'' \<Longrightarrow> has_status db a ''reserved''"
  shows "lease_bound limit db'"
  using assms lease_count [of db db'] by (auto simp: lease_bound_def)

lemma lease_bound_reserve:
  assumes "lease_bound limit db"
  shows "lease_bound limit (snd (snd (reserve env now (rq\<lparr>rq_max_concurrent := limit\<rparr>) os db)))"
proof (cases "reserve env now (rq\<lparr>rq_max_concurrent := limit\<rparr>) os db")
  case (fields r os' db')
  show ?thesis
  proof (cases r)
    case (Inl e)
    with fields assms show ?thesis by (auto dest: reserve_Inl)
  next
    case (Inr rsv)
    have "ledger_inv db" using assms by (simp add: lease_bound_def)
    then show ?thesis
      by (rule reserve_effect [OF _ fields [unfolded Inr]]) (simp add: fields lease_bound_def)
  qed
qed

lemma lease_bound_recover:
  assumes "lease_bound limit db"
  shows "lease_bound limit (snd (recover_interrupted_usage env os now db))"
  unfolding recover_interrupted_usage_def
proof (rule transaction_invariant [where P = "lease_bound limit"], rule assms)
  fix n db'
  have inv: "ledger_inv db" using assms by (simp add: lease_bound_def)
  assume "recover_usage_attempts (owner_alive (proc_engine (le_process env)) os) (le_uuid env) now db = Inr (n, db')"
  from recover_usage_correct [OF this inv] have "ledger_inv db'" "recovers db db'"
    by (simp_all add: recovery_result_def)
  then show "lease_bound limit db'"
    using lease_bound_fewer [OF assms] recovers_reserved by blast
qed

lemma lease_bound_finish:
  assumes "lease_bound limit db"
  shows "lease_bound limit (snd (finish_call t uid now rsv amount i w snap p q db))"
  unfolding finish_call_transaction
proof (rule transaction_invariant [where P = "lease_bound limit"], rule assms)
  fix u db'
  assume fin: "finish_body uid now rsv (if t = SETTLE then SETTLE else UNCERTAIN)
      (if t = SETTLE then amount else Dec (ur_reserved_usd rsv))
      (if t = SETTLE then i else None) (if t = SETTLE then w else None) snap p q db = Inr (u, db')"
  have inv: "ledger_inv db" using assms by (simp add: lease_bound_def)
  show "lease_bound limit db'"
  proof (rule finish_effect [OF inv _ fin])
    assume "ledger_inv db'" "paid_call_leases db' =
        delete_where (\<lambda>l. pl_attempt_id l = ur_attempt_id rsv) (paid_call_leases db)"
    moreover have "length (delete_where (\<lambda>l. pl_attempt_id l = ur_attempt_id rsv) (paid_call_leases db))
        \<le> length (paid_call_leases db)" by (simp add: delete_where_def)
    ultimately show ?thesis using assms by (simp add: lease_bound_def)
  qed simp
qed

lemma lease_bound_correct:
  assumes "lease_bound limit db"
  shows "lease_bound limit (snd (correct_uncertain env os now a actual reason i w db))"
proof (cases "fst (correct_uncertain env os now a actual reason i w db)")
  case (Inl e)
  then have "snd (correct_uncertain env os now a actual reason i w db) = db"
    unfolding correct_uncertain_def
    by (auto simp: transaction_def split: if_splits decimal.splits sum.splits prod.splits)
  with assms show ?thesis by simp
next
  case (Inr u)
  have inv: "ledger_inv db" using assms by (simp add: lease_bound_def)
  from Inr obtain db' where c: "correct_uncertain env os now a actual reason i w db = (Inr (), db')"
    by (metis old.unit.exhaust prod.collapse)
  then obtain x where "correct_body (owner_alive (proc_engine (le_process env)) os) (le_uuid env) now a x
      reason i w db = Inr ((), db')" by (blast elim: correct_uncertain_Inr)
  then obtain db2 where "recovers db db2" "ledger_inv db2" "ledger_inv db'" "paid_call_leases db' = paid_call_leases db2"
    using correct_effect [OF inv] unfolding recovery_result_def by metis
  then show ?thesis
    using lease_bound_fewer [OF assms, of db2] recovers_reserved [of db db2] c by (auto simp: lease_bound_def)
qed

lemma lease_bound_queries:
  assumes "lease_bound limit db"
  shows "lease_bound limit (snd (usage_summary_of env os now cap zone pruned db))"
    and "lease_bound limit (snd (unresolved_attempts env os now db))"
  using lease_bound_recover [OF assms, of env os now]
  unfolding usage_summary_of_def unresolved_attempts_def
  by (auto simp: Let_def split: prod.splits sum.splits)

lemmas operations_lease_bound =
  lease_bound_reserve lease_bound_finish lease_bound_correct lease_bound_recover lease_bound_queries

interpretation ledger_runs: invariant_system "ledger_step limit" "(os0, empty_db)" "\<lambda>s. lease_bound limit (snd s)"
  for limit os0
proof
  show "lease_bound limit (snd (os0, empty_db))" by (simp add: lease_bound_def) (simp add: empty_db_def)
  show "lease_bound limit (snd (ledger_step limit s x))" if "lease_bound limit (snd s)" for s x
    using that by (cases s; cases x) (simp_all add: operations_lease_bound)
qed

text \<open>
  C4: In every reachable state of a workspace the paid calls in flight are bounded. Whatever
  sequence of operations, crashes and restarts happened, the leases are exactly the attempts still
  reserved, and there are at most as many as the configured concurrency limit allows.
\<close>

theorem reachable_paid_calls_bounded:
  assumes "reachable_from (ledger_step limit) (os0, empty_db) (os, db)"
  shows "int (length (paid_call_leases db)) \<le> max 0 limit \<and>
    (\<forall>a. a \<in> pl_attempt_id ` set (paid_call_leases db) \<longleftrightarrow> has_status db a ''reserved'') \<and>
    int (card {a. has_status db a ''reserved''}) \<le> max 0 limit"
proof -
  from ledger_runs.reachable_inv [OF assms] have inv: "ledger_inv db"
    and len: "int (length (paid_call_leases db)) \<le> max 0 limit"
    by (simp_all add: lease_bound_def)
  have "{a. has_status db a ''reserved''} = pl_attempt_id ` set (paid_call_leases db)"
    using leases_reserved [OF inv] by blast
  moreover have "card (pl_attempt_id ` set (paid_call_leases db)) \<le> length (paid_call_leases db)"
    by (metis card_image_le card_length finite_set le_trans)
  ultimately show ?thesis using len leases_reserved [OF inv] by simp
qed

theorem reachable_paid_calls_bounded_witness:
  "int (card {a. has_status (snd (ledger_step 2 (idle_os, empty_db) (Reserve sample_env 0 sample_request))) a
     ''reserved''}) \<le> 2"
  using reachable_paid_calls_bounded [of 2 idle_os
      "fst (ledger_step 2 (idle_os, empty_db) (Reserve sample_env 0 sample_request))"
      "snd (ledger_step 2 (idle_os, empty_db) (Reserve sample_env 0 sample_request))"]
    reach_step [OF reach_init, of "ledger_step 2" "(idle_os, empty_db)" "Reserve sample_env 0 sample_request"]
  by simp

section \<open>The summary\<close>

lemma summary_Inr:
  assumes "usage_summary_of env os now cap zone pruned db = (Inr sm, db')"
  obtains n off where "recover_interrupted_usage env os now db = (Inr n, db')"
    "le_tzdb env zone = Some off"
    "summary_figures off now cap zone pruned (attempt_states (event_rows db')) = Inr sm"
  using assms unfolding usage_summary_of_def zone_offset_def
  by (auto split: prod.splits sum.splits option.splits)

lemma summary_remaining:
  assumes "summary_figures off now cap zone pruned states = Inr sm"
  shows "money (Dec cap) = Inr (us_cap_usd sm)"
    and "us_remaining_usd sm = max 0 (us_cap_usd sm - sum_states (in_budget off now) states)"
  using assms unfolding summary_figures_def Let_def summary_used
  by (auto split: sum.splits)

text \<open>
  C22: The summary tells the user what admission will do. Its remaining amount is the monthly cap it
  shows (the configured one, quantised) minus exactly the exposure that admission adds a projection to,
  and zero when the budget is exhausted or overspent. Under the same cap and zone, a reservation of known
  cost admitted at that moment is never larger than the remaining amount, and none is admitted at all
  when the exposure is already above the cap.
\<close>

theorem summary_matches_admission:
  assumes "ledger_inv db" and "usage_summary_of env os now cap zone pruned db = (Inr sm, db')"
  shows "\<exists>off. le_tzdb env zone = Some off \<and> money (Dec cap) = Inr (us_cap_usd sm) \<and>
    us_remaining_usd sm = max 0 (us_cap_usd sm - budget_used off now db) \<and>
    budget_used off now db' = budget_used off now db \<and>
    (\<forall>env' rq os1 rsv os2 db''.
       reserve env' now rq os1 db' = (Inr rsv, os2, db'') \<and> le_tzdb env' = le_tzdb env \<and>
       rq_timezone rq = zone \<and> rq_monthly_cap_usd rq = us_cap_usd sm \<and> rq_cost_known rq \<longrightarrow>
       ur_reserved_usd rsv \<le> us_remaining_usd sm \<and> budget_used off now db \<le> us_cap_usd sm)"
proof -
  obtain n off where rc: "recover_interrupted_usage env os now db = (Inr n, db')"
    and off: "le_tzdb env zone = Some off"
    and fig: "summary_figures off now cap zone pruned (attempt_states (event_rows db')) = Inr sm"
    using summary_Inr [OF assms(2)] by blast
  note rr = recover_interrupted_effect [OF assms(1) rc]
  then have rec: "recovers db db'" and inv': "ledger_inv db'" by (simp_all add: recovery_result_def)
  have same: "budget_used off now db' = budget_used off now db" by (rule recovers_figures(1) [OF rec])
  have cap: "money (Dec cap) = Inr (us_cap_usd sm)"
    and rem: "us_remaining_usd sm = max 0 (us_cap_usd sm - budget_used off now db)"
    using summary_remaining [OF fig] same
    by (simp_all add: sum_states_exposure budget_used_exposure)
  have "ur_reserved_usd rsv \<le> us_cap_usd sm - budget_used off now db \<and> 0 \<le> ur_reserved_usd rsv"
    if "reserve env' now rq os1 db' = (Inr rsv, os2, db'')" "le_tzdb env' = le_tzdb env" "rq_timezone rq = zone"
      "rq_monthly_cap_usd rq = us_cap_usd sm" "rq_cost_known rq" for env' rq os1 rsv os2 db''
  proof (rule reserve_effect [OF inv' that(1)])
    fix db2 projected off'
    assume rec2: "recovers db' db2" and "0 \<le> projected"
      and "rsv = \<lparr>ur_operation_id = rq_operation_id rq, ur_attempt_id = rq_attempt_id rq,
         ur_reserved_usd = projected, ur_cost_known = rq_cost_known rq\<rparr>"
      and "le_tzdb env' (rq_timezone rq) = Some off'"
      and "rq_cost_known rq \<Longrightarrow> budget_used off' now db2 + projected \<le> rq_monthly_cap_usd rq"
    moreover have "budget_used off now db2 = budget_used off now db"
      using recovers_figures(1) [OF rec2] same by simp
    ultimately show ?thesis using that(2-5) off by simp
  qed
  then show ?thesis using off cap rem same by fastforce
qed

theorem summary_matches_admission_witness:
  "\<exists>sm rsv. fst (usage_summary_of sample_env idle_os 0 10 ''UTC'' None empty_db) = Inr sm \<and>
     fst (reserve sample_env 0 sample_request idle_os empty_db) = Inr rsv \<and>
     ur_reserved_usd rsv \<le> us_remaining_usd sm"
proof -
  let ?s = "usage_summary_of sample_env idle_os 0 10 ''UTC'' None empty_db"
  have "isl (fst ?s) = False" and db: "snd ?s = empty_db" by code_simp+
  then obtain sm where sm: "?s = (Inr sm, empty_db)" by (metis isl_def prod.collapse sum.exhaust)
  have cap: "money (Dec 10) = Inr 10" by code_simp
  have rq: "rq_timezone sample_request = ''UTC''" "rq_monthly_cap_usd sample_request = 10" "rq_cost_known sample_request"
    by (simp_all add: sample_request_def)
  note facts = summary_matches_admission [OF ledger_inv_empty_db sm]
  have "us_cap_usd sm = 10" using facts cap by auto
  with rq have "rq_monthly_cap_usd sample_request = us_cap_usd sm" by simp
  with facts sample_reserve rq(1,3)
  have "ur_reserved_usd sample_reservation \<le> us_remaining_usd sm" by blast
  then show ?thesis by (simp add: sm sample_reserve)
qed

end
