(* ===== verification/Gateway_Claims.thy ===== *)
theory Gateway_Claims
  imports Gateway Ledger_Claims
begin

text \<open>
  The gateway's promises. \<open>outcome\<close> states what an action does to the world on its normal exit and
  on each exception, and the rules below compose it along the gateway's control flow. The locale
  \<open>reserved_attempt\<close> is the interface between the gateway and the ledger: what settling and marking
  an outstanding attempt do. Every statement about a request is proved inside it and used through its
  interpretation on the ledger.
\<close>

section \<open>Outcomes of actions\<close>

definition outcome ::
  "(world \<Rightarrow> bool) \<Rightarrow> 'a act \<Rightarrow> ('a \<Rightarrow> world \<Rightarrow> bool) \<Rightarrow> (error \<Rightarrow> world \<Rightarrow> bool) \<Rightarrow> bool" where
  "outcome P m Q E \<longleftrightarrow>
     (\<forall>w. P w \<longrightarrow> (case m w of (Inl e, w') \<Rightarrow> E e w' | (Inr x, w') \<Rightarrow> Q x w'))"

named_theorems outcome_rules \<open>rules for the control structures of actions\<close>

lemma outcome_bind [outcome_rules]:
  assumes "outcome P m R E" and "\<And>x. outcome (R x) (f x) Q E"
  shows "outcome P (bind_act m f) Q E"
  using assms unfolding outcome_def bind_act_def
  by (fastforce split: prod.splits sum.splits)

lemma outcome_lift [outcome_rules]:
  "(\<And>e w. r = Inl e \<Longrightarrow> P w \<Longrightarrow> E e w) \<Longrightarrow> (\<And>x w. r = Inr x \<Longrightarrow> P w \<Longrightarrow> Q x w) \<Longrightarrow>
   outcome P (lift_act r) Q E"
  unfolding outcome_def lift_act_def by (auto split: sum.splits)

lemma outcome_raise [outcome_rules]: "(\<And>w. P w \<Longrightarrow> E e w) \<Longrightarrow> outcome P (raise_act e) Q E"
  unfolding outcome_def raise_act_def by auto

lemma outcome_handle:
  assumes "outcome P m Q E'" and "outcome (\<lambda>w. \<exists>e. p e \<and> E' e w) h Q E"
    and "\<And>e w. E' e w \<Longrightarrow> \<not> p e \<Longrightarrow> E e w"
  shows "outcome P (handle_act m p h) Q E"
proof (unfold outcome_def, intro allI impI)
  fix w assume w: "P w"
  obtain r w' where m: "m w = (r, w')" by (cases "m w")
  show "case handle_act m p h w of (Inl e, w') \<Rightarrow> E e w' | (Inr x, w') \<Rightarrow> Q x w'"
  proof (cases r)
    case (Inl e)
    with assms(1) w m have e: "E' e w'" by (auto simp: outcome_def)
    with assms(2) have "p e \<Longrightarrow> (case h w' of (Inl e, w') \<Rightarrow> E e w' | (Inr x, w') \<Rightarrow> Q x w')"
      by (auto simp: outcome_def)
    with e assms(3) m Inl show ?thesis by (auto simp: handle_act_def)
  next
    case (Inr x)
    with assms(1) w m show ?thesis by (auto simp: outcome_def handle_act_def)
  qed
qed

lemma outcome_returns:
  "(\<And>w. P w \<Longrightarrow> \<exists>w'. m w = (Inr x, w') \<and> Q x w') \<Longrightarrow> outcome P m Q E"
  unfolding outcome_def by (metis (mono_tags, lifting) case_prod_conv sum.simps(6))

lemma outcome_weaken:
  assumes "outcome P m Q E" and "\<And>w. P' w \<Longrightarrow> P w" and "\<And>x w. Q x w \<Longrightarrow> Q' x w"
    and "\<And>e w. E e w \<Longrightarrow> E' e w"
  shows "outcome P' m Q' E'"
  using assms unfolding outcome_def by (fastforce split: prod.splits sum.splits)

lemma outcomeE:
  assumes "outcome P m Q E" and "P w" and "m w = (r, w')"
  shows "(\<exists>e. r = Inl e \<and> E e w') \<or> (\<exists>x. r = Inr x \<and> Q x w')"
  using assms unfolding outcome_def by (cases r) (fastforce split: prod.splits)+

lemma quantize8_zero [simp]: "quantize8 0 = Inr 0"
  using round_half_even_of_int [of 0] by (simp add: quantize8_Inr)

section \<open>The interface between the gateway and the ledger\<close>

text \<open>Exceptions that the gateway raises itself once it has finished the attempt.\<close>

definition final_error :: "error \<Rightarrow> bool" where
  "final_error e \<longleftrightarrow>
     (case e of ProviderExecutionError _ \<Rightarrow> True | OperationCancelled _ \<Rightarrow> True
      | OperationDeadlineExceeded _ \<Rightarrow> True | _ \<Rightarrow> False)"

lemma final_error_unhandled [simp]: "final_error e \<Longrightarrow> \<not> is_malformed e" "final_error e \<Longrightarrow> \<not> is_http_error e"
  by (cases e; simp add: final_error_def is_malformed_def is_http_error_def)+

lemma final_errors [simp]:
  "final_error no_usable_response" "final_error failed_after_submission" "final_error malformed_response"
  "final_error (rejected_request n)" "check_runtime rt = Inl e \<Longrightarrow> final_error e"
  by (auto simp: final_error_def no_usable_response_def failed_after_submission_def malformed_response_def
      rejected_request_def check_runtime_def raise_if_cancelled_def raise_if_expired_def
      split: if_splits option.splits sum.splits)

text \<open>
  The exceptions a call handles, by their classes: \<^verbatim>\<open>httpx.HTTPError\<close> around the request (and,
  when it streams, around the reading of the lines and the callback), and \<^verbatim>\<open>TypeError\<close>,
  \<^verbatim>\<open>ValueError\<close> and \<^verbatim>\<open>KeyError\<close> (with the program's subclasses of \<^verbatim>\<open>ValueError\<close> and \<^verbatim>\<open>KeyError\<close>)
  around everything between the request and the reading of the usage.
\<close>

fun network_failure :: "error \<Rightarrow> bool" where
  "network_failure (HttpError m) = True"
| "network_failure e = False"

fun decoding_failure :: "error \<Rightarrow> bool" where
  "decoding_failure (TypeError m) = True"
| "decoding_failure (ValueError m) = True"
| "decoding_failure (KeyError m) = True"
| "decoding_failure (ZoneInfoNotFound m) = True"
| "decoding_failure (LocalSessionError m) = True"
| "decoding_failure (LocalSettingsError m) = True"
| "decoding_failure e = False"

lemma network_failure_http: "network_failure e \<longleftrightarrow> is_http_error e"
  by (cases e) (auto simp: is_http_error_def)

lemma decoding_failure_malformed: "decoding_failure e \<longleftrightarrow> is_malformed e"
  by (cases e) (auto simp: is_malformed_def)

definition callback_raises :: "answer_call \<Rightarrow> error \<Rightarrow> bool" where
  "callback_raises c e \<longleftrightarrow> (\<exists>f s. ac_on_text_delta c = Some f \<and> f s = Some e)"

definition client_raises :: "answer_call \<Rightarrow> transport \<Rightarrow> error \<Rightarrow> bool" where
  "client_raises c tr e \<longleftrightarrow>
     (if stream_response c
      then tr_stream tr = Inl e \<or> (\<exists>status lines. tr_stream tr = Inr (status, lines) \<and> Inl e \<in> set lines)
      else tr_response tr = Inl e)"

text \<open>
  An exception that leaves the call without being handled: one of the classes that decoding a response
  raises beside the handled ones; one of the HTTP client that is neither a network failure nor a
  decoding failure; or one of the callback, handled by the same clauses where they enclose it (the
  synthetic provider calls it outside of both, a call that does not stream outside of the first).
\<close>

definition loose_error :: "answer_call \<Rightarrow> transport \<Rightarrow> error \<Rightarrow> bool" where
  "loose_error c tr e \<longleftrightarrow>
     (\<exists>m. e = AttributeError m \<or> e = OverflowError m) \<or>
     (client_raises c tr e \<and> \<not> network_failure e \<and> \<not> decoding_failure e) \<or>
     (callback_raises c e \<and>
        (pp_provider (ac_profile c) = ''fake'' \<or>
         \<not> decoding_failure e \<and> (stream_response c \<longrightarrow> \<not> network_failure e)))"

lemmas loose_decoding = is_malformed_def loose_error_def

lemma json_iter_error: "json_iter j = Inl e \<Longrightarrow> is_malformed e"
  by (auto simp: json_iter_def is_malformed_def split: json.splits)

lemma json_get_error: "json_get j k = Inl e \<Longrightarrow> loose_error c tr e"
  by (auto simp: json_get_def loose_error_def split: json.splits)

lemma get_list_error: "get_list j k = Inl e \<Longrightarrow> is_malformed e \<or> loose_error c tr e"
  by (auto simp: get_list_def split: sum.splits option.splits dest: json_iter_error json_get_error)

lemma text_pieces_error: "text_pieces xs = Inl e \<Longrightarrow> loose_error c tr e"
  by (induction xs) (auto split: sum.splits if_splits option.splits json.splits dest: json_get_error)

lemma output_pieces_error: "output_pieces xs = Inl e \<Longrightarrow> is_malformed e \<or> loose_error c tr e"
  by (induction xs) (auto split: sum.splits dest: get_list_error text_pieces_error)

lemma response_text_error: "response_text j = Inl e \<Longrightarrow> is_malformed e \<or> loose_error c tr e"
  unfolding response_text_def
  by (auto split: sum.splits list.splits dest: json_get_error get_list_error output_pieces_error
      simp: is_malformed_def)

lemma py_int_error: "py_int j = Inl e \<Longrightarrow> is_malformed e \<or> loose_error c tr e"
  by (auto simp: py_int_def int_literal_def Let_def is_malformed_def loose_error_def split: json.splits if_splits)

lemma read_usage_error: "read_usage j t n = Inl e \<Longrightarrow> is_malformed e \<or> loose_error c tr e"
  by (auto simp: read_usage_def usage_of_def usage_field_def split: sum.splits option.splits
      dest: json_get_error py_int_error)

lemma cost_quantised: "cost p i n = Inr (Some u) \<Longrightarrow> quantize8 u = Inr u"
  by (auto simp: cost_def Let_def split: option.splits sum.splits dest: quantize8_idem)

lemma quantize8_error_kind: "quantize8 x = Inl e \<Longrightarrow> e = InvalidOperation"
  by (auto simp: quantize8_def Let_def split: if_splits)

lemma cost_error: "cost p i n = Inl e \<Longrightarrow> e = InvalidOperation"
  by (auto simp: cost_def Let_def split: option.splits sum.splits dest: quantize8_error_kind)

text \<open>The gateway raised \<open>e\<close> itself, after it settled the attempt at zero or marked it uncertain.\<close>

definition finished_by ::
  "(rat option \<Rightarrow> int \<Rightarrow> int \<Rightarrow> world \<Rightarrow> bool) \<Rightarrow> (world \<Rightarrow> bool) \<Rightarrow> error \<Rightarrow> world \<Rightarrow> bool" where
  "finished_by settled uncertain e w \<longleftrightarrow> final_error e \<and> (uncertain w \<or> settled (Some 0) 0 0 w)"

locale reserved_attempt =
  fixes env :: gateway_env and rsv :: usage_reservation and c :: answer_call
    and opened :: "world \<Rightarrow> bool" and settled :: "rat option \<Rightarrow> int \<Rightarrow> int \<Rightarrow> world \<Rightarrow> bool"
    and uncertain :: "world \<Rightarrow> bool"
  assumes settle_law:
      "(case actual of None \<Rightarrow> True | Some u \<Rightarrow> quantize8 u = Inr u) \<Longrightarrow>
       outcome opened (gateway_settle env rsv (ac_profile c) actual i n)
         (\<lambda>_. settled actual i n) (\<lambda>_ _. False)"
    and uncertain_law:
      "outcome opened (gateway_uncertain env rsv (ac_profile c)) (\<lambda>_. uncertain) (\<lambda>_ _. False)"
    and opened_frame:
      "opened w \<Longrightarrow> opened (w\<lparr>w_sent := s\<rparr>)" "opened w \<Longrightarrow> opened (w\<lparr>w_deltas := d\<rparr>)"
begin

abbreviation closed :: "error \<Rightarrow> world \<Rightarrow> bool" where
  "closed \<equiv> finished_by settled uncertain"

lemma uncertain_then_closed: "final_error e \<Longrightarrow> outcome opened (uncertain_then env rsv (ac_profile c) e) Q closed"
  unfolding uncertain_then_def
  by (rule outcome_bind [where R = "\<lambda>_. uncertain", OF outcome_weaken [OF uncertain_law]])
    (auto intro!: outcome_raise simp: finished_by_def)

lemma check_reserved_closed: "outcome opened (check_reserved env rsv (ac_profile c) rt) (\<lambda>_. opened) closed"
  unfolding check_reserved_def
  by (cases "check_runtime rt") (auto intro!: outcome_lift uncertain_then_closed)

lemma check_status_closed: "outcome opened (check_status env rsv (ac_profile c) status) (\<lambda>_. opened) closed"
proof -
  have "outcome opened (bind_act (gateway_settle env rsv (ac_profile c) (Some 0) 0 0)
      (\<lambda>_. raise_act (rejected_request status))) (\<lambda>_. opened) closed"
    by (rule outcome_bind [where R = "\<lambda>_. settled (Some 0) 0 0",
          OF outcome_weaken [OF settle_law [where actual = "Some 0" and i = 0 and n = 0]]])
      (auto intro!: outcome_raise simp: finished_by_def)
  then show ?thesis
    by (auto simp: check_status_def intro!: uncertain_then_closed outcome_lift)
qed

text \<open>
  Errors of the request that leave the attempt open are handled ones or loose ones; \<open>h\<close> says whether
  the handler of the network failures is still to come.
\<close>

definition request_error :: "bool \<Rightarrow> transport \<Rightarrow> error \<Rightarrow> world \<Rightarrow> bool" where
  "request_error h tr e w \<longleftrightarrow> closed e w \<or> (opened w \<and> (is_malformed e \<or> loose_error c tr e \<or> h \<and> is_http_error e))"

lemma send_opened: "outcome opened (send_act rq) (\<lambda>_. opened) E"
  by (simp add: outcome_def send_act_def opened_frame)

lemma deliver_opened:
  "(stream_response c \<Longrightarrow> h) \<Longrightarrow>
   outcome opened (deliver (ac_on_text_delta c) t) (\<lambda>_. opened) (request_error h tr)"
  by (auto simp: outcome_def deliver_def request_error_def loose_error_def callback_raises_def opened_frame
      network_failure_http decoding_failure_malformed split: option.splits)

lemma decode_opened:
  "(\<And>e. r = Inl e \<Longrightarrow> is_malformed e \<or> loose_error c tr e) \<Longrightarrow>
   outcome opened (lift_act r) (\<lambda>_. opened) (request_error h tr)"
  by (auto intro!: outcome_lift simp: request_error_def)

lemma closed_request_error: "outcome opened m Q closed \<Longrightarrow> outcome opened m Q (request_error h tr)"
  by (erule outcome_weaken) (auto simp: request_error_def)

lemma raise_opened: "is_malformed e \<or> loose_error c tr e \<Longrightarrow> outcome opened (raise_act e) Q (request_error h tr)"
  by (auto intro!: outcome_raise simp: request_error_def)

lemma return_opened: "outcome opened (lift_act (Inr x)) (\<lambda>_. opened) E"
  by (rule outcome_lift) auto

lemma json_get_opened: "outcome opened (lift_act (json_get j k)) (\<lambda>_. opened) (request_error h tr)"
  by (rule decode_opened) (auto simp: json_get_def loose_error_def split: json.splits)

lemma delta_opened:
  "outcome opened
     (case d of
        Some (JStr s) \<Rightarrow>
          if s = [] then lift_act (Inr completed)
          else bind_act (deliver (ac_on_text_delta c) s) (\<lambda>_. lift_act (Inr completed))
      | _ \<Rightarrow> raise_act (ValueError m)) (\<lambda>_. opened) (request_error True tr)"
  by (cases d; (cases "the d")?)
    (auto intro: return_opened raise_opened outcome_bind [OF deliver_opened] simp: is_malformed_def)

lemma final_opened:
  "outcome opened
     (case r of Some (JObj fs) \<Rightarrow> lift_act (Inr (Some (JObj fs))) | _ \<Rightarrow> raise_act (ValueError m))
     (\<lambda>_. opened) (request_error h tr)"
  by (cases r; (cases "the r")?) (auto intro: return_opened raise_opened simp: is_malformed_def)

lemma stream_event_opened:
  "outcome opened (stream_event (ac_on_text_delta c) ev completed) (\<lambda>_. opened) (request_error True tr)"
proof -
  have unhashable: "outcome opened (raise_act (TypeError m)) Q (request_error True tr)" for m :: string and Q :: "json option \<Rightarrow> world \<Rightarrow> bool"
    by (rule raise_opened) (simp add: is_malformed_def)
  show ?thesis
    unfolding stream_event_def
    by (rule outcome_bind [OF json_get_opened], split if_split, intro conjI impI
        outcome_bind [OF json_get_opened delta_opened])
      (auto split: option.splits json.splits
        intro: unhashable return_opened outcome_bind [OF json_get_opened final_opened])
qed

lemma client_error: "client_raises c tr e \<Longrightarrow> h \<or> \<not> is_http_error e \<Longrightarrow> opened w \<Longrightarrow> request_error h tr e w"
  by (auto simp: request_error_def loose_error_def network_failure_http decoding_failure_malformed)

lemma answer_payload_opened:
  assumes "\<not> stream_response c"
  shows "outcome opened (answer_payload env rsv c url body tr) (\<lambda>_. opened) (request_error False tr)"
proof -
  have raised: "outcome opened (raise_act e) Q (request_error False tr)"
    if "tr_response tr = Inl e" "\<not> is_http_error e" for e and Q :: "json \<Rightarrow> world \<Rightarrow> bool"
    using that assms by (auto intro!: outcome_raise client_error simp: client_raises_def)
  have malformed: "outcome opened (raise_act (ValueError m)) Q (request_error False tr)"
    for m and Q :: "json \<Rightarrow> world \<Rightarrow> bool"
    by (rule raise_opened) (simp add: is_malformed_def)
  show ?thesis
    unfolding answer_payload_def Let_def
    by (rule outcome_bind [OF send_opened])
      (auto intro!: raised closed_request_error [OF uncertain_then_closed] return_opened malformed
          outcome_bind [OF closed_request_error [OF check_reserved_closed]]
          outcome_bind [OF closed_request_error [OF check_status_closed]]
        split: sum.splits prod.splits option.splits)
qed

lemma stream_lines_opened:
  "(\<And>e. Inl e \<in> set lines \<Longrightarrow> client_raises c tr e) \<Longrightarrow>
   outcome opened (stream_lines env rsv c lines completed) (\<lambda>_. opened) (request_error True tr)"
proof (induction lines arbitrary: completed)
  case Nil
  show ?case by (auto intro!: outcome_lift)
next
  case (Cons l lines)
  then have IH: "outcome opened (stream_lines env rsv c lines k) (\<lambda>_. opened) (request_error True tr)" for k
    by auto
  show ?case
  proof (cases l)
    case (Inl e)
    with Cons.prems show ?thesis by (auto intro!: outcome_raise client_error)
  next
    case (Inr q)
    obtain rt line where q: "q = (rt, line)" by (cases q)
    show ?thesis
      unfolding Inr q stream_lines.simps
      by (rule outcome_bind [OF closed_request_error [OF check_reserved_closed]])
        (auto intro!: IH outcome_bind [OF stream_event_opened] outcome_raise
          simp: request_error_def is_malformed_def split: sse_line.splits)
  qed
qed

lemma settle_and_return_accounts:
  "outcome opened (settle_and_return env rsv (ac_profile c) operation text i n)
     (\<lambda>ans w. settled (pa_cost_usd ans) (pa_input_tokens ans) (pa_output_tokens ans) w \<and>
        pa_operation_id ans = operation \<and> pa_attempt_id ans = ge_attempt_uuid env \<and>
        cost (ac_profile c) (pa_input_tokens ans) (pa_output_tokens ans) = Inr (pa_cost_usd ans))
     (\<lambda>e w. opened w \<and> e = InvalidOperation)"
proof (cases "cost (ac_profile c) i n")
  case (Inl e)
  then show ?thesis
    by (auto simp: settle_and_return_def outcome_def bind_act_def lift_act_def dest: cost_error)
next
  case (Inr actual)
  then have "outcome opened (gateway_settle env rsv (ac_profile c) actual i n)
      (\<lambda>_. settled actual i n) (\<lambda>_ _. False)"
    by (intro settle_law) (auto split: option.splits dest: cost_quantised)
  then show ?thesis
    using Inr
    by (fastforce simp: settle_and_return_def outcome_def bind_act_def lift_act_def answer_result_def
        split: prod.splits sum.splits)
qed

lemma streaming_opened:
  assumes "stream_response c"
  shows "outcome opened (streaming_answer_payload env rsv c url body tr) (\<lambda>_. opened) (request_error False tr)"
proof -
  have lines: "outcome opened
      (case tr_stream tr of Inl e \<Rightarrow> raise_act e
       | Inr (status, lines) \<Rightarrow> bind_act (check_status env rsv (ac_profile c) status)
           (\<lambda>_. stream_lines env rsv c lines None)) (\<lambda>_. opened) (request_error True tr)"
    using assms
    by (auto split: sum.splits simp: client_raises_def
        intro!: outcome_raise client_error outcome_bind [OF closed_request_error [OF check_status_closed]] stream_lines_opened)
  have http: "outcome opened
      (handle_act (bind_act (send_act rq) (\<lambda>_.
         case tr_stream tr of Inl e \<Rightarrow> raise_act e
         | Inr (status, lines) \<Rightarrow> bind_act (check_status env rsv (ac_profile c) status)
           (\<lambda>_. stream_lines env rsv c lines None)))
        is_http_error (uncertain_then env rsv (ac_profile c) no_usable_response))
      (\<lambda>_. opened) (request_error False tr)" for rq
    by (rule outcome_handle [OF outcome_bind [OF send_opened lines]])
      (auto simp: request_error_def finished_by_def
        intro!: outcome_weaken [OF closed_request_error [OF uncertain_then_closed]])
  show ?thesis
    unfolding streaming_answer_payload_def Let_def
    by (rule outcome_bind [OF http])
      (auto split: option.splits intro!: return_opened raise_opened simp: is_malformed_def)
qed

lemma bind_opened:
  "outcome opened m (\<lambda>_. opened) (request_error False tr) \<Longrightarrow> (\<And>x. outcome opened (f x) Q (request_error False tr)) \<Longrightarrow>
   outcome opened (bind_act m f) Q (request_error False tr)"
  by (rule outcome_bind)

lemma request_and_read_opened:
  "outcome opened (request_and_read env rsv c url itoks tr) (\<lambda>_. opened) (request_error False tr)"
  unfolding request_and_read_def Let_def
proof (rule bind_opened)
  show "outcome opened
      (if stream_response c then streaming_answer_payload env rsv c url (request_payload c (stream_response c)) tr
       else answer_payload env rsv c url (request_payload c (stream_response c)) tr)
      (\<lambda>_. opened) (request_error False tr)"
    by (simp add: streaming_opened answer_payload_opened)
next
  fix payload
  have tail: "outcome opened
      (bind_act (lift_act (response_text payload)) (\<lambda>text.
        bind_act (if stream_response c then lift_act (Inr ()) else deliver (ac_on_text_delta c) text) (\<lambda>_.
        bind_act (lift_act (read_usage payload text itoks)) (\<lambda>toks. lift_act (Inr (text, toks))))))
      (\<lambda>_. opened) (request_error False tr)"
    by (intro bind_opened return_opened decode_opened)
      (auto simp: return_opened response_text_error read_usage_error intro!: deliver_opened)
  show "outcome opened
      (bind_act (lift_act (json_get payload ''status'')) (\<lambda>status.
        if status = Some (JStr ''incomplete'') then raise_act (ValueError ''incomplete provider response'')
        else bind_act (lift_act (response_text payload)) (\<lambda>text.
          bind_act (if stream_response c then lift_act (Inr ()) else deliver (ac_on_text_delta c) text) (\<lambda>_.
          bind_act (lift_act (read_usage payload text itoks)) (\<lambda>toks. lift_act (Inr (text, toks)))))))
      (\<lambda>_. opened) (request_error False tr)"
    by (rule bind_opened [OF json_get_opened]) (auto intro: tail raise_opened simp: is_malformed_def)
qed

text \<open>Once the request is handled, an open attempt can only have met a loose exception.\<close>

lemma provider_call_accounts:
  "outcome opened (provider_call env rsv c operation url itoks tr)
     (\<lambda>ans w. settled (pa_cost_usd ans) (pa_input_tokens ans) (pa_output_tokens ans) w \<and>
        pa_operation_id ans = operation \<and> pa_attempt_id ans = ge_attempt_uuid env \<and>
        cost (ac_profile c) (pa_input_tokens ans) (pa_output_tokens ans) = Inr (pa_cost_usd ans))
     (\<lambda>e w. closed e w \<or> (opened w \<and> (loose_error c tr e \<or> e = InvalidOperation)))"
proof -
  have req: "outcome opened
      (handle_act (request_and_read env rsv c url itoks tr) is_malformed
         (uncertain_then env rsv (ac_profile c) malformed_response))
      (\<lambda>_. opened) (\<lambda>e w. closed e w \<or> (opened w \<and> (loose_error c tr e \<or> e = InvalidOperation)))"
    by (rule outcome_handle [OF request_and_read_opened])
      (auto simp: request_error_def finished_by_def intro!: outcome_weaken [OF uncertain_then_closed])
  show ?thesis
    unfolding provider_call_def
    by (rule outcome_bind [OF req])
      (auto split: prod.splits intro!: outcome_weaken [OF settle_and_return_accounts])
qed

lemma fake_answer_accounts:
  assumes "pp_provider (ac_profile c) = ''fake''"
  shows "outcome opened (fake_answer env rsv c operation itoks)
     (\<lambda>ans w. settled (pa_cost_usd ans) (pa_input_tokens ans) (pa_output_tokens ans) w \<and>
        pa_operation_id ans = operation \<and> pa_attempt_id ans = ge_attempt_uuid env \<and>
        cost (ac_profile c) (pa_input_tokens ans) (pa_output_tokens ans) = Inr (pa_cost_usd ans))
     (\<lambda>e w. opened w \<and> (loose_error c tr e \<or> e = InvalidOperation))"
proof -
  have "outcome opened (deliver (ac_on_text_delta c) t) (\<lambda>_. opened)
      (\<lambda>e w. opened w \<and> (loose_error c tr e \<or> e = InvalidOperation))" for t
    using assms
    by (auto simp: outcome_def deliver_def loose_error_def callback_raises_def opened_frame split: option.splits)
  from outcome_bind [OF this outcome_weaken [OF settle_and_return_accounts]] show ?thesis
    unfolding fake_answer_def Let_def by simp
qed

end

section \<open>The ledger as the provider of that interface\<close>

definition attempt_open :: "gateway_env \<Rightarrow> usage_reservation \<Rightarrow> world \<Rightarrow> bool" where
  "attempt_open env rsv w \<longleftrightarrow>
     ledger_inv (w_db w) \<and> has_status (w_db w) (ur_attempt_id rsv) ''reserved'' \<and>
     quantize8 (ur_reserved_usd rsv) = Inr (ur_reserved_usd rsv) \<and>
     ge_finish_uid env 0 \<notin> ue_id ` set (usage_events (w_db w))"

definition no_lease :: "string \<Rightarrow> state_db \<Rightarrow> bool" where
  "no_lease a db \<longleftrightarrow> a \<notin> pl_attempt_id ` set (paid_call_leases db)"

text \<open>The attempt is settled at exactly this amount and these token counts, and its lease is gone.\<close>

definition attempt_settled ::
  "provider_profile \<Rightarrow> string \<Rightarrow> rat option \<Rightarrow> int \<Rightarrow> int \<Rightarrow> world \<Rightarrow> bool" where
  "attempt_settled p a actual i n w \<longleftrightarrow>
     ledger_inv (w_db w) \<and> no_lease a (w_db w) \<and>
     (\<exists>s. ledger_abs (w_db w) a = Some s \<and> as_status s = ''settled'' \<and>
        as_amount s = (case actual of Some u \<Rightarrow> u | None \<Rightarrow> 0) \<and> as_cost_known s = pricing_verified p) \<and>
     (\<exists>ev\<in>set (usage_events (w_db w)). ue_attempt_id ev = a \<and> ue_event_type ev = SETTLE \<and>
        ue_input_tokens ev = Some i \<and> ue_output_tokens ev = Some n)"

text \<open>The attempt stays charged with the reserved amount until it is reconciled.\<close>

definition attempt_uncertain :: "provider_profile \<Rightarrow> usage_reservation \<Rightarrow> world \<Rightarrow> bool" where
  "attempt_uncertain p rsv w \<longleftrightarrow>
     ledger_inv (w_db w) \<and> no_lease (ur_attempt_id rsv) (w_db w) \<and>
     (\<exists>s. ledger_abs (w_db w) (ur_attempt_id rsv) = Some s \<and> as_status s = ''uncertain'' \<and>
        as_amount s = ur_reserved_usd rsv \<and> as_cost_known s = pricing_verified p)"

lemma snapshot_cost_known_price [simp]: "snapshot_cost_known (price_snapshot p) = pricing_verified p"
  by (simp add: snapshot_cost_known_def price_snapshot_def)

lemma finish_open:
  assumes w: "attempt_open env rsv w" and t: "t = SETTLE \<or> t = UNCERTAIN" and m: "money amount = Inr usd"
  shows "\<exists>db' s. transaction (finish_body (ge_finish_uid env) now rsv t amount i n (price_snapshot p) pr pid) (w_db w)
      = (Inr (), db') \<and> ledger_inv db' \<and> no_lease (ur_attempt_id rsv) db' \<and>
    ledger_abs db' (ur_attempt_id rsv) = Some s \<and>
    as_status s = finish_status t \<and> as_amount s = usd \<and> as_cost_known s = pricing_verified p \<and>
    finish_event (ge_finish_uid env 0) now rsv t usd i n (price_snapshot p) pr pid \<in> set (usage_events db')"
proof -
  from w have inv: "ledger_inv (w_db w)" and hs: "has_status (w_db w) (ur_attempt_id rsv) ''reserved''"
    and uid: "ge_finish_uid env 0 \<notin> ue_id ` set (usage_events (w_db w))"
    by (simp_all add: attempt_open_def)
  obtain db' where fin: "finish_body (ge_finish_uid env) now rsv t amount i n (price_snapshot p) pr pid (w_db w) = Inr ((), db')"
    using finish_returns [where uid = "ge_finish_uid env", OF hs m uid] by blast
  have ev: "finish_event (ge_finish_uid env 0) now rsv t usd i n (price_snapshot p) pr pid \<in> set (usage_events db')"
    using fin m by (auto simp: finish_body_reserved [OF hs] insert_event_def delete_lease_def split: if_splits)
  show ?thesis
    by (rule finish_effect [OF inv t fin])
      (use m ev in \<open>auto simp: transaction_commit fin no_lease_def\<close>)
qed

lemma settle_open:
  assumes w: "attempt_open env rsv w" and q: "case actual of None \<Rightarrow> True | Some u \<Rightarrow> quantize8 u = Inr u"
  shows "\<exists>w'. gateway_settle env rsv p actual i n w = (Inr (), w') \<and> attempt_settled p (ur_attempt_id rsv) actual i n w'"
proof -
  have m: "money (Dec (case actual of Some u \<Rightarrow> u | None \<Rightarrow> 0)) = Inr (case actual of Some u \<Rightarrow> u | None \<Rightarrow> 0)"
    using q by (auto simp: money_def split: option.splits)
  obtain db' s where tr: "transaction (finish_body (ge_finish_uid env) (ge_finish_at env) rsv SETTLE
        (Dec (case actual of Some u \<Rightarrow> u | None \<Rightarrow> 0)) (Some i) (Some n) (price_snapshot p)
        (pp_provider p) (pp_id p)) (w_db w) = (Inr (), db')"
    and st: "ledger_inv db'" "no_lease (ur_attempt_id rsv) db'" "ledger_abs db' (ur_attempt_id rsv) = Some s"
      "as_status s = finish_status SETTLE" "as_amount s = (case actual of Some u \<Rightarrow> u | None \<Rightarrow> 0)"
      "as_cost_known s = pricing_verified p"
    and ev: "finish_event (ge_finish_uid env 0) (ge_finish_at env) rsv SETTLE
        (case actual of Some u \<Rightarrow> u | None \<Rightarrow> 0) (Some i) (Some n) (price_snapshot p) (pp_provider p) (pp_id p)
        \<in> set (usage_events db')"
    using finish_open [OF w _ m, where t = SETTLE and now = "ge_finish_at env" and i = "Some i" and n = "Some n"
        and p = p and pr = "pp_provider p" and pid = "pp_id p"] by blast
  have "attempt_settled p (ur_attempt_id rsv) actual i n (w\<lparr>w_db := db'\<rparr>)"
    unfolding attempt_settled_def
    using st by (auto simp: finish_status_def finish_event_def intro!: bexI [OF _ ev])
  then show ?thesis by (simp add: gateway_settle_def db_act_def settle_def tr)
qed

lemma uncertain_open:
  assumes w: "attempt_open env rsv w"
  shows "\<exists>w'. gateway_uncertain env rsv p w = (Inr (), w') \<and> attempt_uncertain p rsv w'"
proof -
  have m: "money (Dec (ur_reserved_usd rsv)) = Inr (ur_reserved_usd rsv)"
    using w by (simp add: attempt_open_def money_def)
  obtain db' s where tr: "transaction (finish_body (ge_finish_uid env) (ge_finish_at env) rsv UNCERTAIN
        (Dec (ur_reserved_usd rsv)) None None (price_snapshot p) (pp_provider p) (pp_id p)) (w_db w) = (Inr (), db')"
    and st: "ledger_inv db'" "no_lease (ur_attempt_id rsv) db'" "ledger_abs db' (ur_attempt_id rsv) = Some s"
      "as_status s = finish_status UNCERTAIN" "as_amount s = ur_reserved_usd rsv"
      "as_cost_known s = pricing_verified p"
    using finish_open [OF w _ m, where t = UNCERTAIN and now = "ge_finish_at env" and i = None and n = None
        and p = p and pr = "pp_provider p" and pid = "pp_id p"] by blast
  have "attempt_uncertain p rsv (w\<lparr>w_db := db'\<rparr>)"
    unfolding attempt_uncertain_def using st by (simp add: finish_status_def)
  then show ?thesis by (simp add: gateway_uncertain_def db_act_def mark_uncertain_def tr)
qed

interpretation ledger_attempt: reserved_attempt env rsv c "attempt_open env rsv"
    "attempt_settled (ac_profile c) (ur_attempt_id rsv)" "attempt_uncertain (ac_profile c) rsv"
  for env rsv c
proof
  show "attempt_open env rsv w \<Longrightarrow> attempt_open env rsv (w\<lparr>w_sent := s\<rparr>)"
    "attempt_open env rsv w \<Longrightarrow> attempt_open env rsv (w\<lparr>w_deltas := d\<rparr>)" for w s d
    by (simp_all add: attempt_open_def)
next
  fix actual :: "rat option" and i n
  assume q: "case actual of None \<Rightarrow> True | Some u \<Rightarrow> quantize8 u = Inr u"
  show "outcome (attempt_open env rsv) (gateway_settle env rsv (ac_profile c) actual i n)
      (\<lambda>_. attempt_settled (ac_profile c) (ur_attempt_id rsv) actual i n) (\<lambda>_ _. False)"
    by (rule outcome_returns) (rule settle_open [OF _ q])
next
  show "outcome (attempt_open env rsv) (gateway_uncertain env rsv (ac_profile c))
      (\<lambda>_. attempt_uncertain (ac_profile c) rsv) (\<lambda>_ _. False)"
    by (rule outcome_returns) (rule uncertain_open)
qed

section \<open>Reserving through the gateway\<close>

definition projected_cost :: "answer_call \<Rightarrow> rat option result" where
  "projected_cost c =
     cost (ac_profile c) (input_token_bound (ac_prompt c) True)
       (case pp_max_output_tokens (ac_profile c) of Some n \<Rightarrow> n | None \<Rightarrow> 0)"

definition reserve_for :: "gateway_env \<Rightarrow> answer_call \<Rightarrow> rat option \<Rightarrow> usage_reservation act" where
  "reserve_for env c projected =
     gateway_reserve env (operation_of env c) (ac_profile c) projected (ac_allow_unknown_cost c) (ac_operation_cap_usd c)"

definition call_reservation :: "gateway_env \<Rightarrow> answer_call \<Rightarrow> rat option \<Rightarrow> usage_reservation" where
  "call_reservation env c projected =
     \<lparr>ur_operation_id = operation_of env c, ur_attempt_id = ge_attempt_uuid env,
      ur_reserved_usd = (case projected of Some u \<Rightarrow> u | None \<Rightarrow> 0),
      ur_cost_known = pricing_verified (ac_profile c)\<rparr>"

lemma call_reservation_simps [simp]:
  "ur_attempt_id (call_reservation env c u) = ge_attempt_uuid env"
  "ur_reserved_usd (call_reservation env c u) = (case u of Some x \<Rightarrow> x | None \<Rightarrow> 0)"
  by (simp_all add: call_reservation_def)

lemma gateway_reserve_Inr:
  assumes "reserve_for env c projected w = (Inr rsv, w1)"
  obtains caps os' db' where "collect_caps [ge_operation_cap env, ac_operation_cap_usd c] = Inr caps"
    "pricing_verified (ac_profile c) \<or> ac_allow_unknown_cost c"
    "reserve (ge_ledger env) (ge_reserve_at env)
       (reserve_request_of env (operation_of env c) (ac_profile c) projected caps) (w_os w) (w_db w) = (Inr rsv, os', db')"
    "w1 = w\<lparr>w_os := os', w_db := db'\<rparr>"
  using assms unfolding reserve_for_def gateway_reserve_def bind_act_def lift_act_def ledger_reserve_def raise_act_def
  by (auto split: sum.splits prod.splits if_splits)

lemma gateway_reserve_Inl:
  assumes "reserve_for env c projected w = (Inl e, w1)"
  shows "w_db w1 = w_db w" and "w_sent w1 = w_sent w"
  using assms unfolding reserve_for_def gateway_reserve_def bind_act_def lift_act_def ledger_reserve_def raise_act_def
  by (auto split: sum.splits prod.splits if_splits dest: reserve_Inl)

lemma gateway_reserve_open:
  assumes inv: "ledger_inv (w_db w)" and res: "reserve_for env c projected w = (Inr rsv, w1)"
    and q: "projected_cost c = Inr projected"
  shows "ledger_inv (w_db w1)" and "has_status (w_db w1) (ge_attempt_uuid env) ''reserved''"
    and "rsv = call_reservation env c projected" and "w_sent w1 = w_sent w" and "w_deltas w1 = w_deltas w"
    and "quantize8 (ur_reserved_usd rsv) = Inr (ur_reserved_usd rsv)"
proof -
  obtain caps os' db' where r: "reserve (ge_ledger env) (ge_reserve_at env)
       (reserve_request_of env (operation_of env c) (ac_profile c) projected caps) (w_os w) (w_db w) = (Inr rsv, os', db')"
    and w1: "w1 = w\<lparr>w_os := os', w_db := db'\<rparr>"
    using gateway_reserve_Inr [OF res] by metis
  have m: "quantize8 (case projected of Some u \<Rightarrow> u | None \<Rightarrow> 0) = Inr (case projected of Some u \<Rightarrow> u | None \<Rightarrow> 0)"
    using q by (auto simp: projected_cost_def split: option.splits dest: cost_quantised)
  show "ledger_inv (w_db w1)" "has_status (w_db w1) (ge_attempt_uuid env) ''reserved''"
      "rsv = call_reservation env c projected"
      "quantize8 (ur_reserved_usd rsv) = Inr (ur_reserved_usd rsv)"
    by (rule reserve_effect [OF inv r];
        use m in \<open>simp add: w1 has_status_def reserve_request_of_def call_reservation_def money_def\<close>)+
  show "w_sent w1 = w_sent w" "w_deltas w1 = w_deltas w" by (simp_all add: w1)
qed

text \<open>
  What other processes do between the reservation and its end: they keep the ledger well formed, they
  leave the attempt of a running process reserved, and they do not use the identifier of the event
  that will finish it.
\<close>

definition undisturbed :: "gateway_env \<Rightarrow> answer_call \<Rightarrow> world \<Rightarrow> bool" where
  "undisturbed env c w \<longleftrightarrow>
     (case projected_cost c of
        Inl _ \<Rightarrow> True
      | Inr u \<Rightarrow>
          (case reserve_for env c u w of
             (Inl _, _) \<Rightarrow> True
           | (Inr _, w1) \<Rightarrow>
               let db = ge_interference env (w_db w1) in
               ledger_inv db \<and> has_status db (ge_attempt_uuid env) ''reserved'' \<and>
               ge_finish_uid env 0 \<notin> ue_id ` set (usage_events db)))"

lemma answer_unfold:
  "answer env c tr w =
     (case admit env c of
        Inl e \<Rightarrow> (Inl e, w)
      | Inr endpoint \<Rightarrow>
     (case projected_cost c of
        Inl e \<Rightarrow> (Inl e, w)
      | Inr u \<Rightarrow>
     (case reserve_for env c u w of
        (Inl e, w1) \<Rightarrow> (Inl e, w1)
      | (Inr rsv, w1) \<Rightarrow>
          (case endpoint of
             None \<Rightarrow> fake_answer env rsv c (operation_of env c) (input_token_bound (ac_prompt c) True)
           | Some url \<Rightarrow> provider_call env rsv c (operation_of env c) url (input_token_bound (ac_prompt c) True) tr)
          (w1\<lparr>w_db := ge_interference env (w_db w1)\<rparr>))))"
  by (auto simp: answer_def Let_def bind_act_def lift_act_def interfere_def projected_cost_def reserve_for_def
      split: sum.splits prod.splits option.splits)

text \<open>
  C2: Every answer call accounts for its attempt. Either it is refused before anything is reserved or
  sent, and the ledger is untouched; or it returns an answer and the attempt is settled at exactly the
  cost and the token counts of that answer; or it raises one of its own errors with the attempt marked
  uncertain at the reserved amount or settled at zero. The only other exit is an exception that the
  gateway does not handle: one of the callback or of the HTTP client outside the classes and the places
  its clauses cover (a network failure is never one for the client), or an \<^verbatim>\<open>AttributeError\<close>,
  \<^verbatim>\<open>OverflowError\<close> or \<^verbatim>\<open>InvalidOperation\<close> met while decoding the response; then the attempt is
  still reserved.
\<close>

theorem answer_accounted:
  assumes inv: "ledger_inv (w_db w)" and calm: "undisturbed env c w"
    and call: "answer env c tr w = (r, w')"
  shows "(\<exists>e. r = Inl e \<and> w_db w' = w_db w \<and> w_sent w' = w_sent w) \<or>
    (\<exists>ans. r = Inr ans \<and>
       cost (ac_profile c) (pa_input_tokens ans) (pa_output_tokens ans) = Inr (pa_cost_usd ans) \<and>
       attempt_settled (ac_profile c) (ge_attempt_uuid env) (pa_cost_usd ans) (pa_input_tokens ans)
         (pa_output_tokens ans) w') \<or>
    (\<exists>e u. r = Inl e \<and> final_error e \<and> projected_cost c = Inr u \<and>
       (attempt_uncertain (ac_profile c) (call_reservation env c u) w' \<or>
        attempt_settled (ac_profile c) (ge_attempt_uuid env) (Some 0) 0 0 w')) \<or>
    (\<exists>e. r = Inl e \<and> (loose_error c tr e \<or> e = InvalidOperation) \<and>
       has_status (w_db w') (ge_attempt_uuid env) ''reserved'')"
proof (cases "\<exists>endpoint u rsv w1. admit env c = Inr endpoint \<and> projected_cost c = Inr u \<and>
    reserve_for env c u w = (Inr rsv, w1)")
  case False
  then have "\<exists>e. r = Inl e \<and> w_db w' = w_db w \<and> w_sent w' = w_sent w"
    using call by (auto simp: answer_unfold dest: gateway_reserve_Inl split: sum.splits prod.splits)
  then show ?thesis by blast
next
  case True
  then obtain endpoint u rsv w1 where ad: "admit env c = Inr endpoint" and u: "projected_cost c = Inr u"
    and res: "reserve_for env c u w = (Inr rsv, w1)" by blast
  note op = gateway_reserve_open [OF inv res u]
  let ?w = "w1\<lparr>w_db := ge_interference env (w_db w1)\<rparr>"
  have opened: "attempt_open env rsv ?w"
    using calm op(6) by (simp add: undisturbed_def attempt_open_def u res Let_def op(3))
  let ?Q = "\<lambda>ans w. attempt_settled (ac_profile c) (ur_attempt_id rsv) (pa_cost_usd ans) (pa_input_tokens ans)
      (pa_output_tokens ans) w \<and> pa_operation_id ans = operation_of env c \<and>
      pa_attempt_id ans = ge_attempt_uuid env \<and>
      cost (ac_profile c) (pa_input_tokens ans) (pa_output_tokens ans) = Inr (pa_cost_usd ans)"
  let ?E = "\<lambda>e w. finished_by (attempt_settled (ac_profile c) (ur_attempt_id rsv))
        (attempt_uncertain (ac_profile c) rsv) e w \<or>
      (attempt_open env rsv w \<and> (loose_error c tr e \<or> e = InvalidOperation))"
  have "pp_provider (ac_profile c) = ''fake''" if "endpoint = None"
    using ad that unfolding admit_def Let_def by (auto split: if_splits sum.splits option.splits)
  then have "outcome (attempt_open env rsv) (case endpoint of
       None \<Rightarrow> fake_answer env rsv c (operation_of env c) (input_token_bound (ac_prompt c) True)
     | Some url \<Rightarrow> provider_call env rsv c (operation_of env c) url (input_token_bound (ac_prompt c) True) tr) ?Q ?E"
    by (cases endpoint)
      (auto intro: outcome_weaken [OF ledger_attempt.fake_answer_accounts] ledger_attempt.provider_call_accounts)
  from outcomeE [OF this opened, of r w'] call
  have "(\<exists>e. r = Inl e \<and> ?E e w') \<or> (\<exists>x. r = Inr x \<and> ?Q x w')"
    by (simp add: answer_unfold ad u res)
  then show ?thesis
    using u op(3) by (auto simp: finished_by_def attempt_open_def)
qed

section \<open>A concrete call\<close>

definition luna :: provider_profile where
  "luna = snd (PROFILES ! 2)"

definition running :: runtime_reading where
  "running = \<lparr>rt_cancelled = False, rt_left = None\<rparr>"

definition gw_env :: gateway_env where
  "gw_env =
     \<lparr>ge_ledger = sample_env, ge_reserve_at = 0, ge_finish_at = 1, ge_finish_uid = (\<lambda>_. ''f0''),
      ge_network = \<lparr>np_offline = False, np_allow_loopback_services = False, np_allowed_loopback_urls = []\<rparr>,
      ge_per_operation_budget_usd = 1, ge_monthly_budget_usd = 10, ge_budget_timezone = ''UTC'',
      ge_max_concurrent_paid_requests = 2, ge_operation_cap = Some (Dec (1/2)), ge_operation_uuid = ''op'',
      ge_attempt_uuid = ''a1'', ge_interference = (\<lambda>db. db)\<rparr>"

definition gw_call :: answer_call where
  "gw_call =
     \<lparr>ac_prompt = ''Hi'', ac_profile = luna, ac_credential = Some ''key'', ac_operation_id = None,
      ac_before = running, ac_allow_unknown_cost = False, ac_on_text_delta = None,
      ac_operation_cap_usd = None\<rparr>"

definition gw_reply :: "json option \<Rightarrow> transport" where
  "gw_reply body =
     \<lparr>tr_submit = running, tr_response = Inr (200, running, body), tr_stream = Inl (HttpError [])\<rparr>"

definition gw_good :: transport where
  "gw_good = gw_reply (Some (JObj [(''output_text'', JStr ''Yes''),
     (''usage'', JObj [(''input_tokens'', JInt 10), (''output_tokens'', JInt 5)])]))"

definition gw_world :: world where
  "gw_world = \<lparr>w_os = idle_os, w_db = empty_db, w_sent = [], w_deltas = []\<rparr>"

lemma undisturbed_id:
  assumes "ledger_inv (w_db w)" and "ge_interference env = (\<lambda>db. db)"
    and "projected_cost c = Inr u"
    and "ge_finish_uid env 0 \<notin> set (map ue_id (usage_events (w_db (snd (reserve_for env c u w)))))"
  shows "undisturbed env c w"
  using assms gateway_reserve_open(1,2) [OF assms(1) _ assms(3)]
  by (auto simp: undisturbed_def Let_def split: sum.splits prod.splits)

lemma gw_projected: "projected_cost gw_call = Inr (Some (1453200 / 1000000000))"
  by code_simp

lemma gw_undisturbed: "undisturbed gw_env gw_call gw_world"
proof (rule undisturbed_id [OF _ _ gw_projected])
  show "ge_finish_uid gw_env 0 \<notin> set (map ue_id (usage_events (w_db
      (snd (reserve_for gw_env gw_call (Some (1453200 / 1000000000)) gw_world)))))"
    by code_simp
qed (simp_all add: gw_world_def gw_env_def)

lemma gw_inv [simp]: "ledger_inv (w_db gw_world)"
  by (simp add: gw_world_def)

definition is_answer :: "provider_answer result \<Rightarrow> int \<Rightarrow> int \<Rightarrow> bool" where
  "is_answer r i n \<longleftrightarrow>
     (case r of Inl _ \<Rightarrow> False | Inr ans \<Rightarrow> pa_input_tokens ans = i \<and> pa_output_tokens ans = n)"

lemma gw_answered: "is_answer (fst (answer gw_env gw_call gw_good gw_world)) 10 5"
  by code_simp

theorem answer_accounted_witness:
  "\<exists>ans. fst (answer gw_env gw_call gw_good gw_world) = Inr ans \<and>
     attempt_settled luna ''a1'' (pa_cost_usd ans) 10 5 (snd (answer gw_env gw_call gw_good gw_world))"
proof -
  obtain r w' where a: "answer gw_env gw_call gw_good gw_world = (r, w')" by fastforce
  with gw_answered obtain ans where "r = Inr ans" "pa_input_tokens ans = 10" "pa_output_tokens ans = 5"
    by (auto simp: is_answer_def split: sum.splits)
  with answer_accounted [OF gw_inv gw_undisturbed a] a show ?thesis
    by (auto simp: gw_call_def gw_env_def)
qed

section \<open>What leaves the machine\<close>

definition keeps_sent :: "'a act \<Rightarrow> bool" where
  "keeps_sent m \<longleftrightarrow> (\<forall>w. w_sent (snd (m w)) = w_sent w)"

named_theorems keeps_sent_rules \<open>actions that send nothing\<close>

lemma keeps_sent_basic [keeps_sent_rules]:
  "keeps_sent (lift_act r)" "keeps_sent (raise_act e)" "keeps_sent (db_act f)" "keeps_sent (deliver cb t)"
  by (auto simp: keeps_sent_def lift_act_def raise_act_def db_act_def deliver_def
      split: option.splits prod.splits)

lemma keeps_sent_bind [keeps_sent_rules]:
  assumes "keeps_sent m" and "\<And>x. keeps_sent (f x)"
  shows "keeps_sent (bind_act m f)"
  unfolding keeps_sent_def bind_act_def
proof
  fix w
  have "w_sent (snd (m w)) = w_sent w" "\<And>x w'. w_sent (snd (f x w')) = w_sent w'"
    using assms by (simp_all add: keeps_sent_def)
  then show "w_sent (snd (case m w of (Inl e, w') \<Rightarrow> (Inl e, w') | (Inr x, w') \<Rightarrow> f x w')) = w_sent w"
    by (cases "m w"; cases "fst (m w)") auto
qed

lemma keeps_sent_finish [keeps_sent_rules]:
  "keeps_sent (gateway_settle env rsv p u i n)" "keeps_sent (gateway_uncertain env rsv p)"
  "keeps_sent (uncertain_then env rsv p e)" "keeps_sent (settle_and_return env rsv p op t i n)"
  by (auto simp: gateway_settle_def gateway_uncertain_def uncertain_then_def settle_and_return_def
      intro!: keeps_sent_rules)

lemma keeps_sent_checks [keeps_sent_rules]:
  "keeps_sent (check_reserved env rsv p rt)" "keeps_sent (check_status env rsv p st)"
  by (auto simp: check_reserved_def check_status_def intro!: keeps_sent_rules split: sum.splits)

lemma keeps_sent_event [keeps_sent_rules]: "keeps_sent (stream_event cb ev k)"
  unfolding stream_event_def
  by (rule keeps_sent_bind, rule keeps_sent_rules)
    (auto intro!: keeps_sent_rules split: option.splits json.splits)

lemma keeps_sent_lines [keeps_sent_rules]: "keeps_sent (stream_lines env rsv c lines k)"
proof (induction lines arbitrary: k)
  case (Cons l lines)
  then show ?case
    by (cases l) (auto intro!: keeps_sent_rules split: sse_line.splits)
qed (simp add: keeps_sent_rules)

lemma keeps_sent_fake: "keeps_sent (fake_answer env rsv c op n)"
  by (auto simp: fake_answer_def Let_def intro!: keeps_sent_rules)

text \<open>An action that sends exactly the request \<open>rq\<close>.\<close>

definition sends_only :: "(http_request \<Rightarrow> bool) \<Rightarrow> 'a act \<Rightarrow> bool" where
  "sends_only ok m \<longleftrightarrow> (\<forall>w. \<exists>rq. ok rq \<and> w_sent (snd (m w)) = w_sent w @ [rq])"

lemma sends_onlyD: "sends_only ok m \<Longrightarrow> m w = (r, w') \<Longrightarrow> \<exists>rq. ok rq \<and> w_sent w' = w_sent w @ [rq]"
  unfolding sends_only_def by (metis snd_conv)

lemma keeps_sentD: "keeps_sent m \<Longrightarrow> m w = (r, w') \<Longrightarrow> w_sent w' = w_sent w"
  unfolding keeps_sent_def by (metis snd_conv)

lemma sends_only_send: "ok rq \<Longrightarrow> (\<And>x. keeps_sent (f x)) \<Longrightarrow> sends_only ok (bind_act (send_act rq) f)"
  by (auto simp: sends_only_def bind_act_def send_act_def keeps_sent_def)

lemma sends_only_bind:
  assumes "sends_only ok m" and "\<And>x. keeps_sent (f x)"
  shows "sends_only ok (bind_act m f)"
  unfolding sends_only_def bind_act_def
proof
  fix w
  obtain rq where "ok rq" "w_sent (snd (m w)) = w_sent w @ [rq]" using assms(1) by (auto simp: sends_only_def)
  moreover have "\<And>x w'. w_sent (snd (f x w')) = w_sent w'" using assms(2) by (simp add: keeps_sent_def)
  ultimately show "\<exists>rq. ok rq \<and> w_sent (snd (case m w of (Inl e, w') \<Rightarrow> (Inl e, w') | (Inr x, w') \<Rightarrow> f x w')) = w_sent w @ [rq]"
    by (cases "m w"; cases "fst (m w)") auto
qed

lemma sends_only_handle:
  assumes "sends_only ok m" and "keeps_sent h"
  shows "sends_only ok (handle_act m p h)"
  unfolding sends_only_def handle_act_def
proof
  fix w
  obtain rq where "ok rq" "w_sent (snd (m w)) = w_sent w @ [rq]" using assms(1) by (auto simp: sends_only_def)
  moreover have "\<And>w'. w_sent (snd (h w')) = w_sent w'" using assms(2) by (simp add: keeps_sent_def)
  ultimately show "\<exists>rq. ok rq \<and> w_sent (snd (case m w of (Inl e, w') \<Rightarrow> if p e then h w' else (Inl e, w')
      | (Inr x, w') \<Rightarrow> (Inr x, w'))) = w_sent w @ [rq]"
    by (cases "m w"; cases "fst (m w)") auto
qed

definition authorised_request :: "answer_call \<Rightarrow> string \<Rightarrow> http_request \<Rightarrow> bool" where
  "authorised_request c url rq \<longleftrightarrow>
     hr_url rq = url \<and> hr_authorization rq = bearer (ac_credential c) \<and>
     hr_body rq = request_payload c (stream_response c) \<and>
     (pp_request_timeout_seconds (ac_profile c) > 0 \<longrightarrow>
        0 < hr_timeout rq \<and> hr_timeout rq \<le> max (1 / 10) (pp_request_timeout_seconds (ac_profile c)))"

lemma timeout_bounds:
  "0 < pp_request_timeout_seconds p \<Longrightarrow>
     0 < request_timeout rt p \<and> request_timeout rt p \<le> max (1 / 10) (pp_request_timeout_seconds p)"
  by (auto simp: request_timeout_def split: option.splits)

lemma provider_call_sends: "sends_only (authorised_request c url) (provider_call env rsv c op url n tr)"
proof -
  have plain: "sends_only (authorised_request c url) (answer_payload env rsv c url (request_payload c (stream_response c)) tr)"
    unfolding answer_payload_def Let_def
    by (rule sends_only_send)
      (auto simp: authorised_request_def timeout_bounds intro!: keeps_sent_rules
        split: sum.splits prod.splits option.splits)
  have stream: "sends_only (authorised_request c url) (streaming_answer_payload env rsv c url (request_payload c (stream_response c)) tr)"
    unfolding streaming_answer_payload_def Let_def
    by (rule sends_only_bind, rule sends_only_handle, rule sends_only_send)
      (auto simp: authorised_request_def timeout_bounds intro!: keeps_sent_rules
        split: sum.splits prod.splits option.splits)
  have "sends_only (authorised_request c url) (request_and_read env rsv c url n tr)"
    unfolding request_and_read_def Let_def
    by (rule sends_only_bind)
      (use plain stream in \<open>auto intro!: keeps_sent_rules\<close>)
  then show ?thesis
    unfolding provider_call_def
    by (intro sends_only_bind sends_only_handle) (auto intro!: keeps_sent_rules split: prod.splits)
qed

lemma admit_endpoint:
  assumes "admit env c = Inr (Some url)"
  shows "pp_endpoint (ac_profile c) = Some url"
    and "assert_url_allowed (ge_network env) url ''answer provider'' = Inr ()"
    and "pp_provider (ac_profile c) \<noteq> ''fake''"
    and "\<exists>k. ac_credential c = Some k \<and> k \<noteq> []"
    and "check_runtime (ac_before c) = Inr ()"
    and "input_token_bound (ac_prompt c) True \<le> pp_max_input_tokens (ac_profile c)"
  using assms unfolding admit_def Let_def
  by (auto split: if_splits sum.splits option.splits)

text \<open>
  C9: At most one request leaves the machine per call, and only after its cost was reserved. It goes
  to the endpoint of the selected profile, which the network policy allows, carries the credential of
  the call, asks the provider not to store the response, and has a positive timeout of at most the
  profile's (or the tenth of a second a request is always given, should the profile's be shorter). A call whose reservation fails sends nothing.
\<close>

theorem answer_sends_once:
  assumes "answer env c tr w = (r, w')"
  shows "w_sent w' = w_sent w \<or>
    (\<exists>rq url u rsv w1 k. w_sent w' = w_sent w @ [rq] \<and> authorised_request c url rq \<and>
       map_of (hr_body rq) ''store'' = Some (JBool False) \<and>
       hr_authorization rq = ''Bearer '' @ k \<and> ac_credential c = Some k \<and>
       pp_endpoint (ac_profile c) = Some url \<and>
       assert_url_allowed (ge_network env) url ''answer provider'' = Inr () \<and>
       projected_cost c = Inr u \<and> reserve_for env c u w = (Inr rsv, w1))"
proof (cases "\<exists>url u rsv w1. admit env c = Inr (Some url) \<and> projected_cost c = Inr u \<and>
    reserve_for env c u w = (Inr rsv, w1)")
  case True
  then obtain url u rsv w1 where ad: "admit env c = Inr (Some url)" and u: "projected_cost c = Inr u"
    and res: "reserve_for env c u w = (Inr rsv, w1)" by blast
  have sent1: "w_sent w1 = w_sent w"
    by (rule gateway_reserve_Inr [OF res]) simp
  obtain k where k: "ac_credential c = Some k" using admit_endpoint(4) [OF ad] by blast
  have "provider_call env rsv c (operation_of env c) url (input_token_bound (ac_prompt c) True) tr
      (w1\<lparr>w_db := ge_interference env (w_db w1)\<rparr>) = (r, w')"
    using assms by (simp add: answer_unfold ad u res)
  then obtain rq where rq: "authorised_request c url rq" "w_sent w' = w_sent w @ [rq]"
    using sends_onlyD [OF provider_call_sends] sent1 by fastforce
  then have "map_of (hr_body rq) ''store'' = Some (JBool False)" "hr_authorization rq = ''Bearer '' @ k"
    by (simp_all add: authorised_request_def request_payload_def bearer_def k)
  with rq k u res admit_endpoint(1,2) [OF ad] show ?thesis by blast
next
  case False
  have "w_sent w' = w_sent w"
  proof (cases "\<exists>u rsv w1. admit env c = Inr None \<and> projected_cost c = Inr u \<and> reserve_for env c u w = (Inr rsv, w1)")
    case True
    then obtain u rsv w1 where ad: "admit env c = Inr None" and u: "projected_cost c = Inr u"
      and res: "reserve_for env c u w = (Inr rsv, w1)" by blast
    have "w_sent w1 = w_sent w" by (rule gateway_reserve_Inr [OF res]) simp
    moreover have "fake_answer env rsv c (operation_of env c) (input_token_bound (ac_prompt c) True)
        (w1\<lparr>w_db := ge_interference env (w_db w1)\<rparr>) = (r, w')"
      using assms by (simp add: answer_unfold ad u res)
    ultimately show ?thesis using keeps_sentD [OF keeps_sent_fake] by fastforce
  next
    case none: False
    have "\<exists>e. r = Inl e \<and> w_sent w' = w_sent w"
      using assms False none
      by (fastforce simp: answer_unfold dest: gateway_reserve_Inl split: sum.splits prod.splits option.splits)
    then show ?thesis by blast
  qed
  then show ?thesis by blast
qed

lemma gw_sent: "map hr_url (w_sent (snd (answer gw_env gw_call gw_good gw_world))) = [''https://api.openai.com/v1/responses'']"
  by code_simp

theorem answer_sends_once_witness:
  "\<exists>rq url u rsv w1 k. w_sent (snd (answer gw_env gw_call gw_good gw_world)) = [rq] \<and> authorised_request gw_call url rq \<and>
       map_of (hr_body rq) ''store'' = Some (JBool False) \<and>
       hr_authorization rq = ''Bearer '' @ k \<and> ac_credential gw_call = Some k \<and>
       projected_cost gw_call = Inr u \<and> reserve_for gw_env gw_call u gw_world = (Inr rsv, w1)"
proof -
  have "w_sent gw_world = []" by (simp add: gw_world_def)
  moreover have "w_sent (snd (answer gw_env gw_call gw_good gw_world)) \<noteq> []"
    using gw_sent by auto
  ultimately show ?thesis
    using answer_sends_once [of gw_env gw_call gw_good gw_world "fst (answer gw_env gw_call gw_good gw_world)"
        "snd (answer gw_env gw_call gw_good gw_world)"] by auto
qed

section \<open>Ceilings\<close>

lemma gw_reserved: "\<exists>rsv w1. reserve_for gw_env gw_call (Some (1453200 / 1000000000)) gw_world = (Inr rsv, w1)"
proof -
  have "\<not> isl (fst (reserve_for gw_env gw_call (Some (1453200 / 1000000000)) gw_world))" by code_simp
  then show ?thesis by (metis prod.collapse sum.collapse(2))
qed

lemma foldl_min_le: "foldl min (b :: rat) xs \<le> b \<and> (\<forall>x\<in>set xs. foldl min b xs \<le> x)"
proof (induction xs arbitrary: b)
  case (Cons x xs)
  from Cons [of "min b x"] show ?case by auto
qed simp

lemma collect_caps_Inr:
  "collect_caps cs = Inr xs \<Longrightarrow> Some d \<in> set cs \<Longrightarrow> \<exists>x. d = Dec x \<and> 0 \<le> x \<and> x \<in> set xs"
  by (induction cs arbitrary: xs rule: collect_caps.induct) (auto split: if_splits sum.splits)

text \<open>
  C10: An attempt reserved for a call is bounded by every ceiling that applies to it at once: the
  exposure of its operation, the new amount included, stays within the workspace's per-operation
  budget, within the ceiling of the gateway and within the ceiling of the call, whichever are set and
  known to be finite and nonnegative; the monthly exposure stays within the monthly budget. A profile
  without verified pricing is admitted only with the explicit approval.
\<close>

theorem gateway_reserve_capped:
  assumes inv: "ledger_inv (w_db w)" and u: "projected_cost c = Inr u"
    and res: "reserve_for env c u w = (Inr rsv, w1)"
  shows "(pricing_verified (ac_profile c) \<longrightarrow>
      operation_total (operation_of env c) (attempt_states (event_rows (w_db w))) + ur_reserved_usd rsv
        \<le> ge_per_operation_budget_usd env \<and>
      (\<forall>d. ge_operation_cap env = Some d \<or> ac_operation_cap_usd c = Some d \<longrightarrow>
         (\<exists>x\<ge>0. d = Dec x \<and>
           operation_total (operation_of env c) (attempt_states (event_rows (w_db w))) + ur_reserved_usd rsv \<le> x)) \<and>
      (\<exists>off. le_tzdb (ge_ledger env) (ge_budget_timezone env) = Some off \<and>
         budget_used off (ge_reserve_at env) (w_db w) + ur_reserved_usd rsv \<le> ge_monthly_budget_usd env)) \<and>
    (\<not> pricing_verified (ac_profile c) \<longrightarrow> ac_allow_unknown_cost c \<and> ur_reserved_usd rsv = 0)"
proof -
  obtain caps os' db' where caps: "collect_caps [ge_operation_cap env, ac_operation_cap_usd c] = Inr caps"
    and known: "pricing_verified (ac_profile c) \<or> ac_allow_unknown_cost c"
    and r: "reserve (ge_ledger env) (ge_reserve_at env)
       (reserve_request_of env (operation_of env c) (ac_profile c) u caps) (w_os w) (w_db w) = (Inr rsv, os', db')"
    using gateway_reserve_Inr [OF res] by metis
  let ?T = "operation_total (operation_of env c) (attempt_states (event_rows (w_db w)))"
  note sel = reserve_request_of_def
  have lim: "pricing_verified (ac_profile c) \<Longrightarrow> ?T + ur_reserved_usd rsv \<le> min_cap (ge_per_operation_budget_usd env) caps"
    and mon: "pricing_verified (ac_profile c) \<Longrightarrow> \<exists>off. le_tzdb (ge_ledger env) (ge_budget_timezone env) = Some off \<and>
         budget_used off (ge_reserve_at env) (w_db w) + ur_reserved_usd rsv \<le> ge_monthly_budget_usd env"
    by (rule reserve_effect [OF inv r]; simp add: sel recovers_figures)+
  have zero: "\<not> pricing_verified (ac_profile c) \<Longrightarrow> ur_reserved_usd rsv = 0"
    using r unfolding reserve_def
    by (auto simp: sel reserve_body_def Let_def transaction_def split: sum.splits prod.splits if_splits bool.splits option.splits)
  have each: "\<exists>x\<ge>0. d = Dec x \<and> ?T + ur_reserved_usd rsv \<le> x"
    if "pricing_verified (ac_profile c)" "ge_operation_cap env = Some d \<or> ac_operation_cap_usd c = Some d" for d
  proof -
    from that(2) obtain x where "d = Dec x" "0 \<le> x" "x \<in> set caps"
      using collect_caps_Inr [OF caps, of d] by auto
    with lim [OF that(1)] foldl_min_le [of "ge_per_operation_budget_usd env" caps] show ?thesis
      by (fastforce simp: min_cap_def)
  qed
  have "min_cap (ge_per_operation_budget_usd env) caps \<le> ge_per_operation_budget_usd env"
    using foldl_min_le by (simp add: min_cap_def)
  with lim mon each known zero show ?thesis by (meson order_trans)
qed

theorem gateway_reserve_capped_witness:
  "\<exists>rsv w1. reserve_for gw_env gw_call (Some (1453200 / 1000000000)) gw_world = (Inr rsv, w1) \<and>
     operation_total ''op'' [] + ur_reserved_usd rsv \<le> 1/2"
proof -
  obtain rsv w1 where r: "reserve_for gw_env gw_call (Some (1453200 / 1000000000)) gw_world = (Inr rsv, w1)"
    using gw_reserved by blast
  have "pricing_verified (ac_profile gw_call)" by code_simp
  moreover have "operation_of gw_env gw_call = ''op''" "ge_operation_cap gw_env = Some (Dec (1/2))"
    "attempt_states (event_rows (w_db gw_world)) = []"
    by (code_simp)+
  ultimately show ?thesis
    using gateway_reserve_capped [OF gw_inv gw_projected r] r by auto
qed

section \<open>Costs\<close>

lemma quantize8_mono: "x \<le> y \<Longrightarrow> quantize8 x = Inr a \<Longrightarrow> quantize8 y = Inr b \<Longrightarrow> a \<le> b"
proof -
  assume xy: "x \<le> y" and a: "quantize8 x = Inr a" and b: "quantize8 y = Inr b"
  have "x / quantum \<le> y / quantum" using xy by (simp add: divide_right_mono)
  then have "round_half_even (x / quantum) \<le> round_half_even (y / quantum)" by (rule round_half_even_mono)
  with a b show ?thesis by (simp only: quantize8_Inr) (simp add: mult_right_mono)
qed

definition nonneg_prices :: "provider_profile \<Rightarrow> bool" where
  "nonneg_prices p \<longleftrightarrow>
     (case pp_input_usd_per_million p of None \<Rightarrow> True | Some (_, r) \<Rightarrow> 0 \<le> r) \<and>
     (case pp_output_usd_per_million p of None \<Rightarrow> True | Some (_, r) \<Rightarrow> 0 \<le> r)"

text \<open>
  C37: The projected cost bounds the actual one: if the provider reports no more input tokens than the
  UTF-8 bytes of the prompt plus 64 and no more output tokens than the request allowed, the amount
  settled is at most the amount reserved, so that a settlement never raises the exposure above what
  the admission checked.
\<close>

theorem actual_cost_within_projection:
  assumes "nonneg_prices (ac_profile c)"
    and proj: "projected_cost c = Inr (Some u)"
    and i: "i \<le> max 1 (int (length (utf8 (ac_prompt c)))) + 64"
    and n: "pp_max_output_tokens (ac_profile c) = Some m" "n \<le> m"
    and act: "cost (ac_profile c) i n = Inr (Some v)"
  shows "v \<le> u"
proof -
  obtain t ir where ir: "pp_input_usd_per_million (ac_profile c) = Some (t, ir)"
    using proj by (auto simp: projected_cost_def cost_def split: option.splits)
  define orate where "orate = (case pp_output_usd_per_million (ac_profile c) of Some (_, r) \<Rightarrow> r | None \<Rightarrow> 0)"
  have pos: "0 \<le> ir" "0 \<le> orate"
    using assms(1) by (auto simp: nonneg_prices_def ir orate_def split: option.splits)
  have "of_int i * ir + of_int n * orate \<le> of_int (max 1 (int (length (utf8 (ac_prompt c)))) + 64) * ir + of_int m * orate"
    using pos i n by (intro add_mono mult_right_mono) (simp_all only: of_int_le_iff)
  then have le: "(of_int i * ir + of_int n * orate) / 1000000
      \<le> (of_int (max 1 (int (length (utf8 (ac_prompt c)))) + 64) * ir + of_int m * orate) / 1000000"
    by (simp add: divide_right_mono)
  have "quantize8 ((of_int i * ir + of_int n * orate) / 1000000) = Inr v"
    using act by (auto simp: cost_def Let_def ir orate_def split: sum.splits)
  moreover have "quantize8 ((of_int (max 1 (int (length (utf8 (ac_prompt c)))) + 64) * ir + of_int m * orate) / 1000000) = Inr u"
    using proj by (auto simp: projected_cost_def input_token_bound_def cost_def Let_def ir n orate_def split: sum.splits)
  ultimately show ?thesis using quantize8_mono [OF le] by blast
qed

theorem actual_cost_within_projection_witness:
  "cost (ac_profile gw_call) 10 5 = Inr (Some (8 / 1000000)) \<and> (8 / 1000000 :: rat) \<le> 1453200 / 1000000000"
proof -
  have "cost (ac_profile gw_call) 10 5 = Inr (Some (8 / 1000000))"
    "nonneg_prices (ac_profile gw_call)" "pp_max_output_tokens (ac_profile gw_call) = Some 1200"
    "(10 :: int) \<le> max 1 (int (length (utf8 (ac_prompt gw_call)))) + 64"
    by code_simp+
  then show ?thesis using actual_cost_within_projection [OF _ gw_projected, of 10 1200 5] by simp
qed

section \<open>A response that is not an object\<close>





end
