(* ===== verification/Rate_Limits.thy ===== *)
theory Rate_Limits
  imports Calendar Python_Values
begin

text \<open>
  Request limits of the hosted service (\<^verbatim>\<open>app/limits/service.py\<close>, \<^verbatim>\<open>app/limits/dependencies.py\<close>, the
  rows of \<^verbatim>\<open>app/models\<close>): sliding-window limits on logins, searches and answers, a daily token budget
  per user and a global monthly budget for the paid model, with a reservation per admitted answer.

  A database session commits where the source does; the functions return the committed state. The
  readings of the two clocks (\<^verbatim>\<open>utc_now\<close> of the process and the server's \<^verbatim>\<open>now()\<close> of the inserted rows)
  and the generated identifiers are in \<open>limit_env\<close>. The advisory locks serialise concurrent sessions
  and have no effect of their own in a single one.
\<close>

section \<open>Data\<close>

record rate_limit_event =
  re_id :: string
  re_scope :: string
  re_key :: string
  re_event_type :: string
  re_endpoint :: "string option"
  re_user_id :: "string option"
  re_ip_address :: "string option"
  re_metadata :: json_object
  re_created_at :: datetime

record user_quota =
  uq_user_id :: string
  uq_search_requests_per_hour :: "int option"
  uq_answer_requests_per_hour :: "int option"
  uq_daily_llm_token_budget :: "int option"
  uq_is_rate_limit_exempt :: bool

record answer_log =
  al_user_id :: "string option"
  al_llm_provider :: string
  al_prompt_token_count :: "int option"
  al_completion_token_count :: "int option"
  al_total_token_count :: "int option"
  al_created_at :: datetime

record limits_db =
  rate_limit_events :: "rate_limit_event list"
  user_quotas :: "user_quota list"
  answer_logs :: "answer_log list"

record rate_limit_decision =
  rd_allowed :: bool
  rd_limit :: int
  rd_remaining :: int
  rd_reset_at :: datetime
  rd_retry_after_seconds :: int
  rd_reason :: string

text \<open>The settings that the limits read; the prices and the budget are floats.\<close>

record limit_settings =
  st_rate_limit_enabled :: bool
  st_login_failed_limit :: int
  st_login_failed_window_seconds :: int
  st_search_requests_per_hour :: int
  st_answer_requests_per_hour :: int
  st_user_daily_llm_token_budget :: int
  st_monthly_llm_cost_budget_usd :: rat
  st_input_cost_per_million :: rat
  st_output_cost_per_million :: rat
  st_answer_max_context_chars :: int
  st_answer_max_output_tokens :: int
  st_rate_limit_event_retention_days :: int

record limit_env =
  lm_settings :: limit_settings
  lm_now :: datetime
  lm_db_now :: datetime
  lm_uuid :: "nat \<Rightarrow> string"

record web_request =
  wr_client_host :: "string option"
  wr_path :: string

text \<open>\<^verbatim>\<open>rate_limit_exception(decision)\<close>, or another exception.\<close>

datatype limit_failure = TooManyRequests rate_limit_decision | Raised error

section \<open>Events\<close>

definition client_ip_from_request :: "web_request \<Rightarrow> string" where
  "client_ip_from_request rq =
     (case wr_client_host rq of Some h \<Rightarrow> if h = [] then ''unknown'' else h | None \<Rightarrow> ''unknown'')"

definition add_event :: "rate_limit_event \<Rightarrow> limits_db \<Rightarrow> (limit_failure + limits_db)" where
  "add_event ev db =
     (if re_id ev \<in> set (map re_id (rate_limit_events db))
      then Inl (Raised (IntegrityError ''UNIQUE constraint failed: rate_limit_events.id''))
      else Inr (db\<lparr>rate_limit_events := rate_limit_events db @ [ev]\<rparr>))"

definition new_event ::
  "limit_env \<Rightarrow> nat \<Rightarrow> string \<Rightarrow> string \<Rightarrow> string \<Rightarrow> string option \<Rightarrow> string option \<Rightarrow> string option \<Rightarrow>
   json_object \<Rightarrow> rate_limit_event" where
  "new_event env n scope key etype endpoint user ip metadata =
     \<lparr>re_id = lm_uuid env n, re_scope = scope, re_key = key, re_event_type = etype, re_endpoint = endpoint,
      re_user_id = user, re_ip_address = ip, re_metadata = metadata, re_created_at = lm_db_now env\<rparr>"

definition matches :: "string \<Rightarrow> string \<Rightarrow> string \<Rightarrow> datetime \<Rightarrow> rate_limit_event \<Rightarrow> bool" where
  "matches scope key etype since ev \<longleftrightarrow>
     re_scope ev = scope \<and> re_key ev = key \<and> re_event_type ev = etype \<and> re_created_at ev \<ge> since"

definition count_events :: "limits_db \<Rightarrow> string \<Rightarrow> string \<Rightarrow> string \<Rightarrow> datetime \<Rightarrow> int" where
  "count_events db scope key etype since =
     int (length (filter (matches scope key etype since) (rate_limit_events db)))"

definition oldest_event_at :: "limits_db \<Rightarrow> string \<Rightarrow> string \<Rightarrow> string \<Rightarrow> datetime \<Rightarrow> datetime option" where
  "oldest_event_at db scope key etype since =
     (case sort (map re_created_at (filter (matches scope key etype since) (rate_limit_events db))) of
        [] \<Rightarrow> None | t # _ \<Rightarrow> Some t)"

definition check_window_limit ::
  "limit_env \<Rightarrow> limits_db \<Rightarrow> string \<Rightarrow> string \<Rightarrow> string \<Rightarrow> int \<Rightarrow> int \<Rightarrow> string \<Rightarrow> rate_limit_decision" where
  "check_window_limit env db scope key etype limit window reason =
     (let now = lm_now env; since = now - seconds window;
          count = count_events db scope key etype since;
          oldest = (case oldest_event_at db scope key etype since of Some t \<Rightarrow> t | None \<Rightarrow> now);
          reset = oldest + seconds window
      in \<lparr>rd_allowed = (count < limit), rd_limit = limit, rd_remaining = max 0 (limit - count),
          rd_reset_at = reset, rd_retry_after_seconds = max 1 (whole_seconds (reset - now)),
          rd_reason = (if reason = [] then etype else reason)\<rparr>)"

definition check_and_record_window_event ::
  "limit_env \<Rightarrow> nat \<Rightarrow> string \<Rightarrow> string \<Rightarrow> string \<Rightarrow> int \<Rightarrow> int \<Rightarrow> string \<Rightarrow> string option \<Rightarrow> string option \<Rightarrow>
   string option \<Rightarrow> json_object \<Rightarrow> limits_db \<Rightarrow> (limit_failure + rate_limit_decision) \<times> limits_db" where
  "check_and_record_window_event env n scope key etype limit window reason endpoint user ip metadata db =
     (let decision = check_window_limit env db scope key etype limit window reason in
      if \<not> rd_allowed decision then (Inr decision, db)
      else (case add_event (new_event env n scope key etype endpoint user ip metadata) db of
              Inl e \<Rightarrow> (Inl e, db)
            | Inr db' \<Rightarrow> (Inr decision, db')))"

definition record_event ::
  "limit_env \<Rightarrow> nat \<Rightarrow> string \<Rightarrow> string \<Rightarrow> string \<Rightarrow> string option \<Rightarrow> string option \<Rightarrow> string option \<Rightarrow>
   json_object \<Rightarrow> limits_db \<Rightarrow> (limit_failure + rate_limit_event) \<times> limits_db" where
  "record_event env n scope key etype endpoint user ip metadata db =
     (let ev = new_event env n scope key etype endpoint user ip metadata in
      case add_event ev db of Inl e \<Rightarrow> (Inl e, db) | Inr db' \<Rightarrow> (Inr ev, db'))"

section \<open>Budgets\<close>

definition outstanding_type :: "string \<Rightarrow> bool" where
  "outstanding_type t \<longleftrightarrow> t \<in> {''answer_cost_reserved'', ''answer_cost_uncertain''}"

definition outstanding_answer_reservations ::
  "limits_db \<Rightarrow> datetime \<Rightarrow> string option \<Rightarrow> rate_limit_event list" where
  "outstanding_answer_reservations db since user =
     filter (\<lambda>ev. outstanding_type (re_event_type ev) \<and> re_created_at ev \<ge> since \<and>
       (case user of None \<Rightarrow> True | Some u \<Rightarrow> re_user_id ev = Some u)) (rate_limit_events db)"

fun sum_metadata :: "string \<Rightarrow> rate_limit_event list \<Rightarrow> int result" where
  "sum_metadata k [] = Inr 0"
| "sum_metadata k (ev # evs) =
     (case (case map_of (re_metadata ev) k of None \<Rightarrow> Inr 0 | Some v \<Rightarrow> py_int v) of
        Inl e \<Rightarrow> Inl e
      | Inr n \<Rightarrow> (case sum_metadata k evs of Inl e \<Rightarrow> Inl e | Inr m \<Rightarrow> Inr (n + m)))"

definition log_tokens :: "limits_db \<Rightarrow> string \<Rightarrow> datetime \<Rightarrow> int" where
  "log_tokens db user since =
     sum_list (map (\<lambda>l. case al_total_token_count l of Some n \<Rightarrow> n | None \<Rightarrow> 0)
       (filter (\<lambda>l. al_user_id l = Some user \<and> al_created_at l \<ge> since) (answer_logs db)))"

definition daily_tokens_used :: "limits_db \<Rightarrow> string \<Rightarrow> datetime \<Rightarrow> int result" where
  "daily_tokens_used db user since =
     (case sum_metadata ''tokens'' (outstanding_answer_reservations db since (Some user)) of
        Inl e \<Rightarrow> Inl e
      | Inr n \<Rightarrow> Inr (log_tokens db user since + n))"

definition check_daily_token_budget ::
  "limit_env \<Rightarrow> limits_db \<Rightarrow> string \<Rightarrow> int \<Rightarrow> int \<Rightarrow> rate_limit_decision result" where
  "check_daily_token_budget env db user requested budget =
     (let now = lm_now env; start = day_start now in
      case daily_tokens_used db user start of
        Inl e \<Rightarrow> Inl e
      | Inr used \<Rightarrow>
          (let remaining = max 0 (budget - used); reset = start + days 1 in
           Inr \<lparr>rd_allowed = (remaining \<ge> requested), rd_limit = budget, rd_remaining = remaining,
                rd_reset_at = reset, rd_retry_after_seconds = max 1 (whole_seconds (reset - now)),
                rd_reason = ''daily_llm_token_budget''\<rparr>))"

definition answer_cost_microdollars :: "limit_settings \<Rightarrow> int \<Rightarrow> int \<Rightarrow> int" where
  "answer_cost_microdollars st prompt completion =
     (let cost_usd = fdiv (fadd (fmul (of_int prompt) (st_input_cost_per_million st))
                               (fmul (of_int completion) (st_output_cost_per_million st))) 1000000
      in \<lceil>fmul cost_usd 1000000\<rceil>)"

definition estimate_answer_cost_microdollars :: "limit_settings \<Rightarrow> int" where
  "estimate_answer_cost_microdollars st =
     answer_cost_microdollars st (st_answer_max_context_chars st div 4) (st_answer_max_output_tokens st)"

definition estimate_answer_tokens :: "limit_settings \<Rightarrow> int" where
  "estimate_answer_tokens st = st_answer_max_context_chars st div 4 + st_answer_max_output_tokens st"

definition log_cost :: "limit_settings \<Rightarrow> limits_db \<Rightarrow> datetime \<Rightarrow> int" where
  "log_cost st db since =
     sum_list (map (\<lambda>l. answer_cost_microdollars st
         (case al_prompt_token_count l of Some n \<Rightarrow> n | None \<Rightarrow> 0)
         (case al_completion_token_count l of Some n \<Rightarrow> n | None \<Rightarrow> 0))
       (filter (\<lambda>l. al_created_at l \<ge> since \<and> al_llm_provider l \<noteq> ''fake'') (answer_logs db)))"

definition monthly_cost_used :: "limit_settings \<Rightarrow> limits_db \<Rightarrow> datetime \<Rightarrow> int result" where
  "monthly_cost_used st db since =
     (case sum_metadata ''microdollars'' (outstanding_answer_reservations db since None) of
        Inl e \<Rightarrow> Inl e
      | Inr n \<Rightarrow> Inr (log_cost st db since + n))"

definition monthly_budget :: "limit_settings \<Rightarrow> int" where
  "monthly_budget st = round_half_even (fmul (st_monthly_llm_cost_budget_usd st) 1000000)"

definition check_monthly_llm_cost_budget :: "limit_env \<Rightarrow> limits_db \<Rightarrow> rate_limit_decision result" where
  "check_monthly_llm_cost_budget env db =
     (let st = lm_settings env; now = lm_now env in
      case monthly_cost_used st db (month_start now) of
        Inl e \<Rightarrow> Inl e
      | Inr used \<Rightarrow>
          (let budget = monthly_budget st; remaining = max 0 (budget - used); reset = next_month_start now in
           Inr \<lparr>rd_allowed = (remaining \<ge> estimate_answer_cost_microdollars st), rd_limit = budget,
                rd_remaining = remaining, rd_reset_at = reset,
                rd_retry_after_seconds = max 1 (whole_seconds (reset - now)),
                rd_reason = ''monthly_llm_cost_budget''\<rparr>))"

definition reserve_answer_usage ::
  "limit_env \<Rightarrow> nat \<Rightarrow> string \<Rightarrow> int \<Rightarrow> limits_db \<Rightarrow> (limit_failure + limits_db)" where
  "reserve_answer_usage env n user tokens db =
     add_event (new_event env n ''user'' user ''answer_cost_reserved'' (Some ''/answer'') (Some user) None
       [(''tokens'', JInt tokens),
        (''microdollars'', JInt (estimate_answer_cost_microdollars (lm_settings env)))]) db"

definition finish_answer_usage :: "string option \<Rightarrow> bool \<Rightarrow> limits_db \<Rightarrow> limits_db" where
  "finish_answer_usage rid completed db =
     (case rid of
        None \<Rightarrow> db
      | Some i \<Rightarrow>
          db\<lparr>rate_limit_events :=
            update_where (\<lambda>ev. re_id ev = i)
              (\<lambda>ev. ev\<lparr>re_event_type := if completed then ''answer_cost_settled'' else ''answer_cost_uncertain''\<rparr>)
              (rate_limit_events db)\<rparr>)"

section \<open>Quotas\<close>

definition get_user_quota :: "limits_db \<Rightarrow> string \<Rightarrow> user_quota option" where
  "get_user_quota db user = select_first (\<lambda>q. uq_user_id q = user) (user_quotas db)"

definition search_limit_for_user :: "limit_settings \<Rightarrow> limits_db \<Rightarrow> string \<Rightarrow> int" where
  "search_limit_for_user st db user =
     (case get_user_quota db user of
        None \<Rightarrow> st_search_requests_per_hour st
      | Some q \<Rightarrow> (case uq_search_requests_per_hour q of Some n \<Rightarrow> n | None \<Rightarrow> st_search_requests_per_hour st))"

definition answer_limit_for_user :: "limit_settings \<Rightarrow> limits_db \<Rightarrow> string \<Rightarrow> int" where
  "answer_limit_for_user st db user =
     (case get_user_quota db user of
        None \<Rightarrow> st_answer_requests_per_hour st
      | Some q \<Rightarrow> (case uq_answer_requests_per_hour q of Some n \<Rightarrow> n | None \<Rightarrow> st_answer_requests_per_hour st))"

definition token_budget_for_user :: "limit_settings \<Rightarrow> limits_db \<Rightarrow> string \<Rightarrow> int" where
  "token_budget_for_user st db user =
     (case get_user_quota db user of
        None \<Rightarrow> st_user_daily_llm_token_budget st
      | Some q \<Rightarrow> (case uq_daily_llm_token_budget q of Some n \<Rightarrow> n | None \<Rightarrow> st_user_daily_llm_token_budget st))"

definition user_is_exempt :: "limits_db \<Rightarrow> string \<Rightarrow> bool" where
  "user_is_exempt db user \<longleftrightarrow>
     (case get_user_quota db user of None \<Rightarrow> False | Some q \<Rightarrow> uq_is_rate_limit_exempt q)"

section \<open>Maintenance of the tables\<close>

definition prune_old_events :: "limit_env \<Rightarrow> int option \<Rightarrow> limits_db \<Rightarrow> nat \<times> limits_db" where
  "prune_old_events env retention db =
     (let n = (case retention of Some d \<Rightarrow> if d = 0 then st_rate_limit_event_retention_days (lm_settings env) else d
               | None \<Rightarrow> st_rate_limit_event_retention_days (lm_settings env));
          cutoff = lm_now env - days n;
          old = (\<lambda>ev. re_created_at ev < cutoff \<and> \<not> outstanding_type (re_event_type ev))
      in (rowcount old (rate_limit_events db),
          db\<lparr>rate_limit_events := delete_where old (rate_limit_events db)\<rparr>))"

definition reset_user_limit_state :: "limit_env \<Rightarrow> string \<Rightarrow> limits_db \<Rightarrow> (nat \<times> nat) \<times> limits_db" where
  "reset_user_limit_state env user db =
     (let start = day_start (lm_now env);
          mine = (\<lambda>ev. re_user_id ev = Some user);
          today = (\<lambda>l. al_user_id l = Some user \<and> al_created_at l \<ge> start)
      in ((rowcount mine (rate_limit_events db), rowcount today (answer_logs db)),
          db\<lparr>rate_limit_events := delete_where mine (rate_limit_events db),
             answer_logs := delete_where today (answer_logs db)\<rparr>))"

section \<open>The request handlers' guards\<close>

text \<open>A rejection is recorded and committed before the 429 response is raised.\<close>

definition reject ::
  "limit_env \<Rightarrow> nat \<Rightarrow> string \<Rightarrow> string \<Rightarrow> string \<Rightarrow> string option \<Rightarrow> string \<Rightarrow> rate_limit_decision \<Rightarrow> limits_db \<Rightarrow>
   (limit_failure + 'a) \<times> limits_db" where
  "reject env n scope key endpoint user ip decision db =
     (case record_event env n scope key ''request_rejected'' (Some endpoint) user (Some ip)
             [(''reason'', JStr (rd_reason decision))] db of
        (Inl e, db') \<Rightarrow> (Inl e, db')
      | (Inr _, db') \<Rightarrow> (Inl (TooManyRequests decision), db'))"

definition enforce_login_limit :: "limit_env \<Rightarrow> web_request \<Rightarrow> limits_db \<Rightarrow> (limit_failure + unit) \<times> limits_db" where
  "enforce_login_limit env rq db =
     (let st = lm_settings env; ip = client_ip_from_request rq in
      if \<not> st_rate_limit_enabled st then (Inr (), db)
      else (let decision = check_window_limit env db ''ip'' ip ''login_failed'' (st_login_failed_limit st)
                  (st_login_failed_window_seconds st) ''login_failed''
            in if \<not> rd_allowed decision then reject env 0 ''ip'' ip ''/auth/login'' None ip decision db
               else (Inr (), db)))"

definition record_failed_login :: "limit_env \<Rightarrow> web_request \<Rightarrow> limits_db \<Rightarrow> (limit_failure + unit) \<times> limits_db" where
  "record_failed_login env rq db =
     (let st = lm_settings env; ip = client_ip_from_request rq in
      if \<not> st_rate_limit_enabled st then (Inr (), db)
      else (case check_and_record_window_event env 0 ''ip'' ip ''login_failed'' (st_login_failed_limit st)
                   (st_login_failed_window_seconds st) ''login_failed'' (Some ''/auth/login'') None (Some ip) [] db of
              (Inl e, db') \<Rightarrow> (Inl e, db')
            | (Inr decision, db') \<Rightarrow>
                if \<not> rd_allowed decision then (Inl (TooManyRequests decision), db') else (Inr (), db')))"

definition enforce_search_limit ::
  "limit_env \<Rightarrow> web_request \<Rightarrow> string \<Rightarrow> limits_db \<Rightarrow> (limit_failure + unit) \<times> limits_db" where
  "enforce_search_limit env rq user db =
     (let st = lm_settings env; ip = client_ip_from_request rq in
      if \<not> st_rate_limit_enabled st \<or> user_is_exempt db user then (Inr (), db)
      else (case check_and_record_window_event env 0 ''user'' user ''search_request''
                   (search_limit_for_user st db user) 3600 ''search_requests_per_hour''
                   (Some ''/search'') (Some user) (Some ip) [] db of
              (Inl e, db') \<Rightarrow> (Inl e, db')
            | (Inr decision, db') \<Rightarrow>
                if \<not> rd_allowed decision
                then reject env 1 ''user'' user (wr_path rq) (Some user) ip decision db'
                else (Inr (), db')))"

definition user_checks ::
  "limit_env \<Rightarrow> string \<Rightarrow> limits_db \<Rightarrow> rate_limit_decision option result" where
  "user_checks env user db =
     (let st = lm_settings env in
      if user_is_exempt db user then Inr None
      else (let decision = check_window_limit env db ''user'' user ''answer_request''
                  (answer_limit_for_user st db user) 3600 ''answer_requests_per_hour''
            in if \<not> rd_allowed decision then Inr (Some decision)
               else (case check_daily_token_budget env db user (estimate_answer_tokens st)
                            (token_budget_for_user st db user) of
                       Inl e \<Rightarrow> Inl e
                     | Inr d \<Rightarrow> Inr (if rd_allowed d then None else Some d))))"

definition enforce_answer_limit ::
  "limit_env \<Rightarrow> web_request \<Rightarrow> string \<Rightarrow> limits_db \<Rightarrow> (limit_failure + string option) \<times> limits_db" where
  "enforce_answer_limit env rq user db =
     (let st = lm_settings env; ip = client_ip_from_request rq in
      if \<not> st_rate_limit_enabled st then (Inr None, db)
      else
      (case user_checks env user db of
         Inl e \<Rightarrow> (Inl (Raised e), db)
       | Inr (Some decision) \<Rightarrow> reject env 0 ''user'' user (wr_path rq) (Some user) ip decision db
       | Inr None \<Rightarrow>
      (case check_monthly_llm_cost_budget env db of
         Inl e \<Rightarrow> (Inl (Raised e), db)
       | Inr monthly \<Rightarrow>
           if \<not> rd_allowed monthly then reject env 0 ''user'' user (wr_path rq) (Some user) ip monthly db
           else
           (case reserve_answer_usage env 0 user (estimate_answer_tokens st) db of
              Inl e \<Rightarrow> (Inl e, db)
            | Inr db1 \<Rightarrow>
                (case record_event env 1 ''user'' user ''answer_request'' (Some ''/answer'') (Some user) (Some ip) [] db1 of
                   (Inl e, _) \<Rightarrow> (Inl e, db)
                 | (Inr _, db2) \<Rightarrow> (Inr (Some (lm_uuid env 0)), db2))))))"

end
