(* ===== verification/Rate_Limits_Claims.thy ===== *)
theory Rate_Limits_Claims
  imports Rate_Limits
begin

text \<open>
  The promises of the request limits: a sliding window is never exceeded over any run, an admitted
  answer is covered by every budget, the bookkeeping operations keep what the budgets are computed
  from, and what a rejected client is told about when to come back.
\<close>

section \<open>Sliding windows\<close>

lemma length_filter_mono: "(\<And>y. y \<in> set xs \<Longrightarrow> p y \<Longrightarrow> q y) \<Longrightarrow> length (filter p xs) \<le> length (filter q xs)"
  by (induction xs) (auto simp: le_SucI)

definition event_times :: "string \<Rightarrow> string \<Rightarrow> string \<Rightarrow> limits_db \<Rightarrow> datetime list" where
  "event_times scope key etype db =
     map re_created_at (filter (\<lambda>ev. re_scope ev = scope \<and> re_key ev = key \<and> re_event_type ev = etype)
       (rate_limit_events db))"

lemma count_events_times: "count_events db scope key etype since = int (length (filter (\<lambda>t. since \<le> t) (event_times scope key etype db)))"
proof -
  have "filter (matches scope key etype since) (rate_limit_events db) =
      filter (\<lambda>ev. since \<le> re_created_at ev)
        (filter (\<lambda>ev. re_scope ev = scope \<and> re_key ev = key \<and> re_event_type ev = etype) (rate_limit_events db))"
    by (simp add: matches_def fun_eq_iff) (rule filter_cong; auto simp: matches_def)
  then show ?thesis by (simp add: count_events_def event_times_def filter_map o_def)
qed

text \<open>
  A run of one limited endpoint: each step is one call of \<^verbatim>\<open>check_and_record_window_event\<close> with its own
  reading of the clock of the process and of the clock of the database server, which stamps the row.
\<close>

definition window_step ::
  "string \<Rightarrow> string \<Rightarrow> string \<Rightarrow> int \<Rightarrow> int \<Rightarrow> string \<Rightarrow> limits_db \<Rightarrow> limit_env \<Rightarrow> limits_db" where
  "window_step scope key etype limit window reason db env =
     snd (check_and_record_window_event env 0 scope key etype limit window reason None None None [] db)"

definition no_events :: "user_quota list \<Rightarrow> answer_log list \<Rightarrow> limits_db" where
  "no_events qs ls = \<lparr>rate_limit_events = [], user_quotas = qs, answer_logs = ls\<rparr>"

lemma event_times_record:
  assumes "check_and_record_window_event env n scope key etype limit window reason ep u ip md db = (r, db')"
  shows "event_times scope key etype db' = event_times scope key etype db \<or>
    (event_times scope key etype db' = event_times scope key etype db @ [lm_db_now env] \<and>
     count_events db scope key etype (lm_now env - seconds window) < limit)"
  using assms
  by (auto simp: check_and_record_window_event_def check_window_limit_def Let_def add_event_def new_event_def
      event_times_def split: if_splits sum.splits)

lemma window_step_times:
  "event_times scope key etype (window_step scope key etype limit window reason db env) = event_times scope key etype db \<or>
   (event_times scope key etype (window_step scope key etype limit window reason db env) =
      event_times scope key etype db @ [lm_db_now env] \<and>
    count_events db scope key etype (lm_now env - seconds window) < limit)"
  unfolding window_step_def by (rule event_times_record) (rule prod.collapse [symmetric])

text \<open>
  C26: A sliding-window limit is never exceeded. Let \<open>skew\<close> bound how far the clock of a call may be
  ahead of the stamp the database server gives its row (zero when the clocks agree; nothing is asked about
  a clock that is behind, or about the order of the readings). After any sequence of calls with any
  readings, over any interval of the window's length less the skew, ending at any instant, at most
  \<^verbatim>\<open>limit\<close> events of the limited kind are recorded for the key, boundaries included.
\<close>

theorem window_never_exceeded:
  assumes "\<And>env. env \<in> set envs \<Longrightarrow> lm_now env \<le> lm_db_now env + skew"
  shows "int (length (filter (\<lambda>y. t - (seconds window - skew) \<le> y \<and> y \<le> t)
      (event_times scope key etype (run (window_step scope key etype limit window reason) (no_events qs ls) envs))))
    \<le> max 0 limit"
  using assms
proof (induction envs rule: rev_induct)
  case Nil
  then show ?case by (simp add: event_times_def no_events_def)
next
  case (snoc env envs)
  let ?db = "run (window_step scope key etype limit window reason) (no_events qs ls) envs"
  let ?in = "\<lambda>y. t - (seconds window - skew) \<le> y \<and> y \<le> t"
  have IH: "int (length (filter ?in (event_times scope key etype ?db))) \<le> max 0 limit"
    using snoc by simp
  consider (same) "event_times scope key etype (window_step scope key etype limit window reason ?db env)
        = event_times scope key etype ?db"
    | (new) "event_times scope key etype (window_step scope key etype limit window reason ?db env)
        = event_times scope key etype ?db @ [lm_db_now env]"
      "count_events ?db scope key etype (lm_now env - seconds window) < limit"
    using window_step_times by blast
  then show ?case
  proof cases
    case new
    have skew: "lm_now env \<le> lm_db_now env + skew" by (rule snoc.prems) simp
    have "length (filter ?in (event_times scope key etype ?db))
        \<le> length (filter (\<lambda>y. lm_now env - seconds window \<le> y) (event_times scope key etype ?db))" if "?in (lm_db_now env)"
      by (rule length_filter_mono) (use that skew in auto)
    then show ?thesis using new IH by (auto simp: count_events_times)
  qed (use IH in simp)
qed

definition lim_settings :: limit_settings where
  "lim_settings =
     \<lparr>st_rate_limit_enabled = True, st_login_failed_limit = 5, st_login_failed_window_seconds = 900,
      st_search_requests_per_hour = 120, st_answer_requests_per_hour = 10,
      st_user_daily_llm_token_budget = 12000, st_monthly_llm_cost_budget_usd = 15,
      st_input_cost_per_million = 1/4, st_output_cost_per_million = 2, st_answer_max_context_chars = 16000,
      st_answer_max_output_tokens = 900, st_rate_limit_event_retention_days = 30\<rparr>"

definition lim_env :: "int \<Rightarrow> string \<Rightarrow> limit_env" where
  "lim_env t u =
     \<lparr>lm_settings = lim_settings, lm_now = seconds t, lm_db_now = seconds t, lm_uuid = (\<lambda>n. u @ [char_of n])\<rparr>"

definition lim_run :: limits_db where
  "lim_run = run (window_step ''ip'' ''h'' ''login_failed'' 2 900 ''login_failed'') (no_events [] [])
     [lim_env 1 ''a'', lim_env 2 ''b'', lim_env 3 ''c'']"

text \<open>Two calls whose clocks run two seconds ahead of the server's, out of order, and one that is refused.\<close>

definition skewed_env :: "int \<Rightarrow> string \<Rightarrow> limit_env" where
  "skewed_env t u = (lim_env t u)\<lparr>lm_db_now := seconds (t - 2)\<rparr>"

theorem window_never_exceeded_witness:
  "event_times ''ip'' ''h'' ''login_failed''
     (run (window_step ''ip'' ''h'' ''login_failed'' 2 900 ''login_failed'') (no_events [] [])
       [skewed_env 20 ''a'', skewed_env 10 ''b'', skewed_env 30 ''c'']) = [seconds 18, seconds 8] \<and>
   int (length (filter (\<lambda>y. seconds 30 - (seconds 900 - seconds 2) \<le> y \<and> y \<le> seconds 30)
     (event_times ''ip'' ''h'' ''login_failed''
       (run (window_step ''ip'' ''h'' ''login_failed'' 2 900 ''login_failed'') (no_events [] [])
         [skewed_env 20 ''a'', skewed_env 10 ''b'', skewed_env 30 ''c''])))) \<le> max 0 2"
proof
  show "event_times ''ip'' ''h'' ''login_failed''
     (run (window_step ''ip'' ''h'' ''login_failed'' 2 900 ''login_failed'') (no_events [] [])
       [skewed_env 20 ''a'', skewed_env 10 ''b'', skewed_env 30 ''c'']) = [seconds 18, seconds 8]"
    by code_simp
qed (rule window_never_exceeded, auto simp: skewed_env_def lim_env_def seconds_def)

section \<open>Retry-After\<close>

lemma oldest_event_at_Some:
  assumes "oldest_event_at db scope key etype since = Some t"
  shows "t \<in> set (event_times scope key etype db)" and "since \<le> t"
    and "\<And>y. y \<in> set (event_times scope key etype db) \<Longrightarrow> since \<le> y \<Longrightarrow> t \<le> y"
proof -
  let ?xs = "map re_created_at (filter (matches scope key etype since) (rate_limit_events db))"
  obtain ts where ts: "sort ?xs = t # ts"
    using assms by (auto simp: oldest_event_at_def split: list.splits)
  have mem: "y \<in> set ?xs \<longleftrightarrow> y \<in> set (event_times scope key etype db) \<and> since \<le> y" for y
    by (auto simp: event_times_def matches_def)
  have "t \<in> set ?xs" using ts by (metis list.set_intros(1) set_sort)
  then show "t \<in> set (event_times scope key etype db)" "since \<le> t" by (simp_all only: mem)
  have "sorted (t # ts)" using ts by (metis sorted_sort)
  then have "\<forall>y\<in>set (t # ts). t \<le> y" by simp
  then have "\<forall>y\<in>set ?xs. t \<le> y" unfolding ts [symmetric] by (simp only: set_sort)
  then show "\<And>y. y \<in> set (event_times scope key etype db) \<Longrightarrow> since \<le> y \<Longrightarrow> t \<le> y"
    using mem by blast
qed

lemma oldest_event_at_None:
  "oldest_event_at db scope key etype since = None \<longleftrightarrow> count_events db scope key etype since = 0"
proof -
  have "sort (map re_created_at xs) = [] \<longleftrightarrow> xs = []" for xs :: "rate_limit_event list"
    by (simp flip: length_0_conv)
  moreover have "oldest_event_at db scope key etype since = None \<longleftrightarrow>
      sort (map re_created_at (filter (matches scope key etype since) (rate_limit_events db))) = []"
    unfolding oldest_event_at_def by (simp split: list.split)
  ultimately show ?thesis by (simp add: count_events_def)
qed

lemma whole_seconds_bounds: "0 \<le> d \<Longrightarrow> seconds (whole_seconds d) \<le> d \<and> d < seconds (whole_seconds d) + seconds 1"
  by (auto simp: whole_seconds_def seconds_def)

text \<open>
  The figures of a window decision. A request is allowed exactly if some of the limit remains,
  the remainder lies between zero and the limit, and a client that is turned away is told a delay
  between one second and the length of the window.
\<close>

theorem window_decision_bounds:
  assumes past: "list_all (\<lambda>t. t \<le> lm_now env) (event_times scope key etype db)" and w: "1 \<le> window"
  shows "let d = check_window_limit env db scope key etype limit window reason in
    (rd_allowed d \<longleftrightarrow> 0 < rd_remaining d) \<and> 0 \<le> rd_remaining d \<and> rd_remaining d \<le> max 0 limit \<and>
    1 \<le> rd_retry_after_seconds d \<and> rd_retry_after_seconds d \<le> window \<and>
    lm_now env \<le> rd_reset_at d \<and> rd_reset_at d \<le> lm_now env + seconds window"
proof -
  define d where "d = check_window_limit env db scope key etype limit window reason"
  let ?since = "lm_now env - seconds window"
  let ?old = "case oldest_event_at db scope key etype ?since of Some t \<Rightarrow> t | None \<Rightarrow> lm_now env"
  have c: "0 \<le> count_events db scope key etype ?since" by (simp add: count_events_def)
  have old: "?since \<le> ?old" "?old \<le> lm_now env"
    using past w oldest_event_at_Some(1,2) [of db scope key etype ?since]
    by (auto simp: list_all_iff seconds_def split: option.splits)
  have d: "rd_remaining d = max 0 (limit - count_events db scope key etype ?since)"
    "rd_allowed d = (count_events db scope key etype ?since < limit)"
    "rd_reset_at d = ?old + seconds window"
    "rd_retry_after_seconds d = max 1 (whole_seconds (?old + seconds window - lm_now env))"
    by (simp_all add: d_def check_window_limit_def Let_def)
  have "seconds (whole_seconds (?old + seconds window - lm_now env)) \<le> seconds window"
    using whole_seconds_bounds [of "?old + seconds window - lm_now env"] old by linarith
  then have "whole_seconds (?old + seconds window - lm_now env) \<le> window" by (simp add: seconds_def)
  with w c old show ?thesis unfolding Let_def d_def [symmetric] d by (intro conjI) auto
qed

theorem window_decision_bounds_witness:
  "rd_retry_after_seconds (check_window_limit (lim_env 3 ''d'') lim_run ''ip'' ''h'' ''login_failed'' 2 900 ''r'') \<le> 900 \<and>
   rd_retry_after_seconds (check_window_limit (lim_env 3 ''d'') lim_run ''ip'' ''h'' ''login_failed'' 2 900 ''r'') = 898"
proof
  have "list_all (\<lambda>t. t \<le> lm_now (lim_env 3 ''d'')) (event_times ''ip'' ''h'' ''login_failed'' lim_run)"
    by code_simp
  from window_decision_bounds [OF this, of 900 2 "''r''"]
  show "rd_retry_after_seconds (check_window_limit (lim_env 3 ''d'') lim_run ''ip'' ''h'' ''login_failed'' 2 900 ''r'') \<le> 900"
    by (simp add: Let_def)
  show "rd_retry_after_seconds (check_window_limit (lim_env 3 ''d'') lim_run ''ip'' ''h'' ''login_failed'' 2 900 ''r'') = 898"
    by code_simp
qed

text \<open>
  A rejected client gets through once the window has moved on: just after \<^verbatim>\<open>reset_at\<close>, if
  nothing was recorded since, the limit is positive and was not exceeded before, the same request is allowed.
\<close>

theorem allowed_after_reset:
  assumes rej: "\<not> rd_allowed (check_window_limit env db scope key etype limit window reason)"
    and full: "count_events db scope key etype (lm_now env - seconds window) = limit" "0 < limit"
    and later: "rd_reset_at (check_window_limit env db scope key etype limit window reason) < lm_now env'"
    and order: "lm_now env \<le> lm_now env'"
  shows "rd_allowed (check_window_limit env' db scope key etype limit window reason)"
proof -
  let ?since = "lm_now env - seconds window" and ?since' = "lm_now env' - seconds window"
  let ?ts = "event_times scope key etype db"
  obtain old where old: "oldest_event_at db scope key etype ?since = Some old"
    using oldest_event_at_None [of db scope key etype ?since] full by (cases "oldest_event_at db scope key etype ?since") auto
  note o = oldest_event_at_Some [OF old]
  have "old < ?since'" using later by (simp add: check_window_limit_def Let_def old)
  then have sub: "{y \<in> set ?ts. ?since' \<le> y} \<subseteq> {y \<in> set ?ts. ?since \<le> y}" using order by auto
  have "length (filter (\<lambda>t. ?since' \<le> t) ?ts) < length (filter (\<lambda>t. ?since \<le> t) ?ts)"
  proof -
    have "filter (\<lambda>t. ?since' \<le> t) ?ts = filter (\<lambda>t. ?since' \<le> t) (filter (\<lambda>t. ?since \<le> t) ?ts)"
      using order by (auto intro!: filter_cong)
    also have "length \<dots> < length (filter (\<lambda>t. ?since \<le> t) ?ts)"
      by (rule length_filter_less [where x = old]) (use o \<open>old < ?since'\<close> in auto)
    finally show ?thesis .
  qed
  then show ?thesis
    using full by (simp add: check_window_limit_def Let_def count_events_times)
qed

theorem allowed_after_reset_witness:
  "rd_allowed (check_window_limit (lim_env 902 ''d'') lim_run ''ip'' ''h'' ''login_failed'' 2 900 ''r'')"
proof -
  have "\<not> rd_allowed (check_window_limit (lim_env 3 ''d'') lim_run ''ip'' ''h'' ''login_failed'' 2 900 ''r'')"
    "count_events lim_run ''ip'' ''h'' ''login_failed'' (lm_now (lim_env 3 ''d'') - seconds 900) = 2"
    "rd_reset_at (check_window_limit (lim_env 3 ''d'') lim_run ''ip'' ''h'' ''login_failed'' 2 900 ''r'')
      < lm_now (lim_env 902 ''d'')"
    "lm_now (lim_env 3 ''d'') \<le> lm_now (lim_env 902 ''d'')"
    by code_simp+
  then show ?thesis using allowed_after_reset by simp
qed

text \<open>
  When at least a second of the window is left, the delay a rejected client is told is too short: it is rounded down to whole seconds and the
  window is closed at its old end, so that a client that waits exactly that long and repeats the
  request is turned away again.
\<close>

theorem retry_after_too_short:
  assumes rej: "\<not> rd_allowed (check_window_limit env db scope key etype limit window reason)" and lim: "0 < limit"
    and wait: "lm_now env' = lm_now env +
      seconds (rd_retry_after_seconds (check_window_limit env db scope key etype limit window reason))"
    and far: "lm_now env + seconds 1 \<le> rd_reset_at (check_window_limit env db scope key etype limit window reason)"
  shows "\<not> rd_allowed (check_window_limit env' db scope key etype limit window reason)"
proof -
  let ?since = "lm_now env - seconds window" and ?since' = "lm_now env' - seconds window"
  let ?ts = "event_times scope key etype db"
  have cnt: "limit \<le> count_events db scope key etype ?since"
    using rej by (simp add: check_window_limit_def Let_def)
  then obtain old where old: "oldest_event_at db scope key etype ?since = Some old"
    using oldest_event_at_None [of db scope key etype ?since] lim
    by (cases "oldest_event_at db scope key etype ?since") auto
  define gap where "gap = old + seconds window - lm_now env"
  have gap: "seconds 1 \<le> gap" using far by (simp add: check_window_limit_def Let_def old gap_def)
  then have "1 \<le> whole_seconds gap" by (auto simp: whole_seconds_def seconds_def)
  then have "lm_now env' = lm_now env + seconds (whole_seconds gap)"
    using wait by (simp add: check_window_limit_def Let_def old gap_def [symmetric])
  moreover have "seconds (whole_seconds gap) \<le> gap" using whole_seconds_bounds [of gap] gap by (simp add: seconds_def)
  ultimately have "?since' \<le> old" by (simp add: gap_def)
  then have "length (filter (\<lambda>t. ?since \<le> t) ?ts) \<le> length (filter (\<lambda>t. ?since' \<le> t) ?ts)"
    by (intro length_filter_mono) (use oldest_event_at_Some(3) [OF old] in force)
  with cnt show ?thesis by (simp add: check_window_limit_def Let_def count_events_times)
qed

theorem retry_after_too_short_witness:
  "rd_retry_after_seconds (check_window_limit (lim_env 3 ''d'') lim_run ''ip'' ''h'' ''login_failed'' 2 900 ''r'') = 898 \<and>
   \<not> rd_allowed (check_window_limit (lim_env 901 ''d'') lim_run ''ip'' ''h'' ''login_failed'' 2 900 ''r'')"
proof -
  have a: "rd_retry_after_seconds (check_window_limit (lim_env 3 ''d'') lim_run ''ip'' ''h'' ''login_failed'' 2 900 ''r'') = 898"
    by code_simp
  have "\<not> rd_allowed (check_window_limit (lim_env 3 ''d'') lim_run ''ip'' ''h'' ''login_failed'' 2 900 ''r'')"
    "lm_now (lim_env 3 ''d'') + seconds 1 \<le>
      rd_reset_at (check_window_limit (lim_env 3 ''d'') lim_run ''ip'' ''h'' ''login_failed'' 2 900 ''r'')"
    "lm_now (lim_env 901 ''d'') = lm_now (lim_env 3 ''d'') + seconds 898"
    by code_simp+
  with a retry_after_too_short [of "lim_env 3 ''d''" lim_run "''ip''" "''h''" "''login_failed''" 2 900 "''r''" "lim_env 901 ''d''"]
  show ?thesis by simp
qed

section \<open>Admission of an answer\<close>

lemma sum_metadata_append:
  "sum_metadata k (xs @ [ev]) =
     (case sum_metadata k xs of
        Inl e \<Rightarrow> Inl e
      | Inr n \<Rightarrow> (case (case map_of (re_metadata ev) k of None \<Rightarrow> Inr 0 | Some v \<Rightarrow> py_int v) of
                  Inl e \<Rightarrow> Inl e | Inr m \<Rightarrow> Inr (n + m)))"
  by (induction xs) (auto split: sum.splits)

lemma add_event_Inr: "add_event ev db = Inr db' \<longleftrightarrow> re_id ev \<notin> set (map re_id (rate_limit_events db)) \<and>
    db' = db\<lparr>rate_limit_events := rate_limit_events db @ [ev]\<rparr>"
  by (auto simp: add_event_def)

text \<open>The two rows that an admitted answer adds.\<close>

definition reservation_row :: "limit_env \<Rightarrow> string \<Rightarrow> rate_limit_event" where
  "reservation_row env user =
     new_event env 0 ''user'' user ''answer_cost_reserved'' (Some ''/answer'') (Some user) None
       [(''tokens'', JInt (estimate_answer_tokens (lm_settings env))),
        (''microdollars'', JInt (estimate_answer_cost_microdollars (lm_settings env)))]"

definition request_row :: "limit_env \<Rightarrow> web_request \<Rightarrow> string \<Rightarrow> rate_limit_event" where
  "request_row env rq user =
     new_event env 1 ''user'' user ''answer_request'' (Some ''/answer'') (Some user)
       (Some (client_ip_from_request rq)) []"

lemma enforce_answer_admitted:
  assumes "enforce_answer_limit env rq user db = (Inr (Some rid), db')"
  obtains used where
    "rid = lm_uuid env 0"
    "db' = db\<lparr>rate_limit_events := rate_limit_events db @ [reservation_row env user, request_row env rq user]\<rparr>"
    "monthly_cost_used (lm_settings env) db (month_start (lm_now env)) = Inr used"
    "estimate_answer_cost_microdollars (lm_settings env) \<le> max 0 (monthly_budget (lm_settings env) - used)"
    "user_checks env user db = Inr None"
proof -
  let ?st = "lm_settings env"
  from assms have uc: "user_checks env user db = Inr None"
    unfolding enforce_answer_limit_def reject_def record_event_def Let_def
    by (auto split: if_splits sum.splits option.splits)
  from assms uc obtain m where m: "check_monthly_llm_cost_budget env db = Inr m" "rd_allowed m"
    unfolding enforce_answer_limit_def reject_def record_event_def Let_def
    by (auto split: if_splits sum.splits)
  then obtain used where used: "monthly_cost_used ?st db (month_start (lm_now env)) = Inr used"
      "estimate_answer_cost_microdollars ?st \<le> max 0 (monthly_budget ?st - used)"
    by (auto simp: check_monthly_llm_cost_budget_def Let_def split: sum.splits)
  from assms uc m have "rid = lm_uuid env 0" and
    "db' = db\<lparr>rate_limit_events := rate_limit_events db @ [reservation_row env user, request_row env rq user]\<rparr>"
    unfolding enforce_answer_limit_def Let_def reservation_row_def request_row_def
    by (auto simp: reserve_answer_usage_def record_event_def Let_def add_event_Inr split: if_splits sum.splits)
  with that used uc show ?thesis by blast
qed

lemma outstanding_rows:
  "outstanding_answer_reservations
     (db\<lparr>rate_limit_events := rate_limit_events db @ [reservation_row env user, request_row env rq user]\<rparr>) since u =
   outstanding_answer_reservations db since u @
     (if since \<le> lm_db_now env \<and> (u = None \<or> u = Some user) then [reservation_row env user] else [])"
  by (auto simp: outstanding_answer_reservations_def reservation_row_def request_row_def new_event_def
      outstanding_type_def split: option.splits)

lemma reservation_row_metadata [simp]:
  "map_of (re_metadata (reservation_row env user)) ''tokens'' = Some (JInt (estimate_answer_tokens (lm_settings env)))"
  "map_of (re_metadata (reservation_row env user)) ''microdollars'' =
     Some (JInt (estimate_answer_cost_microdollars (lm_settings env)))"
  by (simp_all add: reservation_row_def new_event_def)

text \<open>
  An admitted answer is covered by every budget that applies, the answer itself included. The
  global monthly cost, logged answers and unresolved reservations together, grows by exactly the
  estimate of one answer and stays within the monthly budget; for a user that is not exempt the tokens
  of the day grow by the estimate and stay within the daily budget, and the hourly window had room.
\<close>

theorem answer_admission_covered:
  assumes adm: "enforce_answer_limit env rq user db = (Inr (Some rid), db')"
    and clock: "day_start (lm_now env) \<le> lm_db_now env" "month_start (lm_now env) \<le> lm_db_now env"
    and pos: "0 < estimate_answer_cost_microdollars (lm_settings env)" "0 < estimate_answer_tokens (lm_settings env)"
  shows "(\<exists>used. monthly_cost_used (lm_settings env) db (month_start (lm_now env)) = Inr used \<and>
       monthly_cost_used (lm_settings env) db' (month_start (lm_now env)) =
         Inr (used + estimate_answer_cost_microdollars (lm_settings env)) \<and>
       used + estimate_answer_cost_microdollars (lm_settings env) \<le> monthly_budget (lm_settings env)) \<and>
    (\<not> user_is_exempt db user \<longrightarrow>
       (\<exists>used. daily_tokens_used db user (day_start (lm_now env)) = Inr used \<and>
          daily_tokens_used db' user (day_start (lm_now env)) = Inr (used + estimate_answer_tokens (lm_settings env)) \<and>
          used + estimate_answer_tokens (lm_settings env) \<le> token_budget_for_user (lm_settings env) db user) \<and>
       count_events db ''user'' user ''answer_request'' (lm_now env - seconds 3600)
         < answer_limit_for_user (lm_settings env) db user)"
proof -
  let ?st = "lm_settings env"
  obtain used where db': "db' = db\<lparr>rate_limit_events := rate_limit_events db @ [reservation_row env user, request_row env rq user]\<rparr>"
    and used: "monthly_cost_used ?st db (month_start (lm_now env)) = Inr used"
    and room: "estimate_answer_cost_microdollars ?st \<le> max 0 (monthly_budget ?st - used)"
    and uc: "user_checks env user db = Inr None"
    using enforce_answer_admitted [OF adm] by blast
  have month: "monthly_cost_used ?st db' (month_start (lm_now env)) = Inr (used + estimate_answer_cost_microdollars ?st)"
    using used clock
    by (auto simp: monthly_cost_used_def db' outstanding_rows sum_metadata_append log_cost_def py_int_def split: sum.splits)
  have daily: "(\<exists>used. daily_tokens_used db user (day_start (lm_now env)) = Inr used \<and>
          daily_tokens_used db' user (day_start (lm_now env)) = Inr (used + estimate_answer_tokens ?st) \<and>
          used + estimate_answer_tokens ?st \<le> token_budget_for_user ?st db user) \<and>
       count_events db ''user'' user ''answer_request'' (lm_now env - seconds 3600) < answer_limit_for_user ?st db user"
    if "\<not> user_is_exempt db user"
  proof -
    from uc that obtain d where d: "check_daily_token_budget env db user (estimate_answer_tokens ?st)
        (token_budget_for_user ?st db user) = Inr d" "rd_allowed d"
      and win: "count_events db ''user'' user ''answer_request'' (lm_now env - seconds 3600) < answer_limit_for_user ?st db user"
      by (auto simp: user_checks_def Let_def check_window_limit_def split: if_splits sum.splits)
    from d obtain u where u: "daily_tokens_used db user (day_start (lm_now env)) = Inr u"
      "estimate_answer_tokens ?st \<le> max 0 (token_budget_for_user ?st db user - u)"
      by (auto simp: check_daily_token_budget_def Let_def split: sum.splits)
    then have "daily_tokens_used db' user (day_start (lm_now env)) = Inr (u + estimate_answer_tokens ?st)"
      using clock
      by (auto simp: daily_tokens_used_def db' outstanding_rows sum_metadata_append log_tokens_def py_int_def split: sum.splits)
    with u win pos show ?thesis by auto
  qed
  show ?thesis using used month room pos daily by auto
qed

definition lim_request :: web_request where
  "lim_request = \<lparr>wr_client_host = Some ''h'', wr_path = ''/answer''\<rparr>"

definition lim_admitted :: limits_db where
  "lim_admitted = snd (enforce_answer_limit (lim_env 100 ''e'') lim_request ''u'' (no_events [] []))"

lemma lim_admits: "enforce_answer_limit (lim_env 100 ''e'') lim_request ''u'' (no_events [] []) =
    (Inr (Some (lm_uuid (lim_env 100 ''e'') 0)), lim_admitted)"
proof -
  have "case fst (enforce_answer_limit (lim_env 100 ''e'') lim_request ''u'' (no_events [] [])) of
      Inl _ \<Rightarrow> False | Inr r \<Rightarrow> r = Some (lm_uuid (lim_env 100 ''e'') 0)" by code_simp
  then show ?thesis by (auto simp: lim_admitted_def prod_eq_iff split: sum.splits)
qed

theorem answer_admission_covered_witness:
  "monthly_cost_used lim_settings lim_admitted (month_start (seconds 100)) = Inr 2800 \<and>
   (2800 :: int) \<le> monthly_budget lim_settings"
proof -
  have s: "lm_settings (lim_env 100 ''e'') = lim_settings" "lm_now (lim_env 100 ''e'') = seconds 100"
    by (simp_all add: lim_env_def)
  have "estimate_answer_cost_microdollars lim_settings = 2800" "0 < estimate_answer_tokens lim_settings"
    "day_start (seconds 100) \<le> lm_db_now (lim_env 100 ''e'')" "month_start (seconds 100) \<le> lm_db_now (lim_env 100 ''e'')"
    "monthly_cost_used lim_settings (no_events [] []) (month_start (seconds 100)) = Inr 0"
    by code_simp+
  then show ?thesis
    using answer_admission_covered [OF lim_admits] unfolding s by auto
qed

section \<open>Bookkeeping\<close>

lemma filter_delete_where:
  "(\<And>x. x \<in> set xs \<Longrightarrow> p x \<Longrightarrow> \<not> q x) \<Longrightarrow> filter p (delete_where q xs) = filter p xs"
  by (induction xs) (auto simp: delete_where_def)

text \<open>
  Pruning old events never changes an account: no unresolved reservation is deleted, so the
  monthly cost and every user's daily tokens are what they were, and a window that begins after the
  cutoff counts the same events.
\<close>

theorem prune_keeps_accounts:
  assumes "prune_old_events env (Some d) db = (n, db')" and "0 < d"
  shows "monthly_cost_used st db' since = monthly_cost_used st db since \<and>
    daily_tokens_used db' user since = daily_tokens_used db user since \<and>
    (lm_now env - days d \<le> from \<longrightarrow>
       count_events db' scope key etype from = count_events db scope key etype from) \<and>
    length (rate_limit_events db') + n = length (rate_limit_events db)"
proof -
  let ?old = "\<lambda>ev. re_created_at ev < lm_now env - days d \<and> \<not> outstanding_type (re_event_type ev)"
  have db': "db' = db\<lparr>rate_limit_events := delete_where ?old (rate_limit_events db)\<rparr>"
    and n: "n = rowcount ?old (rate_limit_events db)"
    using assms by (auto simp: prune_old_events_def Let_def)
  have out: "outstanding_answer_reservations db' t u = outstanding_answer_reservations db t u" for t u
    by (auto simp: outstanding_answer_reservations_def db' intro!: filter_delete_where)
  have "count_events db' scope key etype from = count_events db scope key etype from" if "lm_now env - days d \<le> from"
    using that by (auto simp: count_events_def db' matches_def intro!: arg_cong [of _ _ length] filter_delete_where)
  moreover have "length (delete_where ?old (rate_limit_events db)) + n = length (rate_limit_events db)"
    using sum_length_filter_compl [of ?old "rate_limit_events db"] by (simp add: n rowcount_def delete_where_def)
  ultimately show ?thesis
    by (simp add: monthly_cost_used_def daily_tokens_used_def out)
      (simp add: db' log_cost_def log_tokens_def cong: sum.case_cong)
qed

theorem prune_keeps_accounts_witness:
  "let r = prune_old_events (lim_env 9000000 ''p'') (Some 30) lim_admitted in
     fst r = 1 \<and> monthly_cost_used lim_settings (snd r) 0 = Inr 2800"
proof -
  obtain n db' where r: "prune_old_events (lim_env 9000000 ''p'') (Some 30) lim_admitted = (n, db')" by fastforce
  have "monthly_cost_used lim_settings lim_admitted 0 = Inr 2800"
    "fst (prune_old_events (lim_env 9000000 ''p'') (Some 30) lim_admitted) = 1" by code_simp+
  with prune_keeps_accounts [OF r, of lim_settings 0] show ?thesis by (simp add: r)
qed

lemma filter_map_same: "(\<And>x. x \<in> set xs \<Longrightarrow> p (g x) = p x) \<Longrightarrow> filter p (map g xs) = map g (filter p xs)"
  by (induction xs) auto

lemma filter_map_drop:
  "(\<And>x. x \<in> set xs \<Longrightarrow> k x \<Longrightarrow> \<not> p (g x)) \<Longrightarrow> (\<And>x. x \<in> set xs \<Longrightarrow> \<not> k x \<Longrightarrow> g x = x) \<Longrightarrow>
   filter p (map g xs) = filter (\<lambda>x. \<not> k x) (filter p xs)"
  by (induction xs) auto

lemma finish_uncertain_outstanding:
  assumes "\<And>ev. ev \<in> set (rate_limit_events db) \<Longrightarrow> re_id ev = rid \<Longrightarrow> outstanding_type (re_event_type ev)"
  shows "outstanding_answer_reservations (finish_answer_usage (Some rid) False db) since u =
    map (\<lambda>ev. if re_id ev = rid then ev\<lparr>re_event_type := ''answer_cost_uncertain''\<rparr> else ev)
      (outstanding_answer_reservations db since u)"
  unfolding outstanding_answer_reservations_def finish_answer_usage_def update_where_def
  by (simp, rule filter_map_same) (auto simp: outstanding_type_def split: option.splits dest: assms)

lemma finish_completed_outstanding:
  "outstanding_answer_reservations (finish_answer_usage (Some rid) True db) since u =
    filter (\<lambda>ev. re_id ev \<noteq> rid) (outstanding_answer_reservations db since u)"
  unfolding outstanding_answer_reservations_def finish_answer_usage_def update_where_def
  by (simp del: filter_filter, rule filter_map_drop) (auto simp: outstanding_type_def)

lemma sum_metadata_map: "(\<And>ev. re_metadata (f ev) = re_metadata ev) \<Longrightarrow> sum_metadata k (map f evs) = sum_metadata k evs"
  by (induction evs) (auto cong: sum.case_cong)

text \<open>
  A reservation whose answer did not complete keeps counting: marking it uncertain changes neither
  the monthly cost nor the daily tokens. Only a completed answer releases its reservation, whose cost
  its own log row then carries.
\<close>

theorem uncertain_answer_still_counts:
  assumes res: "\<And>ev. ev \<in> set (rate_limit_events db) \<Longrightarrow> re_id ev = rid \<Longrightarrow> outstanding_type (re_event_type ev)"
  shows "monthly_cost_used st (finish_answer_usage (Some rid) False db) since = monthly_cost_used st db since \<and>
    daily_tokens_used (finish_answer_usage (Some rid) False db) user since = daily_tokens_used db user since \<and>
    outstanding_answer_reservations (finish_answer_usage (Some rid) True db) since u =
      filter (\<lambda>ev. re_id ev \<noteq> rid) (outstanding_answer_reservations db since u)"
proof -
  have logs: "answer_logs (finish_answer_usage (Some rid) completed db) = answer_logs db" for completed
    by (simp add: finish_answer_usage_def)
  show ?thesis
    by (simp add: monthly_cost_used_def daily_tokens_used_def log_cost_def log_tokens_def logs
        finish_uncertain_outstanding [OF res] finish_completed_outstanding sum_metadata_map cong: sum.case_cong)
qed

theorem uncertain_answer_still_counts_witness:
  "monthly_cost_used lim_settings
     (finish_answer_usage (Some (lm_uuid (lim_env 100 ''e'') 0)) False lim_admitted) 0 = Inr 2800"
proof -
  let ?rid = "lm_uuid (lim_env 100 ''e'') 0"
  have "list_all (\<lambda>ev. re_id ev = ?rid \<longrightarrow> outstanding_type (re_event_type ev)) (rate_limit_events lim_admitted)"
    "monthly_cost_used lim_settings lim_admitted 0 = Inr 2800"
    by code_simp+
  then show ?thesis
    using uncertain_answer_still_counts [of lim_admitted ?rid lim_settings 0] by (simp add: list_all_iff)
qed

text \<open>
  Resetting the limits of a user touches what the global monthly cost is computed from. The rows it deletes, the
  user's unresolved reservations and today's answer logs, are the rows from which the monthly budget
  of the paid model is computed, so the cost of paid answers is forgotten: with nothing else in the
  tables the monthly cost is zero afterwards, whatever was spent.
\<close>

theorem reset_forgets_monthly_cost:
  assumes mine: "list_all (\<lambda>ev. re_user_id ev = Some user) (rate_limit_events db)"
      "list_all (\<lambda>l. al_user_id l = Some user \<and> day_start (lm_now env) \<le> al_created_at l) (answer_logs db)"
  shows "monthly_cost_used st (snd (reset_user_limit_state env user db)) since = Inr 0"
proof -
  have "delete_where (\<lambda>ev. re_user_id ev = Some user) (rate_limit_events db) = []"
    using mine(1) by (simp add: delete_where_def list_all_iff filter_empty_conv)
  moreover have "delete_where (\<lambda>l. al_user_id l = Some user \<and> al_created_at l \<ge> day_start (lm_now env)) (answer_logs db) = []"
    using mine(2) by (simp add: delete_where_def list_all_iff filter_empty_conv)
  ultimately show ?thesis
    by (simp add: reset_user_limit_state_def Let_def monthly_cost_used_def log_cost_def outstanding_answer_reservations_def)
qed

theorem reset_forgets_monthly_cost_witness:
  "monthly_cost_used lim_settings lim_admitted 0 = Inr 2800 \<and>
   monthly_cost_used lim_settings (snd (reset_user_limit_state (lim_env 101 ''r'') ''u'' lim_admitted)) 0 = Inr 0"
proof
  show "monthly_cost_used lim_settings lim_admitted 0 = Inr 2800" by code_simp
  have "list_all (\<lambda>ev. re_user_id ev = Some ''u'') (rate_limit_events lim_admitted)"
    "list_all (\<lambda>l. al_user_id l = Some ''u'' \<and> day_start (lm_now (lim_env 101 ''r'')) \<le> al_created_at l) (answer_logs lim_admitted)"
    by code_simp+
  then show "monthly_cost_used lim_settings (snd (reset_user_limit_state (lim_env 101 ''r'') ''u'' lim_admitted)) 0 = Inr 0"
    by (rule reset_forgets_monthly_cost)
qed

end
