(* ===== verification/Barrier.thy ===== *)
theory Barrier
  imports Jobs Ledger
begin

text \<open>
  The owner's side of the maintenance barrier (\<^verbatim>\<open>MaintenanceBarrier\<close> of
  \<^verbatim>\<open>app/maintenance/barrier.py\<close>): backups, upgrades and retention runs take the maintenance lock,
  recover interrupted work, check that nothing is active, and raise the flag that
  \<open>maintenance_active\<close> shows to every admission.
\<close>

record maintenance_barrier =
  mb_engine :: engine
  mb_lease :: file_lease

definition barrier_new :: "engine \<Rightarrow> maintenance_barrier result" where
  "barrier_new e =
     (case workspace_root e of
        Inl err \<Rightarrow> Inl err
      | Inr rt \<Rightarrow> Inr \<lparr>mb_engine = e, mb_lease = file_lease_new (maintenance_lock_path rt)\<rparr>)"

definition set_maintenance :: "string \<Rightarrow> datetime \<Rightarrow> state_db \<Rightarrow> state_db" where
  "set_maintenance operation now db =
     db\<lparr>maintenance_state :=
       map_option (\<lambda>r. r\<lparr>ms_active := True, ms_operation := Some operation, ms_started_at := Some now\<rparr>)
         (maintenance_state db)\<rparr>"

text \<open>\<^verbatim>\<open>if connection.scalar(select(column).where(...))\<close>: the first value found, if it is truthy.\<close>

definition first_truthy :: "('r \<Rightarrow> string) \<Rightarrow> ('r \<Rightarrow> bool) \<Rightarrow> 'r list \<Rightarrow> bool" where
  "first_truthy col p rows = (case select_first p rows of None \<Rightarrow> False | Some r \<Rightarrow> col r \<noteq> [])"

definition enter_body ::
  "engine \<Rightarrow> os_state \<Rightarrow> (nat \<Rightarrow> string) \<Rightarrow> string \<Rightarrow> datetime \<Rightarrow> (state_db, unit) tx" where
  "enter_body e os uid operation now db =
     (if first_truthy job_id (\<lambda>r. job_row.job_state r \<in> {QUEUED, RUNNING, CANCEL_REQUESTED}) (jobs db)
      then Inl (RuntimeError ''Pause or finish active jobs before maintenance.'')
      else (case recover_usage_attempts (owner_alive e os) uid now db of
              Inl err \<Rightarrow> Inl err
            | Inr (_, db') \<Rightarrow>
                if first_truthy pl_attempt_id (\<lambda>_. True) (paid_call_leases db')
                then Inl (RuntimeError ''Finish active provider calls before maintenance.'')
                else Inr ((), set_maintenance operation now db')))"

definition barrier_enter ::
  "maintenance_barrier \<Rightarrow> (nat \<Rightarrow> string) \<Rightarrow> string \<Rightarrow> datetime \<Rightarrow> os_state \<Rightarrow> state_db \<Rightarrow>
   unit result \<times> maintenance_barrier \<times> os_state \<times> state_db" where
  "barrier_enter b uid operation now os db =
     (case lease_acquire (mb_lease b) os of
        Inl err \<Rightarrow> (Inl err, b, os, db)
      | Inr (l, os1) \<Rightarrow>
          (case recover_interrupted (mb_engine b) os1 now db of
             (Inl err, db1) \<Rightarrow>
               (case lease_release l os1 of (l', os2) \<Rightarrow> (Inl err, b\<lparr>mb_lease := l'\<rparr>, os2, db1))
           | (Inr _, db1) \<Rightarrow>
               (case transaction (enter_body (mb_engine b) os1 uid operation now) db1 of
                  (Inl err, db2) \<Rightarrow>
                    (case lease_release l os1 of (l', os2) \<Rightarrow> (Inl err, b\<lparr>mb_lease := l'\<rparr>, os2, db2))
                | (Inr _, db2) \<Rightarrow> (Inr (), b\<lparr>mb_lease := l\<rparr>, os1, db2))))"

definition barrier_leave ::
  "maintenance_barrier \<Rightarrow> os_state \<Rightarrow> state_db \<Rightarrow>
   unit result \<times> maintenance_barrier \<times> os_state \<times> state_db" where
  "barrier_leave b os db =
     (if \<not> fl_held (mb_lease b)
      then (Inl (RuntimeError ''Only the maintenance owner can release the barrier.''), b, os, db)
      else (case lease_release (mb_lease b) os of
              (l, os') \<Rightarrow> (Inr (), b\<lparr>mb_lease := l\<rparr>, os', clear_maintenance db)))"

end
