(* ===== verification/Retention.thy ===== *)
theory Retention
  imports Barrier Python_Values
begin

text \<open>
  Workspace retention (\<^verbatim>\<open>app/maintenance/retention.py\<close>): a plan selects the job rows, usage attempts,
  cached property pages and files that are old enough to go, and, behind the maintenance barrier, one
  transaction deletes the rows and a pass over the files deletes those.

  The transaction spans tables of several components: \<open>workspace_db\<close> adds \<^verbatim>\<open>property_cache\<close> and
  \<^verbatim>\<open>application_settings\<close> to the state database. The file system is the list of its entries by real
  path, with \<^verbatim>\<open>Path.resolve\<close> as a function; a path is the list of its components, and the directories
  \<^verbatim>\<open>logs\<close> and \<^verbatim>\<open>resource-staging\<close>, which the workspace creates itself, are real ones. The time-zone data,
  which belongs to the operating system, gives the UTC offset of an instant (\<open>rt_tzdb\<close>) and of a wall
  clock time (\<open>rt_wall_offset\<close>).
\<close>

section \<open>Data\<close>

record application_setting_row =
  aps_key :: string
  aps_value_json :: json_text
  aps_updated_at :: datetime

record workspace_db =
  ws_state :: state_db
  ws_property_cache :: "property_cache_row list"
  ws_application_settings :: "application_setting_row list"

datatype file_kind = RegularFile | Directory | LinkToFile | LinkToDirectory | BrokenLink | SpecialFile

record file_info =
  fi_kind :: file_kind
  fi_mtime :: datetime
  fi_size :: int
  fi_removable :: bool

record file_system =
  fs_entries :: "(path \<times> file_info) list"
  fs_resolve :: "path \<Rightarrow> path"

record retention_settings =
  rs_operational_retention_days :: int
  rs_property_cache_retention_days :: int
  rs_usage_retention_months :: int
  rs_budget_timezone :: string

record retention_env =
  rt_settings :: retention_settings
  rt_tzdb :: tzdb
  rt_wall_offset :: "string \<Rightarrow> int \<Rightarrow> timedelta"
  rt_root :: path
  rt_engine :: engine
  rt_uuid :: "nat \<Rightarrow> string"

record retention_plan =
  pn_now :: datetime
  pn_operational_cutoff :: datetime
  pn_property_cache_cutoff :: datetime
  pn_usage_cutoff :: datetime
  pn_job_ids :: "string list"
  pn_usage_attempt_ids :: "string list"
  pn_usage_event_count :: nat
  pn_cache_keys :: "string list"
  pn_cache_artifacts :: "path list"
  pn_log_files :: "path list"
  pn_staging_files :: "path list"
  pn_candidate_file_bytes :: int
  pn_protected_active_jobs :: nat
  pn_protected_unresolved_usage_attempts :: nat
  pn_protected_current_month_usage_attempts :: nat
  pn_protected_pinned_cache_entries :: nat

record removed_rows =
  rm_jobs :: nat
  rm_usage_events :: nat
  rm_cache_entries :: nat

record removed_files =
  rf_cache_artifacts :: nat
  rf_log_files :: nat
  rf_staging_files :: nat
  rf_file_bytes :: int
  rf_failures :: nat

record retention_result =
  rr_applied :: bool
  rr_generated_at :: string
  rr_operational_cutoff :: string
  rr_property_cache_cutoff :: string
  rr_usage_cutoff :: string
  rr_candidate_jobs :: nat
  rr_candidate_usage_attempts :: nat
  rr_candidate_usage_events :: nat
  rr_candidate_cache_entries :: nat
  rr_candidate_cache_artifacts :: nat
  rr_candidate_log_files :: nat
  rr_candidate_file_bytes :: int
  rr_candidate_staging_files :: nat
  rr_removed_staging_files :: nat
  rr_removed_jobs :: nat
  rr_removed_usage_attempts :: nat
  rr_removed_usage_events :: nat
  rr_removed_cache_entries :: nat
  rr_removed_cache_artifacts :: nat
  rr_removed_log_files :: nat
  rr_removed_file_bytes :: int
  rr_protected_active_jobs :: nat
  rr_protected_unresolved_usage_attempts :: nat
  rr_protected_current_month_usage_attempts :: nat
  rr_protected_pinned_cache_entries :: nat
  rr_file_delete_failures :: nat
  rr_usage_history_pruned_before :: "string option"

section \<open>Time\<close>

definition calendar_month_cutoff :: "retention_env \<Rightarrow> datetime \<Rightarrow> string \<Rightarrow> int \<Rightarrow> datetime result" where
  "calendar_month_cutoff env now timezone months =
     (case zone_offset (rt_tzdb env) timezone of
        Inl e \<Rightarrow> Inl e
      | Inr off \<Rightarrow>
          (case month_in_zone off now of (ly, lm) \<Rightarrow>
             let index = ly * 12 + lm - 1 - (months - 1);
                 wall = midnight (index div 12) (index mod 12 + 1) 1
             in Inr (wall - rt_wall_offset env timezone wall)))"

section \<open>Files\<close>

definition is_symlink :: "file_kind \<Rightarrow> bool" where
  "is_symlink k \<longleftrightarrow> k \<in> {LinkToFile, LinkToDirectory, BrokenLink}"

definition is_file :: "file_kind \<Rightarrow> bool" where
  "is_file k \<longleftrightarrow> k \<in> {RegularFile, LinkToFile}"

definition real_path :: "file_system \<Rightarrow> path \<Rightarrow> path" where
  "real_path fs p = (if p = [] then [] else fs_resolve fs (butlast p) @ [last p])"

definition lstat :: "file_system \<Rightarrow> path \<Rightarrow> file_info option" where
  "lstat fs p = map_of (fs_entries fs) (real_path fs p)"

definition regular_file_size :: "file_system \<Rightarrow> path \<Rightarrow> int" where
  "regular_file_size fs p =
     (case lstat fs p of None \<Rightarrow> 0 | Some f \<Rightarrow> if fi_kind f = RegularFile then fi_size f else 0)"

definition artifacts_dir :: "retention_env \<Rightarrow> path" where
  "artifacts_dir env = rt_root env @ [''artifacts'']"

definition safe_cache_artifact :: "retention_env \<Rightarrow> file_system \<Rightarrow> string \<Rightarrow> path option" where
  "safe_cache_artifact env fs relative =
     (if starts_with relative ''/'' \<or> ''..'' \<in> set (path_parts relative) then None
      else (let p = rt_root env @ path_parts relative in
            if under (fs_resolve fs (artifacts_dir env @ [''property-cache''])) (fs_resolve fs (butlast p))
            then Some p else None))"

definition old_log_files :: "retention_env \<Rightarrow> file_system \<Rightarrow> datetime \<Rightarrow> path list" where
  "old_log_files env fs cutoff =
     (let base = rt_root env @ [''logs''] in
      map fst (filter (\<lambda>(p, f). under base p \<and> p \<noteq> base \<and> fi_kind f = RegularFile \<and> fi_mtime f < cutoff)
        (fs_entries fs)))"

definition split_suffix :: "string \<Rightarrow> string \<times> string" where
  "split_suffix name =
     (case rpartition_at CHR ''.'' name of
        (Some stem, ext) \<Rightarrow> if stem \<noteq> [] \<and> ext \<noteq> [] then (stem, ''.'' @ ext) else (name, [])
      | (None, _) \<Rightarrow> (name, []))"

definition staging_candidates :: "retention_env \<Rightarrow> file_system \<Rightarrow> string list \<Rightarrow> datetime \<Rightarrow> path list" where
  "staging_candidates env fs protected cutoff =
     (let base = artifacts_dir env @ [''resource-staging''] in
      map fst (filter (\<lambda>(p, f). length p = length base + 1 \<and> under base p \<and>
          snd (split_suffix (last p)) \<in> {''.bin'', ''.json''} \<and>
          fst (split_suffix (last p)) \<notin> set protected \<and>
          \<not> is_symlink (fi_kind f) \<and> is_file (fi_kind f) \<and> fi_mtime f < cutoff)
        (fs_entries fs)))"

section \<open>The plan\<close>

definition terminal_job :: "job_row \<Rightarrow> bool" where
  "terminal_job r \<longleftrightarrow> job_row.job_state r \<in> {SUCCEEDED, FAILED, CANCELLED}"

definition retryable_failure :: "job_row \<Rightarrow> bool" where
  "retryable_failure r \<longleftrightarrow> job_row.job_state r = FAILED \<and> job_retryable r"

definition old_job :: "datetime \<Rightarrow> job_row \<Rightarrow> bool" where
  "old_job cutoff r \<longleftrightarrow> terminal_job r \<and> \<not> retryable_failure r \<and> job_updated_at r < cutoff"

text \<open>\<^verbatim>\<open>{json.loads(row["resume_json"]).get("stage_id") ...}\<close>: the strings among the values; a list or
  a dictionary cannot be a member of a set.\<close>

fun protected_stages :: "job_row list \<Rightarrow> string list result" where
  "protected_stages [] = Inr []"
| "protected_stages (r # rs) =
     (if terminal_job r \<and> \<not> retryable_failure r then protected_stages rs
      else (case json_loads (job_resume_json r) of
              Inl e \<Rightarrow> Inl e
            | Inr j \<Rightarrow>
                (case protected_stages rs of
                   Inl e \<Rightarrow> Inl e
                 | Inr ss \<Rightarrow>
                     (case map_of j ''stage_id'' of
                        Some (JStr s) \<Rightarrow> Inr (s # ss)
                      | Some (JList _) \<Rightarrow> Inl (TypeError ''unhashable type: list'')
                      | Some (JObj _) \<Rightarrow> Inl (TypeError ''unhashable type: dict'')
                      | _ \<Rightarrow> Inr ss))))"

definition old_cache_row :: "datetime \<Rightarrow> property_cache_row \<Rightarrow> bool" where
  "old_cache_row cutoff r \<longleftrightarrow> \<not> pc_pinned r \<and> pc_fetched_at r < cutoff"

text \<open>An artifact goes only if every row that references it goes.\<close>

definition unreferenced_artifacts :: "string list \<Rightarrow> property_cache_row list \<Rightarrow> string list" where
  "unreferenced_artifacts keys rows =
     filter (\<lambda>a. list_all (\<lambda>r. pc_response_artifact r = a \<longrightarrow> pc_cache_key r \<in> set keys) rows)
       (rev (remdups (rev (map pc_response_artifact rows))))"

datatype attempt_verdict = Unresolved | CurrentMonth | Removable | Recent

definition has_type :: "usage_event_type \<Rightarrow> usage_event list \<Rightarrow> bool" where
  "has_type t rows \<longleftrightarrow> list_ex (\<lambda>r. ue_event_type r = t) rows"

definition final_status :: "usage_event list \<Rightarrow> string" where
  "final_status rows =
     (if has_type CORRECTION rows \<or> has_type SETTLE rows then ''settled''
      else if has_type UNCERTAIN rows then ''uncertain'' else ''reserved'')"

definition attempt_verdict ::
  "(datetime \<Rightarrow> timedelta) \<Rightarrow> datetime \<Rightarrow> datetime \<Rightarrow> usage_event list \<Rightarrow> attempt_verdict" where
  "attempt_verdict off now cutoff rows =
     (case select_first (\<lambda>r. ue_event_type r = RESERVE) rows of
        None \<Rightarrow> Unresolved
      | Some rv \<Rightarrow>
          if final_status rows \<in> {''reserved'', ''uncertain''} then Unresolved
          else if month_in_zone off (ue_created_at rv) = month_in_zone off now then CurrentMonth
          else if list_all (\<lambda>r. ue_created_at r < cutoff) rows then Removable else Recent)"

definition verdicts ::
  "(datetime \<Rightarrow> timedelta) \<Rightarrow> datetime \<Rightarrow> datetime \<Rightarrow> usage_event list \<Rightarrow> (string \<times> attempt_verdict) list" where
  "verdicts off now cutoff events =
     map (\<lambda>a. (a, attempt_verdict off now cutoff (attempt_rows events a))) (attempt_ids events)"

definition with_verdict :: "attempt_verdict \<Rightarrow> (string \<times> attempt_verdict) list \<Rightarrow> string list" where
  "with_verdict v vs = map fst (filter (\<lambda>x. snd x = v) vs)"

definition make_plan :: "retention_env \<Rightarrow> file_system \<Rightarrow> datetime \<Rightarrow> workspace_db \<Rightarrow> retention_plan result" where
  "make_plan env fs now db =
     (let st = rt_settings env;
          operational = now - days (rs_operational_retention_days st);
          property = now - days (rs_property_cache_retention_days st);
          job_rows = jobs (ws_state db); cache_rows = ws_property_cache db; events = event_rows (ws_state db)
      in
      case calendar_month_cutoff env now (rs_budget_timezone st) (rs_usage_retention_months st) of
        Inl e \<Rightarrow> Inl e
      | Inr cutoff \<Rightarrow>
      (case zone_offset (rt_tzdb env) (rs_budget_timezone st) of
        Inl e \<Rightarrow> Inl e
      | Inr off \<Rightarrow>
      (case protected_stages job_rows of
        Inl e \<Rightarrow> Inl e
      | Inr stages \<Rightarrow>
          let keys = remdups (map pc_cache_key (filter (old_cache_row property) cache_rows));
              artifacts = List.map_filter (safe_cache_artifact env fs) (unreferenced_artifacts keys cache_rows);
              vs = verdicts off now cutoff events; attempts = with_verdict Removable vs;
              logs = old_log_files env fs operational; staging = staging_candidates env fs stages operational
          in Inr \<lparr>pn_now = now, pn_operational_cutoff = operational, pn_property_cache_cutoff = property,
                  pn_usage_cutoff = cutoff, pn_job_ids = map job_id (filter (old_job operational) job_rows),
                  pn_usage_attempt_ids = attempts,
                  pn_usage_event_count = length (filter (\<lambda>r. ue_attempt_id r \<in> set attempts) events),
                  pn_cache_keys = keys, pn_cache_artifacts = artifacts, pn_log_files = logs,
                  pn_staging_files = staging,
                  pn_candidate_file_bytes =
                    sum_list (map (regular_file_size fs) (remdups (artifacts @ logs @ staging))),
                  pn_protected_active_jobs = length (filter (\<lambda>r. \<not> terminal_job r) job_rows),
                  pn_protected_unresolved_usage_attempts = length (with_verdict Unresolved vs),
                  pn_protected_current_month_usage_attempts = length (with_verdict CurrentMonth vs),
                  pn_protected_pinned_cache_entries = length (filter pc_pinned cache_rows)\<rparr>)))"

section \<open>Deletion\<close>

definition usage_retention_key :: string where
  "usage_retention_key = ''usage_retention_history''"

definition previous_floor :: "json_text option \<Rightarrow> string result" where
  "previous_floor existing =
     (case existing of
        Some (Dumped j) \<Rightarrow>
          (case map_of j ''history_pruned_before'' of
             Some (JStr s) \<Rightarrow> Inr s
           | Some v \<Rightarrow> if truthy v then Inl (TypeError ''not supported between instances'') else Inr []
           | None \<Rightarrow> Inr [])
      | _ \<Rightarrow> Inr [])"

definition record_usage_floor ::
  "retention_plan \<Rightarrow> application_setting_row list \<Rightarrow> application_setting_row list result" where
  "record_usage_floor plan rows =
     (let existing = map_option aps_value_json (select_first (\<lambda>r. aps_key r = usage_retention_key) rows) in
      case previous_floor existing of
        Inl e \<Rightarrow> Inl e
      | Inr prev \<Rightarrow>
          (let value = Dumped [(''history_pruned_before'', JStr (max prev (isoformat (pn_usage_cutoff plan)))),
                               (''last_pruned_at'', JStr (isoformat (pn_now plan)))]
           in Inr (if rowcount (\<lambda>r. aps_key r = usage_retention_key) rows > 0
                   then update_where (\<lambda>r. aps_key r = usage_retention_key)
                     (\<lambda>r. r\<lparr>aps_value_json := value, aps_updated_at := pn_now plan\<rparr>) rows
                   else rows @ [\<lparr>aps_key = usage_retention_key, aps_value_json = value, aps_updated_at = pn_now plan\<rparr>])))"

definition delete_rows_body :: "retention_plan \<Rightarrow> (workspace_db, removed_rows) tx" where
  "delete_rows_body plan db =
     (let st = ws_state db;
          job_gone = (\<lambda>r. job_id r \<in> set (pn_job_ids plan));
          event_gone = (\<lambda>r. ue_attempt_id r \<in> set (pn_usage_attempt_ids plan));
          cache_gone = (\<lambda>r. pc_cache_key r \<in> set (pn_cache_keys plan))
      in case (if pn_usage_attempt_ids plan = [] then Inr (ws_application_settings db)
               else record_usage_floor plan (ws_application_settings db)) of
           Inl e \<Rightarrow> Inl e
         | Inr settings \<Rightarrow>
             Inr (\<lparr>rm_jobs = rowcount job_gone (jobs st), rm_usage_events = rowcount event_gone (usage_events st),
                   rm_cache_entries = rowcount cache_gone (ws_property_cache db)\<rparr>,
                  db\<lparr>ws_state := st\<lparr>jobs := delete_where job_gone (jobs st),
                                     usage_events := delete_where event_gone (usage_events st)\<rparr>,
                     ws_property_cache := delete_where cache_gone (ws_property_cache db),
                     ws_application_settings := settings\<rparr>))"

definition delete_database_rows :: "retention_plan \<Rightarrow> workspace_db \<Rightarrow> removed_rows result \<times> workspace_db" where
  "delete_database_rows plan db = transaction (delete_rows_body plan) db"

text \<open>One group of files: how many went, their bytes, and how many could not be unlinked.\<close>

fun unlink_files :: "path list \<Rightarrow> file_system \<Rightarrow> (nat \<times> int \<times> nat) \<times> file_system" where
  "unlink_files [] fs = ((0, 0, 0), fs)"
| "unlink_files (p # ps) fs =
     (case lstat fs p of
        None \<Rightarrow> unlink_files ps fs
      | Some f \<Rightarrow>
          if is_symlink (fi_kind f) \<or> \<not> is_file (fi_kind f) then unlink_files ps fs
          else if fi_removable f
          then (case unlink_files ps (fs\<lparr>fs_entries := filter (\<lambda>e. fst e \<noteq> real_path fs p) (fs_entries fs)\<rparr>) of
                  ((n, b, k), fs') \<Rightarrow> ((n + 1, b + regular_file_size fs p, k), fs'))
          else (case unlink_files ps fs of ((n, b, k), fs') \<Rightarrow> ((n, b, k + 1), fs')))"

definition delete_files :: "retention_plan \<Rightarrow> file_system \<Rightarrow> removed_files \<times> file_system" where
  "delete_files plan fs =
     (case unlink_files (pn_cache_artifacts plan) fs of ((n1, b1, k1), fs1) \<Rightarrow>
      case unlink_files (pn_log_files plan) fs1 of ((n2, b2, k2), fs2) \<Rightarrow>
      case unlink_files (pn_staging_files plan) fs2 of ((n3, b3, k3), fs3) \<Rightarrow>
        (\<lparr>rf_cache_artifacts = n1, rf_log_files = n2, rf_staging_files = n3,
          rf_file_bytes = b1 + b2 + b3, rf_failures = k1 + k2 + k3\<rparr>, fs3))"

definition no_rows :: removed_rows where
  "no_rows = \<lparr>rm_jobs = 0, rm_usage_events = 0, rm_cache_entries = 0\<rparr>"

definition no_files :: removed_files where
  "no_files = \<lparr>rf_cache_artifacts = 0, rf_log_files = 0, rf_staging_files = 0, rf_file_bytes = 0, rf_failures = 0\<rparr>"

definition make_result :: "retention_plan \<Rightarrow> bool \<Rightarrow> removed_rows \<Rightarrow> removed_files \<Rightarrow> retention_result" where
  "make_result plan applied removed files =
     \<lparr>rr_applied = applied, rr_generated_at = isoformat (pn_now plan),
      rr_operational_cutoff = isoformat (pn_operational_cutoff plan),
      rr_property_cache_cutoff = isoformat (pn_property_cache_cutoff plan),
      rr_usage_cutoff = isoformat (pn_usage_cutoff plan),
      rr_candidate_jobs = length (pn_job_ids plan),
      rr_candidate_usage_attempts = length (pn_usage_attempt_ids plan),
      rr_candidate_usage_events = pn_usage_event_count plan,
      rr_candidate_cache_entries = length (pn_cache_keys plan),
      rr_candidate_cache_artifacts = length (pn_cache_artifacts plan),
      rr_candidate_log_files = length (pn_log_files plan),
      rr_candidate_file_bytes = pn_candidate_file_bytes plan,
      rr_candidate_staging_files = length (pn_staging_files plan),
      rr_removed_staging_files = rf_staging_files files,
      rr_removed_jobs = rm_jobs removed,
      rr_removed_usage_attempts =
        (if rm_usage_events removed \<noteq> 0 then length (pn_usage_attempt_ids plan) else 0),
      rr_removed_usage_events = rm_usage_events removed,
      rr_removed_cache_entries = rm_cache_entries removed,
      rr_removed_cache_artifacts = rf_cache_artifacts files,
      rr_removed_log_files = rf_log_files files,
      rr_removed_file_bytes = rf_file_bytes files,
      rr_protected_active_jobs = pn_protected_active_jobs plan,
      rr_protected_unresolved_usage_attempts = pn_protected_unresolved_usage_attempts plan,
      rr_protected_current_month_usage_attempts = pn_protected_current_month_usage_attempts plan,
      rr_protected_pinned_cache_entries = pn_protected_pinned_cache_entries plan,
      rr_file_delete_failures = rf_failures files,
      rr_usage_history_pruned_before =
        (if applied \<and> rm_usage_events removed \<noteq> 0 then Some (isoformat (pn_usage_cutoff plan)) else None)\<rparr>"

section \<open>A retention run\<close>

record retention_world =
  rw_os :: os_state
  rw_db :: workspace_db
  rw_fs :: file_system

definition as_retention_error :: "error \<Rightarrow> error" where
  "as_retention_error e =
     (case e of RuntimeError m \<Rightarrow> RetentionError m | LockBusy m \<Rightarrow> RetentionError m | _ \<Rightarrow> e)"

text \<open>The work behind the barrier: plan, delete the rows, then the files.\<close>

definition apply_retention ::
  "retention_env \<Rightarrow> datetime \<Rightarrow> retention_world \<Rightarrow> retention_result result \<times> retention_world" where
  "apply_retention env now w =
     (case make_plan env (rw_fs w) now (rw_db w) of
        Inl e \<Rightarrow> (Inl e, w)
      | Inr plan \<Rightarrow>
          (case delete_database_rows plan (rw_db w) of
             (Inl e, db') \<Rightarrow> (Inl e, w\<lparr>rw_db := db'\<rparr>)
           | (Inr removed, db') \<Rightarrow>
               (case delete_files plan (rw_fs w) of
                  (files, fs') \<Rightarrow>
                    (Inr (make_result plan True removed files), w\<lparr>rw_db := db', rw_fs := fs'\<rparr>))))"

definition run_retention ::
  "retention_env \<Rightarrow> maintenance_barrier \<Rightarrow> bool \<Rightarrow> datetime \<Rightarrow> retention_world \<Rightarrow>
   retention_result result \<times> retention_world" where
  "run_retention env b app now w =
     (if \<not> app
      then (case make_plan env (rw_fs w) now (rw_db w) of
              Inl e \<Rightarrow> (Inl e, w)
            | Inr plan \<Rightarrow> (Inr (make_result plan False no_rows no_files), w))
      else (case barrier_enter b (rt_uuid env) ''retention'' now (rw_os w) (ws_state (rw_db w)) of
              (Inl e, _, os', st') \<Rightarrow>
                (Inl (as_retention_error e), w\<lparr>rw_os := os', rw_db := (rw_db w)\<lparr>ws_state := st'\<rparr>\<rparr>)
            | (Inr _, b', os', st') \<Rightarrow>
                (case apply_retention env now (w\<lparr>rw_os := os', rw_db := (rw_db w)\<lparr>ws_state := st'\<rparr>\<rparr>) of
                   (r, w') \<Rightarrow>
                     (case barrier_leave b' (rw_os w') (ws_state (rw_db w')) of
                        (Inl e, _, os'', st'') \<Rightarrow> (Inl e, w'\<lparr>rw_os := os'', rw_db := (rw_db w')\<lparr>ws_state := st''\<rparr>\<rparr>)
                      | (Inr _, _, os'', st'') \<Rightarrow> (r, w'\<lparr>rw_os := os'', rw_db := (rw_db w')\<lparr>ws_state := st''\<rparr>\<rparr>)))))"

definition usage_history_pruned_before :: "workspace_db \<Rightarrow> string option" where
  "usage_history_pruned_before db =
     (case select_first (\<lambda>r. aps_key r = usage_retention_key) (ws_application_settings db) of
        None \<Rightarrow> None
      | Some r \<Rightarrow>
          (case aps_value_json r of
             Malformed \<Rightarrow> None
           | Dumped j \<Rightarrow>
               (case map_of j ''history_pruned_before'' of Some (JStr s) \<Rightarrow> Some s | _ \<Rightarrow> None)))"

end
