(* ===== verification/Barrier_Claims.thy ===== *)
theory Barrier_Claims
  imports Barrier Jobs_Props Ledger_Claims
begin

text \<open>
  The maintenance barrier against the two services it guards: entering leaves the workspace
  quiescent, while the barrier is held no operation of either service can make it busy again, and a
  barrier whose process died does not block anything.
\<close>

section \<open>Quiescence\<close>

definition busy_job :: "job_row \<Rightarrow> bool" where
  "busy_job r \<longleftrightarrow> st r \<in> {QUEUED, RUNNING, CANCEL_REQUESTED}"

definition barrier_held :: "engine \<Rightarrow> os_state \<Rightarrow> state_db \<Rightarrow> bool" where
  "barrier_held e os db \<longleftrightarrow>
     maintenance_flag db \<and> (\<exists>rt. workspace_root e = Inr rt \<and> maintenance_lock_path rt \<in> set (os_locked os))"

definition quiescent :: "state_db \<Rightarrow> bool" where
  "quiescent db \<longleftrightarrow> (\<forall>r \<in> set (jobs db). \<not> busy_job r) \<and> paid_call_leases db = []"

lemma first_truthy_False:
  assumes "\<not> first_truthy col p rows" and "\<And>r. r \<in> set rows \<Longrightarrow> col r \<noteq> []"
  shows "\<forall>r \<in> set rows. \<not> p r"
  using assms by (auto simp: first_truthy_def select_first_None split: option.splits dest: select_first_Some)

lemma enter_success:
  assumes "barrier_enter b uid operation now os db = (Inr (), b', os', db')"
  obtains n db1 where "lease_acquire (mb_lease b) os = Inr (mb_lease b', os')"
    "recover_interrupted (mb_engine b) os' now db = (Inr n, db1)"
    "enter_body (mb_engine b) os' uid operation now db1 = Inr ((), db')" "mb_engine b' = mb_engine b"
  using assms unfolding barrier_enter_def
  by (auto simp: transaction_commit split: sum.splits prod.splits)

text \<open>
  C23: Entering the barrier leaves the workspace quiescent. On success the maintenance lock is held,
  the flag is raised with the operation's name, no job is queued, running or cancelling, no paid call
  is in flight, and both tables have only changed by recovery; a second owner is turned away.
\<close>

theorem barrier_enter_quiescent:
  assumes "ledger_inv db" and "jobs_inv db" and "\<forall>r \<in> set (jobs db). job_id r \<noteq> []"
    and "\<forall>l \<in> set (paid_call_leases db). pl_attempt_id l \<noteq> []" and "maintenance_state db \<noteq> None"
    and "barrier_new e = Inr b"
    and "barrier_enter b uid operation now os db = (Inr (), b', os', db')"
  shows "quiescent db' \<and> barrier_held e os' db' \<and> ledger_inv db' \<and> jobs_inv db' \<and> recovers db db' \<and>
    jobs db' = map (recovered (owner_alive e os') now) (jobs db) \<and>
    (\<exists>err. barrier_enter b uid2 operation2 now2 os' db' = (Inl (LockBusy err), b, os', db'))"
proof -
  obtain rt where rt: "workspace_root e = Inr rt" "mb_engine b = e" "mb_lease b = file_lease_new (maintenance_lock_path rt)"
    using assms(6) by (auto simp: barrier_new_def split: sum.splits)
  obtain n db1 where acq: "lease_acquire (mb_lease b) os = Inr (mb_lease b', os')"
    and rj: "recover_interrupted e os' now db = (Inr n, db1)"
    and body: "enter_body e os' uid operation now db1 = Inr ((), db')"
    using enter_success [OF assms(7)] rt(2) by metis
  note rows = recover_interrupted_rows [OF assms(2) rj]
  have inv1: "ledger_inv db1" using assms(1) ledger_inv_cong [OF rows(2,3)] by simp
  from body obtain m db2 where noj: "\<not> first_truthy job_id (\<lambda>r. busy_job r) (jobs db1)"
    and ru: "recover_usage_attempts (owner_alive e os') uid now db1 = Inr (m, db2)"
    and nol: "\<not> first_truthy pl_attempt_id (\<lambda>_. True) (paid_call_leases db2)"
    and db': "db' = set_maintenance operation now db2"
    unfolding enter_body_def busy_job_def by (auto split: if_splits sum.splits prod.splits)
  from recover_usage_correct [OF ru inv1] have inv2: "ledger_inv db2" and rec: "recovers db1 db2"
    and ol: "only_ledger_changed db1 db2" by (simp_all add: recovery_result_def)
  have fr: "usage_events db' = usage_events db2" "paid_call_leases db' = paid_call_leases db2" "jobs db' = jobs db1"
    using ol by (simp_all add: db' set_maintenance_def only_ledger_changed_def)
  have "pl_attempt_id l \<noteq> []" if "l \<in> set (paid_call_leases db2)" for l
  proof -
    have "has_status db2 (pl_attempt_id l) ''reserved''" using leases_reserved [OF inv2] that by blast
    then have "has_status db1 (pl_attempt_id l) ''reserved''" by (rule recovers_reserved [OF rec])
    then show ?thesis using leases_reserved [OF inv1] assms(4) rows(3) by (metis imageE)
  qed
  then have none: "paid_call_leases db2 = []" using first_truthy_False [OF nol] by (cases "paid_call_leases db2") auto
  have "\<forall>r \<in> set (jobs db1). \<not> busy_job r"
    by (rule first_truthy_False [OF noj]) (use assms(3) rows(1) in auto)
  with none fr have "quiescent db'" by (simp add: quiescent_def)
  moreover have "maintenance_flag db'"
    using assms(5) rows(4) ol by (auto simp: db' set_maintenance_def maintenance_flag_def only_ledger_changed_def)
  moreover have lock: "maintenance_lock_path rt \<in> set (os_locked os')"
    using acq rt(3) by (auto simp: lease_acquire_def file_lease_new_def split: if_splits)
  moreover have "ledger_inv db'" "recovers db db'"
    using inv2 ledger_inv_cong [OF fr(1,2)] rec
    by (simp_all add: recovers_def ledger_abs_cong [OF fr(1)] ledger_abs_cong [OF rows(2)])
  moreover have "jobs_inv db'"
    using recover_interrupted_evolves [OF assms(2), of e os' now] rj fr(3) by (simp add: jobs_evolve_def jobs_inv_def)
  moreover have "\<exists>err. barrier_enter b uid2 operation2 now2 os' db' = (Inl (LockBusy err), b, os', db')"
    using lock rt(3) by (simp add: barrier_enter_def lease_acquire_def file_lease_new_def)
  ultimately show ?thesis using rt(1) fr(3) rows(1) by (auto simp: barrier_held_def)
qed

definition maintained_db :: state_db where
  "maintained_db = empty_db\<lparr>maintenance_state := Some \<lparr>ms_active = False, ms_operation = None, ms_started_at = None\<rparr>\<rparr>"

definition sample_barrier :: maintenance_barrier where
  "sample_barrier = \<lparr>mb_engine = proc_engine sample_process,
     mb_lease = file_lease_new (maintenance_lock_path ''/w'')\<rparr>"

definition sample_entered :: "unit result \<times> maintenance_barrier \<times> os_state \<times> state_db" where
  "sample_entered = barrier_enter sample_barrier (\<lambda>_. ''u'') ''backup'' 3 idle_os maintained_db"

lemma sample_entered_ok:
  "barrier_enter sample_barrier (\<lambda>_. ''u'') ''backup'' 3 idle_os maintained_db =
     (Inr (), fst (snd sample_entered), fst (snd (snd sample_entered)), snd (snd (snd sample_entered)))"
proof -
  have "fst sample_entered = Inr ()" by code_simp
  then show ?thesis by (simp add: sample_entered_def prod_eq_iff)
qed

lemma maintained_db_ok:
  "ledger_inv maintained_db" "jobs_inv maintained_db" "jobs maintained_db = []" "paid_call_leases maintained_db = []"
  "maintenance_state maintained_db \<noteq> None" "barrier_new (proc_engine sample_process) = Inr sample_barrier"
proof -
  show "ledger_inv maintained_db"
    using ledger_inv_cong [of maintained_db empty_db] ledger_inv_empty_db by (simp add: maintained_db_def)
  show "jobs_inv maintained_db"
    using jobs_inv_cong [of maintained_db empty_db] by (simp add: maintained_db_def)
qed (simp_all add: maintained_db_def empty_db_def barrier_new_def workspace_root_def sample_process_def
      sample_barrier_def)

theorem barrier_enter_quiescent_witness:
  "quiescent (snd (snd (snd sample_entered))) \<and>
   barrier_held (proc_engine sample_process) (fst (snd (snd sample_entered))) (snd (snd (snd sample_entered)))"
  using barrier_enter_quiescent [OF maintained_db_ok(1,2) _ _ maintained_db_ok(5,6) sample_entered_ok]
  by (simp add: maintained_db_ok)

section \<open>Work under a held barrier\<close>

datatype workspace_op = LedgerOp ledger_op | JobOp job_op

fun workspace_step :: "int \<Rightarrow> os_state \<times> state_db \<Rightarrow> workspace_op \<Rightarrow> os_state \<times> state_db" where
  "workspace_step limit s (LedgerOp x) = ledger_step limit s x"
| "workspace_step limit s (JobOp x) = job_step s x"

text \<open>
  Operations by processes of the workspace, while the process that holds the barrier lives: other
  processes may come and go, but the maintenance lock stays taken.
\<close>

definition keeps_lock :: "engine \<Rightarrow> os_state \<Rightarrow> bool" where
  "keeps_lock e os \<longleftrightarrow> (\<exists>rt. workspace_root e = Inr rt \<and> maintenance_lock_path rt \<in> set (os_locked os))"

fun under_barrier :: "engine \<Rightarrow> workspace_op \<Rightarrow> bool" where
  "under_barrier e (LedgerOp (Reserve env now rq)) \<longleftrightarrow> proc_engine (le_process env) = e"
| "under_barrier e (LedgerOp (OsChanges os')) \<longleftrightarrow> keeps_lock e os'"
| "under_barrier e (LedgerOp _) \<longleftrightarrow> True"
| "under_barrier e (JobOp (Create env jt target stage res)) \<longleftrightarrow> proc_engine (je_process env) = e"
| "under_barrier e (JobOp (Claim env jid worker secs)) \<longleftrightarrow> proc_engine (je_process env) = e"
| "under_barrier e (JobOp (RequestCancel env jid)) \<longleftrightarrow> proc_engine (je_process env) = e"
| "under_barrier e (JobOp (Resume env jid)) \<longleftrightarrow> proc_engine (je_process env) = e"
| "under_barrier e (JobOp (ProcessesChange os')) \<longleftrightarrow> keeps_lock e os'"
| "under_barrier e (JobOp _) \<longleftrightarrow> True"

definition maintained :: "engine \<Rightarrow> os_state \<times> state_db \<Rightarrow> bool" where
  "maintained e s \<longleftrightarrow>
     ledger_inv (snd s) \<and> jobs_inv (snd s) \<and> quiescent (snd s) \<and> barrier_held e (fst s) (snd s)"

lemma process_owner_locks:
  "process_owner p rnd os = Inr (owner, os') \<Longrightarrow> set (os_locked os) \<subseteq> set (os_locked os')"
  by (erule process_owner_cases) auto

lemma barrier_held_active:
  "barrier_held e os db \<Longrightarrow> maintenance_active e os db = Inr (True, db)"
  by (auto simp: barrier_held_def intro: maintenance_active_held)

lemma keeps_lock_mono: "keeps_lock e os \<Longrightarrow> set (os_locked os) \<subseteq> set (os_locked os') \<Longrightarrow> keeps_lock e os'"
  by (auto simp: keeps_lock_def)

lemma barrier_held_iff: "barrier_held e os db \<longleftrightarrow> maintenance_flag db \<and> keeps_lock e os"
  by (auto simp: barrier_held_def keeps_lock_def)

lemma reserve_under_barrier:
  assumes "barrier_held (proc_engine (le_process env)) os db"
  shows "snd (snd (reserve env now rq os db)) = db \<and> isl (fst (reserve env now rq os db)) \<and>
    set (os_locked os) \<subseteq> set (os_locked (fst (snd (reserve env now rq os db))))"
proof -
  have "barrier_held (proc_engine (le_process env)) os' db"
    if "process_owner (le_process env) (le_owner_random env) os = Inr (owner, os')" for owner os'
    using assms keeps_lock_mono [OF _ process_owner_locks [OF that]] by (simp add: barrier_held_iff)
  then show ?thesis
    unfolding reserve_def
    by (auto simp: transaction_def reserve_body_def barrier_held_active
        dest: process_owner_locks split: sum.splits prod.splits)
qed

lemma admissions_under_barrier:
  assumes "barrier_held (proc_engine (je_process env)) os db"
  shows "snd (create_job env jt target stage res os db) = (os, db)"
    and "snd (claim_job env jid worker secs os db) = (os, db)"
    and "snd (request_cancel env jid os db) = (os, db)"
    and "snd (resume_job env jid os db) = (os, db)"
  using barrier_held_active [OF assms]
  by (simp_all add: create_job_def claim_job_def request_cancel_def resume_job_def os_transaction_def
      create_body_def claim_body_def request_cancel_body_def resume_body_def assert_no_maintenance_def)

lemma owned_update_quiescent:
  assumes "quiescent db" and "set sts \<subseteq> {RUNNING, CANCEL_REQUESTED}"
  shows "snd (snd (owned_update env jid worker sts f msg os db)) = db"
proof (cases "worker_owner env worker os")
  case (Inr x)
  obtain owner os' where x: "x = (owner, os')" by (cases x)
  have "\<not> owned_by jid owner sts r" if "r \<in> set (jobs db)" for r
    using assms that by (auto simp: owned_by_def quiescent_def busy_job_def)
  then have "update_jobs (owned_by jid owner sts) f db = db" by (simp add: update_jobs_def update_where_none)
  then show ?thesis by (simp add: owned_update_def Inr x Let_def)
qed (simp add: owned_update_def)

lemma owned_update_lock:
  assumes "keeps_lock e os"
  shows "keeps_lock e (fst (snd (owned_update env jid worker sts f msg os db)))"
proof (cases "worker_owner env worker os")
  case (Inr x)
  obtain owner os' where x: "x = (owner, os')" by (cases x)
  have "set (os_locked os) \<subseteq> set (os_locked os')"
    using Inr x process_owner_locks by (fastforce simp: worker_owner_def split: sum.splits prod.splits)
  with keeps_lock_mono [OF assms] show ?thesis by (simp add: owned_update_def Inr x Let_def)
qed (simp add: owned_update_def assms)

lemma recover_jobs_quiescent:
  assumes "jobs_inv db" and "quiescent db"
  shows "snd (recover_interrupted e os now db) = db"
proof -
  have "filter (\<lambda>r. recoverable_state (st r)) (jobs db) = []"
    using assms(2) by (auto simp: filter_empty_conv quiescent_def busy_job_def recoverable_state_def)
  then show ?thesis by (simp add: recover_interrupted_def transaction_def)
qed

lemma job_step_maintained:
  assumes "maintained e s" and "under_barrier e (JobOp x)"
  shows "maintained e (job_step s x)"
proof -
  obtain os db where s: "s = (os, db)" by (cases s)
  have q: "quiescent db" and j: "jobs_inv db" and b: "barrier_held e os db" using assms(1) by (simp_all add: maintained_def s)
  have "snd (job_step s x) = db \<and> keeps_lock e (fst (job_step s x))"
  proof (cases x)
    case (ProcessesChange os')
    with assms(2) show ?thesis by (simp add: s)
  next
    case (RecoverJobs e' now)
    with recover_jobs_quiescent [OF j q] b show ?thesis by (simp add: s barrier_held_iff)
  next
    case (Checkpoint env jid worker stage current ptotal res)
    then show ?thesis
      using b by (simp add: s checkpoint_job_def barrier_held_iff owned_update_quiescent [OF q] owned_update_lock)
  qed (use assms(2) b in
      \<open>simp_all add: s admissions_under_barrier barrier_held_iff heartbeat_job_def finish_cancel_def
        succeed_job_def fail_job_def finish_owned_def owned_update_quiescent [OF q] owned_update_lock\<close>)
  then show ?thesis using assms(1) by (auto simp: maintained_def s barrier_held_iff)
qed

text \<open>The ledger operations other than an admission leave the maintenance row alone.\<close>

lemma ledger_keeps_maintenance:
  assumes "ledger_inv db" and "\<And>env now rq. x \<noteq> Reserve env now rq"
  shows "maintenance_state (snd (ledger_step limit (os, db) x)) = maintenance_state db"
proof -
  have rec: "maintenance_state (snd (recover_interrupted_usage env os now db)) = maintenance_state db" for env now
    unfolding recover_interrupted_usage_def
    by (rule transaction_invariant [where P = "\<lambda>d. maintenance_state d = maintenance_state db"], simp)
      (drule recover_usage_correct [OF _ assms(1)], simp add: recovery_result_def only_ledger_changed_def)
  show ?thesis
  proof (cases x)
    case (Finish t uid now rsv amount i w snap p q)
    have "maintenance_state (snd (finish_call t uid now rsv amount i w snap p q db)) = maintenance_state db"
      unfolding finish_call_transaction
    proof (rule transaction_invariant [where P = "\<lambda>d. maintenance_state d = maintenance_state db"])
      fix u db'
      assume fin: "finish_body uid now rsv (if t = SETTLE then SETTLE else UNCERTAIN)
          (if t = SETTLE then amount else Dec (ur_reserved_usd rsv))
          (if t = SETTLE then i else None) (if t = SETTLE then w else None) snap p q db = Inr (u, db')"
      show "maintenance_state db' = maintenance_state db"
        by (rule finish_effect [OF assms(1) _ fin]) (simp_all add: only_ledger_changed_def)
    qed simp
    with Finish show ?thesis by simp
  next
    case (Correct env now a actual reason i w)
    have "maintenance_state (snd (correct_uncertain env os now a actual reason i w db)) = maintenance_state db"
      unfolding correct_uncertain_def
      by (auto split: decimal.splits intro!: transaction_invariant [where P = "\<lambda>d. maintenance_state d = maintenance_state db"]
          elim!: correct_effect [OF assms(1)] simp: only_ledger_changed_def)
    with Correct show ?thesis by simp
  next
    case (Summary env now cap zone pruned)
    then show ?thesis
      using rec [of env now] by (auto simp: usage_summary_of_def split: prod.splits sum.splits)
  next
    case (Unresolved env now)
    then show ?thesis
      using rec [of env now] by (auto simp: unresolved_attempts_def Let_def split: prod.splits sum.splits)
  qed (use assms rec in auto)
qed

lemma ledger_step_maintained:
  assumes "maintained e s" and "under_barrier e (LedgerOp x)"
  shows "maintained e (ledger_step limit s x)"
proof -
  obtain os db where s: "s = (os, db)" by (cases s)
  have q: "quiescent db" and j: "jobs_inv db" and l: "ledger_inv db" and b: "barrier_held e os db"
    using assms(1) by (simp_all add: maintained_def s)
  show ?thesis
  proof (cases "\<exists>env now rq. x = Reserve env now rq")
    case True
    then obtain env now rq where x: "x = Reserve env now rq" by blast
    with assms(2) reserve_under_barrier [of env os db now "rq\<lparr>rq_max_concurrent := limit\<rparr>"] b
    have "snd (ledger_step limit s x) = db" "keeps_lock e (fst (ledger_step limit s x))"
      by (auto simp: s barrier_held_iff intro: keeps_lock_mono)
    with assms(1) show ?thesis by (simp add: maintained_def s barrier_held_iff)
  next
    case False
    then have m: "maintenance_state (snd (ledger_step limit s x)) = maintenance_state db"
      unfolding s by (intro ledger_keeps_maintenance [OF l]) blast
    have "lease_bound 0 db" using l q by (simp add: lease_bound_def quiescent_def)
    with False have "lease_bound 0 (snd (ledger_step limit s x))"
      by (cases x) (auto simp: s operations_lease_bound)
    moreover have "jobs (snd (ledger_step limit s x)) = jobs db"
      using ledger_step_evolves [of s limit x] l by (simp add: s ledger_evolves_def)
    moreover have "keeps_lock e (fst (ledger_step limit s x))"
      using False assms(2) b by (cases x) (auto simp: s barrier_held_iff)
    ultimately show ?thesis
      using q j b m by (simp add: maintained_def lease_bound_def quiescent_def jobs_inv_def barrier_held_iff maintenance_flag_def)
  qed
qed

text \<open>
  C3: While the barrier is held, the workspace stays quiescent. Whatever operations of the ledger and
  of the job service any process of the workspace runs, in any order, and whatever other processes
  start or die, no job becomes queued or running, no paid call is admitted, and the flag stays
  raised until its owner lets go.
\<close>

theorem barrier_excludes_work:
  assumes "maintained e (os, db)" and "list_all (under_barrier e) ops"
    and "run (workspace_step limit) (os, db) ops = (os', db')"
  shows "quiescent db' \<and> barrier_held e os' db' \<and> ledger_inv db' \<and> jobs_inv db'"
proof -
  have "maintained e (run (workspace_step limit) s ops)" if "maintained e s" "list_all (under_barrier e) ops" for s ops
    using that
  proof (induction ops arbitrary: s)
    case (Cons x ops)
    then have "maintained e (workspace_step limit s x)"
      by (cases x) (auto intro: ledger_step_maintained job_step_maintained)
    with Cons show ?case by simp
  qed simp
  from this [OF assms(1,2)] assms(3) show ?thesis by (simp add: maintained_def)
qed

lemma sample_maintained:
  "maintained (proc_engine sample_process) (fst (snd (snd sample_entered)), snd (snd (snd sample_entered)))"
proof -
  let ?db = "snd (snd (snd sample_entered))"
  have "usage_events ?db = []" "paid_call_leases ?db = []" "jobs ?db = []" "maintenance_flag ?db"
    "maintenance_lock_path ''/w'' \<in> set (os_locked (fst (snd (snd sample_entered))))" by code_simp+
  moreover from this have "ledger_inv ?db"
    using ledger_inv_cong [of ?db empty_db] ledger_inv_empty_db by (simp add: empty_db_def)
  ultimately show ?thesis
    by (simp add: maintained_def jobs_inv_def one_active_def quiescent_def barrier_held_def
        workspace_root_def sample_process_def)
qed

theorem barrier_excludes_work_witness:
  "quiescent (snd (run (workspace_step 2) (snd (snd sample_entered)) [LedgerOp (Reserve sample_env 0 sample_request)]))"
proof -
  have "list_all (under_barrier (proc_engine sample_process)) [LedgerOp (Reserve sample_env 0 sample_request)]"
    by (simp add: sample_env_def)
  from barrier_excludes_work [OF sample_maintained this prod.collapse [symmetric], of 2] show ?thesis
    by (simp only: prod.collapse)
qed

text \<open>
  A barrier whose process died blocks nothing. If the flag is raised but no live process holds
  the maintenance lock, the next admission finds no maintenance, clears the flag and goes on; and
  only the owner of the lock can take the barrier down by leaving it, which clears the flag and frees
  the lock.
\<close>

theorem stale_barrier_cleared:
  assumes "workspace_root e = Inr rt" and "maintenance_lock_path rt \<notin> set (os_locked os)"
  shows "(\<exists>db'. maintenance_active e os db = Inr (False, db') \<and> \<not> maintenance_flag db' \<and>
      usage_events db' = usage_events db \<and> jobs db' = jobs db \<and> paid_call_leases db' = paid_call_leases db) \<and>
    (\<forall>b. \<not> fl_held (mb_lease b) \<longrightarrow> (\<exists>err. barrier_leave b os db = (Inl (RuntimeError err), b, os, db))) \<and>
    (\<forall>b os1 os2 b' db2 r. barrier_leave b os1 db = (Inr r, b', os2, db2) \<longrightarrow>
      \<not> maintenance_flag db2 \<and> \<not> fl_held (mb_lease b') \<and> fl_held (mb_lease b) \<and>
      os_locked os2 = remove1 (fl_path (mb_lease b)) (os_locked os1))"
proof (intro conjI allI impI)
  show "\<exists>db'. maintenance_active e os db = Inr (False, db') \<and> \<not> maintenance_flag db' \<and>
      usage_events db' = usage_events db \<and> jobs db' = jobs db \<and> paid_call_leases db' = paid_call_leases db"
    using assms by (simp add: maintenance_active_def lease_acquire_def file_lease_new_def)
qed (auto simp: barrier_leave_def lease_release_def split: if_splits)

theorem stale_barrier_cleared_witness:
  "\<exists>db'. maintenance_active (proc_engine sample_process) idle_os
     (set_maintenance ''backup'' 3 maintained_db) = Inr (False, db') \<and> \<not> maintenance_flag db'"
  using stale_barrier_cleared [of "proc_engine sample_process" "''/w''" idle_os "set_maintenance ''backup'' 3 maintained_db"]
  by (auto simp: workspace_root_def sample_process_def idle_os_def)

end
