(* ===== verification/Retention_Claims.thy ===== *)
theory Retention_Claims
  imports Retention Barrier_Claims
begin

text \<open>
  The promises of a retention run: it deletes nothing that the budget, a worker or a remaining cache
  row still needs, its preview counts the rows that the plan removes, the recorded pruning floor only moves forward, and the
  barrier is always released.
\<close>

section \<open>Deleting attempts from the ledger\<close>

lemma select_first_delete:
  "(\<And>r. p r \<Longrightarrow> \<not> q r) \<Longrightarrow> select_first p (delete_where q t) = select_first p t"
  by (induction t) (auto simp: delete_where_def)

lemma select_first_deleted: "(\<And>r. p r \<Longrightarrow> q r) \<Longrightarrow> select_first p (delete_where q t) = None"
  by (auto simp: select_first_None)

definition drop_attempts :: "string set \<Rightarrow> usage_event list \<Rightarrow> usage_event list" where
  "drop_attempts S es = delete_where (\<lambda>r. ue_attempt_id r \<in> S) es"

lemma event_at_drop:
  assumes "usage_events db' = drop_attempts S (usage_events db)"
  shows "event_at db' a t = (if a \<in> S then None else event_at db a t)"
  using assms by (auto simp: event_at_def drop_attempts_def intro: select_first_delete select_first_deleted)

lemma ledger_abs_drop:
  assumes keys: "keys_distinct db" and ev: "usage_events db' = drop_attempts S (usage_events db)"
  shows "keys_distinct db'" and "ledger_abs db' a = (if a \<in> S then None else ledger_abs db a)"
proof -
  show keys': "keys_distinct db'"
    using keys by (simp add: keys_distinct_def ev drop_attempts_def)
  show "ledger_abs db' a = (if a \<in> S then None else ledger_abs db a)"
    using ledger_abs_local [OF keys keys', of a]
    by (cases "a \<in> S") (simp_all add: event_at_drop [OF ev] ledger_abs_events [OF keys'])
qed

lemma ledger_inv_drop:
  assumes inv: "ledger_inv db" and ev: "usage_events db' = drop_attempts S (usage_events db)"
    and leases: "paid_call_leases db' = paid_call_leases db"
    and safe: "\<And>a. a \<in> S \<Longrightarrow> \<not> has_status db a ''reserved''"
  shows "ledger_inv db'"
proof -
  note abs = ledger_abs_drop [OF ledger_inv_keys [OF inv] ev]
  have "has_status db' a ''reserved'' \<longleftrightarrow> has_status db a ''reserved''" for a
    using safe by (auto simp: has_status_def abs(2))
  moreover have "history_ok db' a" for a
    using inv by (auto simp: history_ok_def event_at_drop [OF ev] ledger_inv_def)
  moreover have "distinct (map ue_id (usage_events db'))"
    using inv by (simp add: ev drop_attempts_def ledger_inv_def)
  moreover have "\<forall>r \<in> set (usage_events db'). ue_status r = status_for (ue_event_type r)"
    using inv by (auto simp: ev drop_attempts_def ledger_inv_def)
  ultimately show ?thesis using inv abs(1) by (simp add: ledger_inv_def leases)
qed

lemma exposure_drop:
  assumes "\<And>a. m' a = (if a \<in> S then None else m a)" and "\<And>a s. a \<in> S \<Longrightarrow> m a = Some s \<Longrightarrow> \<not> p s"
  shows "exposure p m' = exposure p m"
proof -
  have "{a \<in> dom m'. p (the (m' a))} = {a \<in> dom m. p (the (m a))}"
    using assms by (auto simp: dom_def split: if_splits)
  then show ?thesis unfolding exposure_def by (intro sum.cong) (auto simp: assms(1) split: if_splits)
qed

text \<open>An attempt that retention may remove is settled, and was reserved in an earlier month.\<close>

lemma removable_settled:
  assumes inv: "ledger_inv db"
    and v: "attempt_verdict off now cutoff (attempt_rows (event_rows db) a) = Removable"
  obtains s where "ledger_abs db a = Some s" "as_status s = ''settled''"
    "month_in_zone off (as_reserved_at s) \<noteq> month_in_zone off now"
proof -
  let ?rows = "attempt_rows (event_rows db) a"
  note keys = ledger_inv_keys [OF inv]
  have mem: "event_at db a t = Some r" if "r \<in> set ?rows" "ue_event_type r = t" for r t
    using that event_at_mem [OF keys, of r] by (auto simp: attempt_rows_def)
  from v obtain rv where rv: "select_first (\<lambda>r. ue_event_type r = RESERVE) ?rows = Some rv"
    and fin: "final_status ?rows \<notin> {''reserved'', ''uncertain''}"
    and month: "month_in_zone off (ue_created_at rv) \<noteq> month_in_zone off now"
    by (auto simp: attempt_verdict_def split: option.splits if_splits)
  have r: "event_at db a RESERVE = Some rv" using select_first_Some [OF rv] mem by blast
  have "has_type CORRECTION ?rows \<or> has_type SETTLE ?rows"
    using fin by (auto simp: final_status_def split: if_splits)
  then obtain f where "event_at db a CORRECTION = Some f \<or> event_at db a SETTLE = Some f"
    using mem by (auto simp: has_type_def list_ex_iff)
  then have "\<exists>s. ledger_abs db a = Some s \<and> as_status s = ''settled'' \<and> as_reserved_at s = ue_created_at rv"
    using r ledger_inv_status [OF inv, of a]
    by (auto simp: ledger_abs_events [OF keys] Let_def split: option.splits)
  with that month show ?thesis by auto
qed

lemma with_verdict_mem: "a \<in> set (with_verdict v (verdicts off now cutoff es)) \<longleftrightarrow>
    a \<in> set (attempt_ids es) \<and> attempt_verdict off now cutoff (attempt_rows es a) = v"
  by (simp add: with_verdict_def verdicts_def filter_map o_def)

lemma make_plan_Inr:
  assumes "make_plan env fs now db = Inr plan"
  obtains off cutoff stages where
    "zone_offset (rt_tzdb env) (rs_budget_timezone (rt_settings env)) = Inr off"
    "protected_stages (jobs (ws_state db)) = Inr stages"
    "pn_usage_attempt_ids plan = with_verdict Removable (verdicts off now cutoff (event_rows (ws_state db)))"
    "pn_usage_event_count plan =
       length (filter (\<lambda>r. ue_attempt_id r \<in> set (pn_usage_attempt_ids plan)) (event_rows (ws_state db)))"
    "pn_job_ids plan = map job_id (filter (old_job (now - days (rs_operational_retention_days (rt_settings env)))) (jobs (ws_state db)))"
    "pn_cache_keys plan = remdups (map pc_cache_key
       (filter (old_cache_row (now - days (rs_property_cache_retention_days (rt_settings env)))) (ws_property_cache db)))"
    "pn_cache_artifacts plan = List.map_filter (safe_cache_artifact env fs)
       (unreferenced_artifacts (pn_cache_keys plan) (ws_property_cache db))"
    "pn_now plan = now" "pn_usage_cutoff plan = cutoff"
    "pn_staging_files plan = staging_candidates env fs stages (now - days (rs_operational_retention_days (rt_settings env)))"
  using assms unfolding make_plan_def by (auto simp: Let_def split: sum.splits)

lemma delete_rows_Inr:
  assumes "delete_database_rows plan db = (Inr removed, db')"
  shows "usage_events (ws_state db') = drop_attempts (set (pn_usage_attempt_ids plan)) (usage_events (ws_state db))"
    and "paid_call_leases (ws_state db') = paid_call_leases (ws_state db)"
    and "maintenance_state (ws_state db') = maintenance_state (ws_state db)"
    and "jobs (ws_state db') = delete_where (\<lambda>r. job_id r \<in> set (pn_job_ids plan)) (jobs (ws_state db))"
    and "ws_property_cache db' = delete_where (\<lambda>r. pc_cache_key r \<in> set (pn_cache_keys plan)) (ws_property_cache db)"
    and "removed = \<lparr>rm_jobs = rowcount (\<lambda>r. job_id r \<in> set (pn_job_ids plan)) (jobs (ws_state db)),
       rm_usage_events = rowcount (\<lambda>r. ue_attempt_id r \<in> set (pn_usage_attempt_ids plan)) (usage_events (ws_state db)),
       rm_cache_entries = rowcount (\<lambda>r. pc_cache_key r \<in> set (pn_cache_keys plan)) (ws_property_cache db)\<rparr>"
  using assms unfolding delete_database_rows_def transaction_commit
  by (auto simp: delete_rows_body_def drop_attempts_def Let_def split: sum.splits if_splits)

text \<open>
  C27: Retention never changes the budget. After the rows of a plan are deleted the ledger is well
  formed, the exposure that the next reservation of the month is checked against is exactly what it
  was, every attempt that is reserved or uncertain and every attempt of the current month is still
  there unchanged, and what is gone was settled in an earlier month.
\<close>

theorem retention_keeps_budget:
  assumes inv: "ledger_inv (ws_state db)" and plan: "make_plan env fs now db = Inr plan"
    and del: "delete_database_rows plan db = (Inr removed, db')"
    and zone: "rt_tzdb env (rs_budget_timezone (rt_settings env)) = Some off"
  shows "ledger_inv (ws_state db') \<and>
    budget_used off now (ws_state db') = budget_used off now (ws_state db) \<and>
    (\<forall>a s. ledger_abs (ws_state db) a = Some s \<longrightarrow>
       ledger_abs (ws_state db') a = Some s \<or>
       (ledger_abs (ws_state db') a = None \<and> as_status s = ''settled'' \<and>
        month_in_zone off (as_reserved_at s) \<noteq> month_in_zone off now))"
proof -
  let ?S = "set (pn_usage_attempt_ids plan)"
  obtain cutoff where ids: "pn_usage_attempt_ids plan = with_verdict Removable (verdicts off now cutoff (event_rows (ws_state db)))"
    using make_plan_Inr [OF plan] zone by (metis Inr_inject option.simps(5) zone_offset_def)
  have gone: "\<exists>s. ledger_abs (ws_state db) a = Some s \<and> as_status s = ''settled'' \<and>
      month_in_zone off (as_reserved_at s) \<noteq> month_in_zone off now" if "a \<in> ?S" for a
    using that removable_settled [OF inv] by (metis ids with_verdict_mem)
  note rows = delete_rows_Inr [OF del]
  note abs = ledger_abs_drop(2) [OF ledger_inv_keys [OF inv] rows(1)]
  have "ledger_inv (ws_state db')"
    by (rule ledger_inv_drop [OF inv rows(1,2)]) (use gone in \<open>fastforce simp: has_status_def\<close>)
  moreover have "budget_used off now (ws_state db') = budget_used off now (ws_state db)"
    unfolding budget_used_exposure
    by (rule exposure_drop [OF abs]) (use gone in \<open>fastforce simp: in_budget_def outstanding_def\<close>)
  moreover have "ledger_abs (ws_state db') a = Some s \<or>
       (ledger_abs (ws_state db') a = None \<and> as_status s = ''settled'' \<and>
        month_in_zone off (as_reserved_at s) \<noteq> month_in_zone off now)"
    if "ledger_abs (ws_state db) a = Some s" for a s
    using that abs gone [of a] by auto
  ultimately show ?thesis by blast
qed

section \<open>A concrete workspace\<close>

definition ret_state :: state_db where
  "ret_state = snd (finish_call SETTLE (\<lambda>_. ''u9'') 7 sample_reservation (Dec (1/4)) None None [] ''openai'' ''p'' sample_db)"

definition ret_cache_row :: "string \<Rightarrow> string \<Rightarrow> bool \<Rightarrow> property_cache_row" where
  "ret_cache_row k a pin =
     \<lparr>pc_cache_key = k, pc_request_json = Dumped [], pc_connector_version = ''1'', pc_response_artifact = a,
      pc_status = ''ok'', pc_is_complete = True, pc_fetched_at = 0, pc_expires_at = 0, pc_stale_until = 0,
      pc_last_accessed_at = 0, pc_size_bytes = 3, pc_pinned = pin\<rparr>"

definition ret_db :: workspace_db where
  "ret_db =
     \<lparr>ws_state = ret_state,
      ws_property_cache = [ret_cache_row ''k1'' ''artifacts/property-cache/x.json'' False,
                           ret_cache_row ''k2'' ''artifacts/property-cache/x.json'' True,
                           ret_cache_row ''k3'' ''artifacts/property-cache/y.json'' False],
      ws_application_settings = []\<rparr>"

definition ret_fs :: file_system where
  "ret_fs = \<lparr>fs_entries = [], fs_resolve = (\<lambda>p. p)\<rparr>"

definition ret_env :: retention_env where
  "ret_env =
     \<lparr>rt_settings = \<lparr>rs_operational_retention_days = 30, rs_property_cache_retention_days = 30,
                     rs_usage_retention_months = 12, rs_budget_timezone = ''UTC''\<rparr>,
      rt_tzdb = sample_tzdb, rt_wall_offset = (\<lambda>_ _. 0), rt_root = [''w''],
      rt_engine = proc_engine sample_process, rt_uuid = (\<lambda>_. ''z'')\<rparr>"

definition ret_plan :: retention_plan where
  "ret_plan = projr (make_plan ret_env ret_fs (days 400) ret_db)"

lemma ret_planned: "make_plan ret_env ret_fs (days 400) ret_db = Inr ret_plan"
proof -
  have "\<not> isl (make_plan ret_env ret_fs (days 400) ret_db)" by code_simp
  then show ?thesis by (simp add: ret_plan_def sum.collapse(2))
qed

definition ret_after :: workspace_db where
  "ret_after = snd (delete_database_rows ret_plan ret_db)"

lemma ret_deleted: "delete_database_rows ret_plan ret_db = (Inr (projr (fst (delete_database_rows ret_plan ret_db))), ret_after)"
proof -
  have "\<not> isl (fst (delete_database_rows ret_plan ret_db))" by code_simp
  then show ?thesis by (simp add: ret_after_def prod_eq_iff sum.collapse(2))
qed

lemma ret_inv: "ledger_inv (ws_state ret_db)"
proof -
  have "fst (finish_call SETTLE (\<lambda>_. ''u9'') 7 sample_reservation (Dec (1/4)) None None [] ''openai'' ''p'' sample_db) = Inr ()"
    by code_simp
  then have fin: "finish_body (\<lambda>_. ''u9'') 7 sample_reservation SETTLE (Dec (1/4)) None None [] ''openai'' ''p'' sample_db
      = Inr ((), ret_state)"
    by (simp add: ret_state_def finish_call_transaction transaction_commit [symmetric] prod_eq_iff)
  show ?thesis by (rule finish_effect [OF ledger_inv_sample_db _ fin]) (simp_all add: ret_db_def)
qed

theorem retention_keeps_budget_witness:
  "ledger_inv (ws_state ret_after) \<and> usage_events (ws_state ret_after) = [] \<and>
   budget_used (\<lambda>_. 0) (days 400) (ws_state ret_after) = budget_used (\<lambda>_. 0) (days 400) (ws_state ret_db)"
proof -
  have "usage_events (ws_state ret_after) = []" by code_simp
  moreover have "rt_tzdb ret_env (rs_budget_timezone (rt_settings ret_env)) = Some (\<lambda>_. 0)"
    by (simp add: ret_env_def sample_tzdb_def)
  ultimately show ?thesis
    using retention_keeps_budget [OF ret_inv ret_planned ret_deleted] by blast
qed

section \<open>Work and cache rows\<close>

lemma rowcount_distinct:
  assumes "distinct (map k t)" and "ids = map k (filter p t)"
  shows "rowcount (\<lambda>r. k r \<in> set ids) t = length ids"
    and "delete_where (\<lambda>r. k r \<in> set ids) t = filter (\<lambda>r. \<not> p r) t"
proof -
  have "k r \<in> set ids \<longleftrightarrow> p r" if "r \<in> set t" for r
    using that assms distinct_key_unique [OF assms(1)] by auto
  then have f: "filter (\<lambda>r. k r \<in> set ids) t = filter p t" "filter (\<lambda>r. k r \<notin> set ids) t = filter (\<lambda>r. \<not> p r) t"
    by (simp_all cong: filter_cong)
  then show "rowcount (\<lambda>r. k r \<in> set ids) t = length ids"
    "delete_where (\<lambda>r. k r \<in> set ids) t = filter (\<lambda>r. \<not> p r) t"
    by (simp_all add: rowcount_def delete_where_def assms(2))
qed

lemma unreferenced_kept:
  assumes "a \<in> set (unreferenced_artifacts keys rows)" and "r \<in> set rows" and "pc_cache_key r \<notin> set keys"
  shows "pc_response_artifact r \<noteq> a"
  using assms by (auto simp: unreferenced_artifacts_def list_all_iff)

text \<open>
  C28: Retention removes exactly the old rows and no others. The jobs that remain are those that are
  not finished, failed but retryable, or finished after the cutoff, in their order; the cached pages
  that remain are those that are pinned or were fetched after the cutoff; and no artifact file of the
  plan is still named by a page that remains.
\<close>

theorem retention_protects_work:
  assumes jobs: "distinct (map job_id (jobs (ws_state db)))"
    and cache: "distinct (map pc_cache_key (ws_property_cache db))"
    and plan: "make_plan env fs now db = Inr plan"
    and del: "delete_database_rows plan db = (Inr removed, db')"
  shows "jobs (ws_state db') =
      filter (\<lambda>r. \<not> (terminal_job r \<and> \<not> retryable_failure r \<and>
         job_updated_at r < now - days (rs_operational_retention_days (rt_settings env)))) (jobs (ws_state db)) \<and>
    ws_property_cache db' =
      filter (\<lambda>r. pc_pinned r \<or> now - days (rs_property_cache_retention_days (rt_settings env)) \<le> pc_fetched_at r)
        (ws_property_cache db) \<and>
    pn_cache_artifacts plan = List.map_filter (safe_cache_artifact env fs)
      (filter (\<lambda>a. list_all (\<lambda>r. pc_response_artifact r \<noteq> a) (ws_property_cache db'))
        (rev (remdups (rev (map pc_response_artifact (ws_property_cache db))))))"
proof -
  note rows = delete_rows_Inr [OF del]
  let ?op = "now - days (rs_operational_retention_days (rt_settings env))"
  let ?pc = "now - days (rs_property_cache_retention_days (rt_settings env))"
  have ids: "pn_job_ids plan = map job_id (filter (old_job ?op) (jobs (ws_state db)))"
    and keys: "pn_cache_keys plan = remdups (map pc_cache_key (filter (old_cache_row ?pc) (ws_property_cache db)))"
    and arts: "pn_cache_artifacts plan = List.map_filter (safe_cache_artifact env fs)
       (unreferenced_artifacts (pn_cache_keys plan) (ws_property_cache db))"
    by (rule make_plan_Inr [OF plan]; blast)+
  have keys': "pn_cache_keys plan = map pc_cache_key (filter (old_cache_row ?pc) (ws_property_cache db))"
    using cache by (simp add: keys distinct_map_filter distinct_remdups_id)
  have j: "jobs (ws_state db') = filter (\<lambda>r. \<not> old_job ?op r) (jobs (ws_state db))"
    using rowcount_distinct(2) [OF jobs ids] by (simp add: rows(4))
  have c: "ws_property_cache db' = filter (\<lambda>r. \<not> old_cache_row ?pc r) (ws_property_cache db)"
    using rowcount_distinct(2) [OF cache keys'] by (simp add: rows(5))
  have mem: "r \<in> set (ws_property_cache db') \<longleftrightarrow> r \<in> set (ws_property_cache db) \<and> pc_cache_key r \<notin> set (pn_cache_keys plan)" for r
    by (simp add: rows(5))
  have "unreferenced_artifacts (pn_cache_keys plan) (ws_property_cache db) =
      filter (\<lambda>a. list_all (\<lambda>r. pc_response_artifact r \<noteq> a) (ws_property_cache db'))
        (rev (remdups (rev (map pc_response_artifact (ws_property_cache db)))))"
    unfolding unreferenced_artifacts_def by (rule filter_cong) (auto simp: list_all_iff mem)
  moreover have "filter (\<lambda>r. \<not> old_cache_row ?pc r) (ws_property_cache db) =
      filter (\<lambda>r. pc_pinned r \<or> ?pc \<le> pc_fetched_at r) (ws_property_cache db)"
    by (rule filter_cong) (auto simp: old_cache_row_def)
  ultimately show ?thesis using j c arts by (simp add: old_job_def)
qed

theorem retention_protects_work_witness:
  "map pc_cache_key (ws_property_cache ret_after) = [''k2''] \<and>
   pn_cache_artifacts ret_plan = [[''w'', ''artifacts'', ''property-cache'', ''y.json'']]"
proof -
  have "distinct (map job_id (jobs (ws_state ret_db)))" "distinct (map pc_cache_key (ws_property_cache ret_db))"
    by code_simp+
  note t = retention_protects_work [OF this ret_planned ret_deleted]
  have "ws_property_cache ret_after = filter (\<lambda>r. pc_pinned r \<or> days 400 - days 30 \<le> pc_fetched_at r) (ws_property_cache ret_db)"
    using t by (simp add: ret_env_def)
  also have "map pc_cache_key \<dots> = [''k2'']" by code_simp
  finally have "map pc_cache_key (ws_property_cache ret_after) = [''k2'']" .
  moreover have "pn_cache_artifacts ret_plan = [[''w'', ''artifacts'', ''property-cache'', ''y.json'']]" by code_simp
  ultimately show ?thesis by blast
qed

text \<open>
  The preview counts rows correctly. A run that is not applied changes nothing, and its counts of
  candidate jobs, usage events and cache entries are the numbers of rows that the deletion of the same
  plan removes from the same database. Files, staging directories, logs and bytes are not part of
  the statement, nor is the recovery that an applied run does first.
\<close>

theorem retention_preview_exact:
  assumes jobs: "distinct (map job_id (jobs (ws_state (rw_db w))))"
    and cache: "distinct (map pc_cache_key (ws_property_cache (rw_db w)))"
    and plan: "make_plan env (rw_fs w) now (rw_db w) = Inr plan"
    and del: "delete_database_rows plan (rw_db w) = (Inr removed, db')"
  shows "\<exists>preview. run_retention env b False now w = (Inr preview, w) \<and>
    rr_candidate_jobs preview = rm_jobs removed \<and>
    rr_candidate_usage_events preview = rm_usage_events removed \<and>
    rr_candidate_cache_entries preview = rm_cache_entries removed \<and>
    rr_removed_jobs preview = 0 \<and> rr_removed_usage_events preview = 0 \<and> rr_removed_cache_entries preview = 0"
proof -
  let ?op = "now - days (rs_operational_retention_days (rt_settings env))"
  let ?pc = "now - days (rs_property_cache_retention_days (rt_settings env))"
  have ids: "pn_job_ids plan = map job_id (filter (old_job ?op) (jobs (ws_state (rw_db w))))"
    and keys: "pn_cache_keys plan = remdups (map pc_cache_key (filter (old_cache_row ?pc) (ws_property_cache (rw_db w))))"
    and cnt: "pn_usage_event_count plan =
       length (filter (\<lambda>r. ue_attempt_id r \<in> set (pn_usage_attempt_ids plan)) (event_rows (ws_state (rw_db w))))"
    by (rule make_plan_Inr [OF plan]; blast)+
  have keys': "pn_cache_keys plan = map pc_cache_key (filter (old_cache_row ?pc) (ws_property_cache (rw_db w)))"
    using cache by (simp add: keys distinct_map_filter distinct_remdups_id)
  have "length (filter p (event_rows st)) = rowcount p (usage_events st)" for p and st :: state_db
    by (simp add: event_rows_def filter_sort rowcount_def)
  then show ?thesis
    using rowcount_distinct(1) [OF jobs ids] rowcount_distinct(1) [OF cache keys'] cnt
    by (simp add: run_retention_def plan make_result_def no_rows_def no_files_def delete_rows_Inr(6) [OF del])
qed

definition ret_world :: retention_world where
  "ret_world = \<lparr>rw_os = idle_os, rw_db = ret_db, rw_fs = ret_fs\<rparr>"

theorem retention_preview_exact_witness:
  "\<exists>preview. run_retention ret_env sample_barrier False (days 400) ret_world = (Inr preview, ret_world) \<and>
     rr_candidate_usage_events preview = 2 \<and> rr_candidate_cache_entries preview = 2"
proof -
  have d: "distinct (map job_id (jobs (ws_state (rw_db ret_world))))"
    "distinct (map pc_cache_key (ws_property_cache (rw_db ret_world)))"
    "rm_usage_events (projr (fst (delete_database_rows ret_plan ret_db))) = 2"
    "rm_cache_entries (projr (fst (delete_database_rows ret_plan ret_db))) = 2"
    by code_simp+
  have w: "rw_db ret_world = ret_db" "rw_fs ret_world = ret_fs" by (simp_all add: ret_world_def)
  have p: "make_plan ret_env (rw_fs ret_world) (days 400) (rw_db ret_world) = Inr ret_plan"
    using ret_planned by (simp add: w)
  have q: "delete_database_rows ret_plan (rw_db ret_world) =
      (Inr (projr (fst (delete_database_rows ret_plan ret_db))), ret_after)"
    using ret_deleted by (simp add: w)
  show ?thesis
    using retention_preview_exact [OF d(1,2) p q, of sample_barrier] d(3,4) by force
qed

section \<open>The barrier and the pruning floor\<close>

text \<open>
  A retention run always lets go of the barrier. Once the barrier was entered, whether the plan,
  the deletion or nothing fails, the run ends with the maintenance flag down and the locks as they
  were before it, so admissions go on; and a run whose plan or deletion fails has deleted nothing.
\<close>

theorem retention_releases_barrier:
  assumes enter: "barrier_enter b (rt_uuid env) ''retention'' now (rw_os w) (ws_state (rw_db w)) = (Inr (), b', os', st')"
    and run: "run_retention env b True now w = (r, w')"
  shows "\<not> maintenance_flag (ws_state (rw_db w')) \<and>
    rw_os w' = rw_os w \<and>
    (isl r \<longrightarrow> rw_db w' = (rw_db w)\<lparr>ws_state := clear_maintenance st'\<rparr> \<and> rw_fs w' = rw_fs w)"
proof -
  have acq: "lease_acquire (mb_lease b) (rw_os w) = Inr (mb_lease b', os')"
    using enter_success [OF enter] by metis
  then have held: "fl_held (mb_lease b')" and rel: "snd (lease_release (mb_lease b') os') = rw_os w"
    by (auto simp: lease_acquire_def lease_release_def split: if_splits dest!: sym [of _ "mb_lease b'"])
  let ?w1 = "w\<lparr>rw_os := os', rw_db := (rw_db w)\<lparr>ws_state := st'\<rparr>\<rparr>"
  obtain r1 w1 where a: "apply_retention env now ?w1 = (r1, w1)" by fastforce
  have os: "rw_os w1 = os'" and err: "isl r1 \<Longrightarrow> rw_db w1 = (rw_db w)\<lparr>ws_state := st'\<rparr> \<and> rw_fs w1 = rw_fs w"
    using a by (auto simp: apply_retention_def delete_database_rows_def transaction_def
        split: sum.splits prod.splits)
  obtain l os2 where l: "lease_release (mb_lease b') os' = (l, os2)" by fastforce
  have fin: "r = r1" "w' = w1\<lparr>rw_os := os2, rw_db := (rw_db w1)\<lparr>ws_state := clear_maintenance (ws_state (rw_db w1))\<rparr>\<rparr>"
    using run by (simp_all add: run_retention_def enter a barrier_leave_def held os l)
  show ?thesis
    using err rel by (simp add: fin l)
qed

text \<open>The recorded floor of the usage history never moves back.\<close>

lemma usage_floor_monotone:
  assumes "delete_database_rows plan db = (Inr removed, db')"
    and "usage_history_pruned_before db = Some f"
  shows "\<exists>f'. usage_history_pruned_before db' = Some f' \<and> f \<le> f'"
proof -
  let ?key = "\<lambda>r. aps_key r = usage_retention_key"
  obtain row j where row: "select_first ?key (ws_application_settings db) = Some row"
    and j: "aps_value_json row = Dumped j" "map_of j ''history_pruned_before'' = Some (JStr f)"
    using assms(2) by (auto simp: usage_history_pruned_before_def split: option.splits json_text.splits json.splits)
  have upd: "select_first ?key (update_where ?key g t) = map_option g (select_first ?key t)"
    if "\<And>r. aps_key (g r) = aps_key r" for g and t :: "application_setting_row list"
    using that by (induction t) (auto simp: update_where_def)
  have "0 < rowcount ?key (ws_application_settings db)"
    using select_first_Some [OF row] rowcount_zero [of ?key "ws_application_settings db"] by blast
  then show ?thesis
    using assms row j
    by (auto simp: delete_database_rows_def transaction_commit delete_rows_body_def record_usage_floor_def
        previous_floor_def usage_history_pruned_before_def Let_def upd split: sum.splits if_splits)
qed

definition ret_entered :: "unit result \<times> maintenance_barrier \<times> os_state \<times> state_db" where
  "ret_entered = barrier_enter sample_barrier (\<lambda>_. ''z'') ''retention'' (days 400) idle_os ret_state"

theorem retention_releases_barrier_witness:
  "\<not> maintenance_flag (ws_state (rw_db (snd (run_retention ret_env sample_barrier True (days 400) ret_world)))) \<and>
   fst ret_entered = Inr ()"
proof -
  obtain r b' os' st' where e: "ret_entered = (r, b', os', st')" by (cases ret_entered)
  have ok: "fst ret_entered = Inr ()" by code_simp
  with e have "barrier_enter sample_barrier (rt_uuid ret_env) ''retention'' (days 400) (rw_os ret_world)
      (ws_state (rw_db ret_world)) = (Inr (), b', os', st')"
    by (simp add: ret_entered_def ret_env_def ret_world_def ret_db_def)
  from retention_releases_barrier [OF this, of "fst (run_retention ret_env sample_barrier True (days 400) ret_world)"
      "snd (run_retention ret_env sample_barrier True (days 400) ret_world)"] ok
  show ?thesis by simp
qed

end
