(* ===== verification/Property_Query.thy ===== *)
theory Property_Query
  imports Calendar Python_Values
begin

text \<open>
  Property queries against the city's violation data set (\<^verbatim>\<open>PropertyQuery\<close> and the query builders of
  \<^verbatim>\<open>app/hpd/connector.py\<close>): validation and normalisation of the user's input, and the \<^verbatim>\<open>$where\<close> clause
  that is sent. Upper-casing the two Latin-1 letters whose capital lies outside Latin-1 leaves them as
  they are; every test that follows rejects both the letter and its capital.
\<close>

section \<open>Normalisation\<close>

definition upper_char :: "char \<Rightarrow> string" where
  "upper_char c =
     (let n = of_char c :: nat in
      if 97 \<le> n \<and> n \<le> 122 then [char_of (n - 32)]
      else if 224 \<le> n \<and> n \<le> 254 \<and> n \<noteq> 247 then [char_of (n - 32)]
      else if n = 223 then ''SS'' else [c])"

definition upper :: "string \<Rightarrow> string" where
  "upper s = concat (map upper_char s)"

text \<open>\<^verbatim>\<open>str.isdigit()\<close> on Latin-1: also the superscript digits.\<close>

definition is_digit :: "char \<Rightarrow> bool" where
  "is_digit c \<longleftrightarrow> is_decimal c \<or> of_char c \<in> {178, 179, 185 :: nat}"

definition isdigit :: "string \<Rightarrow> bool" where
  "isdigit s \<longleftrightarrow> s \<noteq> [] \<and> list_all is_digit s"

definition is_ascii_upper :: "char \<Rightarrow> bool" where
  "is_ascii_upper c \<longleftrightarrow> (let n = of_char c :: nat in 65 \<le> n \<and> n \<le> 90)"

definition quote :: char where
  "quote = CHR 0x27"

definition house :: "string \<Rightarrow> string result" where
  "house v =
     (let n = join '' '' (split_ws (upper v)) in
      if n \<noteq> [] \<and> length n \<le> 30 \<and>
         list_all (\<lambda>c. is_decimal c \<or> is_ascii_upper c \<or> c \<in> {CHR '' '', CHR ''-''}) n
      then Inr n else Inl (ValueError ''House number contains unsupported characters.''))"

definition STREET_SUFFIXES :: "(string \<times> string) list" where
  "STREET_SUFFIXES =
     [(''ST'', ''STREET''), (''ST.'', ''STREET''), (''AVE'', ''AVENUE''), (''AVE.'', ''AVENUE''),
      (''RD'', ''ROAD''), (''BLVD'', ''BOULEVARD'')]"

definition street :: "string \<Rightarrow> string result" where
  "street v =
     (let parts = split_ws (map (\<lambda>c. if c = CHR '','' then CHR '' '' else c) (upper v));
          parts' = (if parts = [] then []
                    else case map_of STREET_SUFFIXES (last parts) of
                           Some f \<Rightarrow> butlast parts @ [f] | None \<Rightarrow> parts);
          n = join '' '' parts'
      in if n \<noteq> [] \<and> length n \<le> 100 \<and>
            list_all (\<lambda>c. is_decimal c \<or> is_ascii_upper c \<or> c \<in> {CHR '' '', CHR ''.'', quote, CHR ''-''}) n
         then Inr n else Inl (ValueError ''Street name contains unsupported characters.''))"

definition BOROUGHS :: "(string \<times> string) list" where
  "BOROUGHS =
     [(''1'', ''MANHATTAN''), (''2'', ''BRONX''), (''3'', ''BROOKLYN''), (''4'', ''QUEENS''),
      (''5'', ''STATEN ISLAND''), (''MN'', ''MANHATTAN''), (''BX'', ''BRONX''), (''BK'', ''BROOKLYN''),
      (''QN'', ''QUEENS''), (''SI'', ''STATEN ISLAND'')]"

definition borough_name :: "string \<Rightarrow> string result" where
  "borough_name v =
     (let n = join '' '' (split_ws (upper v));
          m = (case map_of BOROUGHS n of Some b \<Rightarrow> b | None \<Rightarrow> n)
      in if m \<in> snd ` set BOROUGHS then Inr m else Inl (ValueError ''Borough is not recognized.''))"

section \<open>Dates\<close>

definition date_error :: error where
  "date_error = ValueError ''Inspection dates must use YYYY-MM-DD format.''"

definition days_in_month :: "int \<Rightarrow> int \<Rightarrow> int" where
  "days_in_month y m = days_before_month y (m + 1) - days_before_month y m"

text \<open>
  \<^verbatim>\<open>date.fromisoformat\<close> followed by the comparison with \<^verbatim>\<open>isoformat\<close>: only the extended form
  remains. The result is the proleptic ordinal of the date.
\<close>

definition inspection_date :: "string \<Rightarrow> int result" where
  "inspection_date s =
     (if length s = 10 \<and> s ! 4 = CHR ''-'' \<and> s ! 7 = CHR ''-'' \<and>
         list_all is_decimal (take 4 s @ take 2 (drop 5 s) @ drop 8 s)
      then (let y = value_base 10 (take 4 s); m = value_base 10 (take 2 (drop 5 s)); d = value_base 10 (drop 8 s)
            in if 1 \<le> y \<and> 1 \<le> m \<and> m \<le> 12 \<and> 1 \<le> d \<and> d \<le> days_in_month y m
               then Inr (ymd2ord y m d) else Inl date_error)
      else Inl date_error)"

definition max_ordinal :: int where
  "max_ordinal = 3652059"

definition date_plus_one :: "int \<Rightarrow> int result" where
  "date_plus_one n = (if n + 1 > max_ordinal then Inl (OverflowError ''date value out of range'') else Inr (n + 1))"

definition socrata_date :: "int \<Rightarrow> string" where
  "socrata_date n =
     (case ord2ymd n of (y, m, d) \<Rightarrow>
        digits 4 y @ ''-'' @ digits 2 m @ ''-'' @ digits 2 d @ ''T00:00:00.000'')"

section \<open>Queries\<close>

record property_query =
  pq_building_id :: "string option"
  pq_registration_id :: "string option"
  pq_house_number :: "string option"
  pq_street_name :: "string option"
  pq_borough :: "string option"
  pq_zip_code :: "string option"
  pq_violation_class :: "string option"
  pq_status :: "string option"
  pq_inspection_date_from :: "string option"
  pq_inspection_date_to :: "string option"
  pq_limit :: int
  pq_continuation :: "string option"

definition check_with :: "(string \<Rightarrow> 'a result) \<Rightarrow> string option \<Rightarrow> unit result" where
  "check_with f x =
     (if given x then (case f (the x) of Inl e \<Rightarrow> Inl e | Inr _ \<Rightarrow> Inr ()) else Inr ())"

definition guard :: "bool \<Rightarrow> string \<Rightarrow> unit result" where
  "guard ok msg = (if ok then Inr () else Inl (ValueError msg))"

fun first_error :: "unit result list \<Rightarrow> unit result" where
  "first_error [] = Inr ()"
| "first_error (Inl e # _) = Inl e"
| "first_error (Inr _ # rs) = first_error rs"

definition five_digits :: "string \<Rightarrow> bool" where
  "five_digits s \<longleftrightarrow> length s = 5 \<and> list_all is_decimal s"

definition date_order :: "property_query \<Rightarrow> unit result" where
  "date_order q =
     (if given (pq_inspection_date_from q) \<and> given (pq_inspection_date_to q)
      then (case (inspection_date (the (pq_inspection_date_from q)), inspection_date (the (pq_inspection_date_to q))) of
              (Inr a, Inr b) \<Rightarrow> guard (a \<le> b) ''Inspection start date must be on or before the end date.''
            | _ \<Rightarrow> Inr ())
      else Inr ())"

definition validate_query :: "property_query \<Rightarrow> unit result" where
  "validate_query q =
     first_error
       [guard (given (pq_building_id q) \<or> given (pq_registration_id q) \<or>
               (given (pq_house_number q) \<and> given (pq_street_name q)))
          ''Provide a building ID, registration ID, or house number and street.'',
        guard (given (pq_house_number q) = given (pq_street_name q))
          ''House number and street name must be supplied together.'',
        check_with house (pq_house_number q),
        check_with street (pq_street_name q),
        check_with borough_name (pq_borough q),
        guard (given (pq_zip_code q) \<longrightarrow> five_digits (the (pq_zip_code q))) ''ZIP code must contain five digits.'',
        guard (given (pq_building_id q) \<longrightarrow> isdigit (the (pq_building_id q))) ''building ID must contain digits only.'',
        guard (given (pq_registration_id q) \<longrightarrow> isdigit (the (pq_registration_id q)))
          ''registration ID must contain digits only.'',
        guard (1 \<le> pq_limit q \<and> pq_limit q \<le> 100) ''Property result limit must be between 1 and 100.'',
        guard (given (pq_violation_class q) \<longrightarrow> upper (the (pq_violation_class q)) \<in> {''A'', ''B'', ''C'', ''I''})
          ''Violation class must be A, B, C, or I.'',
        guard (given (pq_status q) \<longrightarrow> lower (the (pq_status q)) \<in> {''open'', ''closed''}) ''Status must be open or closed.'',
        check_with inspection_date (pq_inspection_date_from q),
        check_with inspection_date (pq_inspection_date_to q),
        date_order q]"

section \<open>The where clause\<close>

fun double_quotes :: "string \<Rightarrow> string" where
  "double_quotes [] = []"
| "double_quotes (c # cs) = (if c = quote then quote # quote # double_quotes cs else c # double_quotes cs)"

definition literal :: "string \<Rightarrow> string" where
  "literal v = [quote] @ double_quotes v @ [quote]"

definition STATUS_FILTER_MAPPING :: "(string \<times> string) list" where
  "STATUS_FILTER_MAPPING = [(''open'', ''Open''), (''closed'', ''Close'')]"

text \<open>
  A clause: its text before the literal and the value of the literal. The clauses of a query, in
  order; \<open>Inl\<close> is the first exception.
\<close>

type_synonym clause = "string \<times> string"

definition opt_clause :: "string option \<Rightarrow> string \<Rightarrow> (string \<Rightarrow> string result) \<Rightarrow> clause list result" where
  "opt_clause x pre f =
     (if given x then (case f (the x) of Inl e \<Rightarrow> Inl e | Inr v \<Rightarrow> Inr [(pre, v)]) else Inr [])"

fun collect_clauses :: "clause list result list \<Rightarrow> clause list result" where
  "collect_clauses [] = Inr []"
| "collect_clauses (Inl e # _) = Inl e"
| "collect_clauses (Inr cs # rs) =
     (case collect_clauses rs of Inl e \<Rightarrow> Inl e | Inr ds \<Rightarrow> Inr (cs @ ds))"

definition zip_value :: "string \<Rightarrow> string result" where
  "zip_value v = (if five_digits v then Inr v else Inl (ValueError ''ZIP code must contain five digits.''))"

definition status_filter :: "string \<Rightarrow> string result" where
  "status_filter v =
     (case map_of STATUS_FILTER_MAPPING (lower v) of None \<Rightarrow> Inl (KeyError (lower v)) | Some s \<Rightarrow> Inr s)"

definition date_from_value :: "string \<Rightarrow> string result" where
  "date_from_value v = (case inspection_date v of Inl e \<Rightarrow> Inl e | Inr n \<Rightarrow> Inr (socrata_date n))"

definition date_to_value :: "string \<Rightarrow> string result" where
  "date_to_value v =
     (case inspection_date v of
        Inl e \<Rightarrow> Inl e
      | Inr n \<Rightarrow> (case date_plus_one n of Inl e \<Rightarrow> Inl e | Inr k \<Rightarrow> Inr (socrata_date k)))"

definition identity_clauses :: "property_query \<Rightarrow> clause list result list" where
  "identity_clauses q =
     [opt_clause (pq_building_id q) ''buildingid = '' Inr,
      opt_clause (pq_registration_id q) ''registrationid = '' Inr,
      (if given (pq_house_number q) \<and> given (pq_street_name q)
       then opt_clause (pq_house_number q) ''upper(housenumber) = '' house else Inr []),
      (if given (pq_house_number q) \<and> given (pq_street_name q)
       then opt_clause (pq_street_name q) ''upper(streetname) = '' street else Inr []),
      opt_clause (pq_borough q) ''upper(boro) = '' borough_name,
      opt_clause (pq_zip_code q) ''zip = '' zip_value]"

definition filter_clauses :: "property_query \<Rightarrow> clause list result list" where
  "filter_clauses q =
     [opt_clause (pq_violation_class q) ''upper(class) = '' (\<lambda>v. Inr (upper v)),
      opt_clause (pq_status q) ''violationstatus = '' status_filter,
      opt_clause (pq_inspection_date_from q) ''inspectiondate >= '' date_from_value,
      opt_clause (pq_inspection_date_to q) ''inspectiondate < '' date_to_value]"

definition render :: "clause \<Rightarrow> string" where
  "render c = fst c @ literal (snd c)"

definition identity_where_clause :: "property_query \<Rightarrow> string result" where
  "identity_where_clause q =
     (case collect_clauses (identity_clauses q) of
        Inl e \<Rightarrow> Inl e
      | Inr cs \<Rightarrow> Inr (join '' AND '' (map render cs)))"

definition where_clause :: "property_query \<Rightarrow> string result" where
  "where_clause q =
     (case identity_where_clause q of
        Inl e \<Rightarrow> Inl e
      | Inr identity \<Rightarrow>
          (case collect_clauses (filter_clauses q) of
             Inl e \<Rightarrow> Inl e
           | Inr cs \<Rightarrow> Inr (join '' AND '' (identity # map render cs))))"

section \<open>Literals cannot be escaped\<close>

text \<open>
  How the query language reads a text: a literal ends at a quote that is not doubled. \<open>skeleton\<close>
  replaces every literal by a question mark; \<open>False\<close> marks the state outside a literal.
\<close>

fun read_literal :: "string \<Rightarrow> (string \<times> string) option" where
  "read_literal [] = None"
| "read_literal (c # cs) =
     (if c \<noteq> quote then map_option (\<lambda>(v, r). (c # v, r)) (read_literal cs)
      else (case cs of
              [] \<Rightarrow> Some ([], [])
            | d # ds \<Rightarrow> if d = quote then map_option (\<lambda>(v, r). (quote # v, r)) (read_literal ds)
                        else Some ([], cs)))"

fun skeleton :: "bool \<Rightarrow> string \<Rightarrow> string" where
  "skeleton inside [] = (if inside then ''!'' else [])"
| "skeleton False (c # cs) = (if c = quote then CHR ''?'' # skeleton True cs else c # skeleton False cs)"
| "skeleton True (c # cs) =
     (if c \<noteq> quote then skeleton True cs
      else (case cs of
              [] \<Rightarrow> []
            | d # ds \<Rightarrow> if d = quote then skeleton True ds else skeleton False cs))"

lemma read_doubled:
  "rest = [] \<or> hd rest \<noteq> quote \<Longrightarrow> read_literal (double_quotes v @ quote # rest) = Some (v, rest)"
  by (induction v) (auto split: list.splits)

lemma skeleton_doubled:
  "rest = [] \<or> hd rest \<noteq> quote \<Longrightarrow> skeleton True (double_quotes v @ quote # rest) = skeleton False rest"
  by (induction v) (auto split: list.splits)

lemma skeleton_plain: "quote \<notin> set pre \<Longrightarrow> skeleton False (pre @ rest) = pre @ skeleton False rest"
  by (induction pre) auto

lemma skeleton_render:
  assumes "quote \<notin> set (fst c)" and "rest = [] \<or> hd rest \<noteq> quote"
  shows "skeleton False (render c @ rest) = fst c @ ''?'' @ skeleton False rest"
  using assms by (simp add: render_def literal_def skeleton_plain skeleton_doubled)

text \<open>
  A value written by \<^verbatim>\<open>_literal\<close> is read back by the query language exactly as it was, whatever
  characters it has, and the text after it is not touched.
\<close>

theorem literal_round_trip:
  assumes "rest = [] \<or> hd rest \<noteq> quote"
  shows "\<exists>body. literal v @ rest = quote # body \<and> read_literal body = Some (v, rest)"
  using read_doubled [OF assms] by (simp add: literal_def)

theorem literal_round_trip_witness:
  "\<exists>body. literal [CHR ''O'', quote, CHR ''B''] @ '' AND x'' = quote # body \<and>
     read_literal body = Some ([CHR ''O'', quote, CHR ''B''], '' AND x'')"
  by (rule literal_round_trip) (simp add: quote_def)


section \<open>The shape of the clause\<close>

text \<open>\<open>s\<close> reads as \<open>t\<close> with its literals replaced, whatever text follows it.\<close>

definition reads_as :: "string \<Rightarrow> string \<Rightarrow> bool" where
  "reads_as s t \<longleftrightarrow> (\<forall>rest. rest = [] \<or> hd rest \<noteq> quote \<longrightarrow> skeleton False (s @ rest) = t @ skeleton False rest)"

lemma reads_as_Nil [simp]: "reads_as [] []"
  by (simp add: reads_as_def)

lemma reads_as_render: "quote \<notin> set (fst c) \<Longrightarrow> reads_as (render c) (fst c @ ''?'')"
  using skeleton_render by (auto simp: reads_as_def)

lemma reads_as_sep:
  assumes "reads_as s t" and "reads_as s' t'"
  shows "reads_as (s @ '' AND '' @ s') (t @ '' AND '' @ t')"
proof (unfold reads_as_def, intro allI impI)
  fix rest :: string assume rest: "rest = [] \<or> hd rest \<noteq> quote"
  have "skeleton False (s @ '' AND '' @ s' @ rest) = t @ skeleton False ('' AND '' @ s' @ rest)"
    using assms(1) unfolding reads_as_def by (simp add: quote_def)
  also have "skeleton False ('' AND '' @ s' @ rest) = '' AND '' @ skeleton False (s' @ rest)"
    by (rule skeleton_plain) (simp add: quote_def)
  also have "skeleton False (s' @ rest) = t' @ skeleton False rest"
    using assms(2) rest unfolding reads_as_def by blast
  finally show "skeleton False ((s @ '' AND '' @ s') @ rest) = (t @ '' AND '' @ t') @ skeleton False rest" by simp
qed

lemma reads_as_join: "list_all2 reads_as ss ts \<Longrightarrow> reads_as (join '' AND '' ss) (join '' AND '' ts)"
proof (induction ss arbitrary: ts)
  case (Cons s ss)
  then obtain t ts' where ts: "ts = t # ts'" "reads_as s t" "list_all2 reads_as ss ts'"
    by (auto simp: list_all2_Cons1)
  show ?case
  proof (cases ss)
    case Nil
    with ts show ?thesis by simp
  next
    case (Cons s' ss')
    then obtain t' ts'' where "ts' = t' # ts''" using ts by (auto simp: list_all2_Cons1)
    with reads_as_sep [OF ts(2) Cons.IH [OF ts(3)]] ts(1) Cons show ?thesis by simp
  qed
qed simp

definition template :: "string option \<Rightarrow> string \<Rightarrow> string list" where
  "template x pre = (if given x then [pre @ ''?''] else [])"

definition identity_template :: "property_query \<Rightarrow> string list" where
  "identity_template q =
     template (pq_building_id q) ''buildingid = '' @ template (pq_registration_id q) ''registrationid = '' @
     (if given (pq_house_number q) \<and> given (pq_street_name q)
      then template (pq_house_number q) ''upper(housenumber) = '' else []) @
     (if given (pq_house_number q) \<and> given (pq_street_name q)
      then template (pq_street_name q) ''upper(streetname) = '' else []) @
     template (pq_borough q) ''upper(boro) = '' @ template (pq_zip_code q) ''zip = ''"

definition filter_template :: "property_query \<Rightarrow> string list" where
  "filter_template q =
     template (pq_violation_class q) ''upper(class) = '' @ template (pq_status q) ''violationstatus = '' @
     template (pq_inspection_date_from q) ''inspectiondate >= '' @
     template (pq_inspection_date_to q) ''inspectiondate < ''"

text \<open>Clauses whose fixed texts are \<open>ts\<close> and have no quote of their own.\<close>

definition shaped :: "clause list result \<Rightarrow> string list \<Rightarrow> bool" where
  "shaped r ts \<longleftrightarrow>
     (\<forall>cs. r = Inr cs \<longrightarrow> map (\<lambda>c. fst c @ ''?'') cs = ts \<and> list_all (\<lambda>c. quote \<notin> set (fst c)) cs)"

lemma shaped_opt: "list_all (\<lambda>c. c \<noteq> quote) pre \<Longrightarrow> shaped (opt_clause x pre f) (template x pre)"
  by (auto simp: shaped_def opt_clause_def template_def list_all_iff split: sum.splits)

lemma shaped_if: "shaped r ts \<Longrightarrow> shaped (if b then r else Inr []) (if b then ts else [])"
  by (simp add: shaped_def)

lemma shaped_collect: "list_all2 shaped rs tss \<Longrightarrow> shaped (collect_clauses rs) (concat tss)"
proof (induction rs arbitrary: tss rule: collect_clauses.induct)
  case (3 cs rs)
  then obtain ts tss' where tss: "tss = ts # tss'" and cs: "shaped (Inr cs) ts" and rs: "list_all2 shaped rs tss'"
    by (auto simp: list_all2_Cons1)
  show ?case
  proof (cases "collect_clauses rs")
    case (Inl e)
    then show ?thesis by (simp add: shaped_def)
  next
    case (Inr ds)
    with 3(1) [OF rs] have "shaped (Inr ds) (concat tss')" by simp
    with cs Inr tss show ?thesis by (simp add: shaped_def)
  qed
qed (simp_all add: shaped_def)

lemma shaped_identity: "shaped (collect_clauses (identity_clauses q)) (identity_template q)"
proof -
  let ?both = "given (pq_house_number q) \<and> given (pq_street_name q)"
  have "list_all2 shaped (identity_clauses q)
      [template (pq_building_id q) ''buildingid = '', template (pq_registration_id q) ''registrationid = '',
       (if ?both then template (pq_house_number q) ''upper(housenumber) = '' else []),
       (if ?both then template (pq_street_name q) ''upper(streetname) = '' else []),
       template (pq_borough q) ''upper(boro) = '', template (pq_zip_code q) ''zip = '']"
    unfolding identity_clauses_def
    by (intro list.rel_intros shaped_if shaped_opt) (simp_all add: quote_def)
  from shaped_collect [OF this] show ?thesis by (simp only: identity_template_def concat.simps append_Nil2 append_assoc)
qed

lemma shaped_filter: "shaped (collect_clauses (filter_clauses q)) (filter_template q)"
proof -
  have "list_all2 shaped (filter_clauses q)
      [template (pq_violation_class q) ''upper(class) = '', template (pq_status q) ''violationstatus = '',
       template (pq_inspection_date_from q) ''inspectiondate >= '', template (pq_inspection_date_to q) ''inspectiondate < '']"
    unfolding filter_clauses_def
    by (intro list.rel_intros shaped_opt) (simp_all add: quote_def)
  from shaped_collect [OF this] show ?thesis by (simp only: filter_template_def concat.simps append_Nil2 append_assoc)
qed

lemma shaped_reads_as:
  assumes "shaped (Inr cs) ts"
  shows "list_all2 reads_as (map render cs) ts"
proof -
  have "ts = map (\<lambda>c. fst c @ ''?'') cs" "list_all (\<lambda>c. quote \<notin> set (fst c)) cs"
    using assms by (auto simp: shaped_def)
  then show ?thesis
    by (induction cs arbitrary: ts) (auto intro: reads_as_render)
qed

text \<open>
  C11: No input can change the structure of a query. With its literals replaced by question marks, the
  where clause that is sent depends only on which fields of the query are filled in, not on what they
  contain: every value stays inside its own literal.
\<close>

theorem where_clause_injection_free:
  assumes "where_clause q = Inr w"
  shows "skeleton False w = join '' AND '' (join '' AND '' (identity_template q) # filter_template q)"
proof -
  obtain ics fcs where ics: "collect_clauses (identity_clauses q) = Inr ics"
    and fcs: "collect_clauses (filter_clauses q) = Inr fcs"
    and w: "w = join '' AND '' (join '' AND '' (map render ics) # map render fcs)"
    using assms by (auto simp: where_clause_def identity_where_clause_def split: sum.splits)
  have "reads_as (join '' AND '' (map render ics)) (join '' AND '' (identity_template q))"
    using shaped_reads_as reads_as_join shaped_identity [of q] by (simp add: ics)
  moreover have "list_all2 reads_as (map render fcs) (filter_template q)"
    using shaped_reads_as shaped_filter [of q] by (simp add: fcs)
  ultimately have "reads_as w (join '' AND '' (join '' AND '' (identity_template q) # filter_template q))"
    unfolding w by (intro reads_as_join) simp
  then have "skeleton False (w @ []) = join '' AND '' (join '' AND '' (identity_template q) # filter_template q) @ skeleton False []"
    unfolding reads_as_def by blast
  then show ?thesis by simp
qed

definition blank_query :: property_query where
  "blank_query =
     \<lparr>pq_building_id = None, pq_registration_id = None, pq_house_number = None, pq_street_name = None,
      pq_borough = None, pq_zip_code = None, pq_violation_class = None, pq_status = None,
      pq_inspection_date_from = None, pq_inspection_date_to = None, pq_limit = 50, pq_continuation = None\<rparr>"

definition attack_query :: property_query where
  "attack_query = blank_query\<lparr>pq_building_id := Some ([CHR ''1'', quote] @ '' OR 1=1'')\<rparr>"

theorem where_clause_injection_free_witness:
  "\<exists>w. where_clause attack_query = Inr w \<and> skeleton False w = ''buildingid = ?''"
proof -
  have "\<not> isl (where_clause attack_query)" by code_simp
  then obtain w where w: "where_clause attack_query = Inr w" by (metis sum.collapse(2))
  have "join '' AND '' (join '' AND '' (identity_template attack_query) # filter_template attack_query) = ''buildingid = ?''"
    by code_simp
  with w where_clause_injection_free [OF w] show ?thesis by simp
qed

section \<open>Valid queries\<close>

lemma first_error_Inr: "first_error rs = Inr () \<longleftrightarrow> list_all (\<lambda>r. r = Inr ()) rs"
  by (induction rs rule: first_error.induct) auto

lemma guard_Inr [simp]: "guard b m = Inr () \<longleftrightarrow> b"
  by (simp add: guard_def)

lemma opt_clause_checked:
  "check_with f x = Inr () \<Longrightarrow> \<exists>cs. opt_clause x pre f = Inr cs"
  by (auto simp: check_with_def opt_clause_def split: if_splits sum.splits)

lemma opt_clause_total: "(given x \<Longrightarrow> \<exists>v. f (the x) = Inr v) \<Longrightarrow> \<exists>cs. opt_clause x pre f = Inr cs"
  by (auto simp: opt_clause_def)

lemma collect_clauses_total: "list_all (\<lambda>r. \<exists>cs. r = Inr cs) rs \<Longrightarrow> \<exists>cs. collect_clauses rs = Inr cs"
  by (induction rs) auto

lemma identity_clauses_total:
  assumes "validate_query q = Inr ()"
  shows "list_all (\<lambda>r. \<exists>cs. r = Inr cs) (identity_clauses q)"
proof -
  have v: "check_with house (pq_house_number q) = Inr ()" "check_with street (pq_street_name q) = Inr ()"
    "check_with borough_name (pq_borough q) = Inr ()"
    "given (pq_zip_code q) \<longrightarrow> five_digits (the (pq_zip_code q))"
    using assms unfolding validate_query_def first_error_Inr by simp_all
  have "\<exists>cs. opt_clause (pq_zip_code q) ''zip = '' zip_value = Inr cs"
    by (rule opt_clause_total) (use v(4) in \<open>simp add: zip_value_def\<close>)
  then show ?thesis
    unfolding identity_clauses_def
    using opt_clause_checked [OF v(1)] opt_clause_checked [OF v(2)] opt_clause_checked [OF v(3)]
    by (simp add: opt_clause_total)
qed

text \<open>
  C40: Validation and the query builder agree. A query that passes validation always has a where
  clause, with one exception: an end date that is the last representable day, whose following day does
  not exist; building the clause then raises \<^verbatim>\<open>OverflowError\<close> after the query was accepted.
\<close>

theorem valid_query_has_where:
  assumes valid: "validate_query q = Inr ()"
  shows "(\<exists>w. where_clause q = Inr w) \<or>
    (where_clause q = Inl (OverflowError ''date value out of range'') \<and>
     (\<exists>s n. pq_inspection_date_to q = Some s \<and> inspection_date s = Inr n \<and> max_ordinal \<le> n))"
proof -
  have st: "given (pq_status q) \<longrightarrow> lower (the (pq_status q)) \<in> {''open'', ''closed''}"
    and df: "check_with inspection_date (pq_inspection_date_from q) = Inr ()"
    and dt: "check_with inspection_date (pq_inspection_date_to q) = Inr ()"
    using valid unfolding validate_query_def first_error_Inr by simp_all
  obtain ics where ics: "collect_clauses (identity_clauses q) = Inr ics"
    using collect_clauses_total [OF identity_clauses_total [OF valid]] by blast
  have cl: "\<exists>cs. opt_clause (pq_violation_class q) ''upper(class) = '' (\<lambda>v. Inr (upper v)) = Inr cs"
    by (rule opt_clause_total) simp
  have sf: "\<exists>cs. opt_clause (pq_status q) ''violationstatus = '' status_filter = Inr cs"
    by (rule opt_clause_total) (use st in \<open>auto simp: status_filter_def STATUS_FILTER_MAPPING_def\<close>)
  have fr: "\<exists>cs. opt_clause (pq_inspection_date_from q) ''inspectiondate >= '' date_from_value = Inr cs"
    by (rule opt_clause_total) (use df in \<open>auto simp: check_with_def date_from_value_def split: sum.splits\<close>)
  show ?thesis
  proof (cases "\<exists>cs. opt_clause (pq_inspection_date_to q) ''inspectiondate < '' date_to_value = Inr cs")
    case True
    then have "\<exists>fcs. collect_clauses (filter_clauses q) = Inr fcs"
      unfolding filter_clauses_def by (intro collect_clauses_total) (simp add: cl sf fr)
    then show ?thesis by (auto simp: where_clause_def identity_where_clause_def ics)
  next
    case False
    then obtain s k where s: "pq_inspection_date_to q = Some s" "inspection_date s = Inr k" "max_ordinal \<le> k"
      and e: "opt_clause (pq_inspection_date_to q) ''inspectiondate < '' date_to_value =
        Inl (OverflowError ''date value out of range'')"
      using dt by (auto simp: check_with_def opt_clause_def date_to_value_def date_plus_one_def given_def
          split: if_splits sum.splits option.splits)
    have "collect_clauses (filter_clauses q) = Inl (OverflowError ''date value out of range'')"
      using cl sf fr by (auto simp: filter_clauses_def e)
    then show ?thesis using s by (auto simp: where_clause_def identity_where_clause_def ics)
  qed
qed

definition last_day_query :: property_query where
  "last_day_query = blank_query\<lparr>pq_building_id := Some ''1'', pq_inspection_date_to := Some ''9999-12-31''\<rparr>"

theorem valid_query_has_where_witness:
  "validate_query last_day_query = Inr () \<and>
   where_clause last_day_query = Inl (OverflowError ''date value out of range'')"
proof -
  have v: "validate_query last_day_query = Inr ()" by code_simp
  have "isl (where_clause last_day_query)" by code_simp
  with valid_query_has_where [OF v] v show ?thesis by auto
qed

end
