(* ===== verification/Json_Text.thy ===== *)
theory Json_Text
  imports Python_Values Sha256
begin

text \<open>
  JSON and base64 as text: \<^verbatim>\<open>json.dumps\<close> with sorted keys, \<^verbatim>\<open>json.loads\<close>, UTF-8 and
  \<^verbatim>\<open>base64.urlsafe_b64encode\<close> with its tolerant decoder, and \<^verbatim>\<open>str\<close> of decoded values. The characters are
  those of Latin-1: a text that denotes any other character is outside the model and is read as a
  malformed one. A negative zero is written as zero.
\<close>

section \<open>Writing\<close>

definition hex_digit :: "int \<Rightarrow> char" where
  "hex_digit n = char_of (if n < 10 then 48 + n else 87 + n)"

definition escape_char :: "char \<Rightarrow> string" where
  "escape_char c =
     (let n = of_char c :: int in
      if n = 34 then [CHR 0x5C, CHR 0x22]
      else if n = 92 then [CHR 0x5C, CHR 0x5C]
      else if n = 10 then [CHR 0x5C, CHR ''n'']
      else if n = 13 then [CHR 0x5C, CHR ''r'']
      else if n = 9 then [CHR 0x5C, CHR ''t'']
      else if n = 8 then [CHR 0x5C, CHR ''b'']
      else if n = 12 then [CHR 0x5C, CHR ''f'']
      else if n < 32 \<or> n > 126 then [CHR 0x5C, CHR ''u'', CHR ''0'', CHR ''0'', hex_digit (n div 16), hex_digit (n mod 16)]
      else [c])"

text \<open>With \<^verbatim>\<open>ensure_ascii=False\<close> only quotes, backslashes and control characters are escaped.\<close>

definition escape_plain :: "char \<Rightarrow> string" where
  "escape_plain c = (if 126 < (of_char c :: int) then [c] else escape_char c)"

definition dump_string :: "(char \<Rightarrow> string) \<Rightarrow> string \<Rightarrow> string" where
  "dump_string esc s = [CHR 0x22] @ concat (map esc s) @ [CHR 0x22]"

function int_digits :: "int \<Rightarrow> string" where
  "int_digits n = (if n < 10 then [char_of (48 + n)] else int_digits (n div 10) @ [char_of (48 + n mod 10)])"
  by auto
termination by (relation "measure nat") auto

definition dump_int :: "int \<Rightarrow> string" where
  "dump_int n = (if n < 0 then ''-'' @ int_digits (- n) else int_digits n)"

text \<open>
  \<^verbatim>\<open>repr(x)\<close> of a finite float: the shortest decimal that rounds to it, the closest one among those.
  \<open>decpt\<close> is the position of the decimal point, \<open>10 ^ (decpt - 1) \<le> x < 10 ^ decpt\<close>.
\<close>

definition decpt :: "rat \<Rightarrow> int" where
  "decpt x = (if 1 \<le> x then int (length (int_digits \<lfloor>x\<rfloor>)) else 1 - int (length (int_digits (\<lceil>1 / x\<rceil> - 1))))"

definition pow10 :: "int \<Rightarrow> rat" where
  "pow10 k = (if 0 \<le> k then of_int (10 ^ nat k) else 1 / of_int (10 ^ nat (- k)))"

definition decimal_candidates :: "rat \<Rightarrow> nat \<Rightarrow> int list" where
  "decimal_candidates x k =
     (let scale = pow10 (int k - decpt x); lo = \<lfloor>x * scale\<rfloor>;
          near = (if x * scale - of_int lo \<le> of_int (lo + 1) - x * scale then [lo, lo + 1] else [lo + 1, lo])
      in filter (\<lambda>n. round64 (of_int n / scale) = x) near)"

definition shortest_decimal :: "rat \<Rightarrow> int \<times> int" where
  "shortest_decimal x =
     (case concat (map (\<lambda>k. map (\<lambda>n. (n, int k - decpt x)) (decimal_candidates x k)) [1..<18]) of
        [] \<Rightarrow> (0, 0) | d # _ \<Rightarrow> d)"

definition format_decimal :: "string \<Rightarrow> int \<Rightarrow> string" where
  "format_decimal ds pt =
     (let n = int (length ds) in
      if pt \<le> - 4 \<or> 16 < pt
      then (let e = pt - 1; es = int_digits \<bar>e\<bar> in
            [hd ds] @ (if length ds = 1 then [] else ''.'' @ tl ds) @ ''e'' @ (if e < 0 then ''-'' else ''+'') @
            (if length es < 2 then ''0'' else []) @ es)
      else if pt \<le> 0 then ''0.'' @ replicate (nat (- pt)) (CHR ''0'') @ ds
      else if n \<le> pt then ds @ replicate (nat (pt - n)) (CHR ''0'') @ ''.0''
      else take (nat pt) ds @ ''.'' @ drop (nat pt) ds)"

definition float_repr :: "rat \<Rightarrow> string" where
  "float_repr x =
     (if x = 0 then ''0.0''
      else (case shortest_decimal \<bar>x\<bar> of
              (n, e) \<Rightarrow>
                let all = int_digits n; ds = rev (dropWhile (\<lambda>c. c = CHR ''0'') (rev all))
                in (if x < 0 then ''-'' else []) @ format_decimal ds (int (length all) - e)))"

text \<open>\<^verbatim>\<open>json.dumps(value, sort_keys=True, separators=(item, colon))\<close>.\<close>

fun dumps :: "(char \<Rightarrow> string) \<Rightarrow> string \<Rightarrow> string \<Rightarrow> json \<Rightarrow> string" where
  "dumps esc item colon JNull = ''null''"
| "dumps esc item colon (JBool b) = (if b then ''true'' else ''false'')"
| "dumps esc item colon (JInt n) = dump_int n"
| "dumps esc item colon (JReal x) = float_repr x"
| "dumps esc item colon JNaN = ''NaN''"
| "dumps esc item colon JInfinity = ''Infinity''"
| "dumps esc item colon JNegInfinity = ''-Infinity''"
| "dumps esc item colon (JStr s) = dump_string esc s"
| "dumps esc item colon (JList xs) = ''['' @ join item (map (dumps esc item colon) xs) @ '']''"
| "dumps esc item colon (JObj fs) =
     ''{'' @ join item (map snd (sort_key fst (map (\<lambda>f. (fst f, dump_string esc (fst f) @ colon @ dumps esc item colon (snd f))) fs))) @ ''}''"

definition dumps_compact :: "json \<Rightarrow> string" where
  "dumps_compact = dumps escape_char '','' '':''"

text \<open>\<^verbatim>\<open>json.dumps(value, ensure_ascii=False, sort_keys=True, separators=(",", ":"))\<close>.\<close>

definition dumps_unicode :: "json \<Rightarrow> string" where
  "dumps_unicode = dumps escape_plain '','' '':''"

definition sha_hex :: "string \<Rightarrow> string" where
  "sha_hex s = hexdigest (sha256 (utf8 s))"

section \<open>Converting to text\<close>

text \<open>\<^verbatim>\<open>repr\<close> of a string: double quotes when it has single quotes only, escapes for what is not printable.\<close>

definition repr_char :: "char \<Rightarrow> char \<Rightarrow> string" where
  "repr_char q c =
     (let n = of_char c :: int in
      if c = q \<or> n = 92 then [CHR 0x5C, c]
      else if n = 10 then [CHR 0x5C, CHR ''n'']
      else if n = 13 then [CHR 0x5C, CHR ''r'']
      else if n = 9 then [CHR 0x5C, CHR ''t'']
      else if n < 32 \<or> (127 \<le> n \<and> n \<le> 160) \<or> n = 173
      then [CHR 0x5C, CHR ''x'', hex_digit (n div 16), hex_digit (n mod 16)]
      else [c])"

definition py_repr_str :: "string \<Rightarrow> string" where
  "py_repr_str s =
     (let q = (if CHR 0x27 \<in> set s \<and> CHR 0x22 \<notin> set s then CHR 0x22 else CHR 0x27)
      in [q] @ concat (map (repr_char q) s) @ [q])"

fun py_repr :: "json \<Rightarrow> string" where
  "py_repr JNull = ''None''"
| "py_repr (JBool b) = (if b then ''True'' else ''False'')"
| "py_repr (JInt n) = dump_int n"
| "py_repr (JReal x) = float_repr x"
| "py_repr JNaN = ''nan''"
| "py_repr JInfinity = ''inf''"
| "py_repr JNegInfinity = ''-inf''"
| "py_repr (JStr s) = py_repr_str s"
| "py_repr (JList xs) = ''['' @ join '', '' (map py_repr xs) @ '']''"
| "py_repr (JObj fs) = ''{'' @ join '', '' (map (\<lambda>f. py_repr_str (fst f) @ '': '' @ py_repr (snd f)) fs) @ ''}''"

definition py_str :: "json \<Rightarrow> string" where
  "py_str v = (case v of JStr s \<Rightarrow> s | _ \<Rightarrow> py_repr v)"

section \<open>Reading\<close>

definition json_ws :: "char \<Rightarrow> bool" where
  "json_ws c \<longleftrightarrow> of_char c \<in> {9, 10, 13, 32 :: nat}"

definition skip_ws :: "string \<Rightarrow> string" where
  "skip_ws = dropWhile json_ws"

text \<open>The character of a one-letter escape.\<close>

definition escapes :: "(char \<times> char) list" where
  "escapes =
     [(CHR 0x22, CHR 0x22), (CHR 0x5C, CHR 0x5C), (CHR ''/'', CHR ''/''), (CHR ''b'', CHR 0x08), (CHR ''f'', CHR 0x0C),
      (CHR ''n'', CHR 0x0A), (CHR ''r'', CHR 0x0D), (CHR ''t'', CHR 0x09)]"

definition hex_value :: "string \<Rightarrow> int option" where
  "hex_value s = (if list_all (\<lambda>c. digit_value c \<noteq> None) s then Some (value_base 16 s) else None)"

definition prepend :: "char \<Rightarrow> (string \<times> string) option \<Rightarrow> (string \<times> string) option" where
  "prepend c r = map_option (\<lambda>(s, rest). (c # s, rest)) r"

text \<open>The rest of a string after its opening quote, and what follows it.\<close>

fun scan_string :: "string \<Rightarrow> (string \<times> string) option" where
  "scan_string [] = None"
| "scan_string (c # cs) =
     (if c = CHR 0x22 then Some ([], cs)
      else if c = CHR 0x5C
      then (case cs of
              [] \<Rightarrow> None
            | e # r \<Rightarrow>
                (case map_of escapes e of
                   Some x \<Rightarrow> prepend x (scan_string r)
                 | None \<Rightarrow>
                     (case r of
                        h1 # h2 # h3 # h4 # rest \<Rightarrow>
                          if e = CHR ''u''
                          then (case hex_value [h1, h2, h3, h4] of
                                  Some n \<Rightarrow> if n < 256 then prepend (char_of n) (scan_string rest) else None
                                | None \<Rightarrow> None)
                          else None
                      | _ \<Rightarrow> None)))
      else if (of_char c :: nat) < 32 then None
      else prepend c (scan_string cs))"

text \<open>The parts of a number: the integer part with its sign, the fraction, the exponent, and what follows.\<close>

definition whole_part :: "string \<Rightarrow> string" where
  "whole_part s = (if starts_with s ''0'' then ''0'' else takeWhile is_decimal s)"

definition fraction_part :: "string \<Rightarrow> string" where
  "fraction_part s = (let f = takeWhile is_decimal (drop 1 s) in if starts_with s ''.'' \<and> f \<noteq> [] then ''.'' @ f else [])"

definition exponent_part :: "string \<Rightarrow> string" where
  "exponent_part s =
     (let sg = (if take 1 (drop 1 s) \<in> {''+'', ''-''} then take 1 (drop 1 s) else []);
          e = takeWhile is_decimal (drop (1 + length sg) s)
      in if take 1 s \<in> {''e'', ''E''} \<and> e \<noteq> [] then take 1 s @ sg @ e else [])"

definition number_parts :: "string \<Rightarrow> (string \<times> string \<times> string \<times> string) option" where
  "number_parts s =
     (let sg = (if starts_with s ''-'' then ''-'' else []); s1 = drop (length sg) s;
          w = whole_part s1; s2 = drop (length w) s1;
          f = fraction_part s2; s3 = drop (length f) s2;
          e = exponent_part s3
      in if w = [] then None else Some (sg @ w, f, e, drop (length e) s3))"

definition signed_value :: "string \<Rightarrow> int" where
  "signed_value s =
     (if starts_with s ''-'' then - value_base 10 (tl s)
      else if starts_with s ''+'' then value_base 10 (tl s) else value_base 10 s)"

definition overflow_bound :: rat where
  "overflow_bound = pow2 1024 - pow2 970"

definition float_of :: "string \<Rightarrow> string \<Rightarrow> string \<Rightarrow> json" where
  "float_of whole fp ex =
     (let m = of_int (signed_value (whole @ drop 1 fp)) :: rat;
          x = m * pow10 ((if ex = [] then 0 else signed_value (drop 1 ex)) - int (length (drop 1 fp)))
      in if overflow_bound \<le> x then JInfinity else if x \<le> - overflow_bound then JNegInfinity else JReal (round64 x))"

definition literals :: "(string \<times> json) list" where
  "literals =
     [(''null'', JNull), (''true'', JBool True), (''false'', JBool False), (''NaN'', JNaN), (''Infinity'', JInfinity),
      (''-Infinity'', JNegInfinity)]"

definition parse_scalar :: "string \<Rightarrow> (json \<times> string) option" where
  "parse_scalar s =
     (case List.find (\<lambda>l. starts_with s (fst l)) literals of
        Some l \<Rightarrow> Some (snd l, drop (length (fst l)) s)
      | None \<Rightarrow>
          (case number_parts s of
             None \<Rightarrow> None
           | Some (whole, fp, ex, rest) \<Rightarrow>
               if fp = [] \<and> ex = []
               then (if length whole - (if starts_with whole ''-'' then 1 else 0) \<le> 4300
                     then Some (JInt (signed_value whole), rest) else None)
               else Some (float_of whole fp ex, rest)))"

text \<open>
  A value, the items of a list after the first bracket and the members of an object after the first
  brace; the number bounds the nesting and the length, and the length of the text is enough.
\<close>

fun parse_value :: "nat \<Rightarrow> string \<Rightarrow> (json \<times> string) option"
  and parse_items :: "nat \<Rightarrow> string \<Rightarrow> (json list \<times> string) option"
  and parse_members :: "nat \<Rightarrow> json_object \<Rightarrow> string \<Rightarrow> (json_object \<times> string) option" where
  "parse_value 0 s = None"
| "parse_value (Suc n) s =
     (if starts_with s [CHR 0x22] then map_option (\<lambda>(t, r). (JStr t, r)) (scan_string (tl s))
      else if starts_with s ''{''
      then (let r = skip_ws (tl s) in
            if starts_with r ''}'' then Some (JObj [], tl r)
            else map_option (\<lambda>(fs, r'). (JObj fs, r')) (parse_members n [] r))
      else if starts_with s ''[''
      then (let r = skip_ws (tl s) in
            if starts_with r '']'' then Some (JList [], tl r)
            else map_option (\<lambda>(xs, r'). (JList xs, r')) (parse_items n r))
      else parse_scalar s)"
| "parse_items 0 s = None"
| "parse_items (Suc n) s =
     (case parse_value n s of
        None \<Rightarrow> None
      | Some (v, r) \<Rightarrow>
          (let r' = skip_ws r in
           if starts_with r' '']'' then Some ([v], tl r')
           else if starts_with r' '','' then map_option (\<lambda>(vs, q). (v # vs, q)) (parse_items n (skip_ws (tl r')))
           else None))"
| "parse_members 0 acc s = None"
| "parse_members (Suc n) acc s =
     (if \<not> starts_with s [CHR 0x22] then None
      else (case scan_string (tl s) of
              None \<Rightarrow> None
            | Some (k, r) \<Rightarrow>
                if \<not> starts_with (skip_ws r) '':'' then None
                else (case parse_value n (skip_ws (tl (skip_ws r))) of
                        None \<Rightarrow> None
                      | Some (v, q) \<Rightarrow>
                          (let q' = skip_ws q; acc' = AList.update k v acc in
                           if starts_with q' ''}'' then Some (acc', tl q')
                           else if starts_with q' '','' then parse_members n acc' (skip_ws (tl q'))
                           else None))))"

definition loads :: "string \<Rightarrow> json option" where
  "loads s =
     (case parse_value (length s + 1) (skip_ws s) of
        Some (v, r) \<Rightarrow> if skip_ws r = [] then Some v else None
      | None \<Rightarrow> None)"

section \<open>Base64 and UTF-8\<close>

definition b64_char :: "int \<Rightarrow> char" where
  "b64_char v =
     char_of (if v < 26 then 65 + v else if v < 52 then 71 + v else if v < 62 then v - 4 else if v = 62 then 45 else 95)"

fun b64_encode :: "int list \<Rightarrow> string" where
  "b64_encode [] = []"
| "b64_encode [a] = [b64_char (a div 4), b64_char (a mod 4 * 16), CHR ''='', CHR ''='']"
| "b64_encode [a, b] = [b64_char (a div 4), b64_char (a mod 4 * 16 + b div 16), b64_char (b mod 16 * 4), CHR ''='']"
| "b64_encode (a # b # c # r) =
     [b64_char (a div 4), b64_char (a mod 4 * 16 + b div 16), b64_char (b mod 16 * 4 + c div 64), b64_char (c mod 64)] @
     b64_encode r"

definition sextet :: "char \<Rightarrow> int option" where
  "sextet c =
     (let n = of_char c :: int in
      if 65 \<le> n \<and> n \<le> 90 then Some (n - 65)
      else if 97 \<le> n \<and> n \<le> 122 then Some (n - 71)
      else if 48 \<le> n \<and> n \<le> 57 then Some (n + 4)
      else if n = 45 \<or> n = 43 then Some 62 else if n = 95 \<or> n = 47 then Some 63 else None)"

text \<open>
  The decoder of \<^verbatim>\<open>binascii\<close>: the position in the group of four, the padding seen in it and the bits left
  over. Other characters are skipped, complete padding ends the text.
\<close>

fun b64_scan :: "nat \<Rightarrow> nat \<Rightarrow> int \<Rightarrow> string \<Rightarrow> int list option" where
  "b64_scan q p l [] = (if q = 0 then Some [] else None)"
| "b64_scan q p l (c # cs) =
     (if c = CHR ''=''
      then (if 2 \<le> q \<and> 4 \<le> q + p + 1 then Some [] else b64_scan q (if 2 \<le> q then p + 1 else p) l cs)
      else (case sextet c of
              None \<Rightarrow> b64_scan q p l cs
            | Some v \<Rightarrow>
                if q = 0 then b64_scan 1 0 v cs
                else if q = 1 then map_option ((#) (l * 4 + v div 16)) (b64_scan 2 0 (v mod 16) cs)
                else if q = 2 then map_option ((#) (l * 16 + v div 4)) (b64_scan 3 0 (v mod 4) cs)
                else map_option ((#) (l * 64 + v)) (b64_scan 0 0 0 cs)))"

definition urlsafe_b64encode :: "byte list \<Rightarrow> string" where
  "urlsafe_b64encode bs = b64_encode (map uint bs)"

definition urlsafe_b64decode :: "string \<Rightarrow> int list option" where
  "urlsafe_b64decode s = (if list_all (\<lambda>c. (of_char c :: nat) < 128) s then b64_scan 0 0 0 s else None)"

fun utf8_decode :: "int list \<Rightarrow> string option" where
  "utf8_decode [] = Some []"
| "utf8_decode (a # r) =
     (if a < 128 then map_option ((#) (char_of a)) (utf8_decode r)
      else (case r of
              b # r' \<Rightarrow>
                if (a = 194 \<or> a = 195) \<and> 128 \<le> b \<and> b < 192
                then map_option ((#) (char_of ((a - 192) * 64 + (b - 128)))) (utf8_decode r') else None
            | [] \<Rightarrow> None))"

subsection \<open>Round trips\<close>

lemma sextet_b64_char: "0 \<le> v \<Longrightarrow> v < 64 \<Longrightarrow> sextet (b64_char v) = Some v \<and> b64_char v \<noteq> CHR ''='' \<and> (of_char (b64_char v) :: nat) < 128"
proof -
  assume "0 \<le> v" "v < 64"
  then have "v \<in> set (map int [0..<64])" by (auto simp: image_iff intro!: bexI [of _ "nat v"])
  moreover have "list_all (\<lambda>v. sextet (b64_char v) = Some v \<and> b64_char v \<noteq> CHR ''='' \<and> (of_char (b64_char v) :: nat) < 128) (map int [0..<64])"
    by code_simp
  ultimately show ?thesis unfolding list_all_iff by blast
qed

definition is_byte :: "int \<Rightarrow> bool" where
  "is_byte a \<longleftrightarrow> 0 \<le> a \<and> a < 256"

lemma pack:
  assumes "0 \<le> h" and "h < k"
  shows "(m * k + h) div k = m" "(m * k + h) mod k = (h :: int)"
  using assms by simp_all

lemma byte_parts:
  assumes "is_byte a"
  shows "0 \<le> a div 4" "a div 4 < 64" "0 \<le> a div 16" "a div 16 < 16" "0 \<le> a div 64" "a div 64 < 4"
    "a mod 4 < 4" "a mod 16 < 16" "a mod 64 < 64" "0 \<le> a mod 4" "0 \<le> a mod 16" "0 \<le> a mod 64"
  using assms unfolding is_byte_def by auto

lemma pack_range:
  "0 \<le> m \<Longrightarrow> m < 4 \<Longrightarrow> 0 \<le> h \<Longrightarrow> h < 16 \<Longrightarrow> 0 \<le> m * 16 + h \<and> m * 16 + h < (64 :: int)"
  "0 \<le> m \<Longrightarrow> m < 16 \<Longrightarrow> 0 \<le> h \<Longrightarrow> h < 4 \<Longrightarrow> 0 \<le> m * 4 + h \<and> m * 4 + h < (64 :: int)"
  by auto

definition is_sextet :: "int \<Rightarrow> bool" where
  "is_sextet v \<longleftrightarrow> 0 \<le> v \<and> v < 64"

lemma sextet_ranges:
  assumes "is_byte a" and "is_byte b"
  shows "is_sextet (a div 4)" "is_sextet (a mod 4 * 16 + b div 16)"
    "is_sextet (a mod 16 * 4 + b div 64)" "is_sextet (a mod 4 * 16)" "is_sextet (a mod 16 * 4)" "is_sextet (a mod 64)"
proof -
  note a = byte_parts [OF assms(1)] and b = byte_parts [OF assms(2)]
  show "is_sextet (a div 4)" "is_sextet (a mod 64)" using a by (simp_all only: is_sextet_def)
  show "is_sextet (a mod 4 * 16 + b div 16)" unfolding is_sextet_def by (rule pack_range(1) [OF a(10,7) b(3,4)])
  show "is_sextet (a mod 16 * 4 + b div 64)" unfolding is_sextet_def by (rule pack_range(2) [OF a(11,8) b(5,6)])
  show "is_sextet (a mod 4 * 16)" using pack_range(1) [OF a(10,7), of 0] by (simp add: is_sextet_def)
  show "is_sextet (a mod 16 * 4)" using pack_range(2) [OF a(11,8), of 0] by (simp add: is_sextet_def)
qed

lemma scan_group:
  assumes "is_sextet v1" "is_sextet v2" "is_sextet v3" "is_sextet v4"
  shows "b64_scan 0 p l [b64_char v1, b64_char v2, CHR ''='', CHR ''=''] = Some [v1 * 4 + v2 div 16]"
    "b64_scan 0 p l [b64_char v1, b64_char v2, b64_char v3, CHR ''=''] =
       Some [v1 * 4 + v2 div 16, v2 mod 16 * 16 + v3 div 4]"
    "b64_scan 0 p l (b64_char v1 # b64_char v2 # b64_char v3 # b64_char v4 # rest) =
       map_option (\<lambda>r. (v1 * 4 + v2 div 16) # (v2 mod 16 * 16 + v3 div 4) # (v3 mod 4 * 64 + v4) # r) (b64_scan 0 0 0 rest)"
  using assms [unfolded is_sextet_def]
  by (simp_all add: sextet_b64_char option.map_comp o_def)

lemma byte_join:
  assumes "is_byte b" and "is_byte c"
  shows "a div 4 * 4 + (a mod 4 * 16 + b div 16) div 16 = a"
    "(a mod 4 * 16 + b div 16) mod 16 * 16 + (b mod 16 * 4 + c div 64) div 4 = b"
    "(b mod 16 * 4 + c div 64) mod 4 * 64 + c mod 64 = c"
    "(a mod 4 * 16 + b div 16) mod 16 * 16 + (b mod 16 * 4) div 4 = b"
  using pack [OF byte_parts(3,4) [OF assms(1)]] pack [OF byte_parts(5,6) [OF assms(2)]] by simp_all

lemma b64_scan_encode: "list_all is_byte bs \<Longrightarrow> b64_scan 0 p l (b64_encode bs) = Some bs"
proof (induction bs arbitrary: p l rule: b64_encode.induct)
  case 1
  show ?case by simp
next
  case (2 a)
  then have "is_byte a" by simp
  note v = sextet_ranges [OF this this]
  show ?case using scan_group(1) [OF v(1,4,1,1)] by simp
next
  case (3 a b)
  then have ab: "is_byte a" "is_byte b" by simp_all
  note v = sextet_ranges [OF ab] and w = sextet_ranges [OF ab(2,1)]
  show ?case unfolding b64_encode.simps scan_group(2) [OF v(1,2) w(5) v(1)] byte_join(1,4) [OF ab(2,2)] by (rule refl)
next
  case (4 a b c r)
  then have abc: "is_byte a" "is_byte b" "is_byte c" and r: "list_all is_byte r" by simp_all
  note v = sextet_ranges [OF abc(1,2)] and w = sextet_ranges [OF abc(2,3)] and u = sextet_ranges [OF abc(3,3)]
  show ?case
    unfolding b64_encode.simps append_Cons append_Nil scan_group(3) [OF v(1,2) w(3) u(6)] byte_join [OF abc(2,3)] "4.IH" [OF r]
    by simp
qed

lemma b64_char_ascii: "is_sextet v \<Longrightarrow> (of_char (b64_char v) :: nat) < 128"
  by (simp add: is_sextet_def sextet_b64_char)

lemma b64_encode_ascii: "list_all is_byte bs \<Longrightarrow> list_all (\<lambda>c. (of_char c :: nat) < 128) (b64_encode bs)"
proof (induction bs rule: b64_encode.induct)
  case (2 a)
  then show ?case by (simp add: b64_char_ascii sextet_ranges)
next
  case (3 a b)
  then have ab: "is_byte a" "is_byte b" by simp_all
  show ?case using sextet_ranges [OF ab] sextet_ranges [OF ab(2,1)] by (simp add: b64_char_ascii)
next
  case (4 a b c r)
  then have abc: "is_byte a" "is_byte b" "is_byte c" "list_all is_byte r" by simp_all
  show ?case
    using sextet_ranges [OF abc(1,2)] sextet_ranges [OF abc(2,3)] sextet_ranges [OF abc(3,3)] "4.IH" [OF abc(4)]
    by (simp add: b64_char_ascii)
qed simp

lemma b64_round_trip: "urlsafe_b64decode (urlsafe_b64encode bs) = Some (map uint bs)"
proof -
  have "list_all is_byte (map uint bs)"
    using uint_bounded [where 'a = 8] by (simp add: list_all_iff is_byte_def)
  then show ?thesis by (simp add: urlsafe_b64decode_def urlsafe_b64encode_def b64_encode_ascii b64_scan_encode)
qed

lemma utf8_char:
  "utf8_decode (map uint (let n = of_char c :: int in
     if n < 128 then [word_of_int n] else [word_of_int (192 + n div 64), word_of_int (128 + n mod 64) :: byte]) @ r) =
   map_option ((#) c) (utf8_decode r)"
proof -
  define n where "n = (of_char c :: int)"
  have "n = int (of_char c)" by (simp only: n_def of_nat_of_char)
  then have n: "0 \<le> n" "n < 256" using nat_of_char_less_256 [of c] by linarith+
  have c: "char_of n = c" by (simp add: n_def)
  have u: "uint (word_of_int k :: byte) = k" if "0 \<le> k" "k < 256" for k
    using that by (simp add: unsigned_of_int take_bit_int_eq_self)
  show ?thesis
  proof (cases "n < 128")
    case True
    then show ?thesis using n c u [of n] by (simp add: Let_def flip: n_def)
  next
    case False
    then have d: "n div 64 = 2 \<or> n div 64 = 3" using n by auto
    have m: "0 \<le> n mod 64" "n mod 64 < 64" by simp_all
    have w: "uint (word_of_int (192 + n div 64) :: byte) = 192 + n div 64" "uint (word_of_int (128 + n mod 64) :: byte) = 128 + n mod 64"
      using d m by (intro u; linarith)+
    have e: "(192 + n div 64 - 192) * 64 + (128 + n mod 64 - 128) = n" by simp
    have "utf8_decode ((192 + n div 64) # (128 + n mod 64) # r) = map_option ((#) c) (utf8_decode r)"
    proof -
      have "\<not> 192 + n div 64 < 128" "192 + n div 64 = 194 \<or> 192 + n div 64 = 195" "128 \<le> 128 + n mod 64" "128 + n mod 64 < 192"
        using d m by linarith+
      then show ?thesis unfolding utf8_decode.simps list.case e c by simp
    qed
    then show ?thesis using False w by (simp add: Let_def flip: n_def)
  qed
qed

lemma utf8_round_trip: "utf8_decode (map uint (utf8 s)) = Some s"
proof (induction s)
  case Nil
  show ?case by (simp add: utf8_def)
next
  case (Cons c s)
  then show ?case using utf8_char [of c "map uint (utf8 s)"] by (simp add: utf8_def)
qed

text \<open>Strings.\<close>

lemma all_chars: "list_all P (Enum.enum :: char list) \<Longrightarrow> P c"
  by (simp add: list_all_iff enum_UNIV)

definition escape_shape :: "char \<Rightarrow> bool" where
  "escape_shape c \<longleftrightarrow>
     (case escape_char c of
        [x] \<Rightarrow> x = c \<and> c \<noteq> CHR 0x22 \<and> c \<noteq> CHR 0x5C \<and> \<not> (of_char c :: nat) < 32
      | [b, e] \<Rightarrow> b = CHR 0x5C \<and> map_of escapes e = Some c
      | [b, e, h1, h2, h3, h4] \<Rightarrow>
          b = CHR 0x5C \<and> e = CHR ''u'' \<and> hex_value [h1, h2, h3, h4] = Some (of_char c) \<and> (of_char c :: int) < 256
      | _ \<Rightarrow> False)"

lemma escape_shape: "escape_shape c"
  by (rule all_chars) code_simp

lemma escapes_u: "map_of escapes (CHR ''u'') = None"
  by (simp add: escapes_def)

lemma scan_escaped: "scan_string (escape_char c @ t) = prepend c (scan_string t)"
proof -
  from escape_shape [of c, unfolded escape_shape_def]
  consider "escape_char c = [c]" "c \<noteq> CHR 0x22" "c \<noteq> CHR 0x5C" "\<not> (of_char c :: nat) < 32"
    | e where "escape_char c = [CHR 0x5C, e]" "map_of escapes e = Some c"
    | h1 h2 h3 h4 where "escape_char c = [CHR 0x5C, CHR ''u'', h1, h2, h3, h4]"
        "hex_value [h1, h2, h3, h4] = Some (of_char c)" "(of_char c :: int) < 256"
    by (auto split: list.splits)
  then show ?thesis
  proof cases
    case 1
    then show ?thesis by simp
  next
    case 2
    then show ?thesis by simp
  next
    case 3
    then show ?thesis by (simp add: escapes_u)
  qed
qed

definition plain_shape :: "char \<Rightarrow> bool" where
  "plain_shape c \<longleftrightarrow>
     (if 126 < (of_char c :: int) then c \<noteq> CHR 0x22 \<and> c \<noteq> CHR 0x5C \<and> \<not> (of_char c :: nat) < 32 else True)"

lemma plain_shape: "plain_shape c"
  by (rule all_chars) code_simp

lemma scan_escaped_plain: "scan_string (escape_plain c @ t) = prepend c (scan_string t)"
  using plain_shape [of c] by (simp add: escape_plain_def scan_escaped plain_shape_def split: if_splits)

text \<open>Integers.\<close>

lemma digit_cases: "0 \<le> x \<Longrightarrow> x < 10 \<Longrightarrow> x \<in> {0, 1, 2, 3, 4, 5, 6, 7, 8, 9 :: int}"
  by simp presburger

lemma digit_char:
  assumes "0 \<le> x" and "x < (10 :: int)"
  shows "is_decimal (char_of (48 + x))" and "digit_value (char_of (48 + x)) = Some x"
    and "char_of (48 + x) = CHR ''0'' \<longleftrightarrow> x = 0"
proof -
  have "list_all (\<lambda>x. is_decimal (char_of (48 + x)) \<and> digit_value (char_of (48 + x)) = Some x \<and> (char_of (48 + x) = CHR ''0'' \<longleftrightarrow> x = 0))
      [0, 1, 2, 3, 4, 5, 6, 7, 8, 9 :: int]" by code_simp
  moreover have "x \<in> set [0, 1, 2, 3, 4, 5, 6, 7, 8, 9 :: int]" using digit_cases [OF assms] by (simp only: list.set)
  ultimately show "is_decimal (char_of (48 + x))" "digit_value (char_of (48 + x)) = Some x"
    "char_of (48 + x) = CHR ''0'' \<longleftrightarrow> x = 0"
    unfolding list_all_iff by blast+
qed

lemma int_digits_zero: "int_digits 0 = ''0''"
  by code_simp

lemma value_base_snoc: "value_base 10 (s @ [c]) = value_base 10 s * 10 + (case digit_value c of Some d \<Rightarrow> d | None \<Rightarrow> 0)"
  by (simp add: value_base_def)

declare int_digits.simps [simp del]

lemma int_digits_facts:
  "0 \<le> n \<Longrightarrow> int_digits n \<noteq> [] \<and> list_all is_decimal (int_digits n) \<and> value_base 10 (int_digits n) = n \<and>
     (hd (int_digits n) = CHR ''0'' \<longleftrightarrow> n = 0) \<and> (n = 0 \<longrightarrow> int_digits n = ''0'')"
proof (induction n rule: int_digits.induct)
  case (1 n)
  show ?case
  proof (cases "n < 10")
    case True
    with "1.prems" show ?thesis
      using value_base_snoc [of "[]" "char_of (48 + n)"]
      by (simp add: int_digits.simps [of n] digit_char) (auto simp: value_base_def int_digits_zero)
  next
    case False
    then have q: "0 \<le> n div 10" "n div 10 \<noteq> 0" by auto
    with "1.IH" [OF False] show ?thesis
      using False by (simp add: int_digits.simps [of n] digit_char value_base_snoc)
  qed
qed

text \<open>What may follow a value: nothing that could continue a number.\<close>

definition stops :: "string \<Rightarrow> bool" where
  "stops r \<longleftrightarrow> (case r of [] \<Rightarrow> True | c # _ \<Rightarrow> \<not> is_decimal c \<and> c \<notin> {CHR ''.'', CHR ''e'', CHR ''E''})"

lemma takeWhile_digits: "list_all is_decimal ds \<Longrightarrow> stops rest \<Longrightarrow> takeWhile is_decimal (ds @ rest) = ds"
  by (induction ds) (auto simp: stops_def split: list.splits)

definition letters :: string where
  "letters = [CHR ''n'', CHR ''t'', CHR ''f'', CHR ''N'', CHR ''I'', CHR ''-'', CHR ''+'', CHR ''{'', CHR ''['', CHR 0x22]"

definition apart :: "char \<Rightarrow> bool" where
  "apart c \<longleftrightarrow> (if is_decimal c then \<not> List.member letters c \<and> \<not> json_ws c else True)"

lemma decimal_apart: "apart c"
  by (rule all_chars) code_simp

lemma decimal_not_letter: "is_decimal c \<Longrightarrow> c \<notin> set letters \<and> \<not> json_ws c"
  using decimal_apart [of c] by (simp add: apart_def)

lemma stops_no_tail:
  assumes "stops rest"
  shows "\<not> starts_with rest ''.''" "take 1 rest \<notin> {''e'', ''E''}"
  using assms by (auto simp: stops_def starts_with_def split: list.splits)

lemma number_parts_digits:
  assumes "0 \<le> n" and "stops rest"
  shows "number_parts (int_digits n @ rest) = Some (int_digits n, [], [], rest)"
    "number_parts (CHR ''-'' # int_digits n @ rest) = Some (CHR ''-'' # int_digits n, [], [], rest)"
proof -
  note f = int_digits_facts [OF assms(1)]
  obtain d ds where d: "int_digits n = d # ds" using f by (cases "int_digits n") auto
  have minus: "d \<noteq> CHR ''-''" using f decimal_not_letter [of d] by (simp add: d letters_def)
  have whole: "whole_part (int_digits n @ rest) = int_digits n"
  proof (cases "n = 0")
    case True
    then show ?thesis by (simp add: whole_part_def int_digits_zero starts_with_def)
  next
    case False
    with f have "\<not> starts_with (int_digits n @ rest) ''0''" by (simp add: starts_with_def d)
    then show ?thesis using f takeWhile_digits [OF _ assms(2)] by (simp add: whole_part_def)
  qed
  have tail: "fraction_part rest = []" "exponent_part rest = []"
    using stops_no_tail [OF assms(2)] by (auto simp: fraction_part_def exponent_part_def Let_def)
  have s1: "\<not> starts_with (int_digits n @ rest) ''-''" using minus by (simp add: starts_with_def d)
  show "number_parts (int_digits n @ rest) = Some (int_digits n, [], [], rest)"
    using f by (simp add: number_parts_def s1 whole tail)
  have s2: "starts_with (CHR ''-'' # int_digits n @ rest) ''-''" by (simp add: starts_with_def)
  show "number_parts (CHR ''-'' # int_digits n @ rest) = Some (CHR ''-'' # int_digits n, [], [], rest)"
    using f by (simp add: number_parts_def s2 whole tail)
qed

lemma find_literal_none:
  assumes "list_all is_decimal ds" and "ds \<noteq> []"
  shows "List.find (\<lambda>l. starts_with (ds @ rest) (fst l)) literals = None"
    "List.find (\<lambda>l. starts_with (CHR ''-'' # ds @ rest) (fst l)) literals = None"
proof -
  obtain d e where d: "ds = d # e" using assms(2) by (cases ds) auto
  then have "is_decimal d" using assms(1) by simp
  note n = decimal_not_letter [OF this]
  show "List.find (\<lambda>l. starts_with (ds @ rest) (fst l)) literals = None"
    "List.find (\<lambda>l. starts_with (CHR ''-'' # ds @ rest) (fst l)) literals = None"
    using n by (simp_all add: literals_def starts_with_def d letters_def)
qed

lemma parse_int:
  assumes "length (int_digits \<bar>n\<bar>) \<le> 4300" and "stops rest"
  shows "parse_scalar (dump_int n @ rest) = Some (JInt n, rest)"
proof -
  note f = int_digits_facts [of "\<bar>n\<bar>"]
  have m: "hd (int_digits \<bar>n\<bar>) \<noteq> CHR ''-'' \<and> hd (int_digits \<bar>n\<bar>) \<noteq> CHR ''+''"
    using f by (cases "int_digits \<bar>n\<bar>") (auto dest!: decimal_not_letter simp: letters_def)
  show ?thesis
  proof (cases "n < 0")
    case True
    with assms f show ?thesis
      using number_parts_digits(2) [of "- n" rest] find_literal_none(2) [of "int_digits (- n)" rest]
      by (simp add: dump_int_def parse_scalar_def signed_value_def starts_with_def)
  next
    case False
    then have "\<not> starts_with (int_digits n) ''-''" "\<not> starts_with (int_digits n) ''+''"
      using m f by (cases "int_digits n"; simp add: starts_with_def)+
    with False assms f show ?thesis
      using number_parts_digits(1) [of n rest] find_literal_none(1) [of "int_digits n" rest]
      by (simp add: dump_int_def parse_scalar_def signed_value_def)
  qed
qed

text \<open>The values without floats, and what reading a dumped one gives: the keys of objects are sorted.\<close>

fun plain :: "json \<Rightarrow> bool" where
  "plain JNull = True"
| "plain (JBool b) = True"
| "plain (JInt n) = (length (int_digits \<bar>n\<bar>) \<le> 4300)"
| "plain (JStr s) = True"
| "plain (JList xs) = list_all plain xs"
| "plain (JObj fs) = (distinct (map fst fs) \<and> list_all (\<lambda>f. plain (snd f)) fs)"
| "plain _ = False"

fun key_sorted :: "json \<Rightarrow> json" where
  "key_sorted (JList xs) = JList (map key_sorted xs)"
| "key_sorted (JObj fs) = JObj (sort_key fst (map (\<lambda>f. (fst f, key_sorted (snd f))) fs))"
| "key_sorted v = v"

lemma insort_key_map: "(\<And>x. f (h x) = f x) \<Longrightarrow> insort_key f (h x) (map h ys) = map h (insort_key f x ys)"
  by (induction ys) auto

lemma sort_key_map: "(\<And>x. f (h x) = f x) \<Longrightarrow> sort_key f (map h xs) = map h (sort_key f xs)"
  by (induction xs) (auto simp: insort_key_map)

definition dump_member :: "(char \<Rightarrow> string) \<Rightarrow> string \<times> json \<Rightarrow> string" where
  "dump_member esc f = dump_string esc (fst f) @ '':'' @ dumps esc '','' '':'' (snd f)"

lemma dumps_object:
  "dumps esc '','' '':'' (JObj fs) = ''{'' @ join '','' (map (dump_member esc) (sort_key fst fs)) @ ''}''"
proof -
  have "insort_key fst (fst f, dump_member esc f) (map (\<lambda>f. (fst f, dump_member esc f)) ys) =
      map (\<lambda>f. (fst f, dump_member esc f)) (insort_key fst f ys)" for f ys
    by (induction ys) auto
  then have "sort_key fst (map (\<lambda>f. (fst f, dump_member esc f)) fs) = map (\<lambda>f. (fst f, dump_member esc f)) (sort_key fst fs)"
    by (induction fs) simp_all
  then have "map snd (sort_key fst (map (\<lambda>f. (fst f, dump_member esc f)) fs)) = map (dump_member esc) (sort_key fst fs)"
    by simp
  then show ?thesis by (simp add: dump_member_def)
qed

lemma dumps_compact_simps:
  "dumps_compact (JList xs) = ''['' @ join '','' (map dumps_compact xs) @ '']''"
  "dumps_compact (JObj fs) = ''{'' @ join '','' (map (dump_member escape_char) (sort_key fst fs)) @ ''}''"
  by (simp_all only: dumps_compact_def dumps_object) simp

lemma update_new: "k \<notin> fst ` set acc \<Longrightarrow> AList.update k v acc = acc @ [(k, v)]"
  by (induction acc) auto

text \<open>The text \<open>t\<close> is read as the value \<open>v\<close> wherever it stands.\<close>

definition reads :: "string \<Rightarrow> json \<Rightarrow> bool" where
  "reads t v \<longleftrightarrow>
     t \<noteq> [] \<and> \<not> json_ws (hd t) \<and>
     (\<forall>n rest. stops rest \<longrightarrow> length t \<le> n \<longrightarrow> parse_value n (t @ rest) = Some (v, rest))"

lemma stops_delimiters: "stops (CHR '','' # r)" "stops (CHR '']'' # r)" "stops (CHR ''}'' # r)"
  by (simp_all add: stops_def is_decimal_def)

lemma skip_ws_reads: "reads t v \<Longrightarrow> skip_ws (t @ r) = t @ r"
  by (cases t) (auto simp: reads_def skip_ws_def)

lemma skip_ws_delimiters:
  "skip_ws (CHR '','' # r) = CHR '','' # r" "skip_ws (CHR '']'' # r) = CHR '']'' # r" "skip_ws (CHR ''}'' # r) = CHR ''}'' # r"
  "skip_ws (CHR '':'' # r) = CHR '':'' # r" "skip_ws (CHR 0x22 # r) = CHR 0x22 # r"
  by (simp_all add: skip_ws_def json_ws_def)

lemma reads_alone: "reads t v \<Longrightarrow> length t \<le> n \<Longrightarrow> parse_value n t = Some (v, [])"
  using append_Nil2 [of t] unfolding reads_def by (metis list.simps(4) stops_def)

lemma parse_items_join:
  "ts \<noteq> [] \<Longrightarrow> list_all2 reads ts vs \<Longrightarrow> length (join '','' ts) + 1 \<le> n \<Longrightarrow>
   parse_items n (join '','' ts @ CHR '']'' # rest) = Some (vs, rest)"
proof (induction "'','' :: string" ts arbitrary: vs n rule: join.induct)
  case 1
  then show ?case by simp
next
  case (2 t)
  then obtain v m where v: "vs = [v]" "reads t v" and n: "n = Suc m" "length t \<le> m"
    by (cases n) (auto simp: list_all2_Cons1)
  then have "parse_value m (t @ CHR '']'' # rest) = Some (v, CHR '']'' # rest)"
    by (simp add: reads_def stops_delimiters)
  then show ?case by (simp add: v n skip_ws_delimiters starts_with_def)
next
  case (3 t u ts)
  then obtain v ws m where v: "vs = v # ws" "reads t v" "list_all2 reads (u # ts) ws" and n: "n = Suc m"
    "length t + length (join '','' (u # ts)) + 1 \<le> m"
    by (cases n) (auto simp: list_all2_Cons1)
  let ?r = "join '','' (u # ts) @ CHR '']'' # rest"
  have "parse_value m (t @ CHR '','' # ?r) = Some (v, CHR '','' # ?r)"
    using v n by (simp add: reads_def stops_delimiters)
  moreover have "parse_items m ?r = Some (ws, rest)" using 3(1) v n by simp
  moreover have "skip_ws ?r = ?r"
  proof -
    from v(3) obtain w where "reads u w" by (auto simp: list_all2_Cons1)
    then show ?thesis using skip_ws_reads by (cases ts) fastforce+
  qed
  ultimately show ?case by (simp add: v n skip_ws_delimiters starts_with_def)
qed

lemma reads_scalar:
  assumes "t \<noteq> []" and "\<not> json_ws (hd t)" and "hd t \<noteq> CHR 0x22" and "hd t \<noteq> CHR ''{''" and "hd t \<noteq> CHR ''[''"
    and "\<And>rest. stops rest \<Longrightarrow> parse_scalar (t @ rest) = Some (v, rest)"
  shows "reads t v"
proof -
  obtain c r where t: "t = c # r" using assms(1) by (cases t) auto
  have "parse_value n (t @ rest) = Some (v, rest)" if "stops rest" "length t \<le> n" for n rest
    using that assms(2-6) by (cases n) (auto simp: t starts_with_def)
  then show ?thesis using assms(1,2) by (simp add: reads_def)
qed

lemma reads_int: "length (int_digits \<bar>n\<bar>) \<le> 4300 \<Longrightarrow> reads (dump_int n) (JInt n)"
proof (rule reads_scalar)
  assume len: "length (int_digits \<bar>n\<bar>) \<le> 4300"
  show "parse_scalar (dump_int n @ rest) = Some (JInt n, rest)" if "stops rest" for rest by (rule parse_int [OF len that])
  note f = int_digits_facts [of "\<bar>n\<bar>"]
  show "dump_int n \<noteq> []" using f by (auto simp: dump_int_def)
  have "hd (dump_int n) = CHR ''-'' \<or> is_decimal (hd (dump_int n))"
    using f by (cases "int_digits \<bar>n\<bar>") (auto simp: dump_int_def)
  moreover have "\<not> json_ws (CHR ''-'')" by (simp add: json_ws_def)
  ultimately show "\<not> json_ws (hd (dump_int n))" "hd (dump_int n) \<noteq> CHR 0x22" "hd (dump_int n) \<noteq> CHR ''{''" "hd (dump_int n) \<noteq> CHR ''[''"
    using decimal_not_letter [of "hd (dump_int n)"] by (auto simp: letters_def)
qed

lemma reads_list:
  assumes "list_all2 reads ts vs"
  shows "reads (''['' @ join '','' ts @ '']'') (JList vs)"
proof -
  have "parse_value n ((''['' @ join '','' ts @ '']'') @ rest) = Some (JList vs, rest)"
    if n: "length (''['' @ join '','' ts @ '']'') \<le> n" for n rest
  proof -
    obtain m where m: "n = Suc m" "length (join '','' ts) + 1 \<le> m" using n by (cases n) auto
    show ?thesis
    proof (cases ts)
      case Nil
      then show ?thesis using assms by (simp add: m starts_with_def skip_ws_delimiters)
    next
      case (Cons t us)
      then obtain v where v: "reads t v" using assms by (auto simp: list_all2_Cons1)
      have skip: "skip_ws (join '','' ts @ CHR '']'' # rest) = join '','' ts @ CHR '']'' # rest"
        using skip_ws_reads [OF v] by (cases us) (simp_all add: Cons)
      have "\<not> starts_with (join '','' ts @ CHR '']'' # rest) '']''"
      proof
        assume "starts_with (join '','' ts @ CHR '']'' # rest) '']''"
        then have "hd t = CHR '']''" using v by (cases us; cases t) (auto simp: Cons starts_with_def reads_def)
        then have "parse_value (length t) t \<noteq> Some (v, [])"
          by (cases t) (auto simp: starts_with_def parse_scalar_def literals_def number_parts_def whole_part_def is_decimal_def)
        then show False using reads_alone [OF v order_refl] by simp
      qed
      moreover have "parse_items m (join '','' ts @ CHR '']'' # rest) = Some (vs, rest)"
        using parse_items_join [OF _ assms m(2)] Cons by simp
      ultimately show ?thesis by (simp add: m skip starts_with_def)
    qed
  qed
  then show ?thesis by (simp add: reads_def json_ws_def)
qed

lemma reads_literals: "reads ''null'' JNull" "reads ''true'' (JBool True)" "reads ''false'' (JBool False)"
  by (rule reads_scalar; simp add: json_ws_def parse_scalar_def literals_def starts_with_def)+

text \<open>
  What reading needs of an escaping: the scanner undoes it, character by character. Both escapings have
  the property, and values written with either of them are read back.
\<close>

locale escaping =
  fixes esc :: "char \<Rightarrow> string"
  assumes scan_esc: "scan_string (esc c @ t) = prepend c (scan_string t)"
begin

lemma scan_dumped: "scan_string (concat (map esc s) @ CHR 0x22 # rest) = Some (s, rest)"
proof (induction s)
  case (Cons c s)
  then show ?case using scan_esc [of c "concat (map esc s) @ CHR 0x22 # rest"] by (simp add: prepend_def)
qed simp

lemma dump_string_parts:
  "starts_with (dump_string esc s @ rest) [CHR 0x22]"
  "scan_string (tl (dump_string esc s @ rest)) = Some (s, rest)"
  by (simp_all add: dump_string_def starts_with_def scan_dumped)

lemma parse_members_join:
  "fs \<noteq> [] \<Longrightarrow> list_all2 (\<lambda>f g. reads (dumps esc '','' '':'' (snd f)) (snd g) \<and> fst f = fst g) fs gs \<Longrightarrow>
   distinct (map fst acc @ map fst fs) \<Longrightarrow> length (join '','' (map (dump_member esc) fs)) + 1 \<le> n \<Longrightarrow>
   parse_members n acc (join '','' (map (dump_member esc) fs) @ CHR ''}'' # rest) = Some (acc @ gs, rest)"
proof (induction fs arbitrary: gs n acc)
  case Nil
  then show ?case by simp
next
  case (Cons f fs)
  obtain g hs where g: "gs = g # hs" "reads (dumps esc '','' '':'' (snd f)) (snd g)" "fst f = fst g"
    "list_all2 (\<lambda>f g. reads (dumps esc '','' '':'' (snd f)) (snd g) \<and> fst f = fst g) fs hs"
    using Cons.prems(2) by (auto simp: list_all2_Cons1)
  let ?v = "dumps esc '','' '':'' (snd f)"
  let ?tail = "if fs = [] then CHR ''}'' # rest else CHR '','' # join '','' (map (dump_member esc) fs) @ CHR ''}'' # rest"
  have shape: "join '','' (map (dump_member esc) (f # fs)) @ CHR ''}'' # rest = dump_string esc (fst f) @ CHR '':'' # ?v @ ?tail"
    by (cases fs) (simp_all add: dump_member_def)
  have len: "length ?v + (if fs = [] then 0 else length (join '','' (map (dump_member esc) fs)) + 1) + 4 \<le> n"
  proof -
    have "length (dump_member esc f) \<ge> length ?v + 3" by (simp add: dump_member_def dump_string_def)
    moreover have "length (join '','' (map (dump_member esc) (f # fs))) =
        length (dump_member esc f) + (if fs = [] then 0 else length (join '','' (map (dump_member esc) fs)) + 1)"
      by (cases fs) simp_all
    ultimately show ?thesis using Cons.prems(4) by simp
  qed
  then obtain m where m: "n = Suc m" "length ?v \<le> m" by (cases n) auto
  have key: "starts_with (dump_string esc (fst f) @ r) [CHR 0x22]" "scan_string (tl (dump_string esc (fst f) @ r)) = Some (fst f, r)" for r
    by (rule dump_string_parts)+
  have val: "parse_value m (?v @ ?tail) = Some (snd g, ?tail)"
    using g(2) m by (simp add: reads_def stops_delimiters)
  have upd: "AList.update (fst f) (snd g) acc = acc @ [g]"
    using Cons.prems(3) by (subst update_new) (auto simp: g(3))
  show ?case
  proof (cases "fs = []")
    case True
    then show ?thesis
      unfolding shape m(1)
      using key val upd g by (simp add: skip_ws_delimiters skip_ws_reads [OF g(2)] starts_with_def [of _ "[_]"])
  next
    case False
    have "parse_members m (acc @ [g]) (join '','' (map (dump_member esc) fs) @ CHR ''}'' # rest) = Some ((acc @ [g]) @ hs, rest)"
      using False Cons.prems(3) len m g by (intro Cons.IH) (auto simp: g(3))
    moreover have "skip_ws (join '','' (map (dump_member esc) fs) @ CHR ''}'' # rest) = join '','' (map (dump_member esc) fs) @ CHR ''}'' # rest"
      using False by (cases fs rule: remdups_adj.cases) (simp_all add: dump_member_def dump_string_def skip_ws_delimiters)
    ultimately show ?thesis
      unfolding shape m(1)
      using False key val upd g by (simp add: skip_ws_delimiters skip_ws_reads [OF g(2)] starts_with_def [of _ "[_]"])
  qed
qed

lemma reads_string: "reads (dump_string esc s) (JStr s)"
proof -
  have "parse_value n (dump_string esc s @ rest) = Some (JStr s, rest)" if "length (dump_string esc s) \<le> n" for n rest
    using that dump_string_parts [of s rest] by (cases n) (simp_all add: dump_string_def)
  then show ?thesis by (simp add: reads_def dump_string_def json_ws_def)
qed

lemma reads_object:
  assumes "list_all2 (\<lambda>f g. reads (dumps esc '','' '':'' (snd f)) (snd g) \<and> fst f = fst g) fs gs" and "distinct (map fst fs)"
  shows "reads (''{'' @ join '','' (map (dump_member esc) fs) @ ''}'') (JObj gs)"
proof -
  have "parse_value n ((''{'' @ join '','' (map (dump_member esc) fs) @ ''}'') @ rest) = Some (JObj gs, rest)"
    if n: "length (''{'' @ join '','' (map (dump_member esc) fs) @ ''}'') \<le> n" for n rest
  proof -
    obtain m where m: "n = Suc m" "length (join '','' (map (dump_member esc) fs)) + 1 \<le> m" using n by (cases n) auto
    show ?thesis
    proof (cases fs)
      case Nil
      then show ?thesis using assms by (simp add: m starts_with_def skip_ws_delimiters)
    next
      case (Cons f us)
      obtain r where r: "join '','' (map (dump_member esc) fs) @ CHR ''}'' # rest = CHR 0x22 # r"
        by (cases us) (auto simp: Cons dump_member_def dump_string_def)
      have "parse_members m [] (join '','' (map (dump_member esc) fs) @ CHR ''}'' # rest) = Some ([] @ gs, rest)"
        using Cons assms m(2) by (intro parse_members_join) simp_all
      then show ?thesis by (simp add: m r skip_ws_delimiters starts_with_def)
    qed
  qed
  then show ?thesis by (simp add: reads_def json_ws_def)
qed

lemma dumped_reads: "plain v \<Longrightarrow> reads (dumps esc '','' '':'' v) (key_sorted v)"
proof (induction v)
  case (JBool b)
  then show ?case by (cases b) (simp_all add: reads_literals)
next
  case (JInt n)
  then show ?case by (simp add: reads_int)
next
  case (JStr s)
  then show ?case by (simp add: reads_string)
next
  case (JList xs)
  then show ?case
    unfolding dumps.simps key_sorted.simps
    by (intro reads_list) (auto simp: list_all_iff list_all2_conv_all_nth)
next
  case (JObj fs)
  have ps: "list_all2 (\<lambda>f g. reads (dumps esc '','' '':'' (snd f)) (snd g) \<and> fst f = fst g) gs (map (\<lambda>f. (fst f, key_sorted (snd f))) gs)"
    if "set gs \<subseteq> set fs" for gs
  proof -
    have one: "reads (dumps esc '','' '':'' (snd f)) (key_sorted (snd f))" if "f \<in> set fs" for f
      using JObj.IH [OF that, of "snd f"] JObj.prems that by (cases f) (auto simp: list_all_iff)
    show ?thesis unfolding list_all2_map2 using that one by (intro list.rel_refl_strong) auto
  qed
  have "distinct (map fst (sort_key fst fs))" using JObj.prems by (simp add: distinct_map)
  with ps [of "sort_key fst fs"] show ?case
    unfolding dumps_object key_sorted.simps by (subst sort_key_map) (auto intro!: reads_object [simplified])
qed (simp_all add: reads_literals)

lemma loads_dumped:
  assumes "plain v" and "list_all json_ws r"
  shows "loads (dumps esc '','' '':'' v @ r) = Some (key_sorted v)"
proof -
  note d = dumped_reads [OF assms(1)]
  have "stops r"
    using assms(2) decimal_not_letter by (cases r) (auto simp: stops_def json_ws_def)
  then have "parse_value (length (dumps esc '','' '':'' v @ r) + 1) (dumps esc '','' '':'' v @ r) = Some (key_sorted v, r)"
    using d [unfolded reads_def, THEN conjunct2, THEN conjunct2, rule_format, of r "length (dumps esc '','' '':'' v @ r) + 1"] by simp
  moreover have "skip_ws r = []" using assms(2) by (auto simp: skip_ws_def list_all_iff dropWhile_eq_Nil_conv)
  ultimately show ?thesis by (simp add: loads_def skip_ws_reads [OF d])
qed

end

interpretation ascii: escaping escape_char
  by unfold_locales (rule scan_escaped)

interpretation unicode: escaping escape_plain
  by unfold_locales (rule scan_escaped_plain)

lemma loads_dumps: "plain v \<Longrightarrow> list_all json_ws r \<Longrightarrow> loads (dumps_compact v @ r) = Some (key_sorted v)"
  unfolding dumps_compact_def by (rule ascii.loads_dumped)

lemma loads_unicode: "plain v \<Longrightarrow> list_all json_ws r \<Longrightarrow> loads (dumps_unicode v @ r) = Some (key_sorted v)"
  unfolding dumps_unicode_def by (rule unicode.loads_dumped)

end
