(* ===== verification/Property_Cache.thy ===== *)
theory Property_Cache
  imports Property_Query Schema Json_Text
begin

text \<open>
  The cache of property searches (\<^verbatim>\<open>app/hpd/cache.py\<close>): a table of cached pages, each with an artifact
  file that holds the encoded response, freshness and staleness, least-recently-used eviction, and
  pinning. The connector is an argument: the outcome of its \<^verbatim>\<open>search\<close>.

  A response is a dataclass and unchecked: its fields that are copied from JSON are JSON values, those
  that the decoder converts have the converted type. Timestamps are read in the form that
  \<^verbatim>\<open>isoformat\<close> writes for UTC; the other forms that Python reads (\<^verbatim>\<open>Z\<close>, other offsets, dates alone)
  are rejected here, and so are artifacts in UTF-16, in UTF-32 or with a byte order mark, none of which the
  program writes.
\<close>

section \<open>Timestamps\<close>

definition iso_error :: error where
  "iso_error = ValueError ''Invalid isoformat string''"

text \<open>The date, the time and the optional microseconds of an aware UTC time.\<close>

definition iso_parts :: "string \<Rightarrow> (string \<times> string \<times> string \<times> string \<times> string \<times> string \<times> string) option" where
  "iso_parts s =
     (let t = drop 19 s; us = (if take 1 t = ''.'' then take 6 (drop 1 t) else ''000000'');
          tail = (if take 1 t = ''.'' then drop 7 t else t)
      in if take 1 (drop 4 s) = ''-'' \<and> take 1 (drop 7 s) = ''-'' \<and> take 1 (drop 10 s) = ''T'' \<and>
            take 1 (drop 13 s) = '':'' \<and> take 1 (drop 16 s) = '':'' \<and> tail = ''+00:00''
         then Some (take 4 s, take 2 (drop 5 s), take 2 (drop 8 s), take 2 (drop 11 s), take 2 (drop 14 s),
                    take 2 (drop 17 s), us)
         else None)"

definition fromisoformat :: "string \<Rightarrow> datetime result" where
  "fromisoformat s =
     (case iso_parts s of
        None \<Rightarrow> Inl iso_error
      | Some (ys, ms, ds, hs, mis, ss, us) \<Rightarrow>
          if list_all is_decimal (ys @ ms @ ds @ hs @ mis @ ss @ us) \<and> length us = 6
          then (let y = value_base 10 ys; m = value_base 10 ms; d = value_base 10 ds;
                    h = value_base 10 hs; mi = value_base 10 mis; sec = value_base 10 ss; u = value_base 10 us
                in if 1 \<le> y \<and> 1 \<le> m \<and> m \<le> 12 \<and> 1 \<le> d \<and> d \<le> days_in_month y m \<and> h \<le> 23 \<and> mi \<le> 59 \<and> sec \<le> 59
                   then Inr (midnight y m d + (h * 3600 + mi * 60 + sec) * 1000000 + u)
                   else Inl iso_error)
          else Inl iso_error)"

definition optional_datetime :: "json option \<Rightarrow> datetime option result" where
  "optional_datetime v =
     (case v of
        None \<Rightarrow> Inr None
      | Some JNull \<Rightarrow> Inr None
      | Some (JStr s) \<Rightarrow>
          if s = [] then Inr None
          else (case fromisoformat s of Inl e \<Rightarrow> Inl e | Inr t \<Rightarrow> Inr (Some t))
      | Some _ \<Rightarrow> Inl (TypeError ''Cached property timestamp must be a string or null.''))"

section \<open>Responses\<close>

record property_response =
  pr_query :: json_object
  pr_candidates :: "json_object list"
  pr_records :: "json_object list"
  pr_requires_selection :: bool
  pr_continuation :: json
  pr_is_complete :: bool
  pr_returned_count :: int
  pr_fetched_at :: datetime
  pr_dataset_id :: json
  pr_dataset_url :: json
  pr_connector_version :: json
  pr_source_status :: json
  pr_total_count :: "int option"
  pr_has_more :: bool
  pr_next_cursor :: json
  pr_source_update_time :: "datetime option"
  pr_fetch_started_at :: "datetime option"
  pr_fetch_completed_at :: "datetime option"
  pr_cache_status :: json
  pr_stale :: bool

definition opt_json :: "string option \<Rightarrow> json" where
  "opt_json x = (case x of None \<Rightarrow> JNull | Some s \<Rightarrow> JStr s)"

text \<open>\<^verbatim>\<open>asdict(query)\<close>.\<close>

definition query_dict :: "property_query \<Rightarrow> json_object" where
  "query_dict q =
     [(''building_id'', opt_json (pq_building_id q)), (''registration_id'', opt_json (pq_registration_id q)),
      (''house_number'', opt_json (pq_house_number q)), (''street_name'', opt_json (pq_street_name q)),
      (''borough'', opt_json (pq_borough q)), (''zip_code'', opt_json (pq_zip_code q)),
      (''violation_class'', opt_json (pq_violation_class q)), (''status'', opt_json (pq_status q)),
      (''inspection_date_from'', opt_json (pq_inspection_date_from q)),
      (''inspection_date_to'', opt_json (pq_inspection_date_to q)), (''limit'', JInt (pq_limit q)),
      (''continuation'', opt_json (pq_continuation q))]"

text \<open>The fields of the dataclasses, with their defaults.\<close>

definition query_fields :: "(string \<times> json option) list" where
  "query_fields =
     map (\<lambda>n. (n, Some JNull))
       [''building_id'', ''registration_id'', ''house_number'', ''street_name'', ''borough'', ''zip_code'',
        ''violation_class'', ''status'', ''inspection_date_from'', ''inspection_date_to''] @
     [(''limit'', Some (JInt 50)), (''continuation'', Some JNull)]"

definition candidate_fields :: "(string \<times> json option) list" where
  "candidate_fields =
     map (\<lambda>n. (n, None)) [''building_id'', ''registration_id'', ''borough'', ''house_number'', ''street_name'', ''zip_code'']"

definition record_fields :: "(string \<times> json option) list" where
  "record_fields =
     map (\<lambda>n. (n, None))
       [''violation_id'', ''building_id'', ''registration_id'', ''borough'', ''house_number'', ''street_name'',
        ''zip_code'', ''apartment'', ''violation_class'', ''inspection_date'', ''approved_date'', ''certified_date'',
        ''order_number'', ''nov_id'', ''description'', ''current_status'', ''current_status_date'', ''violation_status'']"

text \<open>\<^verbatim>\<open>Class(**value)\<close>: the keys must be fields, and a field without default must be present.\<close>

definition construct :: "(string \<times> json option) list \<Rightarrow> json \<Rightarrow> json_object result" where
  "construct spec v =
     (case v of
        JObj fs \<Rightarrow>
          if list_all (\<lambda>f. fst f \<in> set (map fst spec)) fs \<and>
             list_all (\<lambda>f. snd f \<noteq> None \<or> map_of fs (fst f) \<noteq> None) spec
          then Inr (map (\<lambda>f. (fst f, case map_of fs (fst f) of Some x \<Rightarrow> x | None \<Rightarrow> the (snd f))) spec)
          else Inl (TypeError ''unexpected or missing argument'')
      | _ \<Rightarrow> Inl (TypeError ''argument after ** must be a mapping''))"

fun construct_all :: "(string \<times> json option) list \<Rightarrow> json list \<Rightarrow> json_object list result" where
  "construct_all spec [] = Inr []"
| "construct_all spec (v # vs) =
     (case construct spec v of
        Inl e \<Rightarrow> Inl e
      | Inr x \<Rightarrow> (case construct_all spec vs of Inl e \<Rightarrow> Inl e | Inr xs \<Rightarrow> Inr (x # xs)))"

definition opt_time :: "datetime option \<Rightarrow> json" where
  "opt_time t = (case t of None \<Rightarrow> JNull | Some x \<Rightarrow> JStr (isoformat x))"

definition encode_response :: "property_response \<Rightarrow> json_object" where
  "encode_response r =
     [(''query'', JObj (pr_query r)), (''candidates'', JList (map JObj (pr_candidates r))),
      (''records'', JList (map JObj (pr_records r))), (''requires_selection'', JBool (pr_requires_selection r)),
      (''continuation'', pr_continuation r), (''is_complete'', JBool (pr_is_complete r)),
      (''returned_count'', JInt (pr_returned_count r)), (''fetched_at'', JStr (isoformat (pr_fetched_at r))),
      (''dataset_id'', pr_dataset_id r), (''dataset_url'', pr_dataset_url r),
      (''connector_version'', pr_connector_version r), (''source_status'', pr_source_status r),
      (''total_count'', case pr_total_count r of None \<Rightarrow> JNull | Some n \<Rightarrow> JInt n),
      (''has_more'', JBool (pr_has_more r)), (''next_cursor'', pr_next_cursor r),
      (''source_update_time'', opt_time (pr_source_update_time r)),
      (''fetch_started_at'', opt_time (pr_fetch_started_at r)),
      (''fetch_completed_at'', opt_time (pr_fetch_completed_at r)),
      (''cache_status'', pr_cache_status r), (''stale'', JBool (pr_stale r))]"

text \<open>\<^verbatim>\<open>payload[key]\<close>: a missing key is a \<^verbatim>\<open>KeyError\<close>, a value without string keys a \<^verbatim>\<open>TypeError\<close>.\<close>

definition subscript :: "json \<Rightarrow> string \<Rightarrow> json result" where
  "subscript j k =
     (case j of
        JObj fs \<Rightarrow> (case map_of fs k of None \<Rightarrow> Inl (KeyError k) | Some v \<Rightarrow> Inr v)
      | _ \<Rightarrow> Inl (TypeError ''indices must be integers''))"

definition text_time :: "json \<Rightarrow> datetime result" where
  "text_time v = (case v of JStr s \<Rightarrow> fromisoformat s | _ \<Rightarrow> Inl (TypeError ''fromisoformat: argument must be str''))"

definition get_default :: "json_object \<Rightarrow> string \<Rightarrow> json option \<Rightarrow> json option" where
  "get_default fs k d = (case map_of fs k of Some v \<Rightarrow> Some v | None \<Rightarrow> d)"

definition opt_truthy :: "json option \<Rightarrow> bool" where
  "opt_truthy v \<longleftrightarrow> (case v of None \<Rightarrow> False | Some x \<Rightarrow> truthy x)"

definition as_json :: "json option \<Rightarrow> json" where
  "as_json v = (case v of None \<Rightarrow> JNull | Some x \<Rightarrow> x)"

definition optional_int :: "json option \<Rightarrow> int option result" where
  "optional_int v =
     (case v of
        None \<Rightarrow> Inr None | Some JNull \<Rightarrow> Inr None
      | Some x \<Rightarrow> (case py_int x of Inl e \<Rightarrow> Inl e | Inr n \<Rightarrow> Inr (Some n)))"

definition decode_response :: "json \<Rightarrow> property_response result" where
  "decode_response p =
     bind_result (bind_result (subscript p ''query'') (construct query_fields)) (\<lambda>q.
     bind_result (bind_result (bind_result (subscript p ''candidates'') json_iter) (construct_all candidate_fields)) (\<lambda>cs.
     bind_result (bind_result (bind_result (subscript p ''records'') json_iter) (construct_all record_fields)) (\<lambda>rs.
     bind_result (subscript p ''requires_selection'') (\<lambda>sel.
     bind_result (subscript p ''continuation'') (\<lambda>cont.
     bind_result (subscript p ''is_complete'') (\<lambda>cpl.
     bind_result (bind_result (subscript p ''returned_count'') py_int) (\<lambda>n.
     bind_result (bind_result (subscript p ''fetched_at'') text_time) (\<lambda>t.
     bind_result (subscript p ''dataset_id'') (\<lambda>di.
     bind_result (subscript p ''dataset_url'') (\<lambda>du.
     bind_result (subscript p ''connector_version'') (\<lambda>cv.
     bind_result (subscript p ''source_status'') (\<lambda>ss.
     (case p of
        JObj fs \<Rightarrow>
          bind_result (optional_int (map_of fs ''total_count'')) (\<lambda>tot.
          bind_result (optional_datetime (map_of fs ''source_update_time'')) (\<lambda>upd.
          bind_result (optional_datetime (map_of fs ''fetch_started_at'')) (\<lambda>st.
          bind_result (optional_datetime (get_default fs ''fetch_completed_at'' (map_of fs ''fetched_at''))) (\<lambda>fin.
          Inr \<lparr>pr_query = q, pr_candidates = cs, pr_records = rs, pr_requires_selection = truthy sel,
               pr_continuation = cont, pr_is_complete = truthy cpl, pr_returned_count = n, pr_fetched_at = t,
               pr_dataset_id = di, pr_dataset_url = du, pr_connector_version = cv, pr_source_status = ss,
               pr_total_count = tot,
               pr_has_more = opt_truthy (get_default fs ''has_more'' (map_of fs ''continuation'')),
               pr_next_cursor = as_json (get_default fs ''next_cursor'' (map_of fs ''continuation'')),
               pr_source_update_time = upd, pr_fetch_started_at = st, pr_fetch_completed_at = fin,
               pr_cache_status = as_json (get_default fs ''cache_status'' (Some (JStr ''live''))),
               pr_stale = opt_truthy (map_of fs ''stale'')\<rparr>))))
      | _ \<Rightarrow> Inl (AttributeError ''get''))))))))))))))"

section \<open>The cache\<close>

text \<open>A file of the cache directory: its text, unless its bytes are not UTF-8, and whether it is a link.\<close>

record cached_file =
  cf_text :: "string option"
  cf_link :: bool

record cache_state =
  cs_rows :: "property_cache_row list"
  cs_maintenance :: bool
  cs_files :: "(path \<times> cached_file) list"

record cache_env =
  ce_root :: path
  ce_resolve :: "path \<Rightarrow> path"
  ce_connector_version :: string
  ce_max_bytes :: int
  ce_retention_days :: int

definition SUCCESS_TTL :: timedelta where "SUCCESS_TTL = hours 24"
definition EMPTY_TTL :: timedelta where "EMPTY_TTL = hours 1"

definition cache_new :: "cache_env \<Rightarrow> cache_env result" where
  "cache_new env =
     (if 1 \<le> ce_retention_days env \<and> ce_retention_days env \<le> 365 then Inr env
      else Inl (ValueError ''Property cache retention must be between 1 and 365 days.''))"

definition cache_key :: "cache_env \<Rightarrow> property_query \<Rightarrow> string" where
  "cache_key env q =
     sha_hex (dumps_compact (JObj [(''connector_version'', JStr (ce_connector_version env)), (''query'', JObj (query_dict q))]))"

definition cache_dir :: path where
  "cache_dir = [''artifacts'', ''property-cache'']"

definition safe_artifact :: "cache_env \<Rightarrow> cache_state \<Rightarrow> string \<Rightarrow> path result" where
  "safe_artifact env s relative =
     (if starts_with relative ''/'' \<or> ''..'' \<in> set (path_parts relative)
      then Inl (PropertyCacheError ''Cached property path escapes its workspace.'')
      else (let p = ce_root env @ path_parts relative in
            if \<not> under (ce_resolve env (ce_root env @ cache_dir)) (ce_resolve env (butlast p))
            then Inl (PropertyCacheError ''Cached property path escapes its workspace.'')
            else (case map_of (cs_files s) p of
                    Some f \<Rightarrow>
                      if cf_link f then Inl (PropertyCacheError ''Cached property artifact cannot be a symlink.'') else Inr p
                  | None \<Rightarrow> Inr p)))"

definition assert_writable :: "cache_state \<Rightarrow> unit result" where
  "assert_writable s =
     (if cs_maintenance s
      then Inl (PropertyCacheError ''Workspace maintenance is active; property cache writes are paused.'')
      else Inr ())"

definition unlink :: "path \<Rightarrow> cache_state \<Rightarrow> cache_state" where
  "unlink p s = s\<lparr>cs_files := filter (\<lambda>f. fst f \<noteq> p) (cs_files s)\<rparr>"

definition corrupt :: error where
  "corrupt = PropertyCacheError ''Cached property response is corrupt.''"

text \<open>\<^verbatim>\<open>except (OSError, ValueError, TypeError, json.JSONDecodeError)\<close>.\<close>

definition is_corruption :: "error \<Rightarrow> bool" where
  "is_corruption e \<longleftrightarrow> (case e of ValueError _ \<Rightarrow> True | TypeError _ \<Rightarrow> True | FileError _ \<Rightarrow> True | _ \<Rightarrow> False)"

definition load_artifact :: "cache_state \<Rightarrow> path \<Rightarrow> property_response result" where
  "load_artifact s p =
     (case (case map_of (cs_files s) p of
              None \<Rightarrow> Inl (FileError ''No such file or directory'')
            | Some f \<Rightarrow>
                (case Option.bind (cf_text f) loads of
                   None \<Rightarrow> Inl (ValueError ''Expecting value'')
                 | Some j \<Rightarrow> decode_response j)) of
        Inr r \<Rightarrow> Inr r
      | Inl e \<Rightarrow> Inl (if is_corruption e then corrupt else e))"

type_synonym cached_page = "property_response \<times> datetime \<times> datetime"

definition read_cached ::
  "cache_env \<Rightarrow> string \<Rightarrow> datetime \<Rightarrow> cache_state \<Rightarrow> cached_page option result \<times> cache_state" where
  "read_cached env key now s =
     (case select_first (\<lambda>r. pc_cache_key r = key) (cs_rows s) of
        None \<Rightarrow> (Inr None, s)
      | Some row \<Rightarrow>
          (let s' = s\<lparr>cs_rows := update_where (\<lambda>r. pc_cache_key r = key) (\<lambda>r. r\<lparr>pc_last_accessed_at := now\<rparr>) (cs_rows s)\<rparr> in
           case safe_artifact env s' (pc_response_artifact row) of
             Inl e \<Rightarrow> (Inl e, s')
           | Inr p \<Rightarrow>
               (case load_artifact s' p of
                  Inl e \<Rightarrow> (Inl e, s')
                | Inr r \<Rightarrow>
                    (Inr (Some (r, pc_expires_at row,
                       min (pc_stale_until row) (pc_fetched_at row + days (ce_retention_days env)))), s'))))"

definition content_text :: "property_response \<Rightarrow> string" where
  "content_text r = dumps_compact (JObj (encode_response r)) @ [CHR 0x0A]"

definition artifact_relative :: "property_response \<Rightarrow> string" where
  "artifact_relative r = ''artifacts/property-cache/'' @ sha_hex (content_text r) @ ''.json''"

definition json_string :: "json \<Rightarrow> string" where
  "json_string j = (case j of JStr s \<Rightarrow> s | _ \<Rightarrow> [])"

definition cache_row ::
  "cache_env \<Rightarrow> string \<Rightarrow> property_response \<Rightarrow> datetime \<Rightarrow> property_cache_row" where
  "cache_row env key r now =
     \<lparr>pc_cache_key = key, pc_request_json = Dumped (pr_query r),
      pc_connector_version = json_string (pr_connector_version r), pc_response_artifact = artifact_relative r,
      pc_status = json_string (pr_source_status r), pc_is_complete = pr_is_complete r,
      pc_fetched_at = pr_fetched_at r,
      pc_expires_at = now + (if pr_source_status r = JStr ''verified_zero'' then EMPTY_TTL else SUCCESS_TTL),
      pc_stale_until = now + days (ce_retention_days env), pc_last_accessed_at = now,
      pc_size_bytes = int (length (utf8 (content_text r))), pc_pinned = False\<rparr>"

definition remove_if_unreferenced :: "cache_env \<Rightarrow> string \<Rightarrow> cache_state \<Rightarrow> unit result \<times> cache_state" where
  "remove_if_unreferenced env relative s =
     (if rowcount (\<lambda>r. pc_response_artifact r = relative) (cs_rows s) \<noteq> 0 then (Inr (), s)
      else (case safe_artifact env s relative of
              Inl e \<Rightarrow> (Inl e, s)
            | Inr p \<Rightarrow> (Inr (), unlink p s)))"

text \<open>
  The artifact is written before the transaction, unless a file of that name exists. The row replaces
  the one with the same key.
\<close>

definition store ::
  "cache_env \<Rightarrow> string \<Rightarrow> property_response \<Rightarrow> datetime \<Rightarrow> cache_state \<Rightarrow> unit result \<times> cache_state" where
  "store env key r now s =
     (let p = ce_root env @ path_parts (artifact_relative r);
          s1 = (if map_of (cs_files s) p = None
                then s\<lparr>cs_files := cs_files s @ [(p, \<lparr>cf_text = Some (content_text r), cf_link = False\<rparr>)]\<rparr>
                else s);
          row = cache_row env key r now
      in case assert_writable s1 of
           Inl e \<Rightarrow> (Inl e, s1)
         | Inr _ \<Rightarrow>
             (case select_first (\<lambda>x. pc_cache_key x = key) (cs_rows s1) of
                None \<Rightarrow> (Inr (), s1\<lparr>cs_rows := cs_rows s1 @ [row]\<rparr>)
              | Some old \<Rightarrow>
                  (let s2 = s1\<lparr>cs_rows := update_where (\<lambda>x. pc_cache_key x = key) (\<lambda>_. row) (cs_rows s1)\<rparr> in
                   if pc_response_artifact old \<noteq> [] \<and> pc_response_artifact old \<noteq> artifact_relative r
                   then remove_if_unreferenced env (pc_response_artifact old) s2
                   else (Inr (), s2))))"

text \<open>The rows that eviction takes: from the least recently used, until the total fits.\<close>

fun evicted :: "int \<Rightarrow> int \<Rightarrow> property_cache_row list \<Rightarrow> property_cache_row list" where
  "evicted limit used [] = []"
| "evicted limit used (r # rs) =
     (if used \<le> limit then [] else r # evicted limit (used - pc_size_bytes r) rs)"

fun unlink_all :: "cache_env \<Rightarrow> string list \<Rightarrow> cache_state \<Rightarrow> nat result \<times> cache_state" where
  "unlink_all env [] s = (Inr 0, s)"
| "unlink_all env (a # as) s =
     (case safe_artifact env s a of
        Inl e \<Rightarrow> (Inl e, s)
      | Inr p \<Rightarrow>
          (case unlink_all env as (unlink p s) of
             (Inl e, s') \<Rightarrow> (Inl e, s')
           | (Inr n, s') \<Rightarrow> (Inr (if map_of (cs_files s) p = None then n else n + 1), s')))"

definition total_bytes :: "property_cache_row list \<Rightarrow> int" where
  "total_bytes rows = sum_list (map pc_size_bytes rows)"

definition evict :: "cache_env \<Rightarrow> cache_state \<Rightarrow> unit result \<times> cache_state" where
  "evict env s =
     (let victims = evicted (ce_max_bytes env) (total_bytes (cs_rows s))
            (sort_key pc_last_accessed_at (filter (\<lambda>r. \<not> pc_pinned r) (cs_rows s)));
          s' = s\<lparr>cs_rows := delete_where (\<lambda>r. pc_cache_key r \<in> set (map pc_cache_key victims)) (cs_rows s)\<rparr>
      in case unlink_all env (map pc_response_artifact victims) s' of
           (Inl e, s'') \<Rightarrow> (Inl e, s'')
         | (Inr _, s'') \<Rightarrow> (Inr (), s''))"

definition clear_cache :: "cache_env \<Rightarrow> cache_state \<Rightarrow> nat result \<times> cache_state" where
  "clear_cache env s =
     (case assert_writable s of
        Inl e \<Rightarrow> (Inl e, s)
      | Inr _ \<Rightarrow> unlink_all env (map pc_response_artifact (cs_rows s)) (s\<lparr>cs_rows := []\<rparr>))"

definition pin :: "cache_env \<Rightarrow> property_query \<Rightarrow> bool \<Rightarrow> cache_state \<Rightarrow> bool result \<times> cache_state" where
  "pin env q pinned s =
     (case validate_query q of
        Inl e \<Rightarrow> (Inl e, s)
      | Inr _ \<Rightarrow>
          (case assert_writable s of
             Inl e \<Rightarrow> (Inl e, s)
           | Inr _ \<Rightarrow>
               (let k = cache_key env q in
                (Inr (rowcount (\<lambda>r. pc_cache_key r = k) (cs_rows s) \<noteq> 0),
                 s\<lparr>cs_rows := update_where (\<lambda>r. pc_cache_key r = k) (\<lambda>r. r\<lparr>pc_pinned := pinned\<rparr>) (cs_rows s)\<rparr>))))"

definition served :: "string \<Rightarrow> bool \<Rightarrow> property_response \<Rightarrow> property_response" where
  "served status stale r = r\<lparr>pr_cache_status := JStr status, pr_stale := stale\<rparr>"

definition recoverable :: "error \<Rightarrow> bool" where
  "recoverable e \<longleftrightarrow>
     (case e of NetworkAccessDenied _ \<Rightarrow> True | OperationDeadlineExceeded _ \<Rightarrow> True
      | PropertyConnectorError _ \<Rightarrow> True | _ \<Rightarrow> False)"

definition search ::
  "cache_env \<Rightarrow> property_query \<Rightarrow> bool \<Rightarrow> property_response result \<Rightarrow> datetime \<Rightarrow> cache_state \<Rightarrow>
   property_response result \<times> cache_state" where
  "search env q refresh live now s =
     (case validate_query q of
        Inl e \<Rightarrow> (Inl e, s)
      | Inr _ \<Rightarrow>
          (let key = cache_key env q in
           case read_cached env key now s of
             (Inl e, s1) \<Rightarrow> (Inl e, s1)
           | (Inr page, s1) \<Rightarrow>
               (case (case page of
                        Some (r, expires, _) \<Rightarrow> if \<not> refresh \<and> expires > now then Some (served ''fresh_cache'' False r) else None
                      | None \<Rightarrow> None) of
                  Some r \<Rightarrow> (Inr r, s1)
                | None \<Rightarrow>
                    (case live of
                       Inl e \<Rightarrow>
                         (case page of
                            Some (r, _, stale_until) \<Rightarrow>
                              if recoverable e \<and> stale_until > now \<and> pr_source_status r \<noteq> JStr ''verified_zero''
                              then (Inr (served ''stale_cache'' True r), s1) else (Inl e, s1)
                          | None \<Rightarrow> (Inl e, s1))
                     | Inr response \<Rightarrow>
                         (case store env key response now s1 of
                            (Inl e, s2) \<Rightarrow> (Inl e, s2)
                          | (Inr _, s2) \<Rightarrow>
                              (case evict env s2 of
                                 (Inl e, s3) \<Rightarrow> (Inl e, s3)
                               | (Inr _, s3) \<Rightarrow> (Inr response, s3)))))))"

definition cached ::
  "cache_env \<Rightarrow> property_query \<Rightarrow> bool \<Rightarrow> datetime \<Rightarrow> cache_state \<Rightarrow> property_response result \<times> cache_state" where
  "cached env q allow_stale now s =
     (case validate_query q of
        Inl e \<Rightarrow> (Inl e, s)
      | Inr _ \<Rightarrow>
          (case read_cached env (cache_key env q) now s of
             (Inl e, s1) \<Rightarrow> (Inl e, s1)
           | (Inr None, s1) \<Rightarrow>
               (Inl (PropertyCacheError ''This exact property result set is not available in the local cache.''), s1)
           | (Inr (Some (r, expires, stale_until)), s1) \<Rightarrow>
               if expires > now then (Inr (served ''fresh_cache'' False r), s1)
               else if allow_stale \<and> stale_until > now \<and> pr_source_status r \<noteq> JStr ''verified_zero''
               then (Inr (served ''stale_cache'' True r), s1)
               else (Inl (PropertyCacheError ''This cached property result set has expired.''), s1)))"

end
