(* ===== verification/Connector.thy ===== *)
theory Connector
  imports Property_Cache Runtime
begin

text \<open>
  The connector to the city's violation data (\<^verbatim>\<open>HpdSocrataConnector\<close> of \<^verbatim>\<open>app/hpd/connector.py\<close>):
  requests with retries, the resolution of an address to a building, pages of records in date order with
  the undated records last, and the continuation tokens between pages.

  The HTTP client is an argument: for every attempt the reading of the deadline, whether a request slot
  was free, and the response to the request that is sent (\<open>None\<close> is an \<^verbatim>\<open>httpx.HTTPError\<close>). The state
  is the number of attempts made and the list of requests sent. The reading of the deadline and
  the time that is left of it are two inputs, so the model allows more combinations than a real clock
  does. The length of the pause after a status 429 is not represented. A \<^verbatim>\<open>Last-Modified\<close> header is given as the instant that it denotes.
\<close>

section \<open>The manifest\<close>

record hpd_manifest =
  mf_endpoint :: string
  mf_fields :: "string list"
  mf_dataset_id :: string
  mf_dataset_url :: string
  mf_connector_version :: string

text \<open>Equality of a decoded value with the number 1, which \<^verbatim>\<open>True\<close> and \<^verbatim>\<open>1.0\<close> have too.\<close>

definition equals_one :: "json option \<Rightarrow> bool" where
  "equals_one v \<longleftrightarrow> v \<in> {Some (JInt 1), Some (JBool True), Some (JReal 1)}"

definition is_status_mapping :: "json option \<Rightarrow> bool" where
  "is_status_mapping v \<longleftrightarrow>
     (case v of
        Some (JObj fs) \<Rightarrow>
          length fs = length STATUS_FILTER_MAPPING \<and>
          list_all (\<lambda>m. map_of fs (fst m) = Some (JStr (snd m))) STATUS_FILTER_MAPPING
      | _ \<Rightarrow> False)"

definition load_hpd_manifest :: "json \<Rightarrow> json_object result" where
  "load_hpd_manifest payload =
     (case payload of
        JObj fs \<Rightarrow>
          if equals_one (map_of fs ''format_version'') \<and> map_of fs ''dataset_id'' = Some (JStr ''wvxf-dwi5'') \<and>
             is_status_mapping (map_of fs ''status_mapping'')
          then Inr fs
          else Inl (PropertyConnectorError ''The packaged HPD dataset manifest is invalid.'')
      | _ \<Rightarrow> Inl (AttributeError ''get''))"

section \<open>Requests\<close>

type_synonym params = "(string \<times> string) list"

record get_request =
  gq_endpoint :: string
  gq_params :: params
  gq_headers :: params
  gq_timeout :: rat

record source_response =
  sr_status :: int
  sr_retry_after :: "string option"
  sr_last_modified :: "datetime option"
  sr_body :: "json option"

record attempt_world =
  aw_reading :: runtime_reading
  aw_left :: "rat option"
  aw_slot :: bool
  aw_outcome :: "get_request \<Rightarrow> source_response option"

record conn_state =
  cn_attempts :: nat
  cn_sent :: "get_request list"

type_synonym 'a conn = "conn_state \<Rightarrow> 'a result \<times> conn_state"

definition bind_conn :: "'a conn \<Rightarrow> ('a \<Rightarrow> 'b conn) \<Rightarrow> 'b conn" where
  "bind_conn m f = (\<lambda>st. case m st of (Inl e, st') \<Rightarrow> (Inl e, st') | (Inr x, st') \<Rightarrow> f x st')"

definition lift_conn :: "'a result \<Rightarrow> 'a conn" where
  "lift_conn r = (\<lambda>st. (r, st))"

record connector_env =
  ne_network :: network_policy
  ne_manifest :: hpd_manifest
  ne_app_token :: "string option"
  ne_world :: "nat \<Rightarrow> attempt_world"
  ne_started :: datetime
  ne_completed :: datetime

text \<open>What \<^verbatim>\<open>float(text)\<close> accepts.\<close>

fun underscores_ok :: "bool \<Rightarrow> string \<Rightarrow> bool" where
  "underscores_ok after_digit [] = True"
| "underscores_ok after_digit (c # cs) =
     (if c = CHR ''_'' then after_digit \<and> (case cs of [] \<Rightarrow> False | d # _ \<Rightarrow> is_decimal d) \<and> underscores_ok False cs
      else underscores_ok (is_decimal c) cs)"

definition decimal_form :: "string \<Rightarrow> bool" where
  "decimal_form b =
     (let w = takeWhile is_decimal b; r = drop (length w) b; dotted = starts_with r ''.'';
          f = (if dotted then takeWhile is_decimal (tl r) else []);
          tail = (if dotted then drop (length f) (tl r) else r)
      in (w \<noteq> [] \<or> f \<noteq> []) \<and> exponent_part tail = tail)"

definition is_float_literal :: "string \<Rightarrow> bool" where
  "is_float_literal t =
     (let s = strip t; body = (if take 1 s \<in> {''+'', ''-''} then tl s else s) in
      lower body \<in> {''inf'', ''infinity'', ''nan''} \<or>
      (underscores_ok False body \<and> decimal_form (filter (\<lambda>c. c \<noteq> CHR ''_'') body)))"

definition attempt_timeout :: "attempt_world \<Rightarrow> rat" where
  "attempt_timeout a = (case aw_left a of None \<Rightarrow> 15 | Some l \<Rightarrow> min 15 (remaining_seconds l))"

definition rejected :: "int \<Rightarrow> error" where
  "rejected status = PropertyConnectorError (''HPD rejected the bounded request ('' @ dump_int status @ '').'')"

text \<open>The number is that of the attempts left; three are made at most.\<close>

fun request_attempts :: "connector_env \<Rightarrow> params \<Rightarrow> params \<Rightarrow> nat \<Rightarrow> source_response conn" where
  "request_attempts env ps hs 0 st = (Inl (PropertyConnectorError ''HPD is temporarily unavailable.''), st)"
| "request_attempts env ps hs (Suc k) st =
     (let a = ne_world env (cn_attempts st); st1 = st\<lparr>cn_attempts := cn_attempts st + 1\<rparr> in
      case raise_if_expired (aw_reading a) of
        Inl e \<Rightarrow> (Inl e, st1)
      | Inr _ \<Rightarrow>
          if \<not> aw_slot a
          then (Inl (PropertyConnectorError ''HPD request capacity was unavailable before the deadline.''), st1)
          else (let rq = \<lparr>gq_endpoint = mf_endpoint (ne_manifest env), gq_params = ps, gq_headers = hs,
                          gq_timeout = max (1 / 10) (attempt_timeout a)\<rparr>;
                    st2 = st1\<lparr>cn_sent := cn_sent st1 @ [rq]\<rparr>
                in case aw_outcome a rq of
                     None \<Rightarrow> request_attempts env ps hs k st2
                   | Some r \<Rightarrow>
                       if sr_status r = 429 \<and> 0 < k
                       then (if is_float_literal (case sr_retry_after r of None \<Rightarrow> ''0.1'' | Some t \<Rightarrow> t)
                             then request_attempts env ps hs k st2
                             else (Inl (ValueError ''could not convert string to float''), st2))
                       else if 500 \<le> sr_status r \<and> 0 < k then request_attempts env ps hs k st2
                       else if 400 \<le> sr_status r then (Inl (rejected (sr_status r)), st2)
                       else (Inr r, st2)))"

definition request_source :: "connector_env \<Rightarrow> params \<Rightarrow> params \<Rightarrow> source_response conn" where
  "request_source env ps hs = request_attempts env ps hs 3"

definition row_list :: "source_response \<Rightarrow> json list result" where
  "row_list r =
     (case sr_body r of
        None \<Rightarrow> Inl (PropertyConnectorError ''HPD returned invalid JSON.'')
      | Some (JList rows) \<Rightarrow> Inr rows
      | Some _ \<Rightarrow> Inl (PropertyConnectorError ''HPD response was not a row list.''))"

section \<open>Rows\<close>

definition row_optional :: "json_object \<Rightarrow> string \<Rightarrow> json" where
  "row_optional fs k =
     (case map_of fs k of
        None \<Rightarrow> JNull | Some JNull \<Rightarrow> JNull
      | Some v \<Rightarrow> if v = JStr [] then JNull else JStr (py_str v))"

definition record_columns :: "(string \<times> string) list" where
  "record_columns =
     [(''building_id'', ''buildingid''), (''registration_id'', ''registrationid''), (''borough'', ''boro''),
      (''house_number'', ''housenumber''), (''street_name'', ''streetname''), (''zip_code'', ''zip''),
      (''apartment'', ''apartment''), (''violation_class'', ''class''), (''inspection_date'', ''inspectiondate''),
      (''approved_date'', ''approveddate''), (''certified_date'', ''certifieddate''), (''order_number'', ''ordernumber''),
      (''nov_id'', ''novid''), (''description'', ''novdescription''), (''current_status'', ''currentstatus''),
      (''current_status_date'', ''currentstatusdate''), (''violation_status'', ''violationstatus'')]"

definition violation_record :: "json \<Rightarrow> json_object result" where
  "violation_record row =
     (case row of
        JObj fs \<Rightarrow>
          (let vid = py_str (case map_of fs ''violationid'' of Some v \<Rightarrow> v | None \<Rightarrow> JStr []) in
           if isdigit vid
           then Inr ((''violation_id'', JStr vid) # map (\<lambda>c. (fst c, row_optional fs (snd c))) record_columns)
           else Inl (PropertyConnectorError ''HPD row identity is missing or invalid.''))
      | _ \<Rightarrow> Inl (PropertyConnectorError ''HPD row identity is missing or invalid.''))"

fun collect :: "('a \<Rightarrow> 'b result) \<Rightarrow> 'a list \<Rightarrow> 'b list result" where
  "collect f [] = Inr []"
| "collect f (x # xs) =
     (case f x of
        Inl e \<Rightarrow> Inl e
      | Inr y \<Rightarrow> (case collect f xs of Inl e \<Rightarrow> Inl e | Inr ys \<Rightarrow> Inr (y # ys)))"

definition attribute :: "json_object \<Rightarrow> string \<Rightarrow> json" where
  "attribute r k = (case map_of r k of Some v \<Rightarrow> v | None \<Rightarrow> JNull)"

definition or_unknown :: "json \<Rightarrow> json" where
  "or_unknown v = (if truthy v then v else JStr ''Unknown'')"

definition building_candidate :: "json_object \<Rightarrow> json_object" where
  "building_candidate r =
     [(''building_id'', attribute r ''building_id''), (''registration_id'', attribute r ''registration_id''),
      (''borough'', or_unknown (attribute r ''borough'')), (''house_number'', or_unknown (attribute r ''house_number'')),
      (''street_name'', or_unknown (attribute r ''street_name'')), (''zip_code'', attribute r ''zip_code'')]"

definition building_key :: "json_object \<Rightarrow> string" where
  "building_key r = py_str (attribute r ''building_id'')"

text \<open>One candidate per building, the last one, in the order of the building ids.\<close>

definition candidates_of :: "json_object list \<Rightarrow> json_object list" where
  "candidates_of records =
     (let known = filter (\<lambda>r. truthy (attribute r ''building_id'')) records;
          latest = rev (map (\<lambda>r. (building_key r, building_candidate r)) known)
      in map (\<lambda>k. the (map_of latest k)) (sort (remdups (map building_key known))))"

definition candidate_of :: "json \<Rightarrow> json_object result" where
  "candidate_of row =
     (let bad = Inl (PropertyConnectorError ''HPD building candidate identity is invalid.'') in
      case row of
        JObj fs \<Rightarrow>
          (case row_optional fs ''buildingid'' of
             JStr b \<Rightarrow>
               if isdigit b
               then Inr [(''building_id'', JStr b), (''registration_id'', row_optional fs ''registrationid''),
                         (''borough'', or_unknown (row_optional fs ''boro'')),
                         (''house_number'', or_unknown (row_optional fs ''housenumber'')),
                         (''street_name'', or_unknown (row_optional fs ''streetname'')), (''zip_code'', row_optional fs ''zip'')]
               else bad
           | _ \<Rightarrow> bad)
      | _ \<Rightarrow> bad)"

definition candidate_columns :: string where
  "candidate_columns = ''buildingid,registrationid,boro,housenumber,streetname,zip''"

definition resolve_candidates :: "connector_env \<Rightarrow> property_query \<Rightarrow> params \<Rightarrow> json_object list conn" where
  "resolve_candidates env q hs =
     bind_conn (lift_conn (identity_where_clause q)) (\<lambda>w.
     bind_conn (request_source env
         [(''$select'', candidate_columns), (''$where'', w), (''$group'', candidate_columns),
          (''$order'', ''buildingid ASC''), (''$limit'', ''101'')] hs) (\<lambda>r.
     bind_conn (lift_conn (row_list r)) (\<lambda>rows.
     if 100 < length rows
     then lift_conn (Inl (PropertyConnectorError
            ''Property identity matched more than 100 buildings; add a borough or ZIP.''))
     else lift_conn (collect candidate_of rows))))"

section \<open>Continuations\<close>

definition identity_dict :: "property_query \<Rightarrow> json_object" where
  "identity_dict q = filter (\<lambda>f. fst f \<noteq> ''continuation'') (query_dict q)"

definition request_hash :: "property_query \<Rightarrow> string" where
  "request_hash q = sha_hex (dumps_compact (JObj (identity_dict q)))"

definition cursor_payload :: "property_query \<Rightarrow> json_object \<Rightarrow> json_object" where
  "cursor_payload q r =
     [(''request_hash'', JStr (request_hash q)), (''building_id'', attribute r ''building_id''),
      (''inspection_date'', attribute r ''inspection_date''), (''violation_id'', attribute r ''violation_id'')]"

definition continuation_token :: "property_query \<Rightarrow> json_object \<Rightarrow> string" where
  "continuation_token q r = urlsafe_b64encode (utf8 (dumps_compact (JObj (cursor_payload q r))))"

text \<open>\<^verbatim>\<open>str(payload.get(key, ""))\<close>.\<close>

definition payload_text :: "json_object \<Rightarrow> string \<Rightarrow> string" where
  "payload_text fs k = py_str (case map_of fs k of Some v \<Rightarrow> v | None \<Rightarrow> JStr [])"

definition decode_continuation :: "property_query \<Rightarrow> json_object result" where
  "decode_continuation q =
     (case Option.bind (Option.bind (urlsafe_b64decode (the (pq_continuation q))) utf8_decode) loads of
        None \<Rightarrow> Inl (ValueError ''Property continuation is invalid.'')
      | Some (JObj fs) \<Rightarrow>
          if map_of fs ''request_hash'' = Some (JStr (request_hash q)) \<and> isdigit (payload_text fs ''building_id'') \<and>
             (case map_of fs ''inspection_date'' of Some JNull \<Rightarrow> True | Some (JStr _) \<Rightarrow> True | _ \<Rightarrow> False) \<and>
             isdigit (payload_text fs ''violation_id'')
          then Inr fs
          else Inl (ValueError ''Property continuation does not match this request.'')
      | Some _ \<Rightarrow> Inl (ValueError ''Property continuation does not match this request.''))"

section \<open>Pages\<close>

text \<open>\<^verbatim>\<open>_literal\<close> of a decoded value: only strings have \<^verbatim>\<open>replace\<close>.\<close>

definition literal_of :: "json \<Rightarrow> string result" where
  "literal_of v = (case v of JStr s \<Rightarrow> Inr (literal s) | _ \<Rightarrow> Inl (AttributeError ''replace''))"

definition null_partition :: "json_object option \<Rightarrow> bool" where
  "null_partition cursor \<longleftrightarrow> (case cursor of None \<Rightarrow> False | Some fs \<Rightarrow> attribute fs ''inspection_date'' = JNull)"

definition cursor_filter :: "json_object \<Rightarrow> string result" where
  "cursor_filter fs =
     (if attribute fs ''inspection_date'' = JNull
      then bind_result (literal_of (attribute fs ''violation_id'')) (\<lambda>v. Inr (''violationid > '' @ v))
      else bind_result (literal_of (attribute fs ''inspection_date'')) (\<lambda>d.
           bind_result (literal_of (attribute fs ''violation_id'')) (\<lambda>v.
           Inr (''(inspectiondate < '' @ d @ '' OR (inspectiondate = '' @ d @ '' AND violationid > '' @ v @ ''))''))))"

definition page_where :: "string \<Rightarrow> json_object option \<Rightarrow> string result" where
  "page_where w cursor =
     (case cursor of
        None \<Rightarrow> Inr w
      | Some fs \<Rightarrow>
          bind_result (cursor_filter fs) (\<lambda>f.
          bind_result (literal_of (attribute fs ''building_id'')) (\<lambda>b.
          Inr (''('' @ w @ '') AND buildingid = '' @ b @ '' AND '' @ f))))"

definition select_columns :: "connector_env \<Rightarrow> string" where
  "select_columns env = join '','' (mf_fields (ne_manifest env))"

definition page_params :: "connector_env \<Rightarrow> property_query \<Rightarrow> string \<Rightarrow> bool \<Rightarrow> params" where
  "page_params env q w undated =
     [(''$select'', select_columns env),
      (''$where'', ''('' @ w @ '') AND inspectiondate is '' @ (if undated then ''null'' else ''not null'')),
      (''$order'', if undated then ''violationid ASC'' else ''inspectiondate DESC,violationid ASC''),
      (''$limit'', dump_int (pq_limit q + 1))]"

definition undated_params :: "connector_env \<Rightarrow> property_query \<Rightarrow> string \<Rightarrow> string \<Rightarrow> int \<Rightarrow> params" where
  "undated_params env q w building seen =
     [(''$select'', select_columns env),
      (''$where'', ''('' @ w @ '') AND buildingid = '' @ building @ '' AND inspectiondate is null''),
      (''$order'', ''violationid ASC''), (''$limit'', dump_int (pq_limit q + 1 - seen))]"

definition headers :: "connector_env \<Rightarrow> params" where
  "headers env =
     (''Accept'', ''application/json'') #
     (case ne_app_token env of Some t \<Rightarrow> if t = [] then [] else [(''X-App-Token'', t)] | None \<Rightarrow> [])"

text \<open>The answer when the address does not denote one building.\<close>

definition unresolved_response :: "connector_env \<Rightarrow> property_query \<Rightarrow> json_object list \<Rightarrow> property_response" where
  "unresolved_response env q cs =
     \<lparr>pr_query = query_dict q, pr_candidates = cs, pr_records = [], pr_requires_selection = 1 < length cs,
      pr_continuation = JNull, pr_is_complete = (cs = []), pr_returned_count = 0, pr_fetched_at = ne_completed env,
      pr_dataset_id = JStr (mf_dataset_id (ne_manifest env)), pr_dataset_url = JStr (mf_dataset_url (ne_manifest env)),
      pr_connector_version = JStr (mf_connector_version (ne_manifest env)),
      pr_source_status = JStr (if cs = [] then ''verified_zero'' else ''success''),
      pr_total_count = (if cs = [] then Some 0 else None), pr_has_more = False, pr_next_cursor = JNull,
      pr_source_update_time = None, pr_fetch_started_at = Some (ne_started env), pr_fetch_completed_at = Some (ne_completed env),
      pr_cache_status = JStr ''live'', pr_stale = False\<rparr>"

definition page_response ::
  "connector_env \<Rightarrow> property_query \<Rightarrow> source_response \<Rightarrow> json list \<Rightarrow> json_object list \<Rightarrow> property_response" where
  "page_response env q resp rows records =
     (let cs = candidates_of records; ambiguous = \<not> given (pq_building_id q) \<and> 1 < length cs;
          kept = (if ambiguous then [] else records);
          more = (pq_limit q < int (length rows) \<and> kept \<noteq> []);
          token = (if more then JStr (continuation_token q (last kept)) else JNull)
      in \<lparr>pr_query = query_dict q, pr_candidates = cs, pr_records = kept, pr_requires_selection = ambiguous,
          pr_continuation = token, pr_is_complete = (\<not> more \<and> \<not> ambiguous), pr_returned_count = int (length kept),
          pr_fetched_at = ne_completed env,
          pr_dataset_id = JStr (mf_dataset_id (ne_manifest env)), pr_dataset_url = JStr (mf_dataset_url (ne_manifest env)),
          pr_connector_version = JStr (mf_connector_version (ne_manifest env)),
          pr_source_status = JStr (if rows = [] then ''verified_zero'' else ''success''),
          pr_total_count = (if rows = [] then Some 0 else None), pr_has_more = more, pr_next_cursor = token,
          pr_source_update_time = sr_last_modified resp, pr_fetch_started_at = Some (ne_started env),
          pr_fetch_completed_at = Some (ne_completed env), pr_cache_status = JStr ''live'', pr_stale = False\<rparr>)"

text \<open>
  The undated rows that fill up the last dated page; \<open>base\<close> is the query's own clause and \<open>building\<close> the
  literal of the building.
\<close>

definition fill_undated ::
  "connector_env \<Rightarrow> property_query \<Rightarrow> params \<Rightarrow> string \<Rightarrow> string result \<Rightarrow> bool \<Rightarrow> json list \<Rightarrow> json list conn" where
  "fill_undated env q hs base building undated rows =
     (if \<not> undated \<and> int (length rows) \<le> pq_limit q \<and> \<not> given (pq_inspection_date_from q) \<and> \<not> given (pq_inspection_date_to q)
      then bind_conn (lift_conn building) (\<lambda>b.
           bind_conn (request_source env (undated_params env q base b (int (length rows))) hs) (\<lambda>r.
           bind_conn (lift_conn (row_list r)) (\<lambda>more. lift_conn (Inr (rows @ more)))))
      else lift_conn (Inr rows))"

definition fetch_page ::
  "connector_env \<Rightarrow> property_query \<Rightarrow> params \<Rightarrow> string \<Rightarrow> string \<Rightarrow> json option \<Rightarrow> property_response conn" where
  "fetch_page env q hs base w candidate =
     bind_conn (lift_conn (if given (pq_continuation q) then map_sum id Some (decode_continuation q) else Inr None)) (\<lambda>cursor.
     bind_conn (lift_conn (page_where w cursor)) (\<lambda>pw.
     bind_conn (request_source env (page_params env q pw (null_partition cursor)) hs) (\<lambda>resp.
     bind_conn (lift_conn (row_list resp)) (\<lambda>rows.
     bind_conn (fill_undated env q hs base
         (literal_of (case cursor of
                        Some fs \<Rightarrow> attribute fs ''building_id''
                      | None \<Rightarrow> if given (pq_building_id q) then JStr (the (pq_building_id q)) else the candidate))
         (null_partition cursor) rows) (\<lambda>all_rows.
     bind_conn (lift_conn (collect violation_record (take (nat (pq_limit q)) all_rows))) (\<lambda>records.
     lift_conn (Inr (page_response env q resp all_rows records))))))))"

definition connector_search :: "connector_env \<Rightarrow> property_query \<Rightarrow> property_response conn" where
  "connector_search env q =
     bind_conn (lift_conn (validate_query q)) (\<lambda>_.
     bind_conn (lift_conn (assert_url_allowed (ne_network env) (mf_endpoint (ne_manifest env)) ''HPD property lookup'')) (\<lambda>_.
     bind_conn (lift_conn (where_clause q)) (\<lambda>w.
     if \<not> given (pq_building_id q) \<and> \<not> given (pq_continuation q)
     then bind_conn (resolve_candidates env q (headers env)) (\<lambda>cs.
          case cs of
            [c] \<Rightarrow>
              bind_conn (lift_conn (literal_of (attribute c ''building_id''))) (\<lambda>b.
              fetch_page env q (headers env) w (''('' @ w @ '') AND buildingid = '' @ b) (Some (attribute c ''building_id'')))
          | _ \<Rightarrow> lift_conn (Inr (unresolved_response env q cs)))
     else fetch_page env q (headers env) w w None)))"

end
