(* ===== verification/Property_Cache_Claims.thy ===== *)
theory Property_Cache_Claims
  imports Property_Cache
begin

text \<open>
  The promises of the property cache: a stored response is read back exactly, eviction brings the cache
  within its size and never touches a pinned page, and what is served is fresh or marked as stale. The
  last section shows what a damaged artifact does to a search.
\<close>

section \<open>Timestamps\<close>

lemma length_digits [simp]: "length (digits k n) = k"
  by (induction k arbitrary: n) auto

lemma digits_decimal [simp]: "list_all is_decimal (digits k n)"
  by (induction k arbitrary: n) (auto simp: digit_char)

lemma value_digits: "0 \<le> n \<Longrightarrow> value_base 10 (digits k n) = n mod 10 ^ k"
proof (induction k arbitrary: n)
  case 0
  show ?case by (simp add: value_base_def)
next
  case (Suc k)
  have "n mod 10 ^ Suc k = 10 * (n div 10 mod 10 ^ k) + n mod 10"
    using zmod_zmult2_eq [of "10 ^ k" n 10] by simp
  with Suc.IH [of "n div 10"] Suc.prems show ?case
    by (simp add: value_base_snoc digit_char)
qed

text \<open>The instants that a \<^verbatim>\<open>datetime\<close> can hold.\<close>

definition representable :: "datetime \<Rightarrow> bool" where
  "representable t \<longleftrightarrow> (case date_of t of (y, m, d) \<Rightarrow> 1 \<le> y \<and> y \<le> 9999)"

lemma fromisoformat_isoformat:
  assumes "representable t"
  shows "fromisoformat (isoformat t) = Inr t"
proof -
  obtain y m d where e: "date_of t = (y, m, d)" by (cases "date_of t") auto
  then have y: "1 \<le> y" "y \<le> 9999" using assms by (simp_all add: representable_def)
  from e have o: "ord2ymd (t div day_us + epoch_ordinal) = (y, m, d)" by (simp add: date_of_def)
  note v = ord2ymd_valid [OF o]
  have d31: "d \<le> 31" using v(2,4) by (auto simp: days_before_month_def leap_day_def Let_def split: if_splits)
  define us where "us = t mod day_us"
  define sec where "sec = us div 1000000"
  define frac where "frac = us mod 1000000"
  have us: "0 \<le> us" "us < 86400000000" by (simp_all add: us_def day_us_def)
  then have sec: "0 \<le> sec" "sec < 86400" by (simp_all add: sec_def)
  have frac: "0 \<le> frac" "frac < 1000000" by (simp_all add: frac_def)
  have parts: "iso_parts (isoformat t) = Some (digits 4 y, digits 2 m, digits 2 d, digits 2 (sec div 3600),
      digits 2 (sec div 60 mod 60), digits 2 (sec mod 60), digits 6 frac)"
  proof (cases "frac = 0")
    case True
    have z: "digits 6 0 = ''000000''" by code_simp
    show ?thesis
      by (simp add: isoformat_def e Let_def us_def [symmetric] sec_def [symmetric] frac_def [symmetric] iso_parts_def True z)
  next
    case False
    then show ?thesis
      by (simp add: isoformat_def e Let_def us_def [symmetric] sec_def [symmetric] frac_def [symmetric] iso_parts_def)
  qed
  have vals: "value_base 10 (digits 4 y) = y" "value_base 10 (digits 2 m) = m" "value_base 10 (digits 2 d) = d"
    "value_base 10 (digits 2 (sec div 3600)) = sec div 3600" "value_base 10 (digits 2 (sec div 60 mod 60)) = sec div 60 mod 60"
    "value_base 10 (digits 2 (sec mod 60)) = sec mod 60" "value_base 10 (digits 6 frac) = frac"
    using y v(2,3) d31 sec frac by (simp_all add: value_digits)
  have time: "(sec div 3600 * 3600 + sec div 60 mod 60 * 60 + sec mod 60) = sec"
  proof -
    have "sec div 60 div 60 * 60 + sec div 60 mod 60 = sec div 60" "sec div 60 * 60 + sec mod 60 = sec" by simp_all
    moreover have "sec div 3600 = sec div 60 div 60" by (simp add: zdiv_zmult2_eq [symmetric])
    ultimately show ?thesis by linarith
  qed
  have whole: "midnight y m d + sec * 1000000 + frac = t"
  proof -
    have "midnight y m d = t div day_us * day_us" by (simp add: midnight_def v(1))
    moreover have "sec * 1000000 + frac = us" by (simp add: sec_def frac_def)
    moreover have "t div day_us * day_us + us = t" by (simp add: us_def)
    ultimately show ?thesis by linarith
  qed
  have h: "sec div 3600 \<le> 23" using sec by simp
  have dm: "d \<le> days_in_month y m" using v(4) by (simp add: days_in_month_def)
  have ms: "sec div 60 mod 60 \<le> 59" "sec mod 60 \<le> 59"
    using pos_mod_bound [of 60 "sec div 60"] pos_mod_bound [of 60 sec] by linarith+
  show ?thesis
    unfolding fromisoformat_def parts
    using y v(2,3) h dm ms by (simp add: vals Let_def time whole)
qed

section \<open>Encoding and decoding\<close>

lemma construct_exact:
  assumes "map fst fs = map fst spec" and "distinct (map fst spec)"
  shows "construct spec (JObj fs) = Inr fs"
proof -
  have len: "length fs = length spec" using assms(1) by (metis length_map)
  have dist: "distinct (map fst fs)" using assms by simp
  have at: "map_of fs (fst (spec ! i)) = Some (snd (fs ! i))" "fst (fs ! i) = fst (spec ! i)" if "i < length fs" for i
  proof -
    show f: "fst (fs ! i) = fst (spec ! i)" using assms(1) that len by (metis nth_map)
    have "(fst (fs ! i), snd (fs ! i)) \<in> set fs" using that by simp
    then show "map_of fs (fst (spec ! i)) = Some (snd (fs ! i))"
      using map_of_is_SomeI [OF dist, of "fst (fs ! i)" "snd (fs ! i)"] f by simp
  qed
  have "list_all (\<lambda>f. fst f \<in> set (map fst spec)) fs"
    using assms(1) by (auto simp: list_all_iff simp flip: assms(1))
  moreover have "list_all (\<lambda>f. snd f \<noteq> None \<or> map_of fs (fst f) \<noteq> None) spec"
    using at len by (auto simp: list_all_length)
  moreover have "map (\<lambda>f. (fst f, case map_of fs (fst f) of Some x \<Rightarrow> x | None \<Rightarrow> the (snd f))) spec = fs"
    by (rule nth_equalityI) (use at len in \<open>auto simp: prod_eq_iff\<close>)
  ultimately show ?thesis by (simp add: construct_def)
qed

lemma construct_all_exact:
  "(\<And>fs. fs \<in> set xs \<Longrightarrow> map fst fs = map fst spec) \<Longrightarrow> distinct (map fst spec) \<Longrightarrow>
   construct_all spec (map JObj xs) = Inr xs"
  by (induction xs) (auto simp: construct_exact)

text \<open>A response as the connector builds it: its parts have exactly the fields of their classes.\<close>

definition well_formed_response :: "property_response \<Rightarrow> bool" where
  "well_formed_response r \<longleftrightarrow>
     map fst (pr_query r) = map fst query_fields \<and>
     list_all (\<lambda>c. map fst c = map fst candidate_fields) (pr_candidates r) \<and>
     list_all (\<lambda>c. map fst c = map fst record_fields) (pr_records r) \<and>
     representable (pr_fetched_at r) \<and>
     list_all (\<lambda>t. case t of None \<Rightarrow> True | Some x \<Rightarrow> representable x)
       [pr_source_update_time r, pr_fetch_started_at r, pr_fetch_completed_at r]"

lemma distinct_fields: "distinct (map fst query_fields)" "distinct (map fst candidate_fields)" "distinct (map fst record_fields)"
  by code_simp+

lemma isoformat_nonempty: "isoformat t \<noteq> []"
  by (auto simp: isoformat_def Let_def split: prod.splits)

lemma optional_datetime_opt_time:
  "(case t of None \<Rightarrow> True | Some x \<Rightarrow> representable x) \<Longrightarrow> optional_datetime (Some (opt_time t)) = Inr t"
  by (cases t) (auto simp: optional_datetime_def opt_time_def fromisoformat_isoformat isoformat_nonempty)

lemma optional_int_exact: "optional_int (Some (case n of None \<Rightarrow> JNull | Some k \<Rightarrow> JInt k)) = Inr n"
  by (cases n) (auto simp: optional_int_def py_int_def)

text \<open>The values under the keys of an encoded response.\<close>

lemma encode_response_lookup:
  "map_of (encode_response r) ''query'' = Some (JObj (pr_query r))"
  "map_of (encode_response r) ''candidates'' = Some (JList (map JObj (pr_candidates r)))"
  "map_of (encode_response r) ''records'' = Some (JList (map JObj (pr_records r)))"
  "map_of (encode_response r) ''requires_selection'' = Some (JBool (pr_requires_selection r))"
  "map_of (encode_response r) ''continuation'' = Some (pr_continuation r)"
  "map_of (encode_response r) ''is_complete'' = Some (JBool (pr_is_complete r))"
  "map_of (encode_response r) ''returned_count'' = Some (JInt (pr_returned_count r))"
  "map_of (encode_response r) ''fetched_at'' = Some (JStr (isoformat (pr_fetched_at r)))"
  "map_of (encode_response r) ''dataset_id'' = Some (pr_dataset_id r)"
  "map_of (encode_response r) ''dataset_url'' = Some (pr_dataset_url r)"
  "map_of (encode_response r) ''connector_version'' = Some (pr_connector_version r)"
  "map_of (encode_response r) ''source_status'' = Some (pr_source_status r)"
  "map_of (encode_response r) ''total_count'' = Some (case pr_total_count r of None \<Rightarrow> JNull | Some n \<Rightarrow> JInt n)"
  "map_of (encode_response r) ''has_more'' = Some (JBool (pr_has_more r))"
  "map_of (encode_response r) ''next_cursor'' = Some (pr_next_cursor r)"
  "map_of (encode_response r) ''source_update_time'' = Some (opt_time (pr_source_update_time r))"
  "map_of (encode_response r) ''fetch_started_at'' = Some (opt_time (pr_fetch_started_at r))"
  "map_of (encode_response r) ''fetch_completed_at'' = Some (opt_time (pr_fetch_completed_at r))"
  "map_of (encode_response r) ''cache_status'' = Some (pr_cache_status r)"
  "map_of (encode_response r) ''stale'' = Some (JBool (pr_stale r))"
  by (simp_all add: encode_response_def)

lemmas decode_simps = decode_response_def bind_result_def subscript_def json_iter_def py_int_def text_time_def
  get_default_def as_json_def opt_truthy_def truthy_def

text \<open>
  The types that the classes declare: the fields copied from JSON are strings or null, numbers are of
  readable length.
\<close>

definition text_or_null :: "json \<Rightarrow> bool" where
  "text_or_null v \<longleftrightarrow> (case v of JNull \<Rightarrow> True | JStr s \<Rightarrow> True | _ \<Rightarrow> False)"

definition short_int :: "int \<Rightarrow> bool" where
  "short_int n \<longleftrightarrow> length (int_digits \<bar>n\<bar>) \<le> 4300"

definition scalar :: "json \<Rightarrow> bool" where
  "scalar v \<longleftrightarrow> text_or_null v \<or> (case v of JInt n \<Rightarrow> short_int n | _ \<Rightarrow> False)"

definition typed_response :: "property_response \<Rightarrow> bool" where
  "typed_response r \<longleftrightarrow>
     list_all (\<lambda>f. scalar (snd f)) (pr_query r) \<and>
     list_all (list_all (\<lambda>f. scalar (snd f))) (pr_candidates r) \<and> list_all (list_all (\<lambda>f. scalar (snd f))) (pr_records r) \<and>
     list_all text_or_null [pr_continuation r, pr_dataset_id r, pr_dataset_url r, pr_connector_version r, pr_source_status r,
       pr_next_cursor r, pr_cache_status r] \<and>
     short_int (pr_returned_count r) \<and> (case pr_total_count r of None \<Rightarrow> True | Some n \<Rightarrow> short_int n)"

lemma text_or_null_plain: "text_or_null v \<Longrightarrow> plain v \<and> key_sorted v = v"
  by (cases v) (auto simp: text_or_null_def)

lemma scalar_plain: "scalar v \<Longrightarrow> plain v \<and> key_sorted v = v"
  by (cases v) (auto simp: scalar_def text_or_null_def short_int_def)

definition sorted_object :: "json_object \<Rightarrow> json_object" where
  "sorted_object fs = sort_key fst fs"

lemma map_of_sorted: "distinct (map fst fs) \<Longrightarrow> map_of (sorted_object fs) = map_of fs"
proof (rule map_of_eqI)
  assume d: "distinct (map fst fs)"
  then have e: "distinct (map fst (sorted_object fs))" by (simp add: sorted_object_def distinct_map)
  show "set (map fst (sorted_object fs)) = set (map fst fs)" by (simp add: sorted_object_def)
  show "\<forall>k \<in> set (map fst (sorted_object fs)). map_of (sorted_object fs) k = map_of fs k"
  proof
    fix k
    assume "k \<in> set (map fst (sorted_object fs))"
    then obtain v where v: "(k, v) \<in> set fs" by (auto simp: sorted_object_def)
    then have "(k, v) \<in> set (sorted_object fs)" by (simp add: sorted_object_def)
    with v d e show "map_of (sorted_object fs) k = map_of fs k" by (simp add: map_of_is_SomeI)
  qed
qed

lemma flat_object:
  assumes "list_all (\<lambda>f. scalar (snd f)) fs" and "distinct (map fst fs)"
  shows "plain (JObj fs)" and "key_sorted (JObj fs) = JObj (sorted_object fs)"
proof -
  have "map (\<lambda>f. (fst f, key_sorted (snd f))) fs = fs"
    using assms(1) by (intro map_idI) (auto simp: list_all_iff scalar_plain)
  then show "key_sorted (JObj fs) = JObj (sorted_object fs)" by (simp add: sorted_object_def)
  show "plain (JObj fs)" using assms by (auto simp: list_all_iff scalar_plain)
qed

lemma construct_sorted:
  assumes "distinct (map fst fs)"
  shows "construct spec (JObj (sorted_object fs)) = construct spec (JObj fs)"
  using map_of_sorted [OF assms] by (simp add: construct_def list_all_iff sorted_object_def)

lemma construct_all_sorted:
  "(\<And>fs. fs \<in> set xs \<Longrightarrow> distinct (map fst fs)) \<Longrightarrow>
   construct_all spec (map (\<lambda>fs. JObj (sorted_object fs)) xs) = construct_all spec (map JObj xs)"
proof (induction xs)
  case (Cons a xs)
  then have "construct_all spec (map (\<lambda>fs. JObj (sorted_object fs)) xs) = construct_all spec (map JObj xs)" by simp
  with Cons.prems show ?case by (simp add: construct_sorted cong: sum.case_cong)
qed simp

lemma response_parts:
  assumes "well_formed_response r" and "typed_response r"
  shows "key_sorted (JObj (pr_query r)) = JObj (sorted_object (pr_query r))" and "plain (JObj (pr_query r))"
    and "map (key_sorted \<circ> JObj) (pr_candidates r) = map (\<lambda>fs. JObj (sorted_object fs)) (pr_candidates r)"
    and "list_all plain (map JObj (pr_candidates r))"
    and "map (key_sorted \<circ> JObj) (pr_records r) = map (\<lambda>fs. JObj (sorted_object fs)) (pr_records r)"
    and "list_all plain (map JObj (pr_records r))"
    and "construct query_fields (JObj (sorted_object (pr_query r))) = Inr (pr_query r)"
    and "construct_all candidate_fields (map (\<lambda>fs. JObj (sorted_object fs)) (pr_candidates r)) = Inr (pr_candidates r)"
    and "construct_all record_fields (map (\<lambda>fs. JObj (sorted_object fs)) (pr_records r)) = Inr (pr_records r)"
proof -
  have keys: "map fst (pr_query r) = map fst query_fields"
    "\<And>c. c \<in> set (pr_candidates r) \<Longrightarrow> map fst c = map fst candidate_fields"
    "\<And>c. c \<in> set (pr_records r) \<Longrightarrow> map fst c = map fst record_fields"
    using assms(1) by (auto simp: well_formed_response_def list_all_iff)
  then have dist: "distinct (map fst (pr_query r))" "\<And>c. c \<in> set (pr_candidates r) \<Longrightarrow> distinct (map fst c)"
    "\<And>c. c \<in> set (pr_records r) \<Longrightarrow> distinct (map fst c)"
    using distinct_fields by simp_all
  have flat: "list_all (\<lambda>f. scalar (snd f)) (pr_query r)" "\<And>c. c \<in> set (pr_candidates r) \<Longrightarrow> list_all (\<lambda>f. scalar (snd f)) c"
    "\<And>c. c \<in> set (pr_records r) \<Longrightarrow> list_all (\<lambda>f. scalar (snd f)) c"
    using assms(2) unfolding typed_response_def by (auto simp: list_all_iff [of "list_all _"])
  show "key_sorted (JObj (pr_query r)) = JObj (sorted_object (pr_query r))" "plain (JObj (pr_query r))"
    using flat_object [OF flat(1) dist(1)] by blast+
  show "map (key_sorted \<circ> JObj) (pr_candidates r) = map (\<lambda>fs. JObj (sorted_object fs)) (pr_candidates r)"
    "list_all plain (map JObj (pr_candidates r))"
    using flat_object [OF flat(2) dist(2)] by (simp_all add: list_all_iff del: key_sorted.simps plain.simps)
  show "map (key_sorted \<circ> JObj) (pr_records r) = map (\<lambda>fs. JObj (sorted_object fs)) (pr_records r)"
    "list_all plain (map JObj (pr_records r))"
    using flat_object [OF flat(3) dist(3)] by (simp_all add: list_all_iff del: key_sorted.simps plain.simps)
  show "construct query_fields (JObj (sorted_object (pr_query r))) = Inr (pr_query r)"
    using construct_sorted [OF dist(1)] construct_exact [OF keys(1) distinct_fields(1)] by simp
  show "construct_all candidate_fields (map (\<lambda>fs. JObj (sorted_object fs)) (pr_candidates r)) = Inr (pr_candidates r)"
    using construct_all_sorted [OF dist(2)] construct_all_exact [OF keys(2) distinct_fields(2)] by simp
  show "construct_all record_fields (map (\<lambda>fs. JObj (sorted_object fs)) (pr_records r)) = Inr (pr_records r)"
    using construct_all_sorted [OF dist(3)] construct_all_exact [OF keys(3) distinct_fields(3)] by simp
qed

lemma encode_keys_distinct: "distinct (map fst (encode_response r))"
  by (simp add: encode_response_def)

lemma plain_encoded:
  assumes "well_formed_response r" and "typed_response r"
  shows "plain (JObj (encode_response r))"
proof -
  note p = response_parts [OF assms]
  have t: "plain (pr_continuation r)" "plain (pr_dataset_id r)" "plain (pr_dataset_url r)" "plain (pr_connector_version r)"
    "plain (pr_source_status r)" "plain (pr_next_cursor r)" "plain (pr_cache_status r)"
    using assms(2) by (simp_all add: typed_response_def text_or_null_plain)
  have n: "plain (JInt (pr_returned_count r))" "plain (case pr_total_count r of None \<Rightarrow> JNull | Some n \<Rightarrow> JInt n)"
    using assms(2) by (auto simp: typed_response_def short_int_def split: option.splits)
  have o: "plain (opt_time t)" for t by (simp add: opt_time_def split: option.split)
  have l: "plain (JList (map JObj (pr_candidates r)))" "plain (JList (map JObj (pr_records r)))"
    using p by (simp_all only: plain.simps)
  have "list_all (\<lambda>f. plain (snd f)) (encode_response r)"
    unfolding encode_response_def using t n o l p(2) by (simp del: plain.simps(3,5,6))
  then show ?thesis using encode_keys_distinct by simp
qed

lemma map_of_key_sorted: "map_of (map (\<lambda>f. (fst f, key_sorted (snd f))) fs) k = map_option key_sorted (map_of fs k)"
  by (induction fs) auto

lemma decode_encode:
  assumes "well_formed_response r" and "typed_response r"
  shows "decode_response (key_sorted (JObj (encode_response r))) = Inr r"
proof -
  note p = response_parts [OF assms]
  define fs where "fs = sort_key fst (map (\<lambda>f. (fst f, key_sorted (snd f))) (encode_response r))"
  have "map_of (sorted_object (map (\<lambda>f. (fst f, key_sorted (snd f))) (encode_response r))) k = map_option key_sorted (map_of (encode_response r) k)" for k
    using encode_keys_distinct [of r] by (subst map_of_sorted) (simp_all add: map_of_key_sorted o_def)
  then have look: "map_of fs k = map_option key_sorted (map_of (encode_response r) k)" for k
    by (simp only: fs_def sorted_object_def)
  have t: "key_sorted (pr_continuation r) = pr_continuation r" "key_sorted (pr_dataset_id r) = pr_dataset_id r"
    "key_sorted (pr_dataset_url r) = pr_dataset_url r" "key_sorted (pr_connector_version r) = pr_connector_version r"
    "key_sorted (pr_source_status r) = pr_source_status r" "key_sorted (pr_next_cursor r) = pr_next_cursor r"
    "key_sorted (pr_cache_status r) = pr_cache_status r"
    using assms(2) by (simp_all add: typed_response_def text_or_null_plain)
  have k: "key_sorted (case n of None \<Rightarrow> JNull | Some m \<Rightarrow> JInt m) = (case n of None \<Rightarrow> JNull | Some m \<Rightarrow> JInt m)"
    "key_sorted (opt_time u) = opt_time u" for n u
    by (simp_all add: opt_time_def split: option.split)
  have d: "fromisoformat (isoformat (pr_fetched_at r)) = Inr (pr_fetched_at r)"
    "optional_datetime (Some (opt_time (pr_source_update_time r))) = Inr (pr_source_update_time r)"
    "optional_datetime (Some (opt_time (pr_fetch_started_at r))) = Inr (pr_fetch_started_at r)"
    "optional_datetime (Some (opt_time (pr_fetch_completed_at r))) = Inr (pr_fetch_completed_at r)"
    using assms(1) by (simp_all add: well_formed_response_def fromisoformat_isoformat optional_datetime_opt_time)
  have "key_sorted (JObj (encode_response r)) = JObj fs" by (simp add: fs_def)
  moreover have "decode_response (JObj fs) = Inr r"
    by (simp add: decode_simps look encode_response_lookup p(7,8,9) p(1) [simplified] p(3,5) t k d optional_int_exact)
  ultimately show ?thesis by simp
qed

lemma loads_content:
  assumes "well_formed_response r" and "typed_response r"
  shows "loads (content_text r) = Some (key_sorted (JObj (encode_response r)))"
  unfolding content_text_def by (rule loads_dumps [OF plain_encoded [OF assms]]) (simp add: json_ws_def)

section \<open>Eviction\<close>

lemma unlink_frame [simp]: "cs_rows (unlink p s) = cs_rows s"
  by (simp add: unlink_def)

lemma unlink_all_Cons_snd:
  "snd (unlink_all env (a # as) s) =
   (case safe_artifact env s a of Inl e \<Rightarrow> s | Inr p \<Rightarrow> snd (unlink_all env as (unlink p s)))"
  by (simp split: sum.split prod.split)

lemma unlink_all_rows [simp]: "cs_rows (snd (unlink_all env as s)) = cs_rows s"
proof (induction as arbitrary: s)
  case (Cons a as)
  then show ?case unfolding unlink_all_Cons_snd by (simp split: sum.split)
qed simp

lemma snd_unit_outcome: "snd (case r of (Inl e, s') \<Rightarrow> (Inl e, s') | (Inr x, s') \<Rightarrow> (Inr (), s')) = snd r"
  by (simp split: sum.split prod.split)

lemma evicted_prefix:
  "\<exists>n. evicted limit used rows = take n rows \<and> (used - total_bytes (take n rows) \<le> limit \<or> length rows \<le> n)"
proof (induction rows arbitrary: used)
  case Nil
  then show ?case by simp
next
  case (Cons r rows)
  show ?case
  proof (cases "used \<le> limit")
    case True
    then show ?thesis by (intro exI [of _ 0]) (simp add: total_bytes_def)
  next
    case False
    obtain n where "evicted limit (used - pc_size_bytes r) rows = take n rows"
      "used - pc_size_bytes r - total_bytes (take n rows) \<le> limit \<or> length rows \<le> n"
      using Cons.IH by blast
    with False show ?thesis by (intro exI [of _ "Suc n"]) (auto simp: total_bytes_def algebra_simps)
  qed
qed

lemma evicted_fits: "used \<le> limit \<Longrightarrow> evicted limit used rows = []"
  by (cases rows) auto

text \<open>The unpinned rows in the order of eviction.\<close>

definition eviction_order :: "property_cache_row list \<Rightarrow> property_cache_row list" where
  "eviction_order rows = sort_key pc_last_accessed_at (filter (\<lambda>r. \<not> pc_pinned r) rows)"

lemma set_eviction_order: "set (eviction_order rows) = {r \<in> set rows. \<not> pc_pinned r}"
  by (auto simp: eviction_order_def)

lemma evict_remaining:
  "cs_rows (snd (evict env s)) =
   delete_where (\<lambda>r. pc_cache_key r \<in> set (map pc_cache_key
     (evicted (ce_max_bytes env) (total_bytes (cs_rows s)) (eviction_order (cs_rows s))))) (cs_rows s)"
  unfolding evict_def Let_def snd_unit_outcome unlink_all_rows eviction_order_def [symmetric] by (simp del: set_map)

lemma evict_rows:
  assumes "distinct (map pc_cache_key (cs_rows s))"
  obtains n where "cs_rows (snd (evict env s)) = filter (\<lambda>r. r \<notin> set (take n (eviction_order (cs_rows s)))) (cs_rows s)"
    and "total_bytes (cs_rows s) - total_bytes (take n (eviction_order (cs_rows s))) \<le> ce_max_bytes env
         \<or> length (eviction_order (cs_rows s)) \<le> n"
    and "evicted (ce_max_bytes env) (total_bytes (cs_rows s)) (eviction_order (cs_rows s)) = take n (eviction_order (cs_rows s))"
proof -
  obtain n where n: "evicted (ce_max_bytes env) (total_bytes (cs_rows s)) (eviction_order (cs_rows s)) = take n (eviction_order (cs_rows s))"
    "total_bytes (cs_rows s) - total_bytes (take n (eviction_order (cs_rows s))) \<le> ce_max_bytes env
     \<or> length (eviction_order (cs_rows s)) \<le> n"
    using evicted_prefix by blast
  have sub: "set (take n (eviction_order (cs_rows s))) \<subseteq> set (cs_rows s)"
    by (rule subset_trans [OF set_take_subset]) (auto simp: set_eviction_order)
  have inj: "inj_on pc_cache_key (set (cs_rows s))" using assms by (simp add: distinct_map)
  have "cs_rows (snd (evict env s)) =
      delete_where (\<lambda>r. pc_cache_key r \<in> set (map pc_cache_key (take n (eviction_order (cs_rows s))))) (cs_rows s)"
    by (simp add: evict_remaining n(1))
  also have "\<dots> = filter (\<lambda>r. r \<notin> set (take n (eviction_order (cs_rows s)))) (cs_rows s)"
    unfolding delete_where_def using sub inj by (intro filter_cong) (auto simp: inj_on_def)
  finally show ?thesis using that n by blast
qed

lemma total_bytes_distinct: "distinct rows \<Longrightarrow> total_bytes rows = sum pc_size_bytes (set rows)"
  by (simp add: total_bytes_def sum_list_distinct_conv_sum_set)

lemma total_bytes_remaining:
  assumes "distinct rows" and "distinct gone" and "set gone \<subseteq> set rows"
  shows "total_bytes (filter (\<lambda>r. r \<notin> set gone) rows) = total_bytes rows - total_bytes gone"
proof -
  have "set (filter (\<lambda>r. r \<notin> set gone) rows) = set rows - set gone" by auto
  then show ?thesis using assms by (simp add: total_bytes_distinct sum_diff)
qed

lemma sorted_take_le:
  assumes "sorted (map f xs)" and "x \<in> set (take n xs)" and "y \<in> set xs" and "y \<notin> set (take n xs)"
  shows "f x \<le> (f y :: 'a :: linorder)"
proof -
  have "sorted (map f (take n xs) @ map f (drop n xs))" using assms(1) by (metis append_take_drop_id map_append)
  moreover have "y \<in> set (drop n xs)" using assms(3,4) by (metis append_take_drop_id UnE set_append)
  ultimately show ?thesis using assms(2) by (auto simp: sorted_append)
qed

text \<open>
  C33: Eviction, from a table in which the cache keys are unique: afterwards the cached pages fit in the
  configured size, or every page left is pinned; pinned pages are never evicted; a page that is
  evicted was not used later than an unpinned page that stays; and when the pages already fit, nothing
  is evicted.
\<close>

theorem eviction_bounds:
  assumes "distinct (map pc_cache_key (cs_rows s))"
    and "rows' = cs_rows (snd (evict env s))"
  shows "(total_bytes rows' \<le> ce_max_bytes env \<or> list_all pc_pinned rows') \<and>
         filter pc_pinned rows' = filter pc_pinned (cs_rows s) \<and>
         (\<forall>x y. x \<in> set (cs_rows s) \<and> x \<notin> set rows' \<and> y \<in> set rows' \<and> \<not> pc_pinned y \<longrightarrow>
            pc_last_accessed_at x \<le> pc_last_accessed_at y) \<and>
         (total_bytes (cs_rows s) \<le> ce_max_bytes env \<longrightarrow> rows' = cs_rows s)"
proof (intro conjI allI impI)
  let ?order = "eviction_order (cs_rows s)"
  obtain n where rows: "rows' = filter (\<lambda>r. r \<notin> set (take n ?order)) (cs_rows s)"
    and fits: "total_bytes (cs_rows s) - total_bytes (take n ?order) \<le> ce_max_bytes env \<or> length ?order \<le> n"
    and take_n: "evicted (ce_max_bytes env) (total_bytes (cs_rows s)) ?order = take n ?order"
    using evict_rows [OF assms(1), of env] assms(2) by metis
  have dist: "distinct (cs_rows s)" using assms(1) by (simp add: distinct_map)
  then have dord: "distinct (take n ?order)" by (simp add: eviction_order_def)
  have sub: "set (take n ?order) \<subseteq> {r \<in> set (cs_rows s). \<not> pc_pinned r}"
    by (rule subset_trans [OF set_take_subset]) (simp add: set_eviction_order)
  show "total_bytes rows' \<le> ce_max_bytes env \<or> list_all pc_pinned rows'"
  proof (cases "length ?order \<le> n")
    case True
    then have "set (take n ?order) = {r \<in> set (cs_rows s). \<not> pc_pinned r}" by (simp add: set_eviction_order)
    then show ?thesis by (simp add: rows list_all_iff)
  next
    case False
    have "total_bytes rows' = total_bytes (cs_rows s) - total_bytes (take n ?order)"
      unfolding rows by (rule total_bytes_remaining) (use dist dord sub in auto)
    with False fits show ?thesis by simp
  qed
  show "filter pc_pinned rows' = filter pc_pinned (cs_rows s)"
    unfolding rows filter_filter using sub by (intro filter_cong) auto
  show "pc_last_accessed_at x \<le> pc_last_accessed_at y"
    if "x \<in> set (cs_rows s) \<and> x \<notin> set rows' \<and> y \<in> set rows' \<and> \<not> pc_pinned y" for x y
  proof (rule sorted_take_le [where f = pc_last_accessed_at])
    show "sorted (map pc_last_accessed_at ?order)" by (simp add: eviction_order_def)
    show "x \<in> set (take n ?order)" "y \<notin> set (take n ?order)" "y \<in> set ?order"
      using that by (simp_all add: rows set_eviction_order)
  qed
  show "rows' = cs_rows s" if "total_bytes (cs_rows s) \<le> ce_max_bytes env"
    using that take_n evicted_fits [OF that, of ?order] by (simp add: rows flip: take_n)
qed

definition sample_page :: "string \<Rightarrow> datetime \<Rightarrow> int \<Rightarrow> bool \<Rightarrow> property_cache_row" where
  "sample_page k accessed bytes pinned =
     \<lparr>pc_cache_key = k, pc_request_json = Dumped [], pc_connector_version = ''v1'',
      pc_response_artifact = ''artifacts/property-cache/'' @ k, pc_status = ''ok'', pc_is_complete = True, pc_fetched_at = 0,
      pc_expires_at = days 1, pc_stale_until = days 30, pc_last_accessed_at = accessed, pc_size_bytes = bytes, pc_pinned = pinned\<rparr>"

definition full_cache :: cache_state where
  "full_cache =
     \<lparr>cs_rows = [sample_page ''a'' 3 40 False, sample_page ''b'' 1 30 True, sample_page ''c'' 2 50 False],
      cs_maintenance = False, cs_files = []\<rparr>"

definition small_cache_env :: cache_env where
  "small_cache_env = \<lparr>ce_root = [''w''], ce_resolve = id, ce_connector_version = ''v1'', ce_max_bytes = 100, ce_retention_days = 30\<rparr>"

theorem eviction_bounds_witness:
  "map pc_cache_key (cs_rows (snd (evict small_cache_env full_cache))) = [''a'', ''b''] \<and>
   total_bytes (cs_rows (snd (evict small_cache_env full_cache))) \<le> 100"
proof -
  have "distinct (map pc_cache_key (cs_rows full_cache))" by code_simp
  note t = eviction_bounds [OF this refl, of small_cache_env]
  have k: "map pc_cache_key (cs_rows (snd (evict small_cache_env full_cache))) = [''a'', ''b'']" by code_simp
  have "\<not> list_all pc_pinned (cs_rows (snd (evict small_cache_env full_cache)))" by code_simp
  with t k show ?thesis by (simp add: small_cache_env_def)
qed

section \<open>Stored pages are read back\<close>

text \<open>
  C32: A response whose parts have the fields of their classes with the declared types, and whose times
  are representable, is read back from the text of its artifact as exactly the same response.
\<close>

theorem response_round_trip:
  assumes "well_formed_response r" and "typed_response r"
  shows "\<exists>j. loads (content_text r) = Some j \<and> decode_response j = Inr r"
  using loads_content [OF assms] decode_encode [OF assms] by blast

definition sample_response :: property_response where
  "sample_response =
     \<lparr>pr_query = query_dict blank_query, pr_candidates = [map (\<lambda>f. (fst f, JStr ''x'')) candidate_fields],
      pr_records = [map (\<lambda>f. (fst f, JNull)) record_fields], pr_requires_selection = False, pr_continuation = JNull,
      pr_is_complete = True, pr_returned_count = 1, pr_fetched_at = days 20000 + 1500001, pr_dataset_id = JStr ''wvxf-dwi5'',
      pr_dataset_url = JStr ''u'', pr_connector_version = JStr ''v1'', pr_source_status = JStr ''ok'', pr_total_count = Some 7,
      pr_has_more = True, pr_next_cursor = JStr ''50'', pr_source_update_time = None,
      pr_fetch_started_at = Some (days 20000), pr_fetch_completed_at = Some (days 20000 + 2000000),
      pr_cache_status = JStr ''live'', pr_stale = False\<rparr>"

lemma sample_response_well_formed: "well_formed_response sample_response" "typed_response sample_response"
  by code_simp+

theorem response_round_trip_witness:
  "\<exists>j. loads (content_text sample_response) = Some j \<and> decode_response j = Inr sample_response"
  by (rule response_round_trip [OF sample_response_well_formed])

text \<open>The artifact of a response lies directly in the cache directory.\<close>

lemma split_on_plain: "sep \<notin> set w \<Longrightarrow> split_on sep w = [w]"
  by (induction w) auto

lemma split_on_sep: "sep \<notin> set w \<Longrightarrow> split_on sep (w @ sep # rest) = w # split_on sep rest"
  by (induction w) auto

lemma hex_nibble:
  assumes "0 \<le> x" and "x < (16 :: int)"
  shows "char_of (if x < 10 then 48 + x else 87 + x) \<noteq> CHR ''/''"
proof -
  have "list_all (\<lambda>x. char_of (if x < 10 then 48 + x else 87 + x) \<noteq> CHR ''/'')
      [0, 1, 2, 3, 4, 5, 6, 7, 8, 9, 10, 11, 12, 13, 14, 15 :: int]" by code_simp
  moreover have "x \<in> set [0, 1, 2, 3, 4, 5, 6, 7, 8, 9, 10, 11, 12, 13, 14, 15 :: int]"
    using assms by simp presburger
  ultimately show ?thesis unfolding list_all_iff by blast
qed

lemma byte_nibbles: "uint (drop_bit 4 (b :: 8 word)) < 16" "uint (b AND 0x0f) < 16"
proof -
  have "uint b < 256" using uint_bounded [of b] by simp
  then show "uint (drop_bit 4 b) < 16" by (simp add: unsigned_drop_bit_eq drop_bit_eq_div uint_div)
  have "b AND 0x0f = take_bit 4 b" by (simp add: take_bit_eq_mask mask_eq_exp_minus_1)
  then show "uint (b AND 0x0f) < 16" by (simp add: unsigned_take_bit_eq take_bit_eq_mod uint_mod)
qed

lemma hex_byte_plain: "CHR ''/'' \<notin> set (hex_byte b)"
  using hex_nibble [of "uint (drop_bit 4 b)"] hex_nibble [of "uint (b AND 0x0f)"] byte_nibbles [of b]
  by (auto simp: hex_byte_def Let_def)

lemma sha_hex_plain: "CHR ''/'' \<notin> set (sha_hex s)"
  by (auto simp: sha_hex_def hexdigest_def hex_byte_plain)

lemma artifact_parts:
  "path_parts (artifact_relative r) = [''artifacts'', ''property-cache'', sha_hex (content_text r) @ ''.json'']"
proof -
  have "artifact_relative r = ''artifacts'' @ CHR ''/'' # ''property-cache'' @ CHR ''/'' # (sha_hex (content_text r) @ ''.json'')"
    by (simp add: artifact_relative_def)
  moreover have "split_on CHR ''/'' \<dots> = [''artifacts'', ''property-cache'', sha_hex (content_text r) @ ''.json'']"
    by (subst split_on_sep, simp, subst split_on_sep, simp, subst split_on_plain) (simp_all add: sha_hex_plain)
  ultimately show ?thesis by (simp add: path_parts_def)
qed

definition canonical_path :: "string \<Rightarrow> bool" where
  "canonical_path a \<longleftrightarrow> join ''/'' (path_parts a) = a"

lemma artifact_canonical: "canonical_path (artifact_relative r)"
  unfolding canonical_path_def artifact_parts by (simp add: artifact_relative_def)

lemma canonical_path_eq: "canonical_path a \<Longrightarrow> canonical_path b \<Longrightarrow> path_parts a = path_parts b \<Longrightarrow> a = b"
  by (metis canonical_path_def)

definition response_file :: "property_response \<Rightarrow> cached_file" where
  "response_file r = \<lparr>cf_text = Some (content_text r), cf_link = False\<rparr>"

definition response_path :: "cache_env \<Rightarrow> property_response \<Rightarrow> path" where
  "response_path env r = ce_root env @ path_parts (artifact_relative r)"

lemma safe_response_artifact:
  assumes "map_of (cs_files s) (response_path env r) = Some (response_file r)"
  shows "safe_artifact env s (artifact_relative r) = Inr (response_path env r)"
proof -
  have "\<not> starts_with (artifact_relative r) ''/''" by (simp add: artifact_relative_def starts_with_def)
  moreover have "''..'' \<notin> set (path_parts (artifact_relative r))" by (simp add: artifact_parts)
  moreover have "butlast (response_path env r) = ce_root env @ cache_dir"
    by (simp add: response_path_def artifact_parts cache_dir_def butlast_append)
  ultimately show ?thesis
    using assms by (simp add: safe_artifact_def Let_def under_def response_file_def flip: response_path_def)
qed

lemma load_response:
  assumes "map_of (cs_files s) (response_path env r) = Some (response_file r)" and "well_formed_response r" and "typed_response r"
  shows "load_artifact s (response_path env r) = Inr r"
  using assms by (simp add: load_artifact_def response_file_def loads_content decode_encode del: key_sorted.simps)

lemma select_first_update_where:
  "(\<And>r. p r \<Longrightarrow> p (f r)) \<Longrightarrow> select_first p t = Some old \<Longrightarrow> select_first p (update_where p f t) = Some (f old)"
  by (induction t) (auto simp: update_where_def split: if_splits)

lemma map_of_filter_other: "p \<noteq> q \<Longrightarrow> map_of (filter (\<lambda>f. fst f \<noteq> q) fs) p = map_of fs p"
  by (induction fs) auto

text \<open>The file of the response is free, or holds it already.\<close>

definition artifact_free :: "cache_env \<Rightarrow> property_response \<Rightarrow> cache_state \<Rightarrow> bool" where
  "artifact_free env r s \<longleftrightarrow>
     (case map_of (cs_files s) (response_path env r) of None \<Rightarrow> True | Some f \<Rightarrow> f = response_file r)"

definition canonical_rows :: "property_cache_row list \<Rightarrow> bool" where
  "canonical_rows rows \<longleftrightarrow> list_all (\<lambda>x. canonical_path (pc_response_artifact x)) rows"

definition stored_rows :: "property_cache_row \<Rightarrow> property_cache_row list \<Rightarrow> property_cache_row list" where
  "stored_rows row rows =
     (if select_first (\<lambda>x. pc_cache_key x = pc_cache_key row) rows = None then rows @ [row]
      else update_where (\<lambda>x. pc_cache_key x = pc_cache_key row) (\<lambda>_. row) rows)"

lemma select_stored_row:
  "select_first (\<lambda>x. pc_cache_key x = pc_cache_key row) (stored_rows row rows) = Some row"
  by (auto simp: stored_rows_def intro: select_first_update_where)

lemma stored_rows_other:
  assumes "x \<in> set (stored_rows row rows)" and "x \<noteq> row"
  shows "x \<in> set rows \<and> pc_cache_key x \<noteq> pc_cache_key row"
proof (cases "select_first (\<lambda>x. pc_cache_key x = pc_cache_key row) rows")
  case None
  then have "\<forall>x\<in>set rows. pc_cache_key x \<noteq> pc_cache_key row" by (simp only: select_first_None not_False_eq_True)
  moreover have "x \<in> set rows" using assms None by (simp add: stored_rows_def)
  ultimately show ?thesis by blast
next
  case (Some old)
  with assms(1) obtain y where "y \<in> set rows" "x = (if pc_cache_key y = pc_cache_key row then row else y)"
    by (auto simp: stored_rows_def)
  with assms(2) show ?thesis by (cases "pc_cache_key y = pc_cache_key row") simp_all
qed

lemma stored_rows_pinned:
  assumes "\<not> pc_pinned row"
  shows "filter pc_pinned (stored_rows row rows) = filter (\<lambda>x. pc_pinned x \<and> pc_cache_key x \<noteq> pc_cache_key row) rows"
proof (cases "select_first (\<lambda>x. pc_cache_key x = pc_cache_key row) rows")
  case None
  then have "\<forall>x\<in>set rows. pc_cache_key x \<noteq> pc_cache_key row" by (simp only: select_first_None not_False_eq_True)
  then have "filter pc_pinned rows = filter (\<lambda>x. pc_pinned x \<and> pc_cache_key x \<noteq> pc_cache_key row) rows"
    by (intro filter_cong) simp_all
  with None assms show ?thesis by (simp add: stored_rows_def)
next
  case (Some old)
  have "filter pc_pinned (update_where (\<lambda>x. pc_cache_key x = pc_cache_key row) (\<lambda>_. row) rows) =
      filter (\<lambda>x. pc_pinned x \<and> pc_cache_key x \<noteq> pc_cache_key row) rows"
    using assms by (induction rows) (simp_all add: update_where_def)
  with Some show ?thesis by (simp add: stored_rows_def)
qed

text \<open>Marking the page of a key as used does not show in what is said of the other pages.\<close>

lemma touched_other:
  assumes "x \<in> set (update_where (\<lambda>r. pc_cache_key r = k) (\<lambda>r. r\<lparr>pc_last_accessed_at := now\<rparr>) rows)"
    and "pc_cache_key x \<noteq> k"
  shows "x \<in> set rows"
proof -
  obtain y where "y \<in> set rows" "x = (if pc_cache_key y = k then y\<lparr>pc_last_accessed_at := now\<rparr> else y)"
    using assms(1) by auto
  with assms(2) show ?thesis by (cases "pc_cache_key y = k") simp_all
qed

lemma touched_pinned:
  "filter (\<lambda>x. pc_pinned x \<and> pc_cache_key x \<noteq> k)
     (update_where (\<lambda>r. pc_cache_key r = k) (\<lambda>r. r\<lparr>pc_last_accessed_at := now\<rparr>) rows) =
   filter (\<lambda>x. pc_pinned x \<and> pc_cache_key x \<noteq> k) rows"
  by (induction rows) (simp_all add: update_where_def)

lemma stored_rows_keys:
  "distinct (map pc_cache_key rows) \<Longrightarrow> distinct (map pc_cache_key (stored_rows row rows))"
proof (cases "select_first (\<lambda>x. pc_cache_key x = pc_cache_key row) rows")
  case None
  then show "distinct (map pc_cache_key rows) \<Longrightarrow> ?thesis" by (auto simp: stored_rows_def select_first_None)
next
  case (Some old)
  have "map pc_cache_key (update_where (\<lambda>x. pc_cache_key x = pc_cache_key row) (\<lambda>_. row) rows) = map pc_cache_key rows"
    by (auto simp: update_where_def)
  with Some show "distinct (map pc_cache_key rows) \<Longrightarrow> ?thesis" by (simp add: stored_rows_def)
qed

lemma remove_if_unreferenced_other:
  assumes "remove_if_unreferenced env a s = (res, s')" and "canonical_path a" and "a \<noteq> artifact_relative r"
  shows "cs_rows s' = cs_rows s \<and> map_of (cs_files s') (response_path env r) = map_of (cs_files s) (response_path env r)"
proof -
  have "ce_root env @ path_parts a \<noteq> response_path env r"
    using assms(2,3) artifact_canonical canonical_path_eq unfolding response_path_def by blast
  then show ?thesis
    using assms(1)
    by (auto simp: remove_if_unreferenced_def safe_artifact_def Let_def unlink_def map_of_filter_other split: if_splits option.splits)
qed

definition with_artifact :: "cache_env \<Rightarrow> property_response \<Rightarrow> cache_state \<Rightarrow> cache_state" where
  "with_artifact env r s =
     (if map_of (cs_files s) (response_path env r) = None
      then s\<lparr>cs_files := cs_files s @ [(response_path env r, response_file r)]\<rparr> else s)"

lemma store_unfold:
  "store env key r now s =
     (case assert_writable (with_artifact env r s) of
        Inl e \<Rightarrow> (Inl e, with_artifact env r s)
      | Inr _ \<Rightarrow>
          (case select_first (\<lambda>x. pc_cache_key x = key) (cs_rows (with_artifact env r s)) of
             None \<Rightarrow> (Inr (), with_artifact env r s\<lparr>cs_rows := cs_rows (with_artifact env r s) @ [cache_row env key r now]\<rparr>)
           | Some old \<Rightarrow>
               (let s2 = with_artifact env r s\<lparr>cs_rows := update_where (\<lambda>x. pc_cache_key x = key) (\<lambda>_. cache_row env key r now)
                      (cs_rows (with_artifact env r s))\<rparr>
                in if pc_response_artifact old \<noteq> [] \<and> pc_response_artifact old \<noteq> artifact_relative r
                   then remove_if_unreferenced env (pc_response_artifact old) s2
                   else (Inr (), s2))))"
  unfolding store_def Let_def with_artifact_def response_path_def response_file_def by (rule refl)

lemma store_effect:
  assumes "store env key r now s = (Inr (), s')" and "artifact_free env r s" and "canonical_rows (cs_rows s)"
  shows "cs_rows s' = stored_rows (cache_row env key r now) (cs_rows s) \<and>
         map_of (cs_files s') (response_path env r) = Some (response_file r)"
proof -
  define s1 where "s1 = with_artifact env r s"
  have rows: "cs_rows s1 = cs_rows s" by (simp add: s1_def with_artifact_def)
  have stored: "map_of (cs_files s1) (response_path env r) = Some (response_file r)"
    using assms(2) by (auto simp: s1_def with_artifact_def artifact_free_def map_add_def split: option.splits)
  have key: "pc_cache_key (cache_row env key r now) = key" by (simp add: cache_row_def)
  have w: "assert_writable s1 = Inr ()"
    using assms(1) by (auto simp: store_unfold simp flip: s1_def split: sum.splits)
  show ?thesis
  proof (cases "select_first (\<lambda>x. pc_cache_key x = key) (cs_rows s)")
    case None
    then show ?thesis
      using assms(1) w rows stored key
      by (auto simp: store_unfold stored_rows_def simp flip: s1_def)
  next
    case (Some old)
    let ?s2 = "s1\<lparr>cs_rows := update_where (\<lambda>x. pc_cache_key x = key) (\<lambda>_. cache_row env key r now) (cs_rows s1)\<rparr>"
    have "old \<in> set (cs_rows s)" using select_first_Some [OF Some] by simp
    then have can: "canonical_path (pc_response_artifact old)" using assms(3) by (simp add: canonical_rows_def list_all_iff)
    have "(if pc_response_artifact old \<noteq> [] \<and> pc_response_artifact old \<noteq> artifact_relative r
         then remove_if_unreferenced env (pc_response_artifact old) ?s2 else (Inr (), ?s2)) = (Inr (), s')"
      using assms(1) w rows Some
      by (simp only: store_unfold Let_def s1_def [symmetric] sum.case option.case)
    then have "cs_rows s' = cs_rows ?s2 \<and> map_of (cs_files s') (response_path env r) = map_of (cs_files ?s2) (response_path env r)"
      using remove_if_unreferenced_other [OF _ can] by (auto split: if_splits)
    then show ?thesis using rows stored key Some by (simp add: stored_rows_def)
  qed
qed

lemma read_stored:
  assumes "select_first (\<lambda>x. pc_cache_key x = key) (cs_rows s) = Some (cache_row env key r now)"
    and "map_of (cs_files s) (response_path env r) = Some (response_file r)" and "well_formed_response r" and "typed_response r"
  shows "fst (read_cached env key t s) =
     Inr (Some (r, pc_expires_at (cache_row env key r now),
       min (now + days (ce_retention_days env)) (pr_fetched_at r + days (ce_retention_days env))))"
proof -
  let ?s = "s\<lparr>cs_rows := update_where (\<lambda>x. pc_cache_key x = key) (\<lambda>x. x\<lparr>pc_last_accessed_at := t\<rparr>) (cs_rows s)\<rparr>"
  have "map_of (cs_files ?s) (response_path env r) = Some (response_file r)" using assms(2) by simp
  then have "safe_artifact env ?s (artifact_relative r) = Inr (response_path env r)" "load_artifact ?s (response_path env r) = Inr r"
    using safe_response_artifact load_response [OF _ assms(3,4)] by blast+
  then show ?thesis
    by (simp add: read_cached_def Let_def assms(1)) (simp add: cache_row_def)
qed

lemma total_bytes_update:
  assumes "distinct (map pc_cache_key rows)" and "list_all (\<lambda>x. 0 \<le> pc_size_bytes x) rows" and "0 \<le> pc_size_bytes row"
  shows "total_bytes (update_where (\<lambda>x. pc_cache_key x = k) (\<lambda>_. row) rows) \<le> total_bytes rows + pc_size_bytes row"
  using assms
proof (induction rows)
  case Nil
  then show ?case by (simp add: total_bytes_def update_where_def)
next
  case (Cons x rows)
  show ?case
  proof (cases "pc_cache_key x = k")
    case True
    with Cons.prems(1) have "update_where (\<lambda>x. pc_cache_key x = k) (\<lambda>_. row) rows = rows"
      by (intro update_where_none) (force simp: image_iff)
    with True Cons.prems show ?thesis by (simp add: total_bytes_def update_where_def)
  next
    case False
    with Cons show ?thesis by (simp add: total_bytes_def update_where_def)
  qed
qed

lemma total_bytes_stored:
  assumes "distinct (map pc_cache_key rows)" and "list_all (\<lambda>x. 0 \<le> pc_size_bytes x) rows" and "0 \<le> pc_size_bytes row"
  shows "total_bytes (stored_rows row rows) \<le> total_bytes rows + pc_size_bytes row"
proof (cases "select_first (\<lambda>x. pc_cache_key x = pc_cache_key row) rows")
  case None
  then show ?thesis by (simp add: stored_rows_def total_bytes_def)
next
  case (Some old)
  then show ?thesis using total_bytes_update [OF assms] by (simp add: stored_rows_def)
qed

lemma evict_fits: "total_bytes (cs_rows s) \<le> ce_max_bytes env \<Longrightarrow> evict env s = (Inr (), s)"
  by (simp add: evict_def Let_def evicted_fits delete_where_def)

text \<open>Reading a page marks it as used and changes nothing else.\<close>

lemma read_cached_state:
  "snd (read_cached env key now s) =
   s\<lparr>cs_rows := update_where (\<lambda>r. pc_cache_key r = key) (\<lambda>r. r\<lparr>pc_last_accessed_at := now\<rparr>) (cs_rows s)\<rparr>"
proof (cases "select_first (\<lambda>r. pc_cache_key r = key) (cs_rows s)")
  case None
  moreover from None have "update_where (\<lambda>r. pc_cache_key r = key) f (cs_rows s) = cs_rows s" for f
    by (intro update_where_none) (simp add: select_first_None)
  ultimately show ?thesis by (simp add: read_cached_def)
next
  case (Some row)
  then show ?thesis by (simp add: read_cached_def Let_def split: sum.split)
qed

text \<open>
  A cache table in good order: unique keys, sizes that are not negative, artifact paths in the form in
  which they are stored.
\<close>

definition cache_ok :: "property_cache_row list \<Rightarrow> bool" where
  "cache_ok rows \<longleftrightarrow>
     distinct (map pc_cache_key rows) \<and> list_all (\<lambda>x. 0 \<le> pc_size_bytes x) rows \<and> canonical_rows rows"

lemma cache_ok_touch:
  "cache_ok rows \<Longrightarrow> cache_ok (update_where p (\<lambda>r. r\<lparr>pc_last_accessed_at := now\<rparr>) rows)"
  by (auto simp: cache_ok_def canonical_rows_def list_all_iff)

lemma total_bytes_touch: "total_bytes (update_where p (\<lambda>r. r\<lparr>pc_last_accessed_at := now\<rparr>) rows) = total_bytes rows"
proof -
  have "map pc_size_bytes (update_where p (\<lambda>r. r\<lparr>pc_last_accessed_at := now\<rparr>) rows) = map pc_size_bytes rows" by simp
  then show ?thesis by (simp only: total_bytes_def)
qed

text \<open>Eviction does not reach the last page in its order when the pages before it make room.\<close>

lemma evicted_last:
  "used - total_bytes xs \<le> limit \<Longrightarrow> set (evicted limit used (xs @ [r])) \<subseteq> set xs"
proof (induction xs arbitrary: used)
  case (Cons x xs)
  have "set (evicted limit (used - pc_size_bytes x) (xs @ [r])) \<subseteq> set xs"
    by (rule Cons.IH) (use Cons.prems in \<open>simp add: total_bytes_def\<close>)
  then show ?case by auto
qed (simp add: total_bytes_def)

lemma order_last:
  assumes "row \<in> set rows" and "\<not> pc_pinned row"
    and "\<And>x. x \<in> set rows \<Longrightarrow> \<not> pc_pinned x \<Longrightarrow> x \<noteq> row \<Longrightarrow> pc_last_accessed_at x < pc_last_accessed_at row"
  obtains ys where "eviction_order rows = ys @ [row]"
proof -
  have row: "row \<in> set (eviction_order rows)" using assms(1,2) by (simp add: set_eviction_order)
  then obtain ys z where order: "eviction_order rows = ys @ [z]"
    by (metis append_butlast_last_id empty_iff empty_set)
  have "sorted (map pc_last_accessed_at (ys @ [z]))"
    unfolding order [symmetric] by (simp add: eviction_order_def)
  then have "\<forall>y\<in>set ys. pc_last_accessed_at y \<le> pc_last_accessed_at z" by (auto simp: sorted_append)
  moreover have z: "z \<in> set rows" "\<not> pc_pinned z"
    using set_eviction_order [of rows] by (auto simp: order)
  moreover have "row \<in> set ys \<or> z = row" using row by (auto simp: order)
  ultimately have "z = row" using assms(3) [OF z] by fastforce
  with that order show ?thesis by simp
qed

lemma total_bytes_parts: "total_bytes rows = total_bytes (filter pc_pinned rows) + total_bytes (eviction_order rows)"
proof -
  have "total_bytes (eviction_order rows) = total_bytes (filter (\<lambda>r. \<not> pc_pinned r) rows)"
  proof -
    have "mset (map pc_size_bytes (eviction_order rows)) = mset (map pc_size_bytes (filter (\<lambda>r. \<not> pc_pinned r) rows))"
      by (simp add: eviction_order_def)
    then show ?thesis unfolding total_bytes_def by (metis sum_mset_sum_list)
  qed
  moreover have "total_bytes rows = total_bytes (filter pc_pinned rows) + total_bytes (filter (\<lambda>r. \<not> pc_pinned r) rows)"
    by (induction rows) (simp_all add: total_bytes_def)
  ultimately show ?thesis by simp
qed

lemma unlink_all_other:
  assumes "\<And>a. a \<in> set as \<Longrightarrow> canonical_path a \<and> a \<noteq> artifact_relative r"
  shows "map_of (cs_files (snd (unlink_all env as s))) (response_path env r) = map_of (cs_files s) (response_path env r)"
  using assms
proof (induction as arbitrary: s)
  case (Cons a as)
  have "ce_root env @ path_parts a \<noteq> response_path env r"
    using Cons.prems [of a] artifact_canonical canonical_path_eq unfolding response_path_def by auto
  then have "map_of (cs_files (unlink p s)) (response_path env r) = map_of (cs_files s) (response_path env r)"
    if "safe_artifact env s a = Inr p" for p
    using that by (auto simp: safe_artifact_def Let_def unlink_def map_of_filter_other split: if_splits option.splits)
  with Cons show ?case unfolding unlink_all_Cons_snd by (simp split: sum.split)
qed simp

lemma select_first_delete_where:
  "(\<And>x. x \<in> set t \<Longrightarrow> p x \<Longrightarrow> \<not> q x) \<Longrightarrow> select_first p (delete_where q t) = select_first p t"
  by (induction t) (auto simp: delete_where_def)

text \<open>
  A table just after the page \<open>row\<close> was stored: the pages of the other keys are those of before, and
  the page itself is the most recently used of the unpinned ones.
\<close>

lemma fresh_page_survives:
  assumes "row \<in> set (cs_rows s)" and "\<not> pc_pinned row" and keys: "distinct (map pc_cache_key (cs_rows s))"
    and recent: "\<And>x. x \<in> set (cs_rows s) \<Longrightarrow> \<not> pc_pinned x \<Longrightarrow> x \<noteq> row \<Longrightarrow> pc_last_accessed_at x < pc_last_accessed_at row"
    and room: "total_bytes (filter pc_pinned (cs_rows s)) + pc_size_bytes row \<le> ce_max_bytes env"
    and others: "\<And>x. x \<in> set (cs_rows s) \<Longrightarrow> x \<noteq> row \<Longrightarrow>
      canonical_path (pc_response_artifact x) \<and> pc_response_artifact x \<noteq> artifact_relative r"
  shows "select_first (\<lambda>x. pc_cache_key x = pc_cache_key row) (cs_rows (snd (evict env s))) =
      select_first (\<lambda>x. pc_cache_key x = pc_cache_key row) (cs_rows s) \<and>
    map_of (cs_files (snd (evict env s))) (response_path env r) = map_of (cs_files s) (response_path env r)"
proof -
  obtain ys where order: "eviction_order (cs_rows s) = ys @ [row]"
    using order_last [OF assms(1,2) recent] by blast
  define victims where "victims = evicted (ce_max_bytes env) (total_bytes (cs_rows s)) (ys @ [row])"
  have "total_bytes (cs_rows s) = total_bytes (filter pc_pinned (cs_rows s)) + (total_bytes ys + pc_size_bytes row)"
    using total_bytes_parts [of "cs_rows s"] by (simp add: order) (simp add: total_bytes_def)
  then have "set victims \<subseteq> set ys" unfolding victims_def using room by (intro evicted_last) simp
  moreover have "row \<notin> set ys"
  proof -
    have "distinct (eviction_order (cs_rows s))" using keys by (simp add: eviction_order_def distinct_map)
    then show ?thesis by (simp add: order)
  qed
  moreover have "set ys \<subseteq> set (cs_rows s)"
  proof -
    have "set (ys @ [row]) \<subseteq> set (cs_rows s)" unfolding order [symmetric] by (auto simp: set_eviction_order)
    then show ?thesis by simp
  qed
  ultimately have v: "x \<in> set (cs_rows s) \<and> x \<noteq> row" if "x \<in> set victims" for x using that by blast
  have "pc_cache_key x \<noteq> pc_cache_key row" if "x \<in> set victims" for x
    using v [OF that] distinct_key_unique [OF keys _ assms(1)] by blast
  then have "pc_cache_key row \<notin> set (map pc_cache_key victims)" by force
  then have "select_first (\<lambda>x. pc_cache_key x = pc_cache_key row) (cs_rows (snd (evict env s))) =
      select_first (\<lambda>x. pc_cache_key x = pc_cache_key row) (cs_rows s)"
    unfolding evict_remaining order victims_def [symmetric]
    by (intro select_first_delete_where) auto
  moreover have "canonical_path a \<and> a \<noteq> artifact_relative r" if "a \<in> set (map pc_response_artifact victims)" for a
    using that v others by force
  then have "map_of (cs_files (snd (evict env s))) (response_path env r) = map_of (cs_files s) (response_path env r)"
    unfolding evict_def Let_def snd_unit_outcome eviction_order_def [symmetric] order victims_def [symmetric]
    by (subst unlink_all_other) simp_all
  ultimately show ?thesis by simp
qed

lemma refreshed_page:
  assumes "search env q True (Inr r) now s = (Inr r', s')"
    and "cache_ok (cs_rows s)" and "artifact_free env r s"
    and recent: "\<And>x. x \<in> set (cs_rows s) \<Longrightarrow> pc_cache_key x \<noteq> cache_key env q \<Longrightarrow> \<not> pc_pinned x \<Longrightarrow>
      pc_last_accessed_at x < now"
    and alone: "\<And>x. x \<in> set (cs_rows s) \<Longrightarrow> pc_cache_key x \<noteq> cache_key env q \<Longrightarrow>
      pc_response_artifact x \<noteq> artifact_relative r"
    and room: "total_bytes (filter (\<lambda>x. pc_pinned x \<and> pc_cache_key x \<noteq> cache_key env q) (cs_rows s)) +
      int (length (utf8 (content_text r))) \<le> ce_max_bytes env"
  shows "validate_query q = Inr () \<and> r' = r \<and>
         select_first (\<lambda>x. pc_cache_key x = cache_key env q) (cs_rows s') = Some (cache_row env (cache_key env q) r now) \<and>
         map_of (cs_files s') (response_path env r) = Some (response_file r)"
proof -
  let ?k = "cache_key env q" and ?row = "cache_row env (cache_key env q) r now"
  obtain page s1 where v: "validate_query q = Inr ()" and rd: "read_cached env ?k now s = (Inr page, s1)"
    using assms(1) by (auto simp: search_def Let_def split: sum.splits prod.splits)
  have s1: "s1 = s\<lparr>cs_rows := update_where (\<lambda>r. pc_cache_key r = ?k) (\<lambda>r. r\<lparr>pc_last_accessed_at := now\<rparr>) (cs_rows s)\<rparr>"
    using read_cached_state [of env ?k now s] rd by simp
  have ok: "cache_ok (cs_rows s1)" using assms(2) by (simp add: s1 cache_ok_touch)
  obtain s2 where st: "store env ?k r now s1 = (Inr (), s2)"
    using assms(1) v rd by (auto simp: search_def Let_def split: sum.splits prod.splits option.splits)
  have eff: "cs_rows s2 = stored_rows ?row (cs_rows s1)"
    "map_of (cs_files s2) (response_path env r) = Some (response_file r)"
    using store_effect [OF st] assms(3) ok by (simp_all add: s1 artifact_free_def cache_ok_def)
  have row: "pc_cache_key ?row = ?k" "\<not> pc_pinned ?row" "pc_last_accessed_at ?row = now"
    "pc_size_bytes ?row = int (length (utf8 (content_text r)))"
    by (simp_all add: cache_row_def)
  have rows2: "cs_rows s2 = stored_rows ?row (update_where (\<lambda>r. pc_cache_key r = ?k) (\<lambda>r. r\<lparr>pc_last_accessed_at := now\<rparr>) (cs_rows s))"
    by (simp add: eff(1) s1)
  have other: "x \<in> set (cs_rows s) \<and> pc_cache_key x \<noteq> ?k" if "x \<in> set (cs_rows s2)" "x \<noteq> ?row" for x
    using stored_rows_other [OF that [unfolded rows2]] touched_other [of x ?k now "cs_rows s"]
    by (simp add: row(1) del: set_update_where)
  have sel: "select_first (\<lambda>x. pc_cache_key x = ?k) (cs_rows s2) = Some ?row"
    using select_stored_row [of ?row] by (simp add: eff(1) row(1))
  have "fst (evict env s2) = Inr ()" and fin: "r' = r" "s' = snd (evict env s2)"
    using assms(1) v rd st by (auto simp: search_def Let_def split: option.splits prod.splits sum.splits)
  have "filter pc_pinned (cs_rows s2) = filter (\<lambda>x. pc_pinned x \<and> pc_cache_key x \<noteq> ?k) (cs_rows s)"
    unfolding rows2 by (simp only: stored_rows_pinned [OF row(2)] row(1) touched_pinned)
  moreover have "distinct (map pc_cache_key (cs_rows s2))"
    using ok by (simp add: eff(1) stored_rows_keys cache_ok_def)
  moreover have "canonical_path (pc_response_artifact x)" if "x \<in> set (cs_rows s)" for x
    using assms(2) that by (simp add: cache_ok_def canonical_rows_def list_all_iff)
  ultimately have "select_first (\<lambda>x. pc_cache_key x = pc_cache_key ?row) (cs_rows (snd (evict env s2))) =
        select_first (\<lambda>x. pc_cache_key x = pc_cache_key ?row) (cs_rows s2) \<and>
      map_of (cs_files (snd (evict env s2))) (response_path env r) = map_of (cs_files s2) (response_path env r)"
    using sel select_first_Some [OF sel] other recent alone room row
    by (intro fresh_page_survives) auto
  then show ?thesis using v fin sel eff(2) row(1) by simp
qed

text \<open>
  C30: A refreshing search that returns writes its page, and the page stays. The pages of other queries
  may have to be evicted for it: it is enough that the new page fits beside the pinned pages of other queries,
  that those of them that are not pinned were last used before, and that the name of its artifact is free
  (or already holds this response) and no page of another query names it. Then the search returns the live
  response, and until the page expires (a day later, or an hour later when the source verified that there
  are no records) the cache answers the same query with that response, marked as fresh.
\<close>

theorem search_then_cached:
  assumes "search env q True (Inr r) now s = (Inr r', s')"
    and "cache_ok (cs_rows s)" and "artifact_free env r s" and "well_formed_response r" and "typed_response r"
    and "\<And>x. x \<in> set (cs_rows s) \<Longrightarrow> pc_cache_key x \<noteq> cache_key env q \<Longrightarrow>
      (pc_pinned x \<or> pc_last_accessed_at x < now) \<and> pc_response_artifact x \<noteq> artifact_relative r"
    and "total_bytes (filter (\<lambda>x. pc_pinned x \<and> pc_cache_key x \<noteq> cache_key env q) (cs_rows s)) +
      int (length (utf8 (content_text r))) \<le> ce_max_bytes env"
    and "t < now + (if pr_source_status r = JStr ''verified_zero'' then EMPTY_TTL else SUCCESS_TTL)"
  shows "r' = r \<and> fst (cached env q allow_stale t s') = Inr (r\<lparr>pr_cache_status := JStr ''fresh_cache'', pr_stale := False\<rparr>)"
proof -
  have p: "validate_query q = Inr () \<and> r' = r \<and>
         select_first (\<lambda>x. pc_cache_key x = cache_key env q) (cs_rows s') = Some (cache_row env (cache_key env q) r now) \<and>
         map_of (cs_files s') (response_path env r) = Some (response_file r)"
  proof (rule refreshed_page [OF assms(1,2,3) _ _ assms(7)])
    fix x assume x: "x \<in> set (cs_rows s)" "pc_cache_key x \<noteq> cache_key env q"
    show "\<not> pc_pinned x \<Longrightarrow> pc_last_accessed_at x < now" using assms(6) [OF x] by simp
    show "pc_response_artifact x \<noteq> artifact_relative r" using assms(6) [OF x] by simp
  qed
  have "fst (read_cached env (cache_key env q) t s') =
      Inr (Some (r, pc_expires_at (cache_row env (cache_key env q) r now),
        min (now + days (ce_retention_days env)) (pr_fetched_at r + days (ce_retention_days env))))"
    using p assms(4,5) by (intro read_stored) simp_all
  then obtain s2 where "read_cached env (cache_key env q) t s' =
      (Inr (Some (r, pc_expires_at (cache_row env (cache_key env q) r now),
        min (now + days (ce_retention_days env)) (pr_fetched_at r + days (ce_retention_days env)))), s2)"
    by (metis prod.collapse)
  moreover have "pc_expires_at (cache_row env (cache_key env q) r now) > t" using assms(8) by (simp add: cache_row_def)
  ultimately show ?thesis using p by (simp add: cached_def served_def)
qed

definition building_query :: property_query where
  "building_query = blank_query\<lparr>pq_building_id := Some ''12345''\<rparr>"

text \<open>A cache of 3000 bytes with an old page of 2500 bytes, which has to go for a new one.\<close>

definition tight_cache_env :: cache_env where
  "tight_cache_env = small_cache_env\<lparr>ce_max_bytes := 3000\<rparr>"

definition crowded_cache :: cache_state where
  "crowded_cache = \<lparr>cs_rows = [sample_page ''o/d'' 0 2500 False], cs_maintenance = False, cs_files = []\<rparr>"

lemma crowded_key: "cache_key env q \<noteq> ''o/d''"
proof
  assume "cache_key env q = ''o/d''"
  then have "CHR ''/'' \<in> set (cache_key env q)" by simp
  then show False by (simp add: cache_key_def sha_hex_plain)
qed

lemma evict_one:
  "safe_artifact env s a = Inr p \<Longrightarrow>
   fst (case unlink_all env [a] s of (Inl e, s'') \<Rightarrow> (Inl e, s'') | (Inr _, s'') \<Rightarrow> (Inr (), s'')) = Inr ()"
  by simp

lemma crowded_artifact: "artifact_relative r \<noteq> ''artifacts/property-cache/o/d''"
proof -
  have "last (artifact_relative r) = CHR ''n''" by (simp add: artifact_relative_def)
  then show ?thesis by auto
qed

lemma crowded_search:
  assumes "validate_query q = Inr ()" and "500 < int (length (utf8 (content_text r)))"
    and "int (length (utf8 (content_text r))) \<le> 3000" and "0 < now"
  shows "\<exists>s'. search tight_cache_env q True (Inr r) now crowded_cache = (Inr r, s')"
proof -
  let ?env = tight_cache_env and ?old = "sample_page ''o/d'' 0 2500 False"
  let ?row = "cache_row ?env (cache_key ?env q) r now"
  let ?s = "with_artifact ?env r crowded_cache\<lparr>cs_rows := [?old, ?row]\<rparr>"
  have st: "store ?env (cache_key ?env q) r now crowded_cache = (Inr (), ?s)"
    using crowded_key [symmetric]
    by (simp add: store_unfold with_artifact_def crowded_cache_def assert_writable_def sample_page_def)
  have ev: "evicted (ce_max_bytes ?env) (total_bytes (cs_rows ?s))
      (sort_key pc_last_accessed_at (filter (\<lambda>r. \<not> pc_pinned r) (cs_rows ?s))) = [?old]"
    using assms(2-4) by (simp add: total_bytes_def cache_row_def sample_page_def tight_cache_env_def)
  have "path_parts ''artifacts/property-cache/o/d'' = [''artifacts'', ''property-cache'', ''o'', ''d'']" by code_simp
  then have safe: "safe_artifact ?env (?s\<lparr>cs_rows := rows\<rparr>) ''artifacts/property-cache/o/d'' =
      Inr (ce_root ?env @ [''artifacts'', ''property-cache'', ''o'', ''d''])" for rows
    by (auto simp: safe_artifact_def Let_def starts_with_def tight_cache_env_def small_cache_env_def under_def cache_dir_def
        with_artifact_def crowded_cache_def response_file_def)
  have art: "pc_response_artifact ?old = ''artifacts/property-cache/o/d''" by (simp add: sample_page_def)
  have "fst (evict ?env ?s) = Inr ()"
    unfolding evict_def Let_def ev list.map art by (rule evict_one, rule safe)
  then obtain s' where "evict ?env ?s = (Inr (), s')" by (metis prod.collapse)
  with st assms(1) show ?thesis
    using crowded_key [symmetric] by (simp add: search_def Let_def read_cached_def) (simp add: crowded_cache_def sample_page_def)
qed

theorem search_then_cached_witness:
  "\<exists>s'. search tight_cache_env building_query True (Inr sample_response) (days 20000) crowded_cache = (Inr sample_response, s') \<and>
     fst (cached tight_cache_env building_query False (days 20000 + hours 23) s') =
       Inr (sample_response\<lparr>pr_cache_status := JStr ''fresh_cache'', pr_stale := False\<rparr>)"
proof -
  have v: "validate_query building_query = Inr ()" by code_simp
  have n: "500 < int (length (utf8 (content_text sample_response)))" "int (length (utf8 (content_text sample_response))) \<le> 3000"
    by code_simp+
  have t: "0 < days 20000" by code_simp
  obtain s' where s': "search tight_cache_env building_query True (Inr sample_response) (days 20000) crowded_cache = (Inr sample_response, s')"
    using crowded_search [OF v n t] by blast
  have "canonical_path ''artifacts/property-cache/o/d''" by code_simp
  then have "cache_ok (cs_rows crowded_cache)" "artifact_free tight_cache_env sample_response crowded_cache"
    by (simp_all add: crowded_cache_def cache_ok_def canonical_rows_def artifact_free_def sample_page_def)
  moreover have "(pc_pinned x \<or> pc_last_accessed_at x < days 20000) \<and> pc_response_artifact x \<noteq> artifact_relative sample_response"
    if "x \<in> set (cs_rows crowded_cache)" for x
    using that t crowded_artifact by (simp add: crowded_cache_def sample_page_def) metis
  moreover have "total_bytes (filter (\<lambda>x. pc_pinned x \<and> pc_cache_key x \<noteq> cache_key tight_cache_env building_query) (cs_rows crowded_cache)) +
      int (length (utf8 (content_text sample_response))) \<le> ce_max_bytes tight_cache_env"
    using n by (simp add: crowded_cache_def sample_page_def total_bytes_def tight_cache_env_def)
  moreover have "days 20000 + hours 23 < days 20000 + (if pr_source_status sample_response = JStr ''verified_zero'' then EMPTY_TTL else SUCCESS_TTL)"
    by code_simp
  ultimately show ?thesis
    using search_then_cached [OF s' _ _ sample_response_well_formed, of "days 20000 + hours 23" False] s' by blast
qed

section \<open>What a search returns\<close>

text \<open>The artifact of a row, read without marking the row as used.\<close>

definition page_of :: "cache_env \<Rightarrow> cache_state \<Rightarrow> property_cache_row \<Rightarrow> property_response result" where
  "page_of env s row =
     (case safe_artifact env s (pc_response_artifact row) of Inl e \<Rightarrow> Inl e | Inr p \<Rightarrow> load_artifact s p)"

lemma page_of_frame: "page_of env (s\<lparr>cs_rows := rows\<rparr>) row = page_of env s row"
  by (simp add: page_of_def safe_artifact_def load_artifact_def Let_def cong: sum.case_cong)

definition stale_limit :: "cache_env \<Rightarrow> property_cache_row \<Rightarrow> datetime" where
  "stale_limit env row = min (pc_stale_until row) (pc_fetched_at row + days (ce_retention_days env))"

lemma read_cached_result:
  "fst (read_cached env key now s) =
     (case select_first (\<lambda>r. pc_cache_key r = key) (cs_rows s) of
        None \<Rightarrow> Inr None
      | Some row \<Rightarrow>
          (case page_of env s row of
             Inl e \<Rightarrow> Inl e
           | Inr r \<Rightarrow> Inr (Some (r, pc_expires_at row, stale_limit env row))))"
proof (cases "select_first (\<lambda>r. pc_cache_key r = key) (cs_rows s)")
  case None
  then show ?thesis by (simp add: read_cached_def)
next
  case (Some row)
  let ?s = "s\<lparr>cs_rows := update_where (\<lambda>r. pc_cache_key r = key) (\<lambda>r. r\<lparr>pc_last_accessed_at := now\<rparr>) (cs_rows s)\<rparr>"
  have "page_of env s row = page_of env ?s row" by (simp only: page_of_frame)
  with Some show ?thesis
    by (simp add: read_cached_def Let_def page_of_def stale_limit_def split: sum.split)
qed

text \<open>
  C31: Whatever a search returns is the live response, or the page that is stored under the query's key:
  marked fresh when no refresh was asked for and the page has not expired, or marked stale when the live
  search failed (network denied, deadline, connector error), the page is within its staleness limit and
  the page is not a verified absence of records.
\<close>

theorem search_provenance:
  assumes "search env q refresh live now s = (Inr r, s')"
  shows "live = Inr r \<or>
    (\<exists>row p. select_first (\<lambda>x. pc_cache_key x = cache_key env q) (cs_rows s) = Some row \<and> page_of env s row = Inr p \<and>
       (\<not> refresh \<and> now < pc_expires_at row \<and> r = served ''fresh_cache'' False p \<or>
        (\<exists>e. live = Inl e \<and> recoverable e \<and> now < stale_limit env row \<and> pr_source_status p \<noteq> JStr ''verified_zero'' \<and>
             r = served ''stale_cache'' True p)))"
proof -
  let ?k = "cache_key env q"
  obtain page s1 where v: "validate_query q = Inr ()" and rd: "read_cached env ?k now s = (Inr page, s1)"
    using assms by (auto simp: search_def Let_def split: sum.splits prod.splits)
  show ?thesis
  proof (cases page)
    case None
    with assms v rd show ?thesis
      by (auto simp: search_def Let_def split: sum.splits prod.splits)
  next
    case (Some triple)
    then obtain p expires lim where page: "page = Some (p, expires, lim)" by (cases triple) auto
    have "fst (read_cached env ?k now s) = Inr (Some (p, expires, lim))" using rd page by simp
    then obtain row where row: "select_first (\<lambda>x. pc_cache_key x = ?k) (cs_rows s) = Some row" "page_of env s row = Inr p"
      "expires = pc_expires_at row" "lim = stale_limit env row"
      by (auto simp: read_cached_result split: option.splits sum.splits)
    show ?thesis
    proof (cases "\<not> refresh \<and> now < expires")
      case True
      then have "r = served ''fresh_cache'' False p" using assms v rd page by (simp add: search_def Let_def)
      with True row show ?thesis by blast
    next
      case False
      show ?thesis
      proof (cases live)
        case (Inl e)
        with False have "recoverable e \<and> now < lim \<and> pr_source_status p \<noteq> JStr ''verified_zero'' \<and> r = served ''stale_cache'' True p"
          using assms v rd page by (auto simp: search_def Let_def split: if_splits)
        with Inl row show ?thesis by blast
      next
        case (Inr response)
        with False show ?thesis
          using assms v rd page by (auto simp: search_def Let_def split: sum.splits prod.splits if_splits)
      qed
    qed
  qed
qed

definition stored_cache :: cache_state where
  "stored_cache =
     \<lparr>cs_rows = [(sample_page (cache_key small_cache_env building_query) 0 10 False)
        \<lparr>pc_response_artifact := ''artifacts/property-cache/x.json''\<rparr>],
      cs_maintenance = False,
      cs_files = [([''w'', ''artifacts'', ''property-cache'', ''x.json''],
        \<lparr>cf_text = Some (content_text sample_response), cf_link = False\<rparr>)]\<rparr>"

lemma stored_cache_row:
  "select_first (\<lambda>x. pc_cache_key x = cache_key small_cache_env building_query) (cs_rows stored_cache) =
   Some ((sample_page (cache_key small_cache_env building_query) 0 10 False)\<lparr>pc_response_artifact := ''artifacts/property-cache/x.json''\<rparr>)"
  by (simp add: stored_cache_def sample_page_def)

lemma stored_cache_page:
  "page_of small_cache_env stored_cache
     ((sample_page (cache_key small_cache_env building_query) 0 10 False)\<lparr>pc_response_artifact := ''artifacts/property-cache/x.json''\<rparr>) =
   Inr sample_response"
proof -
  have p: "path_parts ''artifacts/property-cache/x.json'' = [''artifacts'', ''property-cache'', ''x.json'']" by code_simp
  show ?thesis
    using decode_encode [OF sample_response_well_formed] loads_content [OF sample_response_well_formed]
    by (simp add: page_of_def safe_artifact_def p stored_cache_def small_cache_env_def starts_with_def under_def cache_dir_def
        load_artifact_def del: key_sorted.simps)
qed

theorem search_provenance_witness:
  "\<exists>s'. search small_cache_env building_query False (Inl (PropertyConnectorError ''down'')) (days 2) stored_cache =
     (Inr (served ''stale_cache'' True sample_response), s') \<and> served ''stale_cache'' True sample_response \<noteq> sample_response"
proof -
  let ?out = "search small_cache_env building_query False (Inl (PropertyConnectorError ''down'')) (days 2) stored_cache"
  have v: "validate_query building_query = Inr ()" by code_simp
  have lim: "stale_limit small_cache_env (sample_page k 0 10 False\<lparr>pc_response_artifact := a\<rparr>) = days 30" for k a
    by (simp add: stale_limit_def sample_page_def small_cache_env_def)
  have "fst (read_cached small_cache_env (cache_key small_cache_env building_query) (days 2) stored_cache) =
      Inr (Some (sample_response, days 1, days 30))"
    by (simp add: read_cached_result stored_cache_row stored_cache_page lim) (simp add: sample_page_def)
  then obtain s1 where "read_cached small_cache_env (cache_key small_cache_env building_query) (days 2) stored_cache =
      (Inr (Some (sample_response, days 1, days 30)), s1)" by (metis prod.collapse)
  moreover have "pr_source_status sample_response \<noteq> JStr ''verified_zero''" by (simp add: sample_response_def)
  ultimately have out: "?out = (Inr (served ''stale_cache'' True sample_response), s1)"
    using v by (simp add: search_def Let_def recoverable_def days_def seconds_def)
  from search_provenance [OF this] have "days 2 < stale_limit small_cache_env
      ((sample_page (cache_key small_cache_env building_query) 0 10 False)\<lparr>pc_response_artifact := ''artifacts/property-cache/x.json''\<rparr>)"
    by (simp add: stored_cache_row lim days_def seconds_def)
  moreover have "served ''stale_cache'' True sample_response \<noteq> sample_response" by code_simp
  ultimately show ?thesis using out by blast
qed

section \<open>Damaged pages\<close>

text \<open>A sequence of searches for one query, each with its refresh flag, the outcome of the connector and the time.\<close>

fun searches ::
  "cache_env \<Rightarrow> property_query \<Rightarrow> (bool \<times> property_response result \<times> datetime) list \<Rightarrow> cache_state \<Rightarrow>
   property_response result list" where
  "searches env q [] s = []"
| "searches env q ((refresh, live, now) # xs) s =
     fst (search env q refresh live now s) # searches env q xs (snd (search env q refresh live now s))"

lemma damaged_search:
  assumes "validate_query q = Inr ()"
    and "select_first (\<lambda>x. pc_cache_key x = cache_key env q) (cs_rows s) = Some row" and "page_of env s row = Inl e"
  shows "fst (search env q refresh live now s) = Inl e \<and>
    (\<exists>row'. select_first (\<lambda>x. pc_cache_key x = cache_key env q) (cs_rows (snd (search env q refresh live now s))) = Some row' \<and>
            page_of env (snd (search env q refresh live now s)) row' = Inl e)"
proof -
  let ?k = "cache_key env q"
  let ?s = "s\<lparr>cs_rows := update_where (\<lambda>r. pc_cache_key r = ?k) (\<lambda>r. r\<lparr>pc_last_accessed_at := now\<rparr>) (cs_rows s)\<rparr>"
  have "fst (read_cached env ?k now s) = Inl e" by (simp add: read_cached_result assms)
  then have rd: "read_cached env ?k now s = (Inl e, ?s)"
    using read_cached_state [of env ?k now s] by (metis prod.collapse)
  have out: "search env q refresh live now s = (Inl e, ?s)" by (simp add: search_def Let_def assms(1) rd)
  have key: "pc_cache_key row = ?k" using select_first_Some [OF assms(2)] by simp
  have "select_first (\<lambda>x. pc_cache_key x = ?k) (cs_rows ?s) = Some (row\<lparr>pc_last_accessed_at := now\<rparr>)"
    using select_first_update_where [OF _ assms(2), of "\<lambda>r. r\<lparr>pc_last_accessed_at := now\<rparr>"] by simp
  moreover have "page_of env ?s (row\<lparr>pc_last_accessed_at := now\<rparr>) = page_of env s row"
    by (simp only: page_of_frame) (simp add: page_of_def)
  ultimately show ?thesis using out assms(3) by auto
qed

text \<open>
  C39: When the artifact of a query's page cannot be read (it is missing, is not JSON, or lacks a key),
  every search for that query fails with that error, refreshing ones included and whatever the live
  source would answer: the search never reaches the connector and the page is never replaced.
\<close>

theorem damaged_page_blocks_search:
  assumes "validate_query q = Inr ()"
    and "select_first (\<lambda>x. pc_cache_key x = cache_key env q) (cs_rows s) = Some row" and "page_of env s row = Inl e"
  shows "searches env q xs s = replicate (length xs) (Inl e)"
  using assms(2,3)
proof (induction xs arbitrary: s row)
  case Nil
  show ?case by simp
next
  case (Cons x xs)
  obtain refresh live now where x: "x = (refresh, live, now)" by (cases x) auto
  from damaged_search [OF assms(1) Cons.prems, of refresh live now] Cons.IH show ?case
    by (auto simp: x)
qed

definition missing_artifact_cache :: cache_state where
  "missing_artifact_cache = stored_cache\<lparr>cs_files := []\<rparr>"

theorem damaged_page_blocks_search_witness:
  "searches small_cache_env building_query [(True, Inr sample_response, days 1), (False, Inr sample_response, days 90)]
     missing_artifact_cache = [Inl corrupt, Inl corrupt]"
proof -
  let ?row = "(sample_page (cache_key small_cache_env building_query) 0 10 False)\<lparr>pc_response_artifact := ''artifacts/property-cache/x.json''\<rparr>"
  have "validate_query building_query = Inr ()" by code_simp
  moreover have "select_first (\<lambda>x. pc_cache_key x = cache_key small_cache_env building_query) (cs_rows missing_artifact_cache) = Some ?row"
    using stored_cache_row by (simp add: missing_artifact_cache_def)
  moreover have "page_of small_cache_env missing_artifact_cache ?row = Inl corrupt"
  proof -
    have p: "path_parts ''artifacts/property-cache/x.json'' = [''artifacts'', ''property-cache'', ''x.json'']" by code_simp
    show ?thesis
      by (simp add: page_of_def safe_artifact_def p missing_artifact_cache_def small_cache_env_def starts_with_def under_def
          cache_dir_def load_artifact_def is_corruption_def)
  qed
  ultimately show ?thesis
    using damaged_page_blocks_search [of building_query small_cache_env missing_artifact_cache ?row corrupt
        "[(True, Inr sample_response, days 1), (False, Inr sample_response, days 90)]"] by (simp add: numeral_2_eq_2)
qed

end
