(* ===== verification/Connector_Claims.thy ===== *)
theory Connector_Claims
  imports Connector Property_Cache_Claims
begin

text \<open>
  What the connector promises: bounded requests, continuation tokens that are read back and bound to
  their query, and pages that together list every record of a stable source exactly once.
\<close>

section \<open>Requests\<close>

lemma bind_conn_Inr: "m st = (Inr x, st') \<Longrightarrow> bind_conn m f st = f x st'"
  by (simp add: bind_conn_def)

lemma bind_conn_Inl: "m st = (Inl e, st') \<Longrightarrow> bind_conn m f st = (Inl e, st')"
  by (simp add: bind_conn_def)

lemma bind_lift [simp]: "bind_conn (lift_conn (Inr x)) f = f x" "bind_conn (lift_conn (Inl e)) f st = (Inl e, st)"
  by (simp_all add: bind_conn_def lift_conn_def fun_eq_iff)

lemma lift_conn_apply: "lift_conn r st = (r, st)"
  by (simp add: lift_conn_def)

text \<open>
  A source that answers every request: the deadline has not passed, a slot is free, and the body is the
  list of rows that \<open>answer\<close> gives for the parameters.
\<close>

definition reliable :: "connector_env \<Rightarrow> (params \<Rightarrow> json list) \<Rightarrow> bool" where
  "reliable env answer \<longleftrightarrow>
     (\<forall>n. raise_if_expired (aw_reading (ne_world env n)) = Inr () \<and> aw_slot (ne_world env n) \<and>
        (\<forall>rq. \<exists>r. aw_outcome (ne_world env n) rq = Some r \<and> sr_status r < 400 \<and> sr_body r = Some (JList (answer (gq_params rq)))))"

lemma reliable_request:
  assumes "reliable env answer"
  obtains r st' where "request_source env ps hs st = (Inr r, st')" and "row_list r = Inr (answer ps)"
proof -
  let ?a = "ne_world env (cn_attempts st)"
  let ?rq = "\<lparr>gq_endpoint = mf_endpoint (ne_manifest env), gq_params = ps, gq_headers = hs, gq_timeout = max (1 / 10) (attempt_timeout ?a)\<rparr>"
  obtain r where r: "raise_if_expired (aw_reading ?a) = Inr ()" "aw_slot ?a" "aw_outcome ?a ?rq = Some r" "sr_status r < 400"
    "sr_body r = Some (JList (answer ps))"
    using assms unfolding reliable_def by (metis get_request.select_convs(2))
  then have "\<exists>st'. request_source env ps hs st = (Inr r, st')"
    by (simp add: request_source_def numeral_3_eq_3 Let_def)
  with r that show ?thesis by (auto simp: row_list_def)
qed

section \<open>Continuation tokens\<close>

lemma identity_dict_continuation: "identity_dict (q\<lparr>pq_continuation := c\<rparr>) = identity_dict q"
  by (simp add: identity_dict_def query_dict_def)

lemma request_hash_continuation: "request_hash (q\<lparr>pq_continuation := c\<rparr>) = request_hash q"
  by (simp add: request_hash_def identity_dict_continuation)

lemma continuation_token_query: "continuation_token (q\<lparr>pq_continuation := c\<rparr>) r = continuation_token q r"
  by (simp add: continuation_token_def cursor_payload_def request_hash_continuation)

text \<open>A record as \<^verbatim>\<open>_record\<close> makes it, of a building: what a continuation token needs.\<close>

definition cursor_record :: "json_object \<Rightarrow> bool" where
  "cursor_record r \<longleftrightarrow>
     (case attribute r ''building_id'' of JStr b \<Rightarrow> isdigit b | _ \<Rightarrow> False) \<and>
     text_or_null (attribute r ''inspection_date'') \<and>
     (case attribute r ''violation_id'' of JStr v \<Rightarrow> isdigit v | _ \<Rightarrow> False)"

lemma payload_flat:
  assumes "cursor_record r"
  shows "list_all (\<lambda>f. scalar (snd f)) (cursor_payload q r)" "distinct (map fst (cursor_payload q r))"
proof -
  have "scalar (attribute r ''building_id'')" "scalar (attribute r ''violation_id'')" "scalar (attribute r ''inspection_date'')"
    using assms by (auto simp: cursor_record_def scalar_def text_or_null_def split: json.splits)
  then show "list_all (\<lambda>f. scalar (snd f)) (cursor_payload q r)"
    by (simp add: cursor_payload_def) (simp add: scalar_def text_or_null_def)
qed (simp add: cursor_payload_def)

lemma token_text:
  assumes "cursor_record r"
  shows "Option.bind (Option.bind (urlsafe_b64decode (continuation_token q r)) utf8_decode) loads =
     Some (JObj (sorted_object (cursor_payload q r)))"
proof -
  note f = flat_object [OF payload_flat [OF assms, of q]]
  have "loads (dumps_compact (JObj (cursor_payload q r)) @ []) = Some (key_sorted (JObj (cursor_payload q r)))"
    by (rule loads_dumps [OF f(1)]) simp
  then show ?thesis
    unfolding continuation_token_def b64_round_trip by (simp add: utf8_round_trip f(2) del: key_sorted.simps)
qed

lemma token_nonempty: "continuation_token q r \<noteq> []"
proof -
  have "dumps_compact (JObj (cursor_payload q r)) \<noteq> []" by (simp add: dumps_compact_simps)
  then obtain c cs where "dumps_compact (JObj (cursor_payload q r)) = c # cs" by (cases "dumps_compact (JObj (cursor_payload q r))") auto
  then have "map uint (utf8 (dumps_compact (JObj (cursor_payload q r)))) \<noteq> []" by (simp add: utf8_def Let_def)
  then show ?thesis
    unfolding continuation_token_def urlsafe_b64encode_def
    by (cases "map uint (utf8 (dumps_compact (JObj (cursor_payload q r))))" rule: b64_encode.cases) auto
qed

lemma payload_attributes:
  "map_of (sorted_object (cursor_payload q r)) = map_of (cursor_payload q r)"
  "attribute (sorted_object (cursor_payload q r)) k = attribute (cursor_payload q r) k"
proof -
  show m: "map_of (sorted_object (cursor_payload q r)) = map_of (cursor_payload q r)"
    by (rule map_of_sorted) (simp add: cursor_payload_def)
  show "attribute (sorted_object (cursor_payload q r)) k = attribute (cursor_payload q r) k" by (simp add: attribute_def m)
qed

lemma decode_token:
  assumes "cursor_record r"
  shows "decode_continuation (q\<lparr>pq_continuation := Some (continuation_token q r)\<rparr>) = Inr (sorted_object (cursor_payload q r))"
proof -
  let ?fs = "sorted_object (cursor_payload q r)"
  have "map_of ?fs ''request_hash'' = Some (JStr (request_hash q))"
    "map_of ?fs ''building_id'' = Some (attribute r ''building_id'')"
    "map_of ?fs ''inspection_date'' = Some (attribute r ''inspection_date'')"
    "map_of ?fs ''violation_id'' = Some (attribute r ''violation_id'')"
    unfolding payload_attributes by (simp_all add: cursor_payload_def)
  then show ?thesis
    using assms
    by (auto simp: decode_continuation_def token_text [OF assms, simplified] request_hash_continuation payload_text_def py_str_def
        cursor_record_def text_or_null_def split: json.splits)
qed

section \<open>Paging through a stable source\<close>

definition record_of :: "json \<Rightarrow> json_object" where
  "record_of row = projr (violation_record row)"

definition row_date :: "json \<Rightarrow> string" where
  "row_date row = py_str (attribute (record_of row) ''inspection_date'')"

definition row_id :: "json \<Rightarrow> string" where
  "row_id row = py_str (attribute (record_of row) ''violation_id'')"

text \<open>The order of the dated rows: later dates first, then smaller violation ids.\<close>

definition comes_after :: "(string \<Rightarrow> string \<Rightarrow> bool) \<Rightarrow> (string \<Rightarrow> string \<Rightarrow> bool) \<Rightarrow> json \<Rightarrow> json \<Rightarrow> bool" where
  "comes_after earlier smaller r s \<longleftrightarrow>
     earlier (row_date s) (row_date r) \<or> (row_date s = row_date r \<and> smaller (row_id r) (row_id s))"

definition strict_order :: "(string \<Rightarrow> string \<Rightarrow> bool) \<Rightarrow> bool" where
  "strict_order lt \<longleftrightarrow> (\<forall>x. \<not> lt x x) \<and> (\<forall>x y z. lt x y \<longrightarrow> lt y z \<longrightarrow> lt x z)"

text \<open>The rows that a query denotes: of the queried building, with valid ids, dated or undated.\<close>

definition source_rows :: "property_query \<Rightarrow> json list \<Rightarrow> json list \<Rightarrow> bool" where
  "source_rows q dated undated \<longleftrightarrow>
     list_all (\<lambda>row. violation_record row = Inr (record_of row) \<and> cursor_record (record_of row) \<and>
       attribute (record_of row) ''building_id'' = JStr (the (pq_building_id q))) (dated @ undated) \<and>
     list_all (\<lambda>row. attribute (record_of row) ''inspection_date'' \<noteq> JNull) dated \<and>
     list_all (\<lambda>row. attribute (record_of row) ''inspection_date'' = JNull) undated"

text \<open>
  What the documentation of the query language promises for the requests of a stable data set. The texts
  of the requests are written out here, independently of the code that builds them: a request is answered
  with the first rows, up to the number its \<^verbatim>\<open>$limit\<close> names, of those that the condition of its
  \<^verbatim>\<open>$where\<close> selects, in the order that its \<^verbatim>\<open>$order\<close> names. \<open>w\<close> is the query's own clause, which selects
  the rows \<open>dated @ undated\<close>; \<open>earlier\<close> and \<open>smaller\<close> are the source's orders of dates and violation ids.
\<close>

definition dated_request :: "string \<Rightarrow> string \<Rightarrow> nat \<Rightarrow> params" where
  "dated_request columns condition n =
     [(''$select'', columns), (''$where'', ''('' @ condition @ '') AND inspectiondate is not null''),
      (''$order'', ''inspectiondate DESC,violationid ASC''), (''$limit'', dump_int (int n))]"

definition undated_request :: "string \<Rightarrow> string \<Rightarrow> nat \<Rightarrow> params" where
  "undated_request columns condition n =
     [(''$select'', columns), (''$where'', condition @ '' AND inspectiondate is null''),
      (''$order'', ''violationid ASC''), (''$limit'', dump_int (int n))]"

definition source_answers ::
  "string \<Rightarrow> string \<Rightarrow> string \<Rightarrow> nat \<Rightarrow> (string \<Rightarrow> string \<Rightarrow> bool) \<Rightarrow> (string \<Rightarrow> string \<Rightarrow> bool) \<Rightarrow>
   json list \<Rightarrow> json list \<Rightarrow> (params \<Rightarrow> json list) \<Rightarrow> bool" where
  "source_answers columns w b n earlier smaller dated undated answer \<longleftrightarrow>
     answer (dated_request columns w (n + 1)) = take (n + 1) dated \<and>
     list_all (\<lambda>r. answer (dated_request columns
           (''('' @ w @ '') AND buildingid = '' @ literal b @ '' AND (inspectiondate < '' @ literal (row_date r) @
            '' OR (inspectiondate = '' @ literal (row_date r) @ '' AND violationid > '' @ literal (row_id r) @ ''))'') (n + 1)) =
         take (n + 1) (filter (\<lambda>s. earlier (row_date s) (row_date r) \<or>
           row_date s = row_date r \<and> smaller (row_id r) (row_id s)) dated)) dated \<and>
     list_all (\<lambda>r. answer (undated_request columns
           (''(('' @ w @ '') AND buildingid = '' @ literal b @ '' AND violationid > '' @ literal (row_id r) @ '')'') (n + 1)) =
         take (n + 1) (filter (\<lambda>s. smaller (row_id r) (row_id s)) undated)) undated \<and>
     list_all (\<lambda>m. answer (undated_request columns (''('' @ w @ '') AND buildingid = '' @ literal b) m) = take m undated)
       [1..<n + 2]"

definition source_contract ::
  "connector_env \<Rightarrow> property_query \<Rightarrow> string \<Rightarrow> (string \<Rightarrow> string \<Rightarrow> bool) \<Rightarrow> (string \<Rightarrow> string \<Rightarrow> bool) \<Rightarrow>
   json list \<Rightarrow> json list \<Rightarrow> (params \<Rightarrow> json list) \<Rightarrow> bool" where
  "source_contract env q w earlier smaller dated undated answer \<longleftrightarrow>
     strict_order earlier \<and> strict_order smaller \<and>
     sorted_wrt (comes_after earlier smaller) dated \<and> sorted_wrt (\<lambda>r s. smaller (row_id r) (row_id s)) undated \<and>
     source_answers (join '','' (mf_fields (ne_manifest env))) w (the (pq_building_id q)) (nat (pq_limit q)) earlier smaller
       dated undated answer"

text \<open>The same, for the requests as the connector builds them.\<close>

definition pages_answered ::
  "connector_env \<Rightarrow> property_query \<Rightarrow> string \<Rightarrow> (string \<Rightarrow> string \<Rightarrow> bool) \<Rightarrow> (string \<Rightarrow> string \<Rightarrow> bool) \<Rightarrow>
   json list \<Rightarrow> json list \<Rightarrow> (params \<Rightarrow> json list) \<Rightarrow> bool" where
  "pages_answered env q w earlier smaller dated undated answer \<longleftrightarrow>
     strict_order earlier \<and> strict_order smaller \<and>
     sorted_wrt (comes_after earlier smaller) dated \<and> sorted_wrt (\<lambda>r s. smaller (row_id r) (row_id s)) undated \<and>
     answer (page_params env q w False) = take (nat (pq_limit q) + 1) dated \<and>
     (\<forall>r \<in> set dated. \<forall>pw. page_where w (Some (cursor_payload q (record_of r))) = Inr pw \<longrightarrow>
        answer (page_params env q pw False) = take (nat (pq_limit q) + 1) (filter (comes_after earlier smaller r) dated)) \<and>
     (\<forall>r \<in> set undated. \<forall>pw. page_where w (Some (cursor_payload q (record_of r))) = Inr pw \<longrightarrow>
        answer (page_params env q pw True) =
          take (nat (pq_limit q) + 1) (filter (\<lambda>s. smaller (row_id r) (row_id s)) undated)) \<and>
     (\<forall>n \<le> nat (pq_limit q).
        answer (undated_params env q w (literal (the (pq_building_id q))) (int n)) = take (nat (pq_limit q) + 1 - n) undated)"

lemma cursor_payload_attributes:
  "attribute (cursor_payload q r) ''building_id'' = attribute r ''building_id''"
  "attribute (cursor_payload q r) ''inspection_date'' = attribute r ''inspection_date''"
  "attribute (cursor_payload q r) ''violation_id'' = attribute r ''violation_id''"
  by (simp_all add: attribute_def cursor_payload_def)

lemma page_params_text:
  "0 \<le> pq_limit q \<Longrightarrow> page_params env q w False = dated_request (join '','' (mf_fields (ne_manifest env))) w (nat (pq_limit q) + 1)"
  "0 \<le> pq_limit q \<Longrightarrow>
   page_params env q w True = undated_request (join '','' (mf_fields (ne_manifest env))) (''('' @ w @ '')'') (nat (pq_limit q) + 1)"
  "0 \<le> pq_limit q \<Longrightarrow> n \<le> nat (pq_limit q) \<Longrightarrow> undated_params env q w b (int n) =
     undated_request (join '','' (mf_fields (ne_manifest env))) (''('' @ w @ '') AND buildingid = '' @ b) (nat (pq_limit q) + 1 - n)"
  by (simp_all add: page_params_def undated_params_def dated_request_def undated_request_def select_columns_def
      of_nat_diff add.commute)

lemma page_where_text:
  assumes "cursor_record r" and "page_where w (Some (cursor_payload q r)) = Inr pw"
    and "attribute r ''building_id'' = JStr b"
  shows "attribute r ''inspection_date'' \<noteq> JNull \<Longrightarrow>
      pw = ''('' @ w @ '') AND buildingid = '' @ literal b @ '' AND (inspectiondate < '' @ literal (py_str (attribute r ''inspection_date'')) @
        '' OR (inspectiondate = '' @ literal (py_str (attribute r ''inspection_date'')) @ '' AND violationid > '' @
        literal (py_str (attribute r ''violation_id'')) @ ''))''"
    and "attribute r ''inspection_date'' = JNull \<Longrightarrow>
      pw = ''('' @ w @ '') AND buildingid = '' @ literal b @ '' AND violationid > '' @ literal (py_str (attribute r ''violation_id''))"
  using assms
  by (auto simp: page_where_def cursor_filter_def cursor_payload_attributes bind_result_def literal_of_def cursor_record_def
      text_or_null_def py_str_def split: json.splits)

lemma contract_pages:
  assumes rows: "source_rows q dated undated" and contract: "source_contract env q w earlier smaller dated undated answer"
    and lim: "0 \<le> pq_limit q"
  shows "pages_answered env q w earlier smaller dated undated answer"
proof -
  let ?n = "nat (pq_limit q)" and ?c = "join '','' (mf_fields (ne_manifest env))" and ?b = "the (pq_building_id q)"
  note sc = contract [unfolded source_contract_def source_answers_def list_all_iff]
  have row: "cursor_record (record_of r)" "attribute (record_of r) ''building_id'' = JStr ?b"
    if "r \<in> set dated \<union> set undated" for r
    using rows that unfolding source_rows_def list_all_iff by auto
  have "answer (page_params env q pw False) = take (?n + 1) (filter (comes_after earlier smaller r) dated)"
    if "r \<in> set dated" "page_where w (Some (cursor_payload q (record_of r))) = Inr pw" for r pw
  proof -
    have d: "attribute (record_of r) ''inspection_date'' \<noteq> JNull"
      using rows that(1) by (auto simp: source_rows_def list_all_iff)
    note t = page_where_text(1) [OF row(1) that(2) row(2) d, folded row_date_def row_id_def]
    have "filter (comes_after earlier smaller r) dated = filter (\<lambda>s. earlier (row_date s) (row_date r) \<or>
        row_date s = row_date r \<and> smaller (row_id r) (row_id s)) dated"
      by (rule filter_cong) (simp_all add: comes_after_def)
    with sc t that(1) lim show ?thesis by (simp add: page_params_text)
  qed
  moreover have "answer (page_params env q pw True) = take (?n + 1) (filter (\<lambda>s. smaller (row_id r) (row_id s)) undated)"
    if "r \<in> set undated" "page_where w (Some (cursor_payload q (record_of r))) = Inr pw" for r pw
  proof -
    have d: "attribute (record_of r) ''inspection_date'' = JNull"
      using rows that(1) by (auto simp: source_rows_def list_all_iff)
    note t = page_where_text(2) [OF row(1) that(2) row(2) d, folded row_id_def]
    with sc that(1) lim show ?thesis by (simp add: page_params_text)
  qed
  moreover have "answer (undated_params env q w (literal ?b) (int m)) = take (?n + 1 - m) undated" if "m \<le> ?n" for m
  proof -
    have "1 \<le> ?n + 1 - m" "?n + 1 - m < ?n + 2" using that by linarith+
    then have "?n + 1 - m \<in> set [1..<?n + 2]" by (simp only: set_upt atLeastLessThan_iff)
    with sc have "answer (undated_request ?c (''('' @ w @ '') AND buildingid = '' @ literal ?b) (?n + 1 - m)) = take (?n + 1 - m) undated"
      by blast
    then show ?thesis using lim that by (simp add: page_params_text)
  qed
  moreover have "answer (page_params env q w False) = take (?n + 1) dated" using sc lim by (simp add: page_params_text)
  ultimately show ?thesis using sc unfolding pages_answered_def by blast
qed

lemma filter_sorted_wrt:
  assumes "\<And>x y. R x y \<Longrightarrow> \<not> R y x" and "\<And>x. \<not> R x x"
  shows "sorted_wrt R xs \<Longrightarrow> i < length xs \<Longrightarrow> filter (R (xs ! i)) xs = drop (Suc i) xs"
proof (induction xs arbitrary: i)
  case (Cons a xs)
  show ?case
  proof (cases i)
    case 0
    with Cons.prems assms(2) show ?thesis by (simp add: filter_id_conv)
  next
    case (Suc j)
    with Cons.prems have "R a (xs ! j)" by simp
    then have "\<not> R (xs ! j) a" by (rule assms(1))
    with Suc Cons show ?thesis by simp
  qed
qed simp

lemma strict_order_facts:
  assumes "strict_order lt"
  shows "\<not> lt x x" "lt x y \<Longrightarrow> \<not> lt y x"
  using assms unfolding strict_order_def by blast+

lemma comes_after_strict:
  assumes "strict_order earlier" and "strict_order smaller"
  shows "comes_after earlier smaller r s \<Longrightarrow> \<not> comes_after earlier smaller s r" "\<not> comes_after earlier smaller r r"
  unfolding comes_after_def using strict_order_facts [OF assms(1)] strict_order_facts [OF assms(2)] by metis+

text \<open>The rows that follow the first \<open>k\<close> ones, as far as the next request asks for them.\<close>

definition page_rows :: "property_query \<Rightarrow> json list \<Rightarrow> nat \<Rightarrow> json list" where
  "page_rows q rows k = take (nat (pq_limit q) + 1) (drop k rows)"

lemma length_page_rows: "length (page_rows q rows k) = min (nat (pq_limit q) + 1) (length rows - k)"
  by (simp add: page_rows_def)

lemma last_page_record:
  assumes "0 < m" and "k + m < length rows"
  shows "last (map f (take m (drop k rows))) = f (rows ! (k + m - 1))"
proof -
  have len: "length (take m (drop k rows)) = m" using assms by simp
  then have "map f (take m (drop k rows)) \<noteq> []" using assms(1) by auto
  then have "last (map f (take m (drop k rows))) = f (take m (drop k rows) ! (m - 1))"
    using len assms(1) by (simp add: last_conv_nth)
  then show ?thesis using assms by (simp add: add_diff_assoc)
qed

lemma join_partitions:
  assumes "k \<le> length dated" and "m = length (take n (drop k dated))"
  shows "m < n \<Longrightarrow> take n (drop k dated) @ take (n - m) undated = take n (drop k (dated @ undated))"
    and "n \<le> m \<Longrightarrow> take n (drop k dated) = take n (drop k (dated @ undated))"
  using assms by auto

text \<open>The query for the page that follows the first \<open>k\<close> rows.\<close>

definition next_query :: "property_query \<Rightarrow> json list \<Rightarrow> nat \<Rightarrow> property_query" where
  "next_query q rows k =
     (if k = 0 then q else q\<lparr>pq_continuation := Some (continuation_token q (record_of (rows ! (k - 1))))\<rparr>)"

lemma continuation_frame:
  "identity_clauses (q\<lparr>pq_continuation := c\<rparr>) = identity_clauses q"
  "filter_clauses (q\<lparr>pq_continuation := c\<rparr>) = filter_clauses q"
  "validate_query (q\<lparr>pq_continuation := c\<rparr>) = validate_query q"
  by (simp_all add: identity_clauses_def filter_clauses_def validate_query_def date_order_def)

lemma where_clause_continuation: "where_clause (q\<lparr>pq_continuation := c\<rparr>) = where_clause q"
  unfolding where_clause_def identity_where_clause_def continuation_frame by (rule refl)

lemma next_query_frame:
  "validate_query (next_query q rows k) = validate_query q" "where_clause (next_query q rows k) = where_clause q"
  "pq_building_id (next_query q rows k) = pq_building_id q" "pq_limit (next_query q rows k) = pq_limit q"
  "pq_inspection_date_from (next_query q rows k) = pq_inspection_date_from q"
  "pq_inspection_date_to (next_query q rows k) = pq_inspection_date_to q"
  by (simp_all add: next_query_def continuation_frame where_clause_continuation)

lemma page_params_limit: "pq_limit q' = pq_limit q \<Longrightarrow> page_params env q' = page_params env q"
  "pq_limit q' = pq_limit q \<Longrightarrow> undated_params env q' = undated_params env q"
  by (simp_all add: page_params_def undated_params_def fun_eq_iff)

lemma page_where_payload:
  assumes "cursor_record r"
  shows "\<exists>pw. page_where w (Some (cursor_payload q r)) = Inr pw"
    and "page_where w (Some (sorted_object (cursor_payload q r))) = page_where w (Some (cursor_payload q r))"
proof -
  show "page_where w (Some (sorted_object (cursor_payload q r))) = page_where w (Some (cursor_payload q r))"
    by (simp add: page_where_def cursor_filter_def payload_attributes)
  show "\<exists>pw. page_where w (Some (cursor_payload q r)) = Inr pw"
    using assms
    by (auto simp: page_where_def cursor_filter_def cursor_payload_attributes bind_result_def literal_of_def cursor_record_def
        text_or_null_def split: json.splits)
qed

text \<open>The rows that the requests of one page bring together.\<close>

lemma reliable_step:
  assumes "reliable env answer"
  shows "\<exists>r st'. bind_conn (request_source env ps hs) (\<lambda>r. bind_conn (lift_conn (row_list r)) (f r)) st = f r (answer ps) st'"
proof -
  obtain r st' where "request_source env ps hs st = (Inr r, st')" "row_list r = Inr (answer ps)"
    using reliable_request [OF assms] by blast
  then show ?thesis by (metis bind_conn_Inr bind_lift(1))
qed

lemma fill_undated_rows:
  assumes "reliable env answer"
    and "answer (undated_params env q base b (int (length rows))) = extra"
  shows "\<exists>st'. fill_undated env q hs base (Inr b) undated rows st =
     (Inr (if \<not> undated \<and> int (length rows) \<le> pq_limit q \<and> \<not> given (pq_inspection_date_from q) \<and> \<not> given (pq_inspection_date_to q)
           then rows @ extra else rows), st')"
  using reliable_step [OF assms(1), of "undated_params env q base b (int (length rows))" hs "\<lambda>r extra. lift_conn (Inr (rows @ extra))" st]
    assms(2)
  by (auto simp: fill_undated_def lift_conn_apply)

lemma collect_records:
  "list_all (\<lambda>row. violation_record row = Inr (record_of row)) rows \<Longrightarrow> collect violation_record rows = Inr (map record_of rows)"
  by (induction rows) auto

definition page_cursor :: "property_query \<Rightarrow> json_object option result" where
  "page_cursor q = (if given (pq_continuation q) then map_sum id Some (decode_continuation q) else Inr None)"

definition building_literal :: "property_query \<Rightarrow> json_object option \<Rightarrow> string result" where
  "building_literal q cursor =
     literal_of (case cursor of Some fs \<Rightarrow> attribute fs ''building_id'' | None \<Rightarrow> JStr (the (pq_building_id q)))"

lemma page_request:
  assumes rows: "source_rows q dated undated" and contract: "pages_answered env q w earlier smaller dated undated answer"
    and start: "\<not> given (pq_continuation q)" and k: "k \<le> length (dated @ undated)"
  obtains cursor pw where "page_cursor (next_query q (dated @ undated) k) = Inr cursor" and "page_where w cursor = Inr pw"
    and "null_partition cursor \<longleftrightarrow> length dated < k" and "building_literal q cursor = Inr (literal (the (pq_building_id q)))"
    and "answer (page_params env q pw (length dated < k)) =
      (if k \<le> length dated then page_rows q dated k else page_rows q undated (k - length dated))"
proof (cases "k = 0")
  case True
  with start contract that [of None w] show ?thesis
    by (simp add: page_cursor_def next_query_def page_where_def null_partition_def building_literal_def literal_of_def
        pages_answered_def page_rows_def)
next
  case False
  define row where "row = (dated @ undated) ! (k - 1)"
  have in_rows: "row \<in> set (dated @ undated)" unfolding row_def using False k by (intro nth_mem) simp
  then have rec: "cursor_record (record_of row)" "attribute (record_of row) ''building_id'' = JStr (the (pq_building_id q))"
    using rows unfolding source_rows_def list_all_iff by blast+
  let ?payload = "cursor_payload q (record_of row)"
  obtain pw where pw: "page_where w (Some ?payload) = Inr pw" using page_where_payload(1) [OF rec(1)] by blast
  have cursor: "page_cursor (next_query q (dated @ undated) k) = Inr (Some (sorted_object ?payload))"
    using False token_nonempty decode_token [OF rec(1), of q] by (simp add: page_cursor_def next_query_def given_def row_def)
  have b: "building_literal q (Some (sorted_object ?payload)) = Inr (literal (the (pq_building_id q)))"
    using rec(2) by (simp add: building_literal_def payload_attributes cursor_payload_attributes literal_of_def)
  have part: "null_partition (Some (sorted_object ?payload)) \<longleftrightarrow> attribute (record_of row) ''inspection_date'' = JNull"
    by (simp add: null_partition_def payload_attributes cursor_payload_attributes)
  note c = contract [unfolded pages_answered_def]
  have so: "strict_order earlier" "strict_order smaller" using c by blast+
  show ?thesis
  proof (cases "k \<le> length dated")
    case True
    with False have row: "k - 1 < length dated" by linarith
    then have row: "row = dated ! (k - 1)" "k - 1 < length dated" unfolding row_def by (simp_all only: nth_append if_True)
    then have "row \<in> set dated" by simp
    then have ans: "answer (page_params env q pw False) = take (nat (pq_limit q) + 1) (filter (comes_after earlier smaller row) dated)"
      and "attribute (record_of row) ''inspection_date'' \<noteq> JNull"
      using c pw rows by (auto simp: source_rows_def list_all_iff)
    moreover have "filter (comes_after earlier smaller row) dated = drop (Suc (k - 1)) dated"
      unfolding row(1) using c row(2) comes_after_strict [OF so] by (intro filter_sorted_wrt) blast+
    ultimately show ?thesis
      using that [OF cursor] pw True False b part by (simp add: page_where_payload(2) [OF rec(1)] page_rows_def)
  next
    case dated_done: False
    define i where "i = k - 1 - length dated"
    have row: "row = undated ! i" "i < length undated" "Suc i = k - length dated"
      using dated_done k by (auto simp: row_def i_def nth_append)
    then have "row \<in> set undated" by simp
    then have ans: "answer (page_params env q pw True) =
        take (nat (pq_limit q) + 1) (filter (\<lambda>s. smaller (row_id row) (row_id s)) undated)"
      and "attribute (record_of row) ''inspection_date'' = JNull"
      using c pw rows by (auto simp: source_rows_def list_all_iff)
    moreover have "filter (\<lambda>s. smaller (row_id row) (row_id s)) undated = drop (Suc i) undated"
      unfolding row(1)
    proof (rule filter_sorted_wrt [of "\<lambda>r s. smaller (row_id r) (row_id s)"])
      show "sorted_wrt (\<lambda>r s. smaller (row_id r) (row_id s)) undated" using c by blast
      show "i < length undated" by (rule row(2))
      show "\<not> smaller (row_id y) (row_id x)" if "smaller (row_id x) (row_id y)" for x y
        using that so(2) unfolding strict_order_def by blast
      show "\<not> smaller (row_id x) (row_id x)" for x using so(2) unfolding strict_order_def by blast
    qed
    ultimately show ?thesis
      using that [OF cursor] pw dated_done b part row(3) by (simp add: page_where_payload(2) [OF rec(1)] page_rows_def)
  qed
qed

text \<open>A query that starts at the first page of one building, for all dates.\<close>

definition building_start :: "connector_env \<Rightarrow> property_query \<Rightarrow> string \<Rightarrow> bool" where
  "building_start env q w \<longleftrightarrow>
     validate_query q = Inr () \<and> where_clause q = Inr w \<and> given (pq_building_id q) \<and> \<not> given (pq_continuation q) \<and>
     \<not> given (pq_inspection_date_from q) \<and> \<not> given (pq_inspection_date_to q) \<and>
     assert_url_allowed (ne_network env) (mf_endpoint (ne_manifest env)) ''HPD property lookup'' = Inr ()"

lemma start_limit: "building_start env q w \<Longrightarrow> 1 \<le> pq_limit q"
  unfolding building_start_def validate_query_def first_error_Inr by simp

lemma all_rows_of_page:
  assumes "k \<le> length (dated @ undated)" and "1 \<le> pq_limit q"
    and "rows = (if k \<le> length dated then page_rows q dated k else page_rows q undated (k - length dated))"
  shows "(if \<not> length dated < k \<and> int (length rows) \<le> pq_limit q
          then rows @ take (nat (pq_limit q) + 1 - length rows) undated else rows) = page_rows q (dated @ undated) k"
proof (cases "k \<le> length dated")
  case True
  have r: "rows = take (nat (pq_limit q) + 1) (drop k dated)" using True assms(3) by (simp add: page_rows_def)
  note j = join_partitions [OF True refl, of "nat (pq_limit q) + 1" undated]
  show ?thesis
  proof (cases "int (length rows) \<le> pq_limit q")
    case True
    then have "length (take (nat (pq_limit q) + 1) (drop k dated)) < nat (pq_limit q) + 1" using assms(2) by (simp add: r)
    with True \<open>k \<le> length dated\<close> j(1) show ?thesis unfolding page_rows_def r by simp
  next
    case False
    then have "nat (pq_limit q) + 1 \<le> length (take (nat (pq_limit q) + 1) (drop k dated))" using assms(2) by (simp add: r)
    with False j(2) show ?thesis unfolding page_rows_def r by simp
  qed
next
  case False
  then show ?thesis using assms(3) by (simp add: page_rows_def)
qed

lemma page_at:
  assumes rel: "reliable env answer" and start: "building_start env q w" and rows: "source_rows q dated undated"
    and contract: "pages_answered env q w earlier smaller dated undated answer" and k: "k \<le> length (dated @ undated)"
  shows "\<exists>resp st'. connector_search env (next_query q (dated @ undated) k) st =
     (Inr (page_response env (next_query q (dated @ undated) k) resp (page_rows q (dated @ undated) k)
        (map record_of (take (nat (pq_limit q)) (drop k (dated @ undated))))), st')"
proof -
  let ?q = "next_query q (dated @ undated) k"
  note f = next_query_frame [of q "dated @ undated" k]
  note s = start [unfolded building_start_def]
  have lim: "1 \<le> pq_limit q" by (rule start_limit [OF start])
  obtain cursor pw where cur: "page_cursor ?q = Inr cursor" "page_where w cursor = Inr pw"
      "null_partition cursor \<longleftrightarrow> length dated < k" "building_literal q cursor = Inr (literal (the (pq_building_id q)))"
    and ans: "answer (page_params env q pw (length dated < k)) =
      (if k \<le> length dated then page_rows q dated k else page_rows q undated (k - length dated))"
    using page_request [OF rows contract _ k] s by metis
  define first_rows where "first_rows = answer (page_params env q pw (length dated < k))"
  have len: "length first_rows \<le> nat (pq_limit q) + 1" by (simp add: first_rows_def ans page_rows_def)
  define building where "building = (case cursor of Some fs \<Rightarrow> attribute fs ''building_id''
      | None \<Rightarrow> if given (pq_building_id ?q) then JStr (the (pq_building_id ?q)) else the None)"
  have b: "literal_of building = Inr (literal (the (pq_building_id q)))"
    using cur(4) s by (auto simp: building_def building_literal_def f split: option.splits)
  have fill: "\<exists>st'. fill_undated env ?q (headers env) w (literal_of building) (null_partition cursor) first_rows st =
      (Inr (page_rows q (dated @ undated) k), st')" for st
  proof (cases "int (length first_rows) \<le> pq_limit q")
    case True
    then have "answer (undated_params env ?q w (literal (the (pq_building_id q))) (int (length first_rows))) =
        take (nat (pq_limit q) + 1 - length first_rows) undated"
      using contract by (simp add: pages_answered_def page_params_limit(2) [OF f(4)])
    from fill_undated_rows [OF rel this, of "headers env" "null_partition cursor" st]
    show ?thesis
      using s unfolding all_rows_of_page [OF k lim first_rows_def [unfolded ans], symmetric] b
      by (simp add: f cur(3))
  next
    case False
    with all_rows_of_page [OF k lim first_rows_def [unfolded ans]] show ?thesis
      by (simp add: fill_undated_def f lift_conn_def)
  qed
  have recs: "collect violation_record (take (nat (pq_limit q)) (page_rows q (dated @ undated) k)) =
      Inr (map record_of (take (nat (pq_limit q)) (drop k (dated @ undated))))"
  proof -
    have "take (nat (pq_limit q)) (page_rows q (dated @ undated) k) = take (nat (pq_limit q)) (drop k (dated @ undated))"
      by (simp add: page_rows_def min_def)
    moreover have "list_all (\<lambda>row. violation_record row = Inr (record_of row)) (take (nat (pq_limit q)) (drop k (dated @ undated)))"
      using rows unfolding source_rows_def list_all_iff by (meson in_set_dropD in_set_takeD)
    ultimately show ?thesis by (simp add: collect_records)
  qed
  have "connector_search env ?q st =
      bind_conn (request_source env (page_params env q pw (length dated < k)) (headers env)) (\<lambda>resp.
      bind_conn (lift_conn (row_list resp)) (\<lambda>rows.
      bind_conn (fill_undated env ?q (headers env) w (literal_of building) (null_partition cursor) rows) (\<lambda>all_rows.
      bind_conn (lift_conn (collect violation_record (take (nat (pq_limit q)) all_rows))) (\<lambda>records.
      lift_conn (Inr (page_response env ?q resp all_rows records)))))) st"
    using s cur(1) [unfolded page_cursor_def] cur(2,3)
    by (simp add: connector_search_def fetch_page_def f building_def page_params_limit(1) [OF f(4)])
  moreover obtain resp st1 where "bind_conn (request_source env (page_params env q pw (length dated < k)) (headers env)) (\<lambda>resp.
      bind_conn (lift_conn (row_list resp)) (\<lambda>rows.
      bind_conn (fill_undated env ?q (headers env) w (literal_of building) (null_partition cursor) rows) (\<lambda>all_rows.
      bind_conn (lift_conn (collect violation_record (take (nat (pq_limit q)) all_rows))) (\<lambda>records.
      lift_conn (Inr (page_response env ?q resp all_rows records)))))) st =
      bind_conn (fill_undated env ?q (headers env) w (literal_of building) (null_partition cursor) first_rows) (\<lambda>all_rows.
      bind_conn (lift_conn (collect violation_record (take (nat (pq_limit q)) all_rows))) (\<lambda>records.
      lift_conn (Inr (page_response env ?q resp all_rows records)))) st1"
    using reliable_step [OF rel, of "page_params env q pw (length dated < k)" "headers env" "\<lambda>resp rows.
      bind_conn (fill_undated env ?q (headers env) w (literal_of building) (null_partition cursor) rows) (\<lambda>all_rows.
      bind_conn (lift_conn (collect violation_record (take (nat (pq_limit q)) all_rows))) (\<lambda>records.
      lift_conn (Inr (page_response env ?q resp all_rows records))))" st]
    unfolding first_rows_def by (elim exE)
  moreover obtain st2 where "fill_undated env ?q (headers env) w (literal_of building) (null_partition cursor) first_rows st1 =
      (Inr (page_rows q (dated @ undated) k), st2)"
    using fill [of st1] by (elim exE)
  ultimately have "connector_search env ?q st = (Inr (page_response env ?q resp (page_rows q (dated @ undated) k)
      (map record_of (take (nat (pq_limit q)) (drop k (dated @ undated))))), st2)"
    by (simp add: bind_conn_Inr recs lift_conn_apply)
  then show ?thesis by blast
qed

text \<open>
  Following the continuations from a query, as the complete export does; the number bounds the pages.
\<close>

fun follow :: "connector_env \<Rightarrow> property_query \<Rightarrow> nat \<Rightarrow> property_query \<Rightarrow> conn_state \<Rightarrow> property_response list option" where
  "follow env q 0 current st = None"
| "follow env q (Suc n) current st =
     (case connector_search env current st of
        (Inl e, st') \<Rightarrow> None
      | (Inr page, st') \<Rightarrow>
          if pr_is_complete page \<or> \<not> truthy (pr_continuation page) then Some [page]
          else map_option ((#) page)
            (follow env q n (q\<lparr>pq_continuation := Some (py_str (pr_continuation page))\<rparr>) st'))"

definition listed :: "property_response list \<Rightarrow> json_object list" where
  "listed pages = concat (map pr_records pages)"

lemma follow_from:
  assumes rel: "reliable env answer" and start: "building_start env q w" and rows: "source_rows q dated undated"
    and contract: "pages_answered env q w earlier smaller dated undated answer"
  shows "k \<le> length (dated @ undated) \<Longrightarrow> length (dated @ undated) - k < n \<Longrightarrow>
    \<exists>pages. follow env q n (next_query q (dated @ undated) k) st = Some pages \<and>
      listed pages = map record_of (drop k (dated @ undated)) \<and>
      list_all (\<lambda>p. int (length (pr_records p)) \<le> pq_limit q) pages \<and> pr_is_complete (last pages)"
proof (induction n arbitrary: k st)
  case 0
  then show ?case by simp
next
  case (Suc n)
  let ?L = "dated @ undated" and ?m = "nat (pq_limit q)"
  let ?q = "next_query q ?L k"
  have m: "0 < ?m" using start_limit [OF start] by simp
  obtain resp st' where pg: "connector_search env ?q st =
      (Inr (page_response env ?q resp (page_rows q ?L k) (map record_of (take ?m (drop k ?L)))), st')"
    using page_at [OF rel start rows contract Suc.prems(1)] by blast
  define page where "page = page_response env ?q resp (page_rows q ?L k) (map record_of (take ?m (drop k ?L)))"
  have step: "connector_search env ?q st = (Inr page, st')" unfolding page_def by (rule pg)
  have "given (pq_building_id ?q)" using start by (simp add: building_start_def next_query_frame)
  then have page: "pr_records page = map record_of (take ?m (drop k ?L))" "pr_is_complete page \<longleftrightarrow> length ?L \<le> k + ?m"
    "\<not> pr_is_complete page \<Longrightarrow> pr_continuation page = JStr (continuation_token q (record_of (?L ! (k + ?m - 1))))"
  proof -
    have more: "pq_limit ?q < int (length (page_rows q ?L k)) \<longleftrightarrow> k + ?m < length ?L"
      using m by (simp only: length_page_rows next_query_frame) linarith
    assume g: "given (pq_building_id ?q)"
    show "pr_records page = map record_of (take ?m (drop k ?L))" using g by (simp add: page_def page_response_def Let_def)
    show "pr_is_complete page \<longleftrightarrow> length ?L \<le> k + ?m"
      using g m more by (auto simp: page_def page_response_def Let_def)
    show "pr_continuation page = JStr (continuation_token q (record_of (?L ! (k + ?m - 1))))" if "\<not> pr_is_complete page"
    proof -
      have "k + ?m < length ?L" using that g m more by (auto simp: page_def page_response_def Let_def)
      then have "last (map record_of (take ?m (drop k ?L))) = record_of (?L ! (k + ?m - 1))"
        using m by (intro last_page_record)
      with that g show ?thesis
        by (auto simp: page_def page_response_def Let_def next_query_def continuation_token_query)
    qed
  qed
  have within: "int (length (pr_records page)) \<le> pq_limit q"
    unfolding page(1) length_map length_take using start_limit [OF start] by linarith
  show ?case
  proof (cases "pr_is_complete page")
    case True
    then have "follow env q (Suc n) ?q st = Some [page]" by (simp add: step)
    moreover have "take ?m (drop k ?L) = drop k ?L" using True page(2) by simp
    ultimately show ?thesis
      using True page(1) within by (intro exI [of _ "[page]"]) (simp add: listed_def)
  next
    case False
    then have more: "k + ?m < length ?L" using page(2) by simp
    have next_q: "q\<lparr>pq_continuation := Some (py_str (pr_continuation page))\<rparr> = next_query q ?L (k + ?m)"
      using page(3) [OF False] m by (simp add: next_query_def py_str_def)
    have "truthy (pr_continuation page)" using page(3) [OF False] token_nonempty by (simp add: truthy_def)
    moreover have fuel: "length ?L - (k + ?m) < n" using Suc.prems(2) more m by linarith
    moreover obtain pages where ih: "follow env q n (next_query q ?L (k + ?m)) st' = Some pages"
      "listed pages = map record_of (drop (k + ?m) ?L)" "list_all (\<lambda>p. int (length (pr_records p)) \<le> pq_limit q) pages"
      "pr_is_complete (last pages)"
      using Suc.IH [OF less_imp_le [OF more] fuel, of st'] by blast
    ultimately have "follow env q (Suc n) ?q st = Some (page # pages)"
      using False next_q by (simp add: step)
    moreover have "listed (page # pages) = map record_of (drop k ?L)"
    proof -
      have "take ?m (drop k ?L) @ drop (k + ?m) ?L = drop k ?L"
        by (metis append_take_drop_id drop_drop add.commute)
      then show ?thesis using ih(2) page(1) by (simp add: listed_def flip: map_append)
    qed
    moreover have "pages \<noteq> []" using ih(1) by (cases n) (auto split: sum.splits prod.splits if_splits)
    ultimately show ?thesis using ih(3,4) within by (intro exI [of _ "page # pages"]) simp
  qed
qed

text \<open>
  C29: Paging lists every record exactly once. For a query of one building over all dates, against a source
  that answers and keeps to the documented meaning of the requests (\<open>source_contract\<close>, which spells out
  their texts), following the continuation tokens from the first page ends, after at most one page more
  than there are rows; the pages together hold the records of the dated rows in order, then those of the
  undated ones, none twice and none missing; no page exceeds the limit, and the last one says that the
  list is complete. (A query by address or with a date filter is outside this property.)
\<close>

theorem paging_complete:
  assumes "reliable env answer" and "building_start env q w" and "source_rows q dated undated"
    and "source_contract env q w earlier smaller dated undated answer"
  shows "\<exists>pages. follow env q (length (dated @ undated) + 1) q st = Some pages \<and>
    listed pages = map record_of (dated @ undated) \<and>
    list_all (\<lambda>p. int (length (pr_records p)) \<le> pq_limit q) pages \<and> pr_is_complete (last pages)"
proof -
  have "pages_answered env q w earlier smaller dated undated answer"
    by (rule contract_pages [OF assms(3,4)]) (use start_limit [OF assms(2)] in simp)
  from follow_from [OF assms(1-3) this, of 0 "length (dated @ undated) + 1" st] show ?thesis
    by (simp add: next_query_def del: follow.simps)
qed

subsection \<open>A source that keeps the contract\<close>

definition id_less :: "string \<Rightarrow> string \<Rightarrow> bool" where
  "id_less x y \<longleftrightarrow> value_base 10 x < value_base 10 y"

lemma id_less_strict: "strict_order ((<) :: string \<Rightarrow> string \<Rightarrow> bool)" "strict_order id_less"
  by (auto simp: strict_order_def id_less_def)

definition sample_row :: "string \<Rightarrow> json \<Rightarrow> json" where
  "sample_row i d = JObj [(''violationid'', JStr i), (''buildingid'', JStr ''12345''), (''inspectiondate'', d)]"

definition sample_dated :: "json list" where
  "sample_dated = [sample_row ''9'' (JStr ''2025-02-01''), sample_row ''10'' (JStr ''2025-02-01'')]"

definition sample_undated :: "json list" where
  "sample_undated = [sample_row ''7'' JNull]"

definition page_query :: property_query where
  "page_query = building_query\<lparr>pq_limit := 1\<rparr>"

definition sample_manifest :: hpd_manifest where
  "sample_manifest =
     \<lparr>mf_endpoint = ''https://data.cityofnewyork.us/resource/wvxf-dwi5.json'', mf_fields = [''violationid'', ''buildingid''],
      mf_dataset_id = ''wvxf-dwi5'', mf_dataset_url = ''u'', mf_connector_version = ''hpd-soda21-v3''\<rparr>"

text \<open>The source looks the request up in the list of requests that it knows, by their texts.\<close>

definition sample_columns :: string where
  "sample_columns = ''violationid,buildingid''"

definition sample_where :: string where
  "sample_where = ''buildingid = '' @ [CHR 0x27] @ ''12345'' @ [CHR 0x27]"

definition after_9 :: string where
  "after_9 = (let q = [CHR 0x27] in ''('' @ sample_where @ '') AND buildingid = '' @ q @ ''12345'' @ q @ '' AND (inspectiondate < '' @ q @
     ''2025-02-01'' @ q @ '' OR (inspectiondate = '' @ q @ ''2025-02-01'' @ q @ '' AND violationid > '' @ q @ ''9'' @ q @ ''))'')"

definition after_10 :: string where
  "after_10 = (let q = [CHR 0x27] in ''('' @ sample_where @ '') AND buildingid = '' @ q @ ''12345'' @ q @ '' AND (inspectiondate < '' @ q @
     ''2025-02-01'' @ q @ '' OR (inspectiondate = '' @ q @ ''2025-02-01'' @ q @ '' AND violationid > '' @ q @ ''10'' @ q @ ''))'')"

definition after_7 :: string where
  "after_7 = (let q = [CHR 0x27] in ''(('' @ sample_where @ '') AND buildingid = '' @ q @ ''12345'' @ q @ '' AND violationid > '' @ q @
     ''7'' @ q @ '')'')"

definition of_building :: string where
  "of_building = (let q = [CHR 0x27] in ''('' @ sample_where @ '') AND buildingid = '' @ q @ ''12345'' @ q)"

definition sample_answers :: "(params \<times> json list) list" where
  "sample_answers =
     [(dated_request sample_columns sample_where 2, sample_dated),
      (dated_request sample_columns after_9 2, [sample_row ''10'' (JStr ''2025-02-01'')]),
      (dated_request sample_columns after_10 2, []),
      (undated_request sample_columns after_7 2, []),
      (undated_request sample_columns of_building 1, sample_undated),
      (undated_request sample_columns of_building 2, sample_undated)]"

definition sample_plain_env :: connector_env where
  "sample_plain_env =
     \<lparr>ne_network = \<lparr>np_offline = False, np_allow_loopback_services = False, np_allowed_loopback_urls = []\<rparr>,
      ne_manifest = sample_manifest, ne_app_token = None,
      ne_world = \<lambda>_. \<lparr>aw_reading = \<lparr>rt_cancelled = False, rt_left = None\<rparr>, aw_left = None, aw_slot = False, aw_outcome = \<lambda>_. None\<rparr>,
      ne_started = 0, ne_completed = 1\<rparr>"

definition sample_answer :: "params \<Rightarrow> json list" where
  "sample_answer ps = (case map_of sample_answers ps of Some rows \<Rightarrow> rows | None \<Rightarrow> [])"

definition sample_env :: connector_env where
  "sample_env = sample_plain_env\<lparr>ne_world := \<lambda>_. \<lparr>aw_reading = \<lparr>rt_cancelled = False, rt_left = None\<rparr>, aw_left = None, aw_slot = True,
     aw_outcome = \<lambda>rq. Some \<lparr>sr_status = 200, sr_retry_after = None, sr_last_modified = None,
       sr_body = Some (JList (sample_answer (gq_params rq)))\<rparr>\<rparr>\<rparr>"

theorem paging_complete_witness:
  "\<exists>pages. follow sample_env page_query 4 page_query \<lparr>cn_attempts = 0, cn_sent = []\<rparr> = Some pages \<and>
     map (\<lambda>r. attribute r ''violation_id'') (listed pages) = [JStr ''9'', JStr ''10'', JStr ''7'']"
proof -
  have "reliable sample_env sample_answer" by (simp add: reliable_def sample_env_def raise_if_expired_def)
  moreover have "building_start sample_env page_query sample_where"
  proof -
    have "where_clause page_query = Inr sample_where" by code_simp
    then show ?thesis
      unfolding building_start_def by (simp add: sample_env_def) code_simp
  qed
  moreover have "source_rows page_query sample_dated sample_undated" by code_simp
  moreover have "source_contract sample_env page_query sample_where (<) id_less sample_dated sample_undated sample_answer"
  proof -
    have "source_answers sample_columns sample_where ''12345'' 1 (<) id_less sample_dated sample_undated sample_answer"
      by code_simp
    moreover have "sorted_wrt (comes_after (<) id_less) sample_dated" "sorted_wrt (\<lambda>r s. id_less (row_id r) (row_id s)) sample_undated"
      by code_simp+
    moreover have "join '','' (mf_fields (ne_manifest sample_env)) = sample_columns" "the (pq_building_id page_query) = ''12345''"
      "nat (pq_limit page_query) = 1" by code_simp+
    ultimately show ?thesis by (simp add: source_contract_def id_less_strict)
  qed
  ultimately obtain pages where "follow sample_env page_query (length (sample_dated @ sample_undated) + 1) page_query
      \<lparr>cn_attempts = 0, cn_sent = []\<rparr> = Some pages" "listed pages = map record_of (sample_dated @ sample_undated)"
    using paging_complete by blast
  moreover have "length (sample_dated @ sample_undated) + 1 = 4"
    "map (\<lambda>r. attribute r ''violation_id'') (map record_of (sample_dated @ sample_undated)) = [JStr ''9'', JStr ''10'', JStr ''7'']"
    by code_simp+
  ultimately show ?thesis by (intro exI [of _ pages]) (simp del: follow.simps)
qed

section \<open>Bounds on the requests\<close>

definition proper_request :: "connector_env \<Rightarrow> get_request \<Rightarrow> bool" where
  "proper_request env rq \<longleftrightarrow>
     gq_endpoint rq = mf_endpoint (ne_manifest env) \<and> 1 / 10 \<le> gq_timeout rq \<and> gq_timeout rq \<le> 15"

definition sends :: "connector_env \<Rightarrow> nat \<Rightarrow> 'a conn \<Rightarrow> bool" where
  "sends env n m \<longleftrightarrow>
     (\<forall>st. \<exists>new. cn_sent (snd (m st)) = cn_sent st @ new \<and> length new \<le> n \<and> list_all (proper_request env) new)"

lemma sends_lift: "sends env n (lift_conn r)"
  by (auto simp: sends_def lift_conn_def)

lemma sends_mono: "sends env a m \<Longrightarrow> a \<le> b \<Longrightarrow> sends env b m"
  unfolding sends_def by (meson le_trans)

lemma sends_bind:
  assumes "sends env a m" and "\<And>x. sends env b (f x)"
  shows "sends env (a + b) (bind_conn m f)"
  unfolding sends_def
proof
  fix st
  obtain new where new: "cn_sent (snd (m st)) = cn_sent st @ new" "length new \<le> a" "list_all (proper_request env) new"
    using assms(1) unfolding sends_def by blast
  show "\<exists>new. cn_sent (snd (bind_conn m f st)) = cn_sent st @ new \<and> length new \<le> a + b \<and> list_all (proper_request env) new"
  proof (cases "m st")
    case (Pair r st')
    show ?thesis
    proof (cases r)
      case (Inl e)
      with Pair new show ?thesis by (intro exI [of _ new]) (simp add: bind_conn_def)
    next
      case (Inr x)
      obtain new' where "cn_sent (snd (f x st')) = cn_sent st' @ new'" "length new' \<le> b" "list_all (proper_request env) new'"
        using assms(2) unfolding sends_def by blast
      with Pair Inr new show ?thesis by (intro exI [of _ "new @ new'"]) (simp add: bind_conn_def)
    qed
  qed
qed

lemma sends_lift_bind: "(\<And>x. sends env b (f x)) \<Longrightarrow> sends env b (bind_conn (lift_conn r) f)"
  by (metis add_0 sends_bind sends_lift)

lemma attempt_timeout_bounds: "max (1 / 10) (attempt_timeout a) \<le> 15"
  by (auto simp: attempt_timeout_def split: option.split)

lemma sends_attempts: "sends env k (request_attempts env ps hs k)"
proof (induction k)
  case 0
  show ?case by (simp add: sends_def)
next
  case (Suc k)
  show ?case
    unfolding sends_def
  proof
    fix st :: conn_state
    let ?a = "ne_world env (cn_attempts st)"
    let ?rq = "\<lparr>gq_endpoint = mf_endpoint (ne_manifest env), gq_params = ps, gq_headers = hs, gq_timeout = max (1 / 10) (attempt_timeout ?a)\<rparr>"
    let ?st = "st\<lparr>cn_attempts := cn_attempts st + 1, cn_sent := cn_sent st @ [?rq]\<rparr>"
    let ?P = "\<lambda>st'. \<exists>new. cn_sent st' = cn_sent st @ new \<and> length new \<le> Suc k \<and> list_all (proper_request env) new"
    have rq: "proper_request env ?rq" using attempt_timeout_bounds [of ?a] by (simp add: proper_request_def)
    obtain new where "cn_sent (snd (request_attempts env ps hs k ?st)) = cn_sent ?st @ new" "length new \<le> k" "list_all (proper_request env) new"
      using Suc unfolding sends_def by blast
    then have again: "?P (snd (request_attempts env ps hs k ?st))" using rq by (intro exI [of _ "?rq # new"]) simp
    have once: "?P ?st" using rq by (intro exI [of _ "[?rq]"]) simp
    have none: "?P (st\<lparr>cn_attempts := cn_attempts st + 1\<rparr>)" by (intro exI [of _ "[]"]) simp
    have "snd (request_attempts env ps hs (Suc k) st) \<in>
        {snd (request_attempts env ps hs k ?st), ?st, st\<lparr>cn_attempts := cn_attempts st + 1\<rparr>}"
      by (simp add: Let_def split: sum.split option.split)
    then show "?P (snd (request_attempts env ps hs (Suc k) st))"
      using again once none by (elim insertE emptyE) (simp_all only:)
  qed
qed

lemma sends_request: "sends env 3 (request_source env ps hs)"
  unfolding request_source_def by (rule sends_attempts)

lemma sends_candidates: "sends env 3 (resolve_candidates env q hs)"
proof -
  have "sends env (3 + 0) (bind_conn (request_source env ps hs) (\<lambda>r. bind_conn (lift_conn (row_list r)) (\<lambda>rows.
     if 100 < length rows then lift_conn (Inl e) else lift_conn (collect candidate_of rows))))" for ps e
    by (intro sends_bind [OF sends_request] sends_lift_bind) (auto intro: sends_lift)
  then show ?thesis unfolding resolve_candidates_def by (intro sends_lift_bind) simp
qed

lemma sends_fill: "sends env 3 (fill_undated env q hs base b undated rows)"
proof -
  have "sends env (3 + 0) (bind_conn (request_source env (undated_params env q base x (int (length rows))) hs) (\<lambda>r.
      bind_conn (lift_conn (row_list r)) (\<lambda>more. lift_conn (Inr (rows @ more)))))" for x
    by (intro sends_bind sends_request sends_lift_bind sends_lift)
  then show ?thesis by (auto simp: fill_undated_def intro!: sends_lift sends_lift_bind)
qed

lemma sends_page: "sends env 6 (fetch_page env q hs base w c)"
proof -
  have "sends env (3 + (3 + 0)) (bind_conn (request_source env ps hs) (\<lambda>resp. bind_conn (lift_conn (row_list resp)) (\<lambda>rows.
      bind_conn (fill_undated env q hs base b undated rows) (\<lambda>all_rows.
      bind_conn (lift_conn (collect violation_record (take (nat (pq_limit q)) all_rows))) (\<lambda>records.
      lift_conn (Inr (page_response env q resp all_rows records)))))))" for ps b undated
    by (intro sends_bind [OF sends_request] sends_lift_bind sends_bind [OF sends_fill] sends_lift)
  then show ?thesis unfolding fetch_page_def by (intro sends_lift_bind) (simp add: numeral_eq_Suc)
qed

text \<open>
  C34: A search sends at most nine requests, all to the endpoint of the manifest and each with a timeout
  between a tenth of a second and fifteen seconds; nothing is sent for a query that validation or the
  network policy rejects.
\<close>

theorem search_requests_bounded:
  assumes "connector_search env q st = (r, st')"
  shows "\<exists>new. cn_sent st' = cn_sent st @ new \<and> length new \<le> 9 \<and> list_all (proper_request env) new \<and>
    (new \<noteq> [] \<longrightarrow> validate_query q = Inr () \<and>
       assert_url_allowed (ne_network env) (mf_endpoint (ne_manifest env)) ''HPD property lookup'' = Inr ())"
proof (cases "validate_query q = Inr () \<and>
    assert_url_allowed (ne_network env) (mf_endpoint (ne_manifest env)) ''HPD property lookup'' = Inr ()")
  case True
  have page: "sends env 9 (fetch_page env q (headers env) base w c)" for base w c
    by (rule sends_mono [OF sends_page]) simp
  have resolved: "sends env (3 + 6) (bind_conn (resolve_candidates env q (headers env)) (\<lambda>cs.
          case cs of
            [c] \<Rightarrow>
              bind_conn (lift_conn (literal_of (attribute c ''building_id''))) (\<lambda>b.
              fetch_page env q (headers env) w (''('' @ w @ '') AND buildingid = '' @ b) (Some (attribute c ''building_id'')))
          | _ \<Rightarrow> lift_conn (Inr (unresolved_response env q cs))))" for w
    by (rule sends_bind [OF sends_candidates]) (auto split: list.split intro!: sends_lift sends_lift_bind sends_page)
  have "sends env 9 (connector_search env q)"
    unfolding connector_search_def using resolved page by (intro sends_lift_bind) (auto simp: numeral_eq_Suc)
  then obtain new where "cn_sent (snd (connector_search env q st)) = cn_sent st @ new" "length new \<le> 9" "list_all (proper_request env) new"
    unfolding sends_def by blast
  with True assms show ?thesis by auto
next
  case False
  then have "st' = st"
    using assms by (auto simp: connector_search_def bind_conn_def lift_conn_def split: sum.splits)
  then show ?thesis using False by (intro exI [of _ "[]"]) simp
qed

theorem search_requests_bounded_witness:
  "length (cn_sent (snd (connector_search sample_env page_query \<lparr>cn_attempts = 0, cn_sent = []\<rparr>))) \<le> 9"
proof -
  obtain r st' where "connector_search sample_env page_query \<lparr>cn_attempts = 0, cn_sent = []\<rparr> = (r, st')" by (metis prod.exhaust)
  with search_requests_bounded [OF this] show ?thesis by auto
qed

end
