(* ===== verification/Matters.thy ===== *)
theory Matters
  imports Json_Text Calendar
begin

text \<open>
  Matters (\<^verbatim>\<open>MatterService\<close> of \<^verbatim>\<open>app/research/matters.py\<close>): folders of saved research results with notes.
  A saved item is a JSON payload that is never edited; it is linked to matters, a matter and its notes
  carry revision numbers against lost updates, a receipt per idempotency key makes a save repeatable, and
  a full-text row per matter holds its searchable text.

  The tables are lists of rows. Foreign keys are enforced as SQLite does with \<^verbatim>\<open>foreign_keys=ON\<close>: links and
  notes are deleted with their matter or item, every other reference to a deleted row is an
  \<^verbatim>\<open>IntegrityError\<close>. The clock and the random identifiers are arguments, and so is the match operator of the
  full-text index. Payloads are values that have a JSON text.
\<close>

section \<open>Tables\<close>

record matter_row =
  ma_id :: string
  ma_title :: string
  ma_description :: string
  ma_tags_json :: string
  ma_archived :: bool
  ma_revision :: int
  ma_created_at :: datetime
  ma_updated_at :: datetime

record saved_item_row =
  si_id :: string
  si_kind :: string
  si_payload_version :: int
  si_payload_json :: string
  si_payload_hash :: string
  si_source_identity :: string
  si_original_operation_id :: "string option"
  si_parent_item_id :: "string option"
  si_created_at :: datetime

record matter_item_row =
  mi_matter_id :: string
  mi_item_id :: string
  mi_display_order :: int
  mi_created_at :: datetime

record matter_note_row =
  mn_id :: string
  mn_matter_id :: "string option"
  mn_item_id :: "string option"
  mn_body :: string
  mn_revision :: int
  mn_created_at :: datetime
  mn_updated_at :: datetime

record save_receipt_row =
  rc_idempotency_key :: string
  rc_source_identity :: string
  rc_item_id :: string
  rc_created_at :: datetime

record comparison_review_row =
  rv_id :: string
  rv_item_id :: string
  rv_comparison_id :: string
  rv_note :: string
  rv_reviewed_at :: datetime

record matter_fts_row =
  ft_matter_id :: string
  ft_item_id :: string
  ft_title :: string
  ft_body :: string
  ft_tags :: string

record research_db =
  matters :: "matter_row list"
  saved_items :: "saved_item_row list"
  matter_items :: "matter_item_row list"
  matter_notes :: "matter_note_row list"
  save_receipts :: "save_receipt_row list"
  comparison_reviews :: "comparison_review_row list"
  matter_fts :: "matter_fts_row list"

record matter_env =
  me_uuid :: string
  me_now :: datetime

section \<open>Text\<close>

definition bounded_text :: "json \<Rightarrow> string \<Rightarrow> int \<Rightarrow> bool \<Rightarrow> string result" where
  "bounded_text v label limit required =
     (case v of
        JStr s \<Rightarrow>
          (let cleaned = strip s in
           if required \<and> cleaned = [] then Inl (MatterError (label @ '' is required.''))
           else if limit < int (length cleaned)
           then Inl (MatterError (label @ '' exceeds '' @ dump_int limit @ '' characters.''))
           else Inr cleaned)
      | _ \<Rightarrow> Inl (MatterError (label @ '' must be text.'')))"

text \<open>
  \<^verbatim>\<open>str.casefold()\<close>, used to compare tags: the only Latin-1 characters that fold to something else than
  their lower case are the sharp s and the micro sign, and nothing else folds to the latter's image.
\<close>

definition casefold :: "string \<Rightarrow> string" where
  "casefold s = concat (map (\<lambda>c. if c = CHR 0xDF then ''ss'' else [lower_char c]) s)"

fun add_tags :: "string list \<Rightarrow> json list \<Rightarrow> string list result" where
  "add_tags acc [] = Inr acc"
| "add_tags acc (v # vs) =
     (case bounded_text v ''tag'' 60 True of
        Inl e \<Rightarrow> Inl e
      | Inr t \<Rightarrow> add_tags (if casefold t \<in> set (map casefold acc) then acc else acc @ [t]) vs)"

definition tags :: "json list \<Rightarrow> string list result" where
  "tags vs =
     (if 25 < length vs then Inl (MatterError ''A matter can have at most 25 tags.'') else add_tags [] vs)"

definition tags_text :: "string list \<Rightarrow> string" where
  "tags_text ts = dumps_unicode (JList (map JStr ts))"

definition read_json :: "string \<Rightarrow> json result" where
  "read_json t = (case loads t of None \<Rightarrow> Inl (ValueError ''Expecting value'') | Some v \<Rightarrow> Inr v)"

text \<open>\<^verbatim>\<open>" ".join(value)\<close> of a decoded value.\<close>

definition join_json :: "string \<Rightarrow> json \<Rightarrow> string result" where
  "join_json sep v =
     bind_result (json_iter v) (\<lambda>vs.
       if list_all (\<lambda>x. case x of JStr _ \<Rightarrow> True | _ \<Rightarrow> False) vs
       then Inr (join sep (map (\<lambda>x. case x of JStr s \<Rightarrow> s | _ \<Rightarrow> []) vs))
       else Inl (TypeError ''sequence item: expected str instance''))"

section \<open>The full-text row of a matter\<close>

definition linked :: "research_db \<Rightarrow> string \<Rightarrow> string \<Rightarrow> bool" where
  "linked db m i \<longleftrightarrow> list_ex (\<lambda>l. mi_matter_id l = m \<and> mi_item_id l = i) (matter_items db)"

definition matter_linked_items :: "research_db \<Rightarrow> string \<Rightarrow> saved_item_row list" where
  "matter_linked_items db m = filter (\<lambda>i. linked db m (si_id i)) (saved_items db)"

definition searchable_notes :: "research_db \<Rightarrow> string \<Rightarrow> matter_note_row list" where
  "searchable_notes db m =
     filter (\<lambda>n. mn_matter_id n = Some m \<or> (case mn_item_id n of None \<Rightarrow> False | Some i \<Rightarrow> linked db m i))
       (matter_notes db)"

definition fts_row_of :: "research_db \<Rightarrow> matter_row \<Rightarrow> matter_fts_row result" where
  "fts_row_of db r =
     bind_result (read_json (ma_tags_json r)) (\<lambda>ts.
     bind_result (join_json '' '' ts) (\<lambda>tag_text.
     Inr \<lparr>ft_matter_id = ma_id r,
          ft_item_id = join '' '' (map si_id (matter_linked_items db (ma_id r))),
          ft_title = ma_title r,
          ft_body = join '' '' (ma_description r # join '' '' (map mn_body (searchable_notes db (ma_id r))) #
                      map si_payload_json (matter_linked_items db (ma_id r))),
          ft_tags = tag_text\<rparr>))"

definition delete_fts :: "string \<Rightarrow> research_db \<Rightarrow> research_db" where
  "delete_fts m db = db\<lparr>matter_fts := delete_where (\<lambda>f. ft_matter_id f = m) (matter_fts db)\<rparr>"

definition find_matter :: "research_db \<Rightarrow> string \<Rightarrow> matter_row option" where
  "find_matter db m = select_first (\<lambda>r. ma_id r = m) (matters db)"

definition find_item :: "research_db \<Rightarrow> string \<Rightarrow> saved_item_row option" where
  "find_item db i = select_first (\<lambda>r. si_id r = i) (saved_items db)"

definition refresh_fts :: "string \<Rightarrow> research_db \<Rightarrow> research_db result" where
  "refresh_fts m db =
     (case find_matter db m of
        None \<Rightarrow> Inr (delete_fts m db)
      | Some r \<Rightarrow>
          bind_result (fts_row_of (delete_fts m db) r) (\<lambda>f.
          Inr (delete_fts m db\<lparr>matter_fts := matter_fts (delete_fts m db) @ [f]\<rparr>)))"

fun refresh_all :: "string list \<Rightarrow> research_db \<Rightarrow> research_db result" where
  "refresh_all [] db = Inr db"
| "refresh_all (m # ms) db = bind_result (refresh_fts m db) (refresh_all ms)"

section \<open>Views\<close>

definition opt_text :: "string option \<Rightarrow> json" where
  "opt_text x = (case x of None \<Rightarrow> JNull | Some s \<Rightarrow> JStr s)"

definition matter_summary :: "research_db \<Rightarrow> matter_row \<Rightarrow> json_object result" where
  "matter_summary db r =
     bind_result (read_json (ma_tags_json r)) (\<lambda>ts.
     Inr [(''id'', JStr (ma_id r)), (''title'', JStr (ma_title r)), (''description'', JStr (ma_description r)),
          (''tags'', ts), (''archived'', JBool (ma_archived r)), (''revision'', JInt (ma_revision r)),
          (''item_count'', JInt (int (rowcount (\<lambda>l. mi_matter_id l = ma_id r) (matter_items db)))),
          (''created_at'', JStr (isoformat_naive (ma_created_at r))),
          (''updated_at'', JStr (isoformat_naive (ma_updated_at r)))])"

definition saved_item_view :: "saved_item_row \<Rightarrow> int option \<Rightarrow> json_object result" where
  "saved_item_view r order =
     bind_result (read_json (si_payload_json r)) (\<lambda>p.
     Inr ([(''id'', JStr (si_id r)), (''kind'', JStr (si_kind r)), (''payload_version'', JInt (si_payload_version r)),
           (''payload'', p), (''payload_hash'', JStr (si_payload_hash r)), (''source_identity'', JStr (si_source_identity r)),
           (''original_operation_id'', opt_text (si_original_operation_id r)),
           (''parent_item_id'', opt_text (si_parent_item_id r)), (''created_at'', JStr (isoformat_naive (si_created_at r)))] @
          (case order of None \<Rightarrow> [] | Some n \<Rightarrow> [(''display_order'', JInt n)])))"

definition note_view :: "matter_note_row \<Rightarrow> json_object" where
  "note_view r =
     [(''id'', JStr (mn_id r)), (''matter_id'', opt_text (mn_matter_id r)), (''item_id'', opt_text (mn_item_id r)),
      (''body'', JStr (mn_body r)), (''revision'', JInt (mn_revision r)),
      (''created_at'', JStr (isoformat_naive (mn_created_at r))), (''updated_at'', JStr (isoformat_naive (mn_updated_at r)))]"

fun sequence_results :: "'a result list \<Rightarrow> 'a list result" where
  "sequence_results [] = Inr []"
| "sequence_results (r # rs) = bind_result r (\<lambda>x. bind_result (sequence_results rs) (\<lambda>xs. Inr (x # xs)))"

definition get_item :: "string \<Rightarrow> research_db \<Rightarrow> json_object result" where
  "get_item i db =
     (case find_item db i of
        None \<Rightarrow> Inl (MatterError ''Saved item not found.'')
      | Some r \<Rightarrow> saved_item_view r None)"

text \<open>The items of a matter with their links, in the order in which they are shown.\<close>

definition ordered_items :: "research_db \<Rightarrow> string \<Rightarrow> (saved_item_row \<times> matter_item_row) list" where
  "ordered_items db m =
     sort_key (\<lambda>x. (mi_display_order (snd x), mi_created_at (snd x)))
       (concat (map (\<lambda>i. map (Pair i) (filter (\<lambda>l. mi_item_id l = si_id i \<and> mi_matter_id l = m) (matter_items db)))
         (saved_items db)))"

definition get_matter :: "string \<Rightarrow> research_db \<Rightarrow> json_object result" where
  "get_matter m db =
     (case find_matter db m of
        None \<Rightarrow> Inl (MatterError ''Matter not found.'')
      | Some r \<Rightarrow>
          bind_result (matter_summary db r) (\<lambda>summary.
          bind_result (sequence_results (map (\<lambda>x. saved_item_view (fst x) (Some (mi_display_order (snd x)))) (ordered_items db m))) (\<lambda>items.
          Inr (summary @
               [(''items'', JList (map JObj items)),
                (''notes'', JList (map (JObj \<circ> note_view)
                   (sort_key mn_created_at (filter (\<lambda>n. mn_matter_id n = Some m) (matter_notes db)))))]))))"

text \<open>\<open>fts_match\<close> is the \<^verbatim>\<open>MATCH\<close> operator: the matters of the matching rows, \<open>None\<close> for a query it rejects.\<close>

definition list_matters ::
  "(string \<Rightarrow> matter_fts_row list \<Rightarrow> string list option) \<Rightarrow> string option \<Rightarrow> bool \<Rightarrow> int \<Rightarrow> research_db \<Rightarrow> json_object list result" where
  "list_matters fts_match query include_archived limit db =
     (if limit < 1 \<or> 250 < limit then Inl (MatterError ''Matter limit must be between 1 and 250.'')
      else (let visible = filter (\<lambda>r. include_archived \<or> \<not> ma_archived r) (matters db);
                listing = (\<lambda>rows. sequence_results (map (matter_summary db)
                             (take (nat limit) (sort_key (\<lambda>r. - ma_updated_at r) rows))))
            in if given query \<and> strip (the query) \<noteq> []
               then (case fts_match (strip (the query)) (matter_fts db) of
                       None \<Rightarrow> Inl (MatterError ''Matter search query is invalid.'')
                     | Some ids \<Rightarrow> if ids = [] then Inr [] else listing (filter (\<lambda>r. ma_id r \<in> set ids) visible))
               else listing visible))"

section \<open>Operations on matters\<close>

text \<open>A transaction followed by a read of the database it left.\<close>

definition then_read :: "('a \<Rightarrow> research_db \<Rightarrow> 'b result) \<Rightarrow> 'a result \<times> research_db \<Rightarrow> 'b result \<times> research_db" where
  "then_read f x = (case x of (Inl e, db) \<Rightarrow> (Inl e, db) | (Inr v, db) \<Rightarrow> (f v db, db))"

definition create_matter_body :: "matter_env \<Rightarrow> string \<Rightarrow> string \<Rightarrow> string list \<Rightarrow> (research_db, unit) tx" where
  "create_matter_body env title description ts db =
     (if me_uuid env \<in> set (map ma_id (matters db))
      then Inl (IntegrityError ''UNIQUE constraint failed: matters.id'')
      else bind_result (refresh_fts (me_uuid env)
             (db\<lparr>matters := matters db @
                [\<lparr>ma_id = me_uuid env, ma_title = title, ma_description = description, ma_tags_json = tags_text ts,
                  ma_archived = False, ma_revision = 1, ma_created_at = me_now env, ma_updated_at = me_now env\<rparr>]\<rparr>)) (\<lambda>db'.
           Inr ((), db')))"

definition create_matter :: "matter_env \<Rightarrow> json \<Rightarrow> json \<Rightarrow> json list \<Rightarrow> research_db \<Rightarrow> json_object result \<times> research_db" where
  "create_matter env title description ts db =
     (case bind_result (bounded_text title ''title'' 255 True) (\<lambda>t.
           bind_result (bounded_text description ''description'' 20000 False) (\<lambda>d.
           bind_result (tags ts) (\<lambda>g. Inr (t, d, g)))) of
        Inl e \<Rightarrow> (Inl e, db)
      | Inr (t, d, g) \<Rightarrow>
          then_read (\<lambda>_. get_matter (me_uuid env)) (transaction (create_matter_body env t d g) db))"

text \<open>What an update changes: a field that is not mentioned stays as it is.\<close>

record matter_changes =
  ch_title :: "string option"
  ch_description :: "string option"
  ch_tags_json :: "string option"
  ch_archived :: "bool option"

definition optional_field :: "json_object \<Rightarrow> string \<Rightarrow> (json \<Rightarrow> 'a result) \<Rightarrow> 'a option result" where
  "optional_field fs k f = (case map_of fs k of None \<Rightarrow> Inr None | Some v \<Rightarrow> bind_result (f v) (\<lambda>x. Inr (Some x)))"

definition changed_tags :: "json \<Rightarrow> string result" where
  "changed_tags v =
     (case v of
        JList vs \<Rightarrow> bind_result (tags vs) (\<lambda>ts. Inr (tags_text ts))
      | _ \<Rightarrow> Inl (MatterError ''tags must be a list of strings.''))"

definition changed_archived :: "json \<Rightarrow> bool result" where
  "changed_archived v =
     (case v of JBool b \<Rightarrow> Inr b | _ \<Rightarrow> Inl (MatterError ''archived must be true or false.''))"

definition matter_values :: "json_object \<Rightarrow> matter_changes result" where
  "matter_values changes =
     (if changes = [] \<or> \<not> set (map fst changes) \<subseteq> {''title'', ''description'', ''tags'', ''archived''}
      then Inl (MatterError ''Matter update contains unsupported fields.'')
      else bind_result (optional_field changes ''title'' (\<lambda>v. bounded_text v ''title'' 255 True)) (\<lambda>t.
           bind_result (optional_field changes ''description'' (\<lambda>v. bounded_text v ''description'' 20000 False)) (\<lambda>d.
           bind_result (optional_field changes ''tags'' changed_tags) (\<lambda>g.
           bind_result (optional_field changes ''archived'' changed_archived) (\<lambda>a.
           Inr \<lparr>ch_title = t, ch_description = d, ch_tags_json = g, ch_archived = a\<rparr>)))))"

definition apply_changes :: "matter_changes \<Rightarrow> int \<Rightarrow> datetime \<Rightarrow> matter_row \<Rightarrow> matter_row" where
  "apply_changes c revision now r =
     r\<lparr>ma_title := (case ch_title c of None \<Rightarrow> ma_title r | Some t \<Rightarrow> t),
       ma_description := (case ch_description c of None \<Rightarrow> ma_description r | Some d \<Rightarrow> d),
       ma_tags_json := (case ch_tags_json c of None \<Rightarrow> ma_tags_json r | Some g \<Rightarrow> g),
       ma_archived := (case ch_archived c of None \<Rightarrow> ma_archived r | Some a \<Rightarrow> a),
       ma_revision := revision, ma_updated_at := now\<rparr>"

definition update_matter_body :: "matter_env \<Rightarrow> string \<Rightarrow> matter_changes \<Rightarrow> int \<Rightarrow> (research_db, unit) tx" where
  "update_matter_body env m c expected db =
     (let p = (\<lambda>r. ma_id r = m \<and> ma_revision r = expected) in
      if rowcount p (matters db) \<noteq> 1
      then (if find_matter db m = None then Inl (MatterError ''Matter not found.'')
            else Inl (MatterConflict ''Matter changed since it was loaded; refresh and retry.''))
      else bind_result (refresh_fts m (db\<lparr>matters := update_where p (apply_changes c (expected + 1) (me_now env)) (matters db)\<rparr>)) (\<lambda>db'.
           Inr ((), db')))"

definition update_matter :: "matter_env \<Rightarrow> string \<Rightarrow> json_object \<Rightarrow> int \<Rightarrow> research_db \<Rightarrow> json_object result \<times> research_db" where
  "update_matter env m changes expected db =
     (case matter_values changes of
        Inl e \<Rightarrow> (Inl e, db)
      | Inr c \<Rightarrow> then_read (\<lambda>_. get_matter m) (transaction (update_matter_body env m c expected) db))"

text \<open>\<^verbatim>\<open>DELETE FROM matters\<close> with its cascades.\<close>

definition delete_matter_row :: "string \<Rightarrow> research_db \<Rightarrow> research_db" where
  "delete_matter_row m db =
     db\<lparr>matters := delete_where (\<lambda>r. ma_id r = m) (matters db),
        matter_items := delete_where (\<lambda>l. mi_matter_id l = m) (matter_items db),
        matter_notes := delete_where (\<lambda>n. mn_matter_id n = Some m) (matter_notes db)\<rparr>"

definition delete_preview :: "research_db \<Rightarrow> matter_row \<Rightarrow> bool \<Rightarrow> json_object" where
  "delete_preview db r applied =
     (let n = JInt (int (rowcount (\<lambda>l. mi_matter_id l = ma_id r) (matter_items db))) in
      [(''matter_id'', JStr (ma_id r)), (''title'', JStr (ma_title r)), (''linked_item_count'', n),
       (''saved_items_deleted'', JInt 0), (''saved_items_retained'', n), (''apply_required'', JBool (\<not> applied))] @
      (if applied then [(''status'', JStr ''deleted'')] else []))"

definition delete_matter_body :: "string \<Rightarrow> bool \<Rightarrow> (research_db, json_object) tx" where
  "delete_matter_body m apply_it db =
     (case find_matter db m of
        None \<Rightarrow> Inl (MatterError ''Matter not found.'')
      | Some r \<Rightarrow>
          if apply_it then Inr (delete_preview db r True, delete_matter_row m (delete_fts m db))
          else Inr (delete_preview db r False, db))"

definition delete_matter :: "string \<Rightarrow> bool \<Rightarrow> research_db \<Rightarrow> json_object result \<times> research_db" where
  "delete_matter m apply_it = transaction (delete_matter_body m apply_it)"

section \<open>Operations on saved items\<close>

definition next_display_order :: "research_db \<Rightarrow> string \<Rightarrow> int" where
  "next_display_order db m =
     (case map mi_display_order (filter (\<lambda>l. mi_matter_id l = m) (matter_items db)) of
        [] \<Rightarrow> 1 | n # ns \<Rightarrow> fold max ns n + 1)"

definition link_row :: "string \<Rightarrow> string \<Rightarrow> datetime \<Rightarrow> research_db \<Rightarrow> research_db" where
  "link_row m i now db =
     (if linked db m i then db
      else db\<lparr>matter_items := matter_items db @
        [\<lparr>mi_matter_id = m, mi_item_id = i, mi_display_order = next_display_order db m, mi_created_at = now\<rparr>]\<rparr>)"

definition link_and_view :: "string \<Rightarrow> string \<Rightarrow> datetime \<Rightarrow> (research_db, json_object) tx" where
  "link_and_view m i now db =
     bind_result (refresh_fts m (link_row m i now db)) (\<lambda>db'.
     bind_result (get_item i db') (\<lambda>v. Inr (v, db')))"

definition new_item :: "matter_env \<Rightarrow> string \<Rightarrow> string \<Rightarrow> string \<Rightarrow> string option \<Rightarrow> saved_item_row" where
  "new_item env kind content source operation =
     \<lparr>si_id = me_uuid env, si_kind = kind, si_payload_version = 1, si_payload_json = content,
      si_payload_hash = sha_hex content, si_source_identity = source, si_original_operation_id = operation,
      si_parent_item_id = None, si_created_at = me_now env\<rparr>"

definition insert_receipt :: "save_receipt_row \<Rightarrow> research_db \<Rightarrow> research_db result" where
  "insert_receipt r db =
     (if rc_idempotency_key r \<in> set (map rc_idempotency_key (save_receipts db))
      then Inl (MatterConflict ''Concurrent save conflict; retry safely.'')
      else Inr (db\<lparr>save_receipts := save_receipts db @ [r]\<rparr>))"

definition save_new :: "matter_env \<Rightarrow> string \<Rightarrow> saved_item_row \<Rightarrow> string \<Rightarrow> (research_db, json_object) tx" where
  "save_new env m item key db =
     (if si_id item \<in> set (map si_id (saved_items db))
      then Inl (IntegrityError ''UNIQUE constraint failed: saved_items.id'')
      else bind_result (insert_receipt
             \<lparr>rc_idempotency_key = key, rc_source_identity = si_source_identity item, rc_item_id = si_id item, rc_created_at = me_now env\<rparr>
             (link_row m (si_id item) (me_now env) (db\<lparr>saved_items := saved_items db @ [item]\<rparr>))) (\<lambda>db1.
           bind_result (refresh_fts m db1) (\<lambda>db2.
           bind_result (get_item (si_id item) db2) (\<lambda>v. Inr (v, db2)))))"

definition save_body ::
  "matter_env \<Rightarrow> string \<Rightarrow> string \<Rightarrow> string \<Rightarrow> string \<Rightarrow> string \<Rightarrow> string option \<Rightarrow> (research_db, json_object) tx" where
  "save_body env m kind content source key operation db =
     (if find_matter db m = None then Inl (MatterError ''Matter not found.'')
      else (case select_first (\<lambda>r. rc_idempotency_key r = key) (save_receipts db) of
              Some r \<Rightarrow>
                if rc_source_identity r \<noteq> source
                then Inl (MatterConflict ''Idempotency key was already used for another result.'')
                else link_and_view m (rc_item_id r) (me_now env) db
            | None \<Rightarrow> save_new env m (new_item env kind content source operation) key db))"

definition ITEM_KINDS :: "string list" where
  "ITEM_KINDS = [''answer'', ''search'', ''property_dossier'', ''comparison'']"

definition save_payload ::
  "matter_env \<Rightarrow> string \<Rightarrow> string \<Rightarrow> json_object \<Rightarrow> json \<Rightarrow> json \<Rightarrow> string option \<Rightarrow> research_db \<Rightarrow> json_object result \<times> research_db" where
  "save_payload env m kind payload source key operation db =
     (if kind \<notin> set ITEM_KINDS then (Inl (MatterError ''Unsupported saved-item kind.''), db)
      else (case bounded_text source ''source identity'' 255 True of
              Inl e \<Rightarrow> (Inl e, db)
            | Inr s \<Rightarrow>
                (case bounded_text key ''idempotency key'' 160 True of
                   Inl e \<Rightarrow> (Inl e, db)
                 | Inr k \<Rightarrow> transaction (save_body env m kind (dumps_unicode (JObj payload)) s k operation) db)))"

definition link_body :: "matter_env \<Rightarrow> string \<Rightarrow> string \<Rightarrow> (research_db, json_object) tx" where
  "link_body env m i db =
     (if find_matter db m = None then Inl (MatterError ''Matter not found.'')
      else if find_item db i = None then Inl (MatterError ''Saved item not found.'')
      else link_and_view m i (me_now env) db)"

definition link_item :: "matter_env \<Rightarrow> string \<Rightarrow> string \<Rightarrow> research_db \<Rightarrow> json_object result \<times> research_db" where
  "link_item env m i = transaction (link_body env m i)"

text \<open>\<^verbatim>\<open>DELETE FROM saved_items\<close>: links and notes go with the item, any other reference to it is an error.\<close>

definition item_referenced :: "string \<Rightarrow> research_db \<Rightarrow> bool" where
  "item_referenced i db \<longleftrightarrow>
     list_ex (\<lambda>r. rc_item_id r = i) (save_receipts db) \<or> list_ex (\<lambda>r. rv_item_id r = i) (comparison_reviews db) \<or>
     list_ex (\<lambda>r. si_parent_item_id r = Some i \<and> si_id r \<noteq> i) (saved_items db)"

definition delete_item_row :: "string \<Rightarrow> research_db \<Rightarrow> research_db result" where
  "delete_item_row i db =
     (if find_item db i \<noteq> None \<and> item_referenced i db then Inl (IntegrityError ''FOREIGN KEY constraint failed'')
      else Inr (db\<lparr>saved_items := delete_where (\<lambda>r. si_id r = i) (saved_items db),
                   matter_items := delete_where (\<lambda>l. mi_item_id l = i) (matter_items db),
                   matter_notes := delete_where (\<lambda>n. mn_item_id n = Some i) (matter_notes db)\<rparr>))"

definition retire_references :: "string \<Rightarrow> research_db \<Rightarrow> research_db" where
  "retire_references i db =
     db\<lparr>save_receipts := delete_where (\<lambda>r. rc_item_id r = i) (save_receipts db),
        comparison_reviews := delete_where (\<lambda>r. rv_item_id r = i) (comparison_reviews db),
        saved_items := update_where (\<lambda>r. si_parent_item_id r = Some i) (\<lambda>r. r\<lparr>si_parent_item_id := None\<rparr>) (saved_items db)\<rparr>"

definition item_matters :: "research_db \<Rightarrow> string \<Rightarrow> string list" where
  "item_matters db i = map mi_matter_id (filter (\<lambda>l. mi_item_id l = i) (matter_items db))"

definition delete_item_preview :: "string \<Rightarrow> string option \<Rightarrow> string list \<Rightarrow> string list \<Rightarrow> bool \<Rightarrow> json_object" where
  "delete_item_preview i m affected remaining applied =
     [(''item_id'', JStr i), (''operation'', JStr (if given m then ''unlink'' else ''delete'')),
      (''affected_matter_ids'', JList (map JStr affected)), (''remaining_matter_ids'', JList (map JStr remaining)),
      (''saved_item_will_be_deleted'', JBool (\<not> given m \<or> remaining = [])), (''apply_required'', JBool (\<not> applied))] @
     (if applied then [(''status'', JStr (if remaining = [] then ''deleted'' else ''unlinked''))] else [])"

definition unlink_row :: "string \<Rightarrow> string \<Rightarrow> research_db \<Rightarrow> research_db" where
  "unlink_row m i db =
     db\<lparr>matter_items := delete_where (\<lambda>l. mi_item_id l = i \<and> mi_matter_id l = m) (matter_items db)\<rparr>"

definition remove_item :: "string \<Rightarrow> string option \<Rightarrow> string list \<Rightarrow> research_db \<Rightarrow> research_db result" where
  "remove_item i m remaining db =
     (let db1 = (if \<not> given m \<or> remaining = [] then retire_references i db else db) in
      if given m
      then (let db2 = unlink_row (the m) i db1 in if remaining = [] then delete_item_row i db2 else Inr db2)
      else delete_item_row i db1)"

definition delete_item_body :: "string \<Rightarrow> string option \<Rightarrow> bool \<Rightarrow> (research_db, json_object) tx" where
  "delete_item_body i m apply_it db =
     (let links = item_matters db i;
          affected = (if given m then [the m] else links);
          remaining = filter (\<lambda>x. x \<notin> set affected) links
      in if links = [] \<and> find_item db i = None then Inl (MatterError ''Saved item not found.'')
         else if m \<noteq> None \<and> the m \<notin> set links then Inl (MatterError ''Saved item is not linked to that matter.'')
         else if \<not> apply_it then Inr (delete_item_preview i m affected remaining False, db)
         else bind_result (remove_item i m remaining db) (\<lambda>db1.
              bind_result (refresh_all affected db1) (\<lambda>db2.
              Inr (delete_item_preview i m affected remaining True, db2))))"

definition delete_item :: "string \<Rightarrow> string option \<Rightarrow> bool \<Rightarrow> research_db \<Rightarrow> json_object result \<times> research_db" where
  "delete_item i m apply_it = transaction (delete_item_body i m apply_it)"

section \<open>Notes\<close>

definition note_owner :: "string option \<Rightarrow> string option \<Rightarrow> matter_note_row \<Rightarrow> bool" where
  "note_owner m i n \<longleftrightarrow> (if given m then mn_matter_id n = m else mn_item_id n = i)"

definition edit_note :: "matter_env \<Rightarrow> string \<Rightarrow> string option \<Rightarrow> string option \<Rightarrow> string \<Rightarrow> int option \<Rightarrow> research_db \<Rightarrow> research_db result" where
  "edit_note env nid m i body expected db =
     (case expected of
        None \<Rightarrow> Inl (MatterError ''expected_revision is required for note edits.'')
      | Some revision \<Rightarrow>
          (let p = (\<lambda>n. mn_id n = nid \<and> mn_revision n = revision \<and> note_owner m i n) in
           if rowcount p (matter_notes db) \<noteq> 1
           then Inl (MatterConflict ''Note changed since it was loaded; refresh and retry.'')
           else Inr (db\<lparr>matter_notes := update_where p
                  (\<lambda>n. n\<lparr>mn_body := body, mn_revision := revision + 1, mn_updated_at := me_now env\<rparr>) (matter_notes db)\<rparr>)))"

definition insert_note :: "matter_env \<Rightarrow> string option \<Rightarrow> string option \<Rightarrow> string \<Rightarrow> research_db \<Rightarrow> research_db result" where
  "insert_note env m i body db =
     (if me_uuid env \<in> set (map mn_id (matter_notes db))
      then Inl (IntegrityError ''UNIQUE constraint failed: matter_notes.id'')
      else if (m \<noteq> None \<and> find_matter db (the m) = None) \<or> (i \<noteq> None \<and> find_item db (the i) = None)
      then Inl (IntegrityError ''FOREIGN KEY constraint failed'')
      else Inr (db\<lparr>matter_notes := matter_notes db @
             [\<lparr>mn_id = me_uuid env, mn_matter_id = m, mn_item_id = i, mn_body = body, mn_revision = 1,
               mn_created_at = me_now env, mn_updated_at = me_now env\<rparr>]\<rparr>))"

text \<open>The matter whose full-text row is refreshed: for a note on an item, the first one the item is linked to.\<close>

definition note_affects :: "research_db \<Rightarrow> string option \<Rightarrow> string option \<Rightarrow> string option" where
  "note_affects db m i =
     (if given m then m
      else if given i then map_option mi_matter_id (select_first (\<lambda>l. mi_item_id l = the i) (matter_items db))
      else m)"

definition read_note :: "string \<Rightarrow> (research_db, json_object) tx" where
  "read_note nid db =
     (case select_first (\<lambda>n. mn_id n = nid) (matter_notes db) of
        None \<Rightarrow> Inl (RuntimeError ''No row was found when one was required'')
      | Some n \<Rightarrow> Inr (note_view n, db))"

definition put_note_body ::
  "matter_env \<Rightarrow> string \<Rightarrow> string option \<Rightarrow> string option \<Rightarrow> string option \<Rightarrow> int option \<Rightarrow> (research_db, json_object) tx" where
  "put_note_body env body m i nid expected db =
     (if given m \<and> find_matter db (the m) = None then Inl (MatterError ''Matter not found.'')
      else if given i \<and> find_item db (the i) = None then Inl (MatterError ''Saved item not found.'')
      else bind_result (if given nid then edit_note env (the nid) m i body expected db else insert_note env m i body db) (\<lambda>db1.
           bind_result (if given (note_affects db1 m i) then refresh_fts (the (note_affects db1 m i)) db1 else Inr db1) (\<lambda>db2.
           read_note (if given nid then the nid else me_uuid env) db2)))"

definition put_note ::
  "matter_env \<Rightarrow> json \<Rightarrow> string option \<Rightarrow> string option \<Rightarrow> string option \<Rightarrow> int option \<Rightarrow> research_db \<Rightarrow> json_object result \<times> research_db" where
  "put_note env body m i nid expected db =
     (if given m = given i then (Inl (MatterError ''A note must belong to exactly one matter or item.''), db)
      else (case bounded_text body ''note'' 50000 False of
              Inl e \<Rightarrow> (Inl e, db)
            | Inr b \<Rightarrow> transaction (put_note_body env b m i nid expected) db))"

end
