(* ===== verification/Matters_Props.thy ===== *)
theory Matters_Props
  imports Matters
begin

text \<open>
  Facts about the matter service: well-formed databases, what each statement does to them and to the
  full-text rows, the invariant of reachable states, and what runs keep of saved items and receipts.
\<close>

section \<open>Well-formed databases\<close>

definition item_ids :: "research_db \<Rightarrow> string set" where
  "item_ids db = si_id ` set (saved_items db)"

definition matter_ids :: "research_db \<Rightarrow> string set" where
  "matter_ids db = ma_id ` set (matters db)"

definition keys_ok :: "research_db \<Rightarrow> bool" where
  "keys_ok db \<longleftrightarrow>
     distinct (map ma_id (matters db)) \<and> distinct (map si_id (saved_items db)) \<and> distinct (map mn_id (matter_notes db)) \<and>
     distinct (map (\<lambda>l. (mi_matter_id l, mi_item_id l)) (matter_items db)) \<and>
     distinct (map rc_idempotency_key (save_receipts db)) \<and> [] \<notin> matter_ids db \<and> [] \<notin> item_ids db"

definition links_ok :: "research_db \<Rightarrow> bool" where
  "links_ok db \<longleftrightarrow> (\<forall>l\<in>set (matter_items db). mi_matter_id l \<in> matter_ids db \<and> mi_item_id l \<in> item_ids db)"

text \<open>A note belongs to one matter or to one item.\<close>

definition owned :: "research_db \<Rightarrow> matter_note_row \<Rightarrow> bool" where
  "owned db n \<longleftrightarrow>
     (mn_item_id n = None \<and> mn_matter_id n \<in> Some ` matter_ids db) \<or>
     (mn_matter_id n = None \<and> mn_item_id n \<in> Some ` item_ids db)"

definition notes_ok :: "research_db \<Rightarrow> bool" where
  "notes_ok db \<longleftrightarrow> (\<forall>n\<in>set (matter_notes db). owned db n)"

definition receipt_ok :: "research_db \<Rightarrow> save_receipt_row \<Rightarrow> bool" where
  "receipt_ok db r \<longleftrightarrow> (\<exists>i\<in>set (saved_items db). si_id i = rc_item_id r \<and> si_source_identity i = rc_source_identity r)"

definition references_ok :: "research_db \<Rightarrow> bool" where
  "references_ok db \<longleftrightarrow>
     (\<forall>r\<in>set (save_receipts db). receipt_ok db r) \<and> (\<forall>r\<in>set (comparison_reviews db). rv_item_id r \<in> item_ids db) \<and>
     (\<forall>i\<in>set (saved_items db). si_parent_item_id i \<in> insert None (Some ` item_ids db))"

text \<open>The texts in the rows are ones that the service wrote.\<close>

definition contents_ok :: "research_db \<Rightarrow> bool" where
  "contents_ok db \<longleftrightarrow>
     (\<forall>r\<in>set (matters db). \<exists>ts. ma_tags_json r = tags_text ts) \<and>
     (\<forall>i\<in>set (saved_items db). si_payload_hash i = sha_hex (si_payload_json i))"

definition research_ok :: "research_db \<Rightarrow> bool" where
  "research_ok db \<longleftrightarrow> keys_ok db \<and> links_ok db \<and> notes_ok db \<and> references_ok db \<and> contents_ok db"

lemmas research_ok_defs = research_ok_def keys_ok_def links_ok_def notes_ok_def references_ok_def contents_ok_def
  receipt_ok_def item_ids_def matter_ids_def

lemma research_ok_fts [simp]: "research_ok (db\<lparr>matter_fts := x\<rparr>) = research_ok db"
proof -
  have "owned (db\<lparr>matter_fts := x\<rparr>) n = owned db n" for n by (simp add: owned_def item_ids_def matter_ids_def)
  then show ?thesis by (simp add: research_ok_defs)
qed

lemma matter_ids_map: "matter_ids db = set (map ma_id (matters db))"
  by (simp add: matter_ids_def)

lemma receipt_ok_iff:
  "receipt_ok db r \<longleftrightarrow> (rc_item_id r, rc_source_identity r) \<in> set (map (\<lambda>i. (si_id i, si_source_identity i)) (saved_items db))"
  by (auto simp: receipt_ok_def image_iff) metis

lemma find_matter_None: "find_matter db m = None \<longleftrightarrow> m \<notin> matter_ids db"
  by (auto simp: find_matter_def select_first_None matter_ids_def)

lemma find_item_None: "find_item db i = None \<longleftrightarrow> i \<notin> item_ids db"
  by (auto simp: find_item_def select_first_None item_ids_def)

lemma find_matter_Some: "find_matter db m = Some r \<Longrightarrow> r \<in> set (matters db) \<and> ma_id r = m"
  by (auto simp: find_matter_def dest: select_first_Some)

lemma find_item_Some: "find_item db i = Some r \<Longrightarrow> r \<in> set (saved_items db) \<and> si_id r = i"
  by (auto simp: find_item_def dest: select_first_Some)

lemma receipt_item:
  assumes "research_ok db" and "r \<in> set (save_receipts db)"
  shows "rc_item_id r \<in> item_ids db"
proof -
  obtain x where "x \<in> set (saved_items db)" "si_id x = rc_item_id r"
    using assms by (auto simp: research_ok_def references_ok_def receipt_ok_def)
  then show ?thesis unfolding item_ids_def by (metis imageI)
qed

section \<open>The full-text rows\<close>

text \<open>Tags are read back from the text in which they are stored.\<close>

lemma read_tags: "read_json (tags_text ts) = Inr (JList (map JStr ts))"
proof -
  have "plain (JList (map JStr ts))" by (simp add: list_all_iff)
  then have "loads (dumps_unicode (JList (map JStr ts)) @ []) = Some (key_sorted (JList (map JStr ts)))"
    by (rule loads_unicode) simp
  then show ?thesis by (simp add: read_json_def tags_text_def o_def)
qed

lemma join_tags: "join_json sep (JList (map JStr ts)) = Inr (join sep ts)"
  by (simp add: join_json_def json_iter_def list_all_iff o_def)

lemma fts_row_total:
  assumes "research_ok db" and "r \<in> set (matters db)"
  obtains f where "fts_row_of db r = Inr f" and "ft_matter_id f = ma_id r"
proof -
  obtain ts where "ma_tags_json r = tags_text ts" using assms by (auto simp: research_ok_def contents_ok_def)
  then show ?thesis using that by (simp add: fts_row_of_def read_tags join_tags)
qed

text \<open>A full-text row depends on the row of its matter, the texts of its items and the notes that belong to it.\<close>

lemma linked_fts [simp]: "linked (db\<lparr>matter_fts := x\<rparr>) = linked db"
  by (simp add: linked_def fun_eq_iff)

definition item_texts :: "research_db \<Rightarrow> string \<Rightarrow> (string \<times> string) list" where
  "item_texts db m = map (\<lambda>i. (si_id i, si_payload_json i)) (matter_linked_items db m)"

definition note_texts :: "research_db \<Rightarrow> string \<Rightarrow> string list" where
  "note_texts db m = map mn_body (searchable_notes db m)"

lemma fts_row_cong:
  assumes "item_texts db' (ma_id r) = item_texts db (ma_id r)" and "note_texts db' (ma_id r) = note_texts db (ma_id r)"
  shows "fts_row_of db' r = fts_row_of db r"
proof -
  have "map si_id (matter_linked_items d m) = map fst (item_texts d m)"
    "map si_payload_json (matter_linked_items d m) = map snd (item_texts d m)" for d m
    by (simp_all add: item_texts_def o_def)
  with assms show ?thesis by (simp add: fts_row_of_def flip: note_texts_def)
qed

lemma texts_fts [simp]:
  "item_texts (db\<lparr>matter_fts := x\<rparr>) = item_texts db" "note_texts (db\<lparr>matter_fts := x\<rparr>) = note_texts db"
  by (simp_all add: fun_eq_iff item_texts_def note_texts_def matter_linked_items_def searchable_notes_def cong: option.case_cong)

lemma fts_row_fts [simp]: "fts_row_of (db\<lparr>matter_fts := x\<rparr>) r = fts_row_of db r"
  by (rule fts_row_cong) simp_all

definition indexed :: "research_db \<Rightarrow> matter_row \<Rightarrow> bool" where
  "indexed db r \<longleftrightarrow>
     (\<exists>f. fts_row_of db r = Inr f \<and> filter (\<lambda>f. ft_matter_id f = ma_id r) (matter_fts db) = [f])"

text \<open>Every matter outside \<open>S\<close> has exactly its full-text row, and every other full-text row is of a matter in \<open>S\<close>.\<close>

definition indexed_except :: "string set \<Rightarrow> research_db \<Rightarrow> bool" where
  "indexed_except S db \<longleftrightarrow>
     (\<forall>r\<in>set (matters db). ma_id r \<notin> S \<longrightarrow> indexed db r) \<and> ft_matter_id ` set (matter_fts db) \<subseteq> matter_ids db \<union> S"

lemma refresh_fts_effect:
  assumes "research_ok db"
  obtains fs where "refresh_fts m db = Inr (db\<lparr>matter_fts := fs\<rparr>)"
proof (cases "find_matter db m")
  case None
  then show ?thesis using that by (simp add: refresh_fts_def delete_fts_def)
next
  case (Some r)
  then obtain f where "fts_row_of db r = Inr f" using fts_row_total [OF assms] find_matter_Some by metis
  with Some that show ?thesis by (simp add: refresh_fts_def delete_fts_def)
qed

lemma refresh_fts_indexes:
  assumes ok: "research_ok db" and ix: "indexed_except S db"
  obtains db' where "refresh_fts m db = Inr db'" and "indexed_except (S - {m}) db'" and "research_ok db'"
    and "\<exists>fs. db' = db\<lparr>matter_fts := fs\<rparr>"
proof -
  let ?d = "delete_where (\<lambda>f. ft_matter_id f = m) (matter_fts db)"
  have other: "filter (\<lambda>f. ft_matter_id f = k) ?d = filter (\<lambda>f. ft_matter_id f = k) (matter_fts db)" if "k \<noteq> m" for k
    using that by (auto simp: delete_where_def intro: filter_cong)
  show ?thesis
  proof (cases "find_matter db m")
    case None
    then have "refresh_fts m db = Inr (db\<lparr>matter_fts := ?d\<rparr>)" by (simp add: refresh_fts_def delete_fts_def)
    moreover have "ma_id r \<noteq> m" if "r \<in> set (matters db)" for r using None that by (auto simp: find_matter_None matter_ids_def)
    then have "indexed_except (S - {m}) (db\<lparr>matter_fts := ?d\<rparr>)"
      using ix by (auto simp: indexed_except_def indexed_def other matter_ids_def)
    ultimately show ?thesis using that ok by (metis research_ok_fts)
  next
    case (Some r)
    then have r: "r \<in> set (matters db)" "ma_id r = m" using find_matter_Some by simp_all
    obtain f where f: "fts_row_of db r = Inr f" "ft_matter_id f = ma_id r" by (rule fts_row_total [OF ok r(1)])
    have eq: "refresh_fts m db = Inr (db\<lparr>matter_fts := ?d @ [f]\<rparr>)"
      using Some f by (simp add: refresh_fts_def delete_fts_def)
    have "indexed (db\<lparr>matter_fts := ?d @ [f]\<rparr>) q" if "q \<in> set (matters db)" "ma_id q \<notin> S - {m}" for q
    proof (cases "ma_id q = m")
      case True
      then have "q = r" using r that(1) ok distinct_key_unique [of ma_id "matters db"] by (auto simp: research_ok_def keys_ok_def)
      with f r show ?thesis by (simp add: indexed_def delete_where_def filter_empty_conv)
    next
      case False
      with ix that have "indexed db q" by (simp add: indexed_except_def)
      with False f r show ?thesis by (simp add: indexed_def other)
    qed
    moreover have "ft_matter_id ` set (?d @ [f]) \<subseteq> matter_ids db \<union> (S - {m})"
      using ix f r(2) imageI [OF r(1), of ma_id] by (auto simp: indexed_except_def matter_ids_def)
    ultimately have "indexed_except (S - {m}) (db\<lparr>matter_fts := ?d @ [f]\<rparr>)"
      by (simp add: indexed_except_def matter_ids_def)
    then show ?thesis using that eq ok by (metis research_ok_fts)
  qed
qed

lemma refresh_all_indexes:
  assumes "research_ok db" and "indexed_except S db"
  obtains db' where "refresh_all ms db = Inr db'" and "indexed_except (S - set ms) db'" and "research_ok db'"
    and "\<exists>fs. db' = db\<lparr>matter_fts := fs\<rparr>"
  using assms
proof (induction ms arbitrary: db S thesis)
  case Nil
  then show ?case using Nil(1) [of db] by (metis Diff_empty list.set(1) refresh_all.simps(1) research_db.surjective research_db.update_convs(7))
next
  case (Cons m ms)
  obtain db1 where d1: "refresh_fts m db = Inr db1" "indexed_except (S - {m}) db1" "research_ok db1" "\<exists>fs. db1 = db\<lparr>matter_fts := fs\<rparr>"
    by (rule refresh_fts_indexes [OF Cons.prems(2,3)])
  obtain db2 where "refresh_all ms db1 = Inr db2" "indexed_except (S - {m} - set ms) db2" "research_ok db2" "\<exists>fs. db2 = db1\<lparr>matter_fts := fs\<rparr>"
    by (rule Cons.IH [OF _ d1(3,2)])
  moreover have "S - {m} - set ms = S - set (m # ms)" by auto
  ultimately show ?case using d1(1,4) by (intro Cons.prems(1) [of db2]) auto
qed

section \<open>The effects of the statements\<close>

lemma indexed_frame:
  assumes "indexed_except S db" and "matter_fts db' = matter_fts db" and "matter_ids db \<union> S \<subseteq> matter_ids db' \<union> T"
    and "\<And>r. r \<in> set (matters db') \<Longrightarrow> ma_id r \<notin> T \<Longrightarrow>
           r \<in> set (matters db) \<and> ma_id r \<notin> S \<and> item_texts db' (ma_id r) = item_texts db (ma_id r) \<and>
           note_texts db' (ma_id r) = note_texts db (ma_id r)"
  shows "indexed_except T db'"
proof -
  have "indexed db' r" if "r \<in> set (matters db')" "ma_id r \<notin> T" for r
  proof -
    note f = assms(4) [OF that]
    then have "fts_row_of db' r = fts_row_of db r" by (intro fts_row_cong) simp_all
    moreover have "indexed db r" using f assms(1) by (simp add: indexed_except_def)
    ultimately show ?thesis using assms(2) by (simp add: indexed_def)
  qed
  then show ?thesis using assms(1-3) by (auto simp: indexed_except_def)
qed

lemma linked_iff: "linked db m i \<longleftrightarrow> (\<exists>l\<in>set (matter_items db). mi_matter_id l = m \<and> mi_item_id l = i)"
  by (simp add: linked_def list_ex_iff)

lemma linked_cong: "matter_items db' = matter_items db \<Longrightarrow> linked db' = linked db"
  by (simp add: linked_def fun_eq_iff)

lemma texts_cong:
  assumes "linked db' m = linked db m"
  shows "saved_items db' = saved_items db \<Longrightarrow> item_texts db' m = item_texts db m"
    and "matter_notes db' = matter_notes db \<Longrightarrow> note_texts db' m = note_texts db m"
  by (simp_all add: item_texts_def note_texts_def matter_linked_items_def searchable_notes_def assms cong: option.case_cong)

lemma texts_matters [simp]:
  "item_texts (db\<lparr>matters := x\<rparr>) = item_texts db" "note_texts (db\<lparr>matters := x\<rparr>) = note_texts db"
  using texts_cong [of "db\<lparr>matters := x\<rparr>" _ db] by (simp_all add: fun_eq_iff linked_def)

lemma linked_link_row: "linked (link_row m i now db) m' i' \<longleftrightarrow> linked db m' i' \<or> (m' = m \<and> i' = i)"
  by (auto simp: link_row_def linked_def)

lemma link_row_tables [simp]:
  "matters (link_row m i now db) = matters db" "saved_items (link_row m i now db) = saved_items db"
  "matter_notes (link_row m i now db) = matter_notes db" "save_receipts (link_row m i now db) = save_receipts db"
  "comparison_reviews (link_row m i now db) = comparison_reviews db" "matter_fts (link_row m i now db) = matter_fts db"
  by (simp_all add: link_row_def)

lemma ids_cong: "matters db' = matters db \<Longrightarrow> matter_ids db' = matter_ids db" "saved_items db' = saved_items db \<Longrightarrow> item_ids db' = item_ids db"
  by (simp_all add: matter_ids_def item_ids_def)

lemma owned_cong: "matter_ids db \<subseteq> matter_ids db' \<Longrightarrow> item_ids db \<subseteq> item_ids db' \<Longrightarrow> owned db n \<Longrightarrow> owned db' n"
  by (auto simp: owned_def)

text \<open>Matters.\<close>

lemma insert_matter_ok:
  assumes "research_ok db" and "ma_id r \<notin> matter_ids db" and "ma_id r \<noteq> []" and "ma_tags_json r = tags_text ts"
  shows "research_ok (db\<lparr>matters := matters db @ [r]\<rparr>)"
  using assms by (auto simp: research_ok_defs owned_def)

lemma insert_matter_index:
  assumes "indexed_except {} db" and "ma_id r \<notin> matter_ids db"
  shows "indexed_except {ma_id r} (db\<lparr>matters := matters db @ [r]\<rparr>)"
proof (rule indexed_frame [OF assms(1)])
  show "q \<in> set (matters db) \<and> ma_id q \<notin> {} \<and> item_texts (db\<lparr>matters := matters db @ [r]\<rparr>) (ma_id q) = item_texts db (ma_id q) \<and>
      note_texts (db\<lparr>matters := matters db @ [r]\<rparr>) (ma_id q) = note_texts db (ma_id q)"
    if "q \<in> set (matters (db\<lparr>matters := matters db @ [r]\<rparr>))" "ma_id q \<notin> {ma_id r}" for q
    using that by auto
qed (auto simp: matter_ids_def)

lemma update_matters_ok:
  assumes "research_ok db" and "\<And>r. ma_id (f r) = ma_id r"
    and "\<And>r. (\<exists>ts. ma_tags_json r = tags_text ts) \<Longrightarrow> \<exists>ts. ma_tags_json (f r) = tags_text ts"
  shows "research_ok (db\<lparr>matters := update_where p f (matters db)\<rparr>)"
proof -
  let ?db = "db\<lparr>matters := update_where p f (matters db)\<rparr>"
  have keys: "map ma_id (update_where p f (matters db)) = map ma_id (matters db)"
    using assms(2) by (rule map_update_where_frame)
  have ids: "matter_ids ?db = matter_ids db" "item_ids ?db = item_ids db"
    using keys by (simp_all add: matter_ids_map item_ids_def del: list.set_map set_update_where)
  have owned: "owned ?db = owned db" by (simp add: fun_eq_iff owned_def ids)
  have "\<exists>ts. ma_tags_json r = tags_text ts" if "r \<in> set (matters ?db)" for r
    using that assms(1,3) by (auto simp: research_ok_def contents_ok_def)
  then have "contents_ok ?db" using assms(1) by (simp add: research_ok_def contents_ok_def)
  moreover have "keys_ok ?db" using assms(1) keys by (simp add: research_ok_def keys_ok_def ids)
  ultimately show ?thesis
    using assms(1) by (simp add: research_ok_def links_ok_def notes_ok_def references_ok_def receipt_ok_def ids owned)
qed

lemma update_matters_index:
  assumes "indexed_except {} db" and "\<And>r. ma_id (f r) = ma_id r" and "\<And>r. p r \<Longrightarrow> ma_id r = m"
  shows "indexed_except {m} (db\<lparr>matters := update_where p f (matters db)\<rparr>)"
proof (rule indexed_frame [OF assms(1)])
  let ?db = "db\<lparr>matters := update_where p f (matters db)\<rparr>"
  show "q \<in> set (matters db) \<and> ma_id q \<notin> {} \<and> item_texts ?db (ma_id q) = item_texts db (ma_id q) \<and>
      note_texts ?db (ma_id q) = note_texts db (ma_id q)"
    if "q \<in> set (matters ?db)" "ma_id q \<notin> {m}" for q
    using that assms(2,3) by (auto split: if_splits)
  have "matter_ids ?db = matter_ids db"
    using map_update_where_frame [of ma_id f p "matters db", OF assms(2)]
    by (simp add: matter_ids_map del: list.set_map set_update_where)
  then show "matter_ids db \<union> {} \<subseteq> matter_ids ?db \<union> {m}" by blast
qed simp

lemma delete_matter_ok:
  assumes "research_ok db"
  shows "research_ok (delete_matter_row m (delete_fts m db))"
  using assms by (auto simp: research_ok_defs delete_matter_row_def delete_fts_def owned_def distinct_map_delete_where image_iff)

lemma delete_matter_index:
  assumes "indexed_except {} db" and "research_ok db"
  shows "indexed_except {} (delete_matter_row m (delete_fts m db))"
proof -
  let ?db = "delete_matter_row m (delete_fts m db)"
  have "indexed ?db r" if r: "r \<in> set (matters db)" "ma_id r \<noteq> m" for r
  proof -
    have link: "linked ?db (ma_id r) = linked db (ma_id r)"
      using r by (auto simp: fun_eq_iff linked_iff delete_matter_row_def delete_fts_def)
    have note_same: "note_texts ?db (ma_id r) = note_texts db (ma_id r)"
    proof -
      have "mn_item_id n = None" if "n \<in> set (matter_notes db)" "mn_matter_id n = Some m" for n
        using assms(2) that by (auto simp: research_ok_def notes_ok_def owned_def)
      then have "searchable_notes ?db (ma_id r) = searchable_notes db (ma_id r)"
        using r unfolding searchable_notes_def link
        by (auto simp: delete_matter_row_def delete_fts_def delete_where_def intro!: filter_cong)
      then show ?thesis by (simp add: note_texts_def)
    qed
    have "item_texts ?db (ma_id r) = item_texts db (ma_id r)"
      by (rule texts_cong(1) [OF link]) (simp add: delete_matter_row_def delete_fts_def)
    then have "fts_row_of ?db r = fts_row_of db r" by (rule fts_row_cong [OF _ note_same])
    moreover have "filter (\<lambda>f. ft_matter_id f = ma_id r) (matter_fts ?db) = filter (\<lambda>f. ft_matter_id f = ma_id r) (matter_fts db)"
      using r by (auto simp: delete_matter_row_def delete_fts_def delete_where_def intro: filter_cong)
    ultimately show ?thesis using assms(1) r by (simp add: indexed_except_def indexed_def)
  qed
  moreover have "ft_matter_id ` set (matter_fts ?db) \<subseteq> matter_ids ?db"
    using assms(1) by (auto simp: indexed_except_def delete_matter_row_def delete_fts_def matter_ids_def image_iff subset_eq)
  ultimately show ?thesis by (auto simp: indexed_except_def delete_matter_row_def delete_fts_def)
qed

text \<open>Links.\<close>

lemma link_row_ok:
  assumes "research_ok db" and "m \<in> matter_ids db" and "i \<in> item_ids db"
  shows "research_ok (link_row m i now db)"
proof -
  let ?db = "link_row m i now db"
  have ids: "matter_ids ?db = matter_ids db" "item_ids ?db = item_ids db" by (simp_all add: matter_ids_def item_ids_def)
  have owned: "owned ?db = owned db" by (simp add: fun_eq_iff owned_def ids)
  have "distinct (map (\<lambda>l. (mi_matter_id l, mi_item_id l)) (matter_items ?db))"
    using assms(1) by (auto simp: research_ok_def keys_ok_def link_row_def linked_iff)
  then have "keys_ok ?db" using assms(1) by (simp add: research_ok_def keys_ok_def ids)
  moreover have "links_ok ?db" using assms by (auto simp: research_ok_def links_ok_def ids) (auto simp: link_row_def split: if_splits)
  ultimately show ?thesis
    using assms(1) by (simp add: research_ok_def notes_ok_def references_ok_def receipt_ok_def contents_ok_def ids owned)
qed

lemma link_row_index:
  assumes "indexed_except {} db"
  shows "indexed_except {m} (link_row m i now db)"
proof (rule indexed_frame [OF assms])
  show "r \<in> set (matters db) \<and> ma_id r \<notin> {} \<and> item_texts (link_row m i now db) (ma_id r) = item_texts db (ma_id r) \<and>
      note_texts (link_row m i now db) (ma_id r) = note_texts db (ma_id r)"
    if "r \<in> set (matters (link_row m i now db))" "ma_id r \<notin> {m}" for r
  proof -
    have "linked (link_row m i now db) (ma_id r) = linked db (ma_id r)" using that(2) by (simp add: fun_eq_iff linked_link_row)
    from texts_cong [OF this] that(1) show ?thesis by simp
  qed
  show "matter_ids db \<union> {} \<subseteq> matter_ids (link_row m i now db) \<union> {m}" by (auto simp: matter_ids_def)
qed simp

text \<open>Saved items.\<close>

lemma insert_item_ok:
  assumes "research_ok db" and "si_id x \<notin> item_ids db" and "si_id x \<noteq> []" and "si_parent_item_id x = None"
    and "si_payload_hash x = sha_hex (si_payload_json x)"
  shows "research_ok (db\<lparr>saved_items := saved_items db @ [x]\<rparr>)"
  using assms by (auto simp: research_ok_defs owned_def)

lemma not_linked_fresh: "research_ok db \<Longrightarrow> i \<notin> item_ids db \<Longrightarrow> \<not> linked db m i"
  by (auto simp: research_ok_def links_ok_def linked_iff)

lemma insert_item_index:
  assumes "indexed_except S db" and "research_ok db" and "si_id x \<notin> item_ids db"
  shows "indexed_except S (db\<lparr>saved_items := saved_items db @ [x]\<rparr>)"
proof (rule indexed_frame [OF assms(1)])
  let ?db = "db\<lparr>saved_items := saved_items db @ [x]\<rparr>"
  have link: "linked ?db = linked db" by (rule linked_cong) simp
  have "item_texts ?db k = item_texts db k" for k
    using not_linked_fresh [OF assms(2,3)] by (simp add: item_texts_def matter_linked_items_def link)
  moreover have "note_texts ?db k = note_texts db k" for k by (rule texts_cong(2)) (simp_all add: link)
  ultimately show "r \<in> set (matters db) \<and> ma_id r \<notin> S \<and> item_texts ?db (ma_id r) = item_texts db (ma_id r) \<and>
      note_texts ?db (ma_id r) = note_texts db (ma_id r)" if "r \<in> set (matters ?db)" "ma_id r \<notin> S" for r
    using that by simp
qed (auto simp: matter_ids_def)

lemma insert_receipt_ok:
  assumes "insert_receipt r db = Inr db'" and "research_ok db" and "receipt_ok db r"
  shows "research_ok db'"
proof -
  have fresh: "rc_idempotency_key r \<notin> set (map rc_idempotency_key (save_receipts db))"
    and db': "db' = db\<lparr>save_receipts := save_receipts db @ [r]\<rparr>"
    using assms(1) by (auto simp: insert_receipt_def split: if_splits)
  have ids: "matter_ids db' = matter_ids db" "item_ids db' = item_ids db" by (simp_all add: db' matter_ids_def item_ids_def)
  have owned: "owned db' = owned db" "receipt_ok db' = receipt_ok db"
    by (simp_all add: fun_eq_iff owned_def receipt_ok_def ids) (simp add: db')
  have "references_ok db'"
    using assms(2,3) by (simp add: research_ok_def references_ok_def ids owned) (auto simp: db')
  moreover have "keys_ok db'" using assms(2) fresh by (simp add: research_ok_def keys_ok_def ids) (simp add: db')
  ultimately show ?thesis
    using assms(2) by (simp add: research_ok_def links_ok_def notes_ok_def contents_ok_def ids owned) (simp add: db')
qed

lemma insert_receipt_index:
  assumes "insert_receipt r db = Inr db'" and "indexed_except S db"
  shows "indexed_except S db'"
proof -
  have db': "db' = db\<lparr>save_receipts := save_receipts db @ [r]\<rparr>" using assms(1) by (auto simp: insert_receipt_def split: if_splits)
  have "linked db' = linked db" by (rule linked_cong) (simp add: db')
  then have "item_texts db' m = item_texts db m" "note_texts db' m = note_texts db m" for m
    by (auto intro!: texts_cong simp: db')
  then show ?thesis by (intro indexed_frame [OF assms(2)]) (auto simp: db' matter_ids_def)
qed

lemma retire_references_ok:
  assumes "research_ok db"
  shows "research_ok (retire_references i db)"
proof -
  let ?db = "retire_references i db"
  have same: "map si_id (saved_items ?db) = map si_id (saved_items db)"
    by (simp add: retire_references_def)
  then have ids: "item_ids ?db = item_ids db" "matter_ids ?db = matter_ids db"
    unfolding item_ids_def by (metis list.set_map) (simp add: matter_ids_def retire_references_def)
  have owned: "owned ?db = owned db" by (simp add: fun_eq_iff owned_def ids)
  have tables: "matters ?db = matters db" "matter_items ?db = matter_items db" "matter_notes ?db = matter_notes db"
    by (simp_all add: retire_references_def)
  have "keys_ok ?db" using assms by (simp add: research_ok_def keys_ok_def ids same tables) (simp add: retire_references_def)
  moreover have "receipt_ok ?db r" if "receipt_ok db r" for r
    using that by (simp add: receipt_ok_iff retire_references_def del: list.set_map)
  then have "references_ok ?db"
    using assms unfolding research_ok_def references_ok_def ids by (auto simp: retire_references_def)
  moreover have "contents_ok ?db" using assms by (auto simp: research_ok_def contents_ok_def retire_references_def)
  ultimately show ?thesis using assms by (simp add: research_ok_def links_ok_def notes_ok_def ids owned tables)
qed

lemma unlink_row_ok: "research_ok db \<Longrightarrow> research_ok (unlink_row m i db)"
  by (auto simp: research_ok_defs unlink_row_def owned_def)

lemma delete_item_row_ok:
  assumes "delete_item_row i db = Inr db'" and "research_ok db"
  shows "research_ok db'"
proof (cases "i \<in> item_ids db")
  case False
  then have "\<not> linked db m i" for m using not_linked_fresh [OF assms(2)] by simp
  moreover have "delete_where (\<lambda>r. si_id r = i) (saved_items db) = saved_items db"
    using False by (auto simp: delete_where_def item_ids_def intro!: filter_True)
  moreover have "delete_where (\<lambda>n. mn_item_id n = Some i) (matter_notes db) = matter_notes db"
    using False assms(2) by (auto simp: delete_where_def research_ok_def notes_ok_def owned_def intro!: filter_True)
  moreover have "delete_where (\<lambda>l. mi_item_id l = i) (matter_items db) = matter_items db"
    using False assms(2) by (auto simp: delete_where_def research_ok_def links_ok_def intro!: filter_True)
  ultimately show ?thesis using assms by (auto simp: delete_item_row_def split: if_splits)
next
  case True
  then have free: "\<not> item_referenced i db" using assms(1) by (auto simp: delete_item_row_def find_item_None split: if_splits)
  have db': "db' = db\<lparr>saved_items := delete_where (\<lambda>r. si_id r = i) (saved_items db),
                   matter_items := delete_where (\<lambda>l. mi_item_id l = i) (matter_items db),
                   matter_notes := delete_where (\<lambda>n. mn_item_id n = Some i) (matter_notes db)\<rparr>"
    using assms(1) by (auto simp: delete_item_row_def split: if_splits)
  have ids: "item_ids db' = item_ids db - {i}" "matter_ids db' = matter_ids db" by (auto simp: db' item_ids_def matter_ids_def)
  have "keys_ok db'" using assms(2) by (simp add: research_ok_def keys_ok_def ids) (simp add: db')
  moreover have "links_ok db'" using assms(2) by (auto simp: research_ok_def links_ok_def ids) (auto simp: db')
  moreover have "notes_ok db'" using assms(2) by (auto simp: research_ok_def notes_ok_def owned_def ids) (auto simp: db')
  moreover have "references_ok db'"
  proof -
    have "receipt_ok db' r" if "r \<in> set (save_receipts db)" for r
      using assms(2) free that by (fastforce simp: research_ok_def references_ok_def receipt_ok_def item_referenced_def list_ex_iff db')
    moreover have "rv_item_id r \<in> item_ids db'" if "r \<in> set (comparison_reviews db)" for r
      using assms(2) free that by (auto simp: research_ok_def references_ok_def item_referenced_def list_ex_iff ids)
    moreover have "si_parent_item_id x \<in> insert None (Some ` item_ids db')" if "x \<in> set (saved_items db')" for x
    proof -
      have x: "x \<in> set (saved_items db)" "si_id x \<noteq> i" using that by (auto simp: db')
      then have "si_parent_item_id x \<noteq> Some i" using free by (auto simp: item_referenced_def list_ex_iff)
      with x assms(2) show ?thesis by (auto simp: research_ok_def references_ok_def ids)
    qed
    ultimately show ?thesis by (simp add: references_ok_def) (simp add: db')
  qed
  moreover have "contents_ok db'" using assms(2) by (auto simp: research_ok_def contents_ok_def db')
  ultimately show ?thesis by (simp add: research_ok_def)
qed

lemma retire_references_index:
  assumes "indexed_except S db"
  shows "indexed_except S (retire_references i db)"
proof (rule indexed_frame [OF assms])
  let ?db = "retire_references i db"
  have link: "linked ?db = linked db" by (rule linked_cong) (simp add: retire_references_def)
  have "item_texts ?db k = item_texts db k" for k
  proof -
    have "map (\<lambda>x. (si_id x, si_payload_json x)) (filter (\<lambda>x. linked db k (si_id x))
        (update_where (\<lambda>r. si_parent_item_id r = Some i) (\<lambda>r. r\<lparr>si_parent_item_id := None\<rparr>) xs)) =
      map (\<lambda>x. (si_id x, si_payload_json x)) (filter (\<lambda>x. linked db k (si_id x)) xs)" for xs
      by (induction xs) (auto simp: update_where_def)
    then show ?thesis by (simp add: item_texts_def matter_linked_items_def link) (simp add: retire_references_def)
  qed
  moreover have "note_texts ?db k = note_texts db k" for k by (rule texts_cong(2)) (simp_all add: link, simp add: retire_references_def)
  ultimately show "r \<in> set (matters db) \<and> ma_id r \<notin> S \<and> item_texts ?db (ma_id r) = item_texts db (ma_id r) \<and>
      note_texts ?db (ma_id r) = note_texts db (ma_id r)" if "r \<in> set (matters ?db)" "ma_id r \<notin> S" for r
    using that by (simp add: retire_references_def)
qed (auto simp: matter_ids_def retire_references_def)

lemma unlink_row_index:
  assumes "indexed_except S db"
  shows "indexed_except (insert m S) (unlink_row m i db)"
proof (rule indexed_frame [OF assms])
  let ?db = "unlink_row m i db"
  show "r \<in> set (matters db) \<and> ma_id r \<notin> S \<and> item_texts ?db (ma_id r) = item_texts db (ma_id r) \<and>
      note_texts ?db (ma_id r) = note_texts db (ma_id r)" if "r \<in> set (matters ?db)" "ma_id r \<notin> insert m S" for r
  proof -
    have "linked ?db (ma_id r) = linked db (ma_id r)" using that(2) by (auto simp: fun_eq_iff linked_iff unlink_row_def)
    from texts_cong [OF this] that show ?thesis by (simp add: unlink_row_def)
  qed
qed (auto simp: matter_ids_def unlink_row_def)

lemma delete_item_row_index:
  assumes "delete_item_row i db = Inr db'" and "indexed_except S db" and "research_ok db" and "\<And>m. linked db m i \<Longrightarrow> m \<in> S"
  shows "indexed_except S db'"
proof (rule indexed_frame [OF assms(2)])
  have db': "db' = db\<lparr>saved_items := delete_where (\<lambda>r. si_id r = i) (saved_items db),
                   matter_items := delete_where (\<lambda>l. mi_item_id l = i) (matter_items db),
                   matter_notes := delete_where (\<lambda>n. mn_item_id n = Some i) (matter_notes db)\<rparr>"
    using assms(1) by (auto simp: delete_item_row_def split: if_splits)
  show "r \<in> set (matters db) \<and> ma_id r \<notin> S \<and> item_texts db' (ma_id r) = item_texts db (ma_id r) \<and>
      note_texts db' (ma_id r) = note_texts db (ma_id r)" if r: "r \<in> set (matters db')" "ma_id r \<notin> S" for r
  proof -
    have free: "\<not> linked db (ma_id r) i" using assms(4) r(2) by blast
    then have link: "linked db' (ma_id r) = linked db (ma_id r)" by (auto simp: fun_eq_iff linked_iff db')
    have "matter_linked_items db' (ma_id r) = matter_linked_items db (ma_id r)"
      unfolding matter_linked_items_def link using free by (auto simp: db' delete_where_def intro!: filter_cong)
    moreover have "mn_matter_id n = None" if "n \<in> set (matter_notes db)" "mn_item_id n = Some i" for n
      using assms(3) that by (auto simp: research_ok_def notes_ok_def owned_def)
    then have "searchable_notes db' (ma_id r) = searchable_notes db (ma_id r)"
      unfolding searchable_notes_def link using free by (auto simp: db' delete_where_def intro!: filter_cong)
    ultimately show ?thesis using r by (simp add: item_texts_def note_texts_def) (simp add: db')
  qed
  show "matter_fts db' = matter_fts db" "matter_ids db \<union> S \<subseteq> matter_ids db' \<union> S" by (auto simp: db' matter_ids_def)
qed

text \<open>Notes.\<close>

lemma notes_only_ok:
  assumes "research_ok db" and "distinct (map mn_id ns)" and "\<And>n. n \<in> set ns \<Longrightarrow> owned db n"
  shows "research_ok (db\<lparr>matter_notes := ns\<rparr>)"
proof -
  let ?db = "db\<lparr>matter_notes := ns\<rparr>"
  have ids: "matter_ids ?db = matter_ids db" "item_ids ?db = item_ids db" by (simp_all add: matter_ids_def item_ids_def)
  have "owned ?db = owned db" "receipt_ok ?db = receipt_ok db" by (simp_all add: fun_eq_iff owned_def receipt_ok_def ids)
  with assms ids show ?thesis
    by (simp add: research_ok_def keys_ok_def links_ok_def notes_ok_def references_ok_def contents_ok_def)
qed

text \<open>The matters whose text a note is part of.\<close>

definition note_matters :: "research_db \<Rightarrow> string option \<Rightarrow> string option \<Rightarrow> string set" where
  "note_matters db m i = {k. m = Some k \<or> (\<exists>j. i = Some j \<and> linked db k j)}"

lemma notes_only_index:
  assumes "indexed_except {} db"
    and "\<And>k. k \<notin> T \<Longrightarrow> map mn_body (filter (\<lambda>n. k \<in> note_matters db (mn_matter_id n) (mn_item_id n)) ns) =
               map mn_body (filter (\<lambda>n. k \<in> note_matters db (mn_matter_id n) (mn_item_id n)) (matter_notes db))"
  shows "indexed_except T (db\<lparr>matter_notes := ns\<rparr>)"
proof (rule indexed_frame [OF assms(1)])
  let ?db = "db\<lparr>matter_notes := ns\<rparr>"
  have link: "linked ?db = linked db" by (rule linked_cong) simp
  have s: "searchable_notes d k = filter (\<lambda>n. k \<in> note_matters d (mn_matter_id n) (mn_item_id n)) (matter_notes d)" for d k
    by (auto simp: searchable_notes_def note_matters_def split: option.split intro!: filter_cong)
  have "note_matters ?db = note_matters db" by (simp add: note_matters_def fun_eq_iff link)
  then have "note_texts ?db k = note_texts db k" if "k \<notin> T" for k using assms(2) [OF that] by (simp add: note_texts_def s)
  moreover have "item_texts ?db k = item_texts db k" for k by (rule texts_cong(1)) (simp_all add: link)
  ultimately show "r \<in> set (matters db) \<and> ma_id r \<notin> {} \<and> item_texts ?db (ma_id r) = item_texts db (ma_id r) \<and>
      note_texts ?db (ma_id r) = note_texts db (ma_id r)" if "r \<in> set (matters ?db)" "ma_id r \<notin> T" for r
    using that by simp
qed (auto simp: matter_ids_def)

section \<open>The operations keep the invariants\<close>

text \<open>
  \<open>keeps db db'\<close>: the database stays well-formed, and if every matter had exactly its full-text row before
  then it has it afterwards.
\<close>

definition keeps :: "research_db \<Rightarrow> research_db \<Rightarrow> bool" where
  "keeps db db' \<longleftrightarrow> research_ok db' \<and> (indexed_except {} db \<longrightarrow> indexed_except {} db')"

lemma refresh_keeps:
  assumes "research_ok db1" and "refresh_fts m db1 = Inr db2" and "indexed_except {} db \<Longrightarrow> indexed_except {m} db1"
  shows "keeps db db2" and "\<exists>fs. db2 = db1\<lparr>matter_fts := fs\<rparr>"
proof -
  obtain fs where fs: "db2 = db1\<lparr>matter_fts := fs\<rparr>" using refresh_fts_effect [OF assms(1), of m] assms(2) by auto
  then show "\<exists>fs. db2 = db1\<lparr>matter_fts := fs\<rparr>" by blast
  have "indexed_except {} db2" if "indexed_except {} db"
    using refresh_fts_indexes [OF assms(1) assms(3) [OF that], of m] assms(2) by auto
  with fs assms(1) show "keeps db db2" by (simp add: keeps_def)
qed

lemma create_matter_keeps:
  assumes "create_matter_body env t d g db = Inr (u, db')" and "research_ok db" and "me_uuid env \<noteq> []"
  shows "keeps db db'"
proof -
  let ?r = "\<lparr>ma_id = me_uuid env, ma_title = t, ma_description = d, ma_tags_json = tags_text g,
                  ma_archived = False, ma_revision = 1, ma_created_at = me_now env, ma_updated_at = me_now env\<rparr>"
  have fresh: "ma_id ?r \<notin> matter_ids db"
    and rf: "refresh_fts (ma_id ?r) (db\<lparr>matters := matters db @ [?r]\<rparr>) = Inr db'"
    using assms(1) by (auto simp: create_matter_body_def matter_ids_def bind_result_Inr split: if_splits)
  show ?thesis
  proof (rule refresh_keeps(1) [OF _ rf])
    show "research_ok (db\<lparr>matters := matters db @ [?r]\<rparr>)"
      using assms(3) by (intro insert_matter_ok [OF assms(2) fresh]) simp_all
    show "indexed_except {ma_id ?r} (db\<lparr>matters := matters db @ [?r]\<rparr>)" if "indexed_except {} db"
      by (rule insert_matter_index [OF that fresh])
  qed
qed

lemma matter_values_tags:
  assumes "matter_values ch = Inr c" and "ch_tags_json c = Some g"
  obtains ts where "g = tags_text ts"
  using assms
  by (auto simp: matter_values_def bind_result_Inr optional_field_def changed_tags_def split: if_splits option.splits json.splits)

lemma update_matter_keeps:
  assumes "update_matter_body env m c e db = Inr (u, db')" and "research_ok db" and "matter_values ch = Inr c"
  shows "keeps db db'"
proof -
  let ?p = "\<lambda>r. ma_id r = m \<and> ma_revision r = e"
  let ?f = "apply_changes c (e + 1) (me_now env)"
  have rf: "refresh_fts m (db\<lparr>matters := update_where ?p ?f (matters db)\<rparr>) = Inr db'"
    using assms(1) by (auto simp: update_matter_body_def Let_def bind_result_Inr split: if_splits)
  have id: "ma_id (?f r) = ma_id r" for r by (simp add: apply_changes_def)
  show ?thesis
  proof (rule refresh_keeps(1) [OF _ rf])
    show "research_ok (db\<lparr>matters := update_where ?p ?f (matters db)\<rparr>)"
    proof (rule update_matters_ok [OF assms(2) id])
      show "\<exists>ts. ma_tags_json (?f r) = tags_text ts" if "\<exists>ts. ma_tags_json r = tags_text ts" for r
        using that matter_values_tags [OF assms(3)] by (auto simp: apply_changes_def split: option.split)
    qed
    show "indexed_except {m} (db\<lparr>matters := update_where ?p ?f (matters db)\<rparr>)" if "indexed_except {} db"
      by (rule update_matters_index [OF that id]) simp
  qed
qed

lemma delete_matter_keeps:
  assumes "delete_matter_body m a db = Inr (v, db')" and "research_ok db"
  shows "keeps db db'"
  using assms delete_matter_ok [OF assms(2)] delete_matter_index [OF _ assms(2)]
  by (auto simp: delete_matter_body_def keeps_def split: option.splits if_splits)

lemma link_keeps:
  assumes "link_and_view m i now db = Inr (v, db')" and "research_ok db" and "m \<in> matter_ids db" and "i \<in> item_ids db"
  shows "keeps db db'"
proof -
  have rf: "refresh_fts m (link_row m i now db) = Inr db'" using assms(1) by (auto simp: link_and_view_def bind_result_Inr)
  show ?thesis
    by (rule refresh_keeps(1) [OF link_row_ok [OF assms(2-4)] rf]) (rule link_row_index)
qed

lemma save_new_keeps:
  assumes "save_new env m x key db = Inr (v, db')" and "research_ok db" and "m \<in> matter_ids db" and "si_id x \<noteq> []"
    and "si_parent_item_id x = None" and "si_payload_hash x = sha_hex (si_payload_json x)"
  shows "keeps db db'"
proof -
  let ?db1 = "db\<lparr>saved_items := saved_items db @ [x]\<rparr>"
  let ?db2 = "link_row m (si_id x) (me_now env) ?db1"
  let ?r = "\<lparr>rc_idempotency_key = key, rc_source_identity = si_source_identity x, rc_item_id = si_id x, rc_created_at = me_now env\<rparr>"
  obtain db3 where fresh: "si_id x \<notin> item_ids db" and rc: "insert_receipt ?r ?db2 = Inr db3" and rf: "refresh_fts m db3 = Inr db'"
    using assms(1) by (auto simp: save_new_def item_ids_def bind_result_Inr split: if_splits)
  have ok1: "research_ok ?db1" by (rule insert_item_ok [OF assms(2) fresh assms(4-6)])
  have mem: "m \<in> matter_ids ?db1" "si_id x \<in> item_ids ?db1" using assms(3) by (simp_all add: matter_ids_def item_ids_def)
  have ok2: "research_ok ?db2" by (rule link_row_ok [OF ok1 mem])
  have ok3: "research_ok db3" by (rule insert_receipt_ok [OF rc ok2]) (simp add: receipt_ok_def)
  show ?thesis
  proof (rule refresh_keeps(1) [OF ok3 rf])
    assume "indexed_except {} db"
    then have "indexed_except {} ?db1" by (rule insert_item_index [OF _ assms(2) fresh])
    then have "indexed_except {m} ?db2" by (rule link_row_index)
    then show "indexed_except {m} db3" by (rule insert_receipt_index [OF rc])
  qed
qed

lemma save_body_keeps:
  assumes "save_body env m kind content source key operation db = Inr (v, db')" and "research_ok db" and "me_uuid env \<noteq> []"
  shows "keeps db db'"
proof -
  have m: "m \<in> matter_ids db" using assms(1) by (auto simp: save_body_def find_matter_None split: if_splits)
  show ?thesis
  proof (cases "select_first (\<lambda>r. rc_idempotency_key r = key) (save_receipts db)")
    case None
    then have "save_new env m (new_item env kind content source operation) key db = Inr (v, db')"
      using assms(1) by (auto simp: save_body_def split: if_splits)
    from save_new_keeps [OF this assms(2) m] assms(3) show ?thesis by (simp add: new_item_def)
  next
    case (Some r)
    then have "link_and_view m (rc_item_id r) (me_now env) db = Inr (v, db')"
      using assms(1) by (auto simp: save_body_def split: if_splits)
    moreover have "rc_item_id r \<in> item_ids db"
      using select_first_Some [OF Some] by (intro receipt_item [OF assms(2)]) simp
    ultimately show ?thesis by (rule link_keeps [OF _ assms(2) m])
  qed
qed

lemma link_body_keeps:
  assumes "link_body env m i db = Inr (v, db')" and "research_ok db"
  shows "keeps db db'"
  using assms link_keeps [of m i "me_now env" db v db'] by (auto simp: link_body_def find_matter_None find_item_None split: if_splits)

lemma indexed_mono: "indexed_except S db \<Longrightarrow> S \<subseteq> T \<Longrightarrow> indexed_except T db"
  by (auto simp: indexed_except_def)

lemma item_matters_set: "set (item_matters db i) = {m. linked db m i}"
  by (auto simp: item_matters_def linked_iff)

lemma retired_free: "\<not> item_referenced i (retire_references i db)"
  by (auto simp: item_referenced_def retire_references_def list_ex_iff split: if_splits)

lemma referenced_unlink: "item_referenced i (unlink_row m j db) = item_referenced i db"
  by (simp add: item_referenced_def unlink_row_def)

lemma linked_retire [simp]: "linked (retire_references i db) = linked db"
  by (rule linked_cong) (simp add: retire_references_def)

lemma delete_retired:
  obtains db' where "delete_item_row i (retire_references i db) = Inr db'"
    and "\<And>m. \<exists>db''. delete_item_row i (unlink_row m i (retire_references i db)) = Inr db''"
  by (simp add: delete_item_row_def retired_free referenced_unlink)

lemma remove_item_effect:
  assumes ok: "research_ok db" and links: "\<And>k. linked db k i \<Longrightarrow> k \<in> set affected \<union> set remaining"
    and aff: "given m \<Longrightarrow> affected = [the m]" and all: "\<not> given m \<Longrightarrow> remaining = []"
  obtains db1 where "remove_item i m remaining db = Inr db1" and "research_ok db1"
    and "indexed_except {} db \<longrightarrow> indexed_except (set affected) db1"
proof -
  let ?r = "retire_references i db"
  have rok: "research_ok ?r" by (rule retire_references_ok [OF ok])
  have ix: "indexed_except S ?r" if "indexed_except S db" for S by (rule retire_references_index [OF that])
  consider (unlink) "given m" "remaining \<noteq> []" | (last) "given m" "remaining = []" | (delete) "\<not> given m" by blast
  then show ?thesis
  proof cases
    case unlink
    then have "remove_item i m remaining db = Inr (unlink_row (the m) i db)" by (simp add: remove_item_def)
    then show ?thesis using unlink aff unlink_row_ok [OF ok] unlink_row_index [of "{}" db "the m" i] that by simp
  next
    case last
    obtain db1 where d: "delete_item_row i (unlink_row (the m) i ?r) = Inr db1" using delete_retired [of i db] by metis
    moreover have uok: "research_ok (unlink_row (the m) i ?r)" by (rule unlink_row_ok [OF rok])
    moreover have "indexed_except (set affected) db1" if "indexed_except {} db"
    proof (rule delete_item_row_index [OF d _ uok])
      show "indexed_except (set affected) (unlink_row (the m) i ?r)"
        using unlink_row_index [OF ix [OF that], of "the m" i] aff last by simp
      show "k \<in> set affected" if "linked (unlink_row (the m) i ?r) k i" for k
        using that links last by (auto simp: linked_iff unlink_row_def retire_references_def)
    qed
    moreover have "remove_item i m remaining db = Inr db1" using last d by (simp add: remove_item_def)
    ultimately show ?thesis using that delete_item_row_ok [OF d uok] by blast
  next
    case delete
    obtain db1 where d: "delete_item_row i ?r = Inr db1" using delete_retired [of i db] by metis
    moreover have "indexed_except (set affected) db1" if "indexed_except {} db"
    proof (rule delete_item_row_index [OF d _ rok])
      show "indexed_except (set affected) ?r" by (rule indexed_mono [OF ix [OF that]]) simp
      show "k \<in> set affected" if "linked ?r k i" for k using that links all delete by auto
    qed
    moreover have "remove_item i m remaining db = Inr db1" using delete d by (simp add: remove_item_def)
    ultimately show ?thesis using that delete_item_row_ok [OF d rok] by blast
  qed
qed

lemma delete_item_effect:
  fixes db i m
  defines "links \<equiv> item_matters db i"
  defines "affected \<equiv> (if given m then [the m] else links)"
  defines "remaining \<equiv> filter (\<lambda>x. x \<notin> set affected) links"
  assumes ok: "research_ok db" and found: "i \<in> item_ids db" and here: "m = None \<or> the m \<in> set links"
  obtains db1 db2 where "remove_item i m remaining db = Inr db1" and "refresh_all affected db1 = Inr db2"
    and "delete_item_body i m True db = Inr (delete_item_preview i m affected remaining True, db2)"
    and "keeps db db2" and "\<exists>fs. db2 = db1\<lparr>matter_fts := fs\<rparr>"
proof -
  have linked_kept: "k \<in> set affected \<union> set remaining" if "linked db k i" for k
    using that by (auto simp: remaining_def links_def item_matters_set)
  have unlinked_one: "affected = [the m]" if "given m" using that by (simp add: affected_def)
  have deleted_all: "remaining = []" if "\<not> given m" using that by (simp add: affected_def remaining_def)
  obtain db1 where d1: "remove_item i m remaining db = Inr db1" "research_ok db1"
    and ix: "indexed_except {} db \<longrightarrow> indexed_except (set affected) db1"
    by (rule remove_item_effect [OF ok linked_kept unlinked_one deleted_all])
  obtain db2 where d2: "refresh_all affected db1 = Inr db2" "research_ok db2" "\<exists>fs. db2 = db1\<lparr>matter_fts := fs\<rparr>"
    and ix2: "indexed_except {} db \<Longrightarrow> indexed_except {} db2"
  proof (cases "indexed_except {} db")
    case True
    from refresh_all_indexes [OF d1(2) ix [rule_format, OF True], of affected] that show ?thesis by (metis Diff_cancel)
  next
    case False
    have "\<exists>db2. refresh_all ms db1 = Inr db2 \<and> research_ok db2 \<and> (\<exists>fs. db2 = db1\<lparr>matter_fts := fs\<rparr>)" if "research_ok db1" for ms db1
      using that
    proof (induction ms arbitrary: db1)
      case Nil
      then show ?case by (metis refresh_all.simps(1) research_db.surjective research_db.update_convs(7))
    next
      case (Cons k ms)
      obtain fs where fs: "refresh_fts k db1 = Inr (db1\<lparr>matter_fts := fs\<rparr>)" by (rule refresh_fts_effect [OF Cons.prems])
      from Cons.IH [of "db1\<lparr>matter_fts := fs\<rparr>"] Cons.prems fs show ?case by auto
    qed
    from this [OF d1(2), of affected] False that show ?thesis by blast
  qed
  have "find_item db i \<noteq> None" using found by (simp add: find_item_None)
  with here d1(1) d2(1) have "delete_item_body i m True db = Inr (delete_item_preview i m affected remaining True, db2)"
    by (auto simp: delete_item_body_def links_def affected_def remaining_def Let_def)
  moreover have "keeps db db2" using d2(2) ix2 by (simp add: keeps_def)
  ultimately show ?thesis using that d1(1) d2(1,3) by blast
qed

lemma delete_item_keeps:
  assumes "delete_item_body i m a db = Inr (v, db')" and "research_ok db"
  shows "keeps db db'"
proof (cases a)
  case False
  then show ?thesis using assms by (auto simp: delete_item_body_def Let_def keeps_def split: if_splits)
next
  case True
  have "item_matters db i \<noteq> [] \<Longrightarrow> i \<in> item_ids db"
    using not_linked_fresh [OF assms(2), of i] item_matters_set [of db i] by fastforce
  then have "i \<in> item_ids db" "m = None \<or> the m \<in> set (item_matters db i)"
    using assms(1) by (auto simp: delete_item_body_def Let_def find_item_None split: if_splits)
  then obtain w db2 where "delete_item_body i m True db = Inr (w, db2)" "keeps db db2"
    using delete_item_effect [OF assms(2), of i m] by blast
  then show ?thesis using assms(1) True by simp
qed

text \<open>Notes: the owner of a note that is written, with the empty identifiers dropped.\<close>

definition owner_of :: "string option \<Rightarrow> string option" where
  "owner_of x = (if given x then x else None)"

definition write_note :: "matter_env \<Rightarrow> string \<Rightarrow> string option \<Rightarrow> string option \<Rightarrow> string option \<Rightarrow> int option \<Rightarrow> research_db \<Rightarrow> research_db result" where
  "write_note env body m i nid e db = (if given nid then edit_note env (the nid) m i body e db else insert_note env m i body db)"

lemma find_nothing: "research_ok db \<Longrightarrow> find_matter db [] = None \<and> find_item db [] = None"
  by (simp add: find_matter_None find_item_None research_ok_def keys_ok_def)

lemma write_note_effect:
  assumes w: "write_note env body m i nid e db = Inr db1" and ok: "research_ok db" and one: "given m \<noteq> given i"
    and own: "given m \<longrightarrow> the m \<in> matter_ids db" "given i \<longrightarrow> the i \<in> item_ids db"
  shows "research_ok db1" and "\<exists>ns. db1 = db\<lparr>matter_notes := ns\<rparr>"
    and "indexed_except {} db \<Longrightarrow> indexed_except (note_matters db (owner_of m) (owner_of i)) db1"
proof -
  let ?T = "note_matters db (owner_of m) (owner_of i)"
  have "\<exists>ns. db1 = db\<lparr>matter_notes := ns\<rparr> \<and> distinct (map mn_id ns) \<and> (\<forall>n\<in>set ns. owned db n) \<and>
    (\<forall>k. k \<notin> ?T \<longrightarrow> map mn_body (filter (\<lambda>n. k \<in> note_matters db (mn_matter_id n) (mn_item_id n)) ns) =
                  map mn_body (filter (\<lambda>n. k \<in> note_matters db (mn_matter_id n) (mn_item_id n)) (matter_notes db)))"
  proof (cases "given nid")
    case True
    then obtain r where e: "e = Some r" using w by (auto simp: write_note_def edit_note_def split: option.splits)
    let ?p = "\<lambda>n. mn_id n = the nid \<and> mn_revision n = r \<and> note_owner m i n"
    let ?f = "\<lambda>n. n\<lparr>mn_body := body, mn_revision := r + 1, mn_updated_at := me_now env\<rparr>"
    have db1: "db1 = db\<lparr>matter_notes := update_where ?p ?f (matter_notes db)\<rparr>"
      using w True e by (auto simp: write_note_def edit_note_def Let_def split: if_splits)
    have own': "owned db n" if "n \<in> set (matter_notes db)" for n using ok that by (simp add: research_ok_def notes_ok_def)
    have inside: "note_matters db (mn_matter_id n) (mn_item_id n) = ?T" if "n \<in> set (matter_notes db)" "?p n" for n
      using own' [OF that(1)] that(2) one by (auto simp: owned_def note_owner_def owner_of_def note_matters_def given_def split: if_splits)
    have "map mn_body (filter (\<lambda>n. k \<in> note_matters db (mn_matter_id n) (mn_item_id n)) (update_where ?p ?f xs)) =
        map mn_body (filter (\<lambda>n. k \<in> note_matters db (mn_matter_id n) (mn_item_id n)) xs)"
      if "k \<notin> ?T" "set xs \<subseteq> set (matter_notes db)" for k xs
      using that(2)
    proof (induction xs)
      case (Cons x xs)
      then show ?case using inside [of x] that(1) by (auto simp: update_where_def)
    qed (simp add: update_where_def)
    moreover have "owned db n" if "n \<in> set (update_where ?p ?f (matter_notes db))" for n
    proof -
      from that obtain q where q: "q \<in> set (matter_notes db)" "n = (if ?p q then ?f q else q)" by (auto simp: update_where_def)
      then show ?thesis using own' [OF q(1)] by (simp add: owned_def)
    qed
    moreover have "distinct (map mn_id (update_where ?p ?f (matter_notes db)))" using ok by (simp add: research_ok_def keys_ok_def)
    ultimately show ?thesis using db1 by blast
  next
    case False
    let ?n = "\<lparr>mn_id = me_uuid env, mn_matter_id = m, mn_item_id = i, mn_body = body, mn_revision = 1,
               mn_created_at = me_now env, mn_updated_at = me_now env\<rparr>"
    have db1: "db1 = db\<lparr>matter_notes := matter_notes db @ [?n]\<rparr>" and fresh: "me_uuid env \<notin> set (map mn_id (matter_notes db))"
      and fk: "m \<noteq> None \<Longrightarrow> find_matter db (the m) \<noteq> None" "i \<noteq> None \<Longrightarrow> find_item db (the i) \<noteq> None"
      using w False by (auto simp: write_note_def insert_note_def split: if_splits)
    have "m = owner_of m" "i = owner_of i"
      using fk find_nothing [OF ok] by (auto simp: owner_of_def given_def split: option.splits)
    then have n: "owned db ?n" "note_matters db (mn_matter_id ?n) (mn_item_id ?n) = ?T"
      using one own by (auto simp: owned_def owner_of_def given_def split: option.splits if_splits)
    have "distinct (map mn_id (matter_notes db @ [?n]))" "\<forall>n\<in>set (matter_notes db @ [?n]). owned db n"
      using ok fresh n(1) by (auto simp: research_ok_def keys_ok_def notes_ok_def)
    then show ?thesis using db1 n(2) by (intro exI [of _ "matter_notes db @ [?n]"]) simp
  qed
  then show "research_ok db1" "\<exists>ns. db1 = db\<lparr>matter_notes := ns\<rparr>" "indexed_except {} db \<Longrightarrow> indexed_except ?T db1"
    using notes_only_ok [OF ok] notes_only_index by (auto simp: notes_only_ok [OF ok] intro: notes_only_index)
qed

text \<open>An item in more than one matter.\<close>

definition shared_item :: "research_db \<Rightarrow> string option \<Rightarrow> bool" where
  "shared_item db i \<longleftrightarrow> given i \<and> 1 < length (item_matters db (the i))"

lemma item_matters_first:
  "map_option mi_matter_id (select_first (\<lambda>l. mi_item_id l = i) ls) =
     (case map mi_matter_id (filter (\<lambda>l. mi_item_id l = i) ls) of [] \<Rightarrow> None | k # _ \<Rightarrow> Some k)"
  by (induction ls) auto

lemma note_affects_covers:
  assumes "research_ok db" and "given m \<noteq> given i" and "\<not> shared_item db i"
  shows "if given (note_affects db m i) then note_matters db (owner_of m) (owner_of i) \<subseteq> {the (note_affects db m i)}
         else note_matters db (owner_of m) (owner_of i) = {}"
proof (cases "given m")
  case True
  with assms(2) show ?thesis by (auto simp: note_affects_def owner_of_def note_matters_def given_def split: option.splits)
next
  case False
  then have gi: "given i" using assms(2) by simp
  then have T: "note_matters db (owner_of m) (owner_of i) = set (item_matters db (the i))"
    using False by (auto simp: owner_of_def note_matters_def item_matters_set given_def split: option.splits)
  have nonempty: "k \<noteq> []" if "k \<in> set (item_matters db (the i))" for k
    using that assms(1) by (auto simp: item_matters_set linked_iff research_ok_def links_ok_def keys_ok_def)
  have a: "note_affects db m i = (case item_matters db (the i) of [] \<Rightarrow> None | k # _ \<Rightarrow> Some k)"
    using False gi by (simp add: note_affects_def item_matters_first item_matters_def)
  consider "item_matters db (the i) = []" | k where "item_matters db (the i) = [k]"
    using assms(3) gi by (cases "item_matters db (the i)") (auto simp: shared_item_def)
  then show ?thesis by cases (use T nonempty a in \<open>auto simp: given_def\<close>)
qed

lemma put_note_bodyE:
  assumes "put_note_body env body m i nid e db = Inr (v, db')"
  obtains db1 where "write_note env body m i nid e db = Inr db1"
    and "(if given (note_affects db1 m i) then refresh_fts (the (note_affects db1 m i)) db1 else Inr db1) = Inr db'"
    and "given m \<longrightarrow> the m \<in> matter_ids db" and "given i \<longrightarrow> the i \<in> item_ids db"
proof -
  have g: "given m \<longrightarrow> the m \<in> matter_ids db" "given i \<longrightarrow> the i \<in> item_ids db"
    using assms by (auto simp: put_note_body_def find_matter_None find_item_None split: if_splits)
  have "bind_result (write_note env body m i nid e db) (\<lambda>db1.
      bind_result (if given (note_affects db1 m i) then refresh_fts (the (note_affects db1 m i)) db1 else Inr db1) (\<lambda>db2.
      read_note (if given nid then the nid else me_uuid env) db2)) = Inr (v, db')"
    using assms g by (auto simp: put_note_body_def write_note_def split: if_splits)
  then obtain db1 db2 where "write_note env body m i nid e db = Inr db1"
    "(if given (note_affects db1 m i) then refresh_fts (the (note_affects db1 m i)) db1 else Inr db1) = Inr db2"
    "read_note (if given nid then the nid else me_uuid env) db2 = Inr (v, db')"
    by (elim bind_resultE)
  then show ?thesis using that g by (auto simp: read_note_def split: option.splits)
qed

lemma put_note_keeps:
  assumes b: "put_note_body env body m i nid e db = Inr (v, db')" and ok: "research_ok db" and one: "given m \<noteq> given i"
  shows "research_ok db'" and "\<not> shared_item db i \<Longrightarrow> keeps db db'"
proof -
  obtain db1 db2 where w: "write_note env body m i nid e db = Inr db1"
    and r: "(if given (note_affects db1 m i) then refresh_fts (the (note_affects db1 m i)) db1 else Inr db1) = Inr db2"
    and g: "given m \<longrightarrow> the m \<in> matter_ids db" "given i \<longrightarrow> the i \<in> item_ids db" and db': "db' = db2"
    using put_note_bodyE [OF b] by blast
  note eff = write_note_effect [OF w ok one g]
  show "research_ok db'"
  proof (cases "given (note_affects db1 m i)")
    case True
    then show ?thesis using r db' refresh_fts_effect [OF eff(1), of "the (note_affects db1 m i)"] eff(1) by (metis Inr_inject research_ok_fts)
  qed (use r db' eff(1) in simp)
  show "keeps db db'" if ns: "\<not> shared_item db i"
  proof -
    have "note_affects db1 m i = note_affects db m i" using eff(2) by (auto simp: note_affects_def)
    note cover = note_affects_covers [OF ok one ns, folded this]
    show ?thesis
    proof (cases "given (note_affects db1 m i)")
      case True
      then have rf: "refresh_fts (the (note_affects db1 m i)) db1 = Inr db2" using r by simp
      have "indexed_except {the (note_affects db1 m i)} db1" if "indexed_except {} db"
        using indexed_mono [OF eff(3) [OF that]] cover True by simp
      from refresh_keeps(1) [OF eff(1) rf this] db' show ?thesis by simp
    next
      case False
      then show ?thesis using r db' eff(1,3) cover by (simp add: keeps_def)
    qed
  qed
qed

section \<open>Runs\<close>

text \<open>
  The calls of the service. Identifiers come from \<^verbatim>\<open>uuid4\<close> and are never empty, so a step with an empty
  one is no step.
\<close>

datatype matter_op =
    MCreate matter_env json json "json list"
  | MUpdate matter_env string json_object int
  | MDelete string bool
  | MSave matter_env string string json_object json json "string option"
  | MLink matter_env string string
  | MDeleteItem string "string option" bool
  | MNote matter_env json "string option" "string option" "string option" "int option"

fun matter_step :: "research_db \<Rightarrow> matter_op \<Rightarrow> research_db" where
  "matter_step db (MCreate env t d g) = (if me_uuid env = [] then db else snd (create_matter env t d g db))"
| "matter_step db (MUpdate env m ch e) = snd (update_matter env m ch e db)"
| "matter_step db (MDelete m a) = snd (delete_matter m a db)"
| "matter_step db (MSave env m k p s i op) = (if me_uuid env = [] then db else snd (save_payload env m k p s i op db))"
| "matter_step db (MLink env m i) = snd (link_item env m i db)"
| "matter_step db (MDeleteItem i m a) = snd (delete_item i m a db)"
| "matter_step db (MNote env b m i n e) = snd (put_note env b m i n e db)"

definition empty_research_db :: research_db where
  "empty_research_db = \<lparr>matters = [], saved_items = [], matter_items = [], matter_notes = [], save_receipts = [],
     comparison_reviews = [], matter_fts = []\<rparr>"

text \<open>A note on an item that several matters share.\<close>

fun shared_note :: "research_db \<Rightarrow> matter_op \<Rightarrow> bool" where
  "shared_note db (MNote env b m i n e) = shared_item db i"
| "shared_note db _ = False"

lemma snd_then_read [simp]: "snd (then_read f x) = snd x"
  by (auto simp: then_read_def split: sum.splits prod.splits)

lemma keeps_refl: "research_ok db \<Longrightarrow> keeps db db"
  by (simp add: keeps_def)

lemma transaction_keeps:
  assumes "research_ok db" and "\<And>v db'. body db = Inr (v, db') \<Longrightarrow> keeps db db'"
  shows "keeps db (snd (transaction body db))"
  using assms by (intro transaction_invariant [where P = "keeps db"]) (auto intro: keeps_refl)

lemma matter_step_ok:
  assumes "research_ok db"
  shows "research_ok (matter_step db x)" and "\<not> shared_note db x \<Longrightarrow> keeps db (matter_step db x)"
proof -
  have "keeps db (matter_step db x)" if "case x of MNote _ _ _ _ _ _ \<Rightarrow> False | _ \<Rightarrow> True"
    using that assms
    by (cases x)
      (auto simp: create_matter_def update_matter_def delete_matter_def save_payload_def link_item_def delete_item_def
        split: sum.split intro!: transaction_keeps keeps_refl
        dest: create_matter_keeps update_matter_keeps delete_matter_keeps save_body_keeps link_body_keeps delete_item_keeps)
  moreover have "research_ok (snd (put_note env b m i n e db))" for env b m i n e
    using assms put_note_keeps(1) [of env _ m i n e db]
    by (auto simp: put_note_def split: sum.split intro!: transaction_invariant [where P = research_ok])
  moreover have "keeps db (snd (put_note env b m i n e db))" if "\<not> shared_item db i" for env b m i n e
    using assms put_note_keeps(2) [of env _ m i n e db] that
    by (auto simp: put_note_def split: sum.split intro!: transaction_keeps keeps_refl)
  ultimately show "research_ok (matter_step db x)" "\<not> shared_note db x \<Longrightarrow> keeps db (matter_step db x)"
    by (cases x; auto simp: keeps_def)+
qed

lemma empty_research_ok: "research_ok empty_research_db" "indexed_except {} empty_research_db"
  by (simp_all add: research_ok_defs indexed_except_def empty_research_db_def)

interpretation matter_runs: invariant_system matter_step empty_research_db research_ok
  by unfold_locales (rule empty_research_ok(1), rule matter_step_ok(1))

section \<open>What runs keep\<close>

lemma refresh_fts_only:
  assumes "refresh_fts m db = Inr db'"
  obtains fs where "db' = db\<lparr>matter_fts := fs\<rparr>"
  using assms that by (auto simp: refresh_fts_def delete_fts_def bind_result_Inr split: option.splits)

lemma refresh_all_only:
  assumes "refresh_all ms db = Inr db'"
  obtains fs where "db' = db\<lparr>matter_fts := fs\<rparr>"
  using assms
proof (induction ms arbitrary: db thesis)
  case Nil
  then show ?case by (metis Inr_inject refresh_all.simps(1) research_db.surjective research_db.update_convs(7))
next
  case (Cons m ms)
  then obtain db1 where "refresh_fts m db = Inr db1" "refresh_all ms db1 = Inr db'" by (auto simp: bind_result_Inr)
  then obtain fs gs where "db1 = db\<lparr>matter_fts := fs\<rparr>" "db' = db1\<lparr>matter_fts := gs\<rparr>"
    by (metis Cons.IH refresh_fts_only)
  then show ?case using Cons.prems(1) by simp
qed

text \<open>A saved item without the link to its parent: what no operation changes.\<close>

definition payload_of :: "saved_item_row \<Rightarrow> saved_item_row" where
  "payload_of x = x\<lparr>si_parent_item_id := None\<rparr>"

lemma payload_of_fields:
  "payload_of x = payload_of y \<Longrightarrow>
     si_id x = si_id y \<and> si_payload_json x = si_payload_json y \<and> si_payload_hash x = si_payload_hash y \<and>
     si_kind x = si_kind y \<and> si_source_identity x = si_source_identity y"
  by (cases x; cases y) (simp add: payload_of_def)

definition holds_item :: "saved_item_row \<Rightarrow> research_db \<Rightarrow> bool" where
  "holds_item x db \<longleftrightarrow> payload_of x \<in> payload_of ` set (saved_items db)"

definition retains :: "string \<Rightarrow> research_db \<Rightarrow> research_db \<Rightarrow> bool" where
  "retains i db db' \<longleftrightarrow>
     (\<forall>x. si_id x = i \<and> holds_item x db \<longrightarrow> holds_item x db') \<and>
     (\<forall>r\<in>set (save_receipts db). rc_item_id r = i \<longrightarrow> r \<in> set (save_receipts db'))"

lemma retainsI:
  assumes "set (saved_items db) \<subseteq> set (saved_items db')" and "set (save_receipts db) \<subseteq> set (save_receipts db')"
  shows "retains i db db'"
  using assms by (auto simp: retains_def holds_item_def)

lemma retains_trans: "retains i db1 db2 \<Longrightarrow> retains i db2 db3 \<Longrightarrow> retains i db1 db3"
  by (simp add: retains_def)

lemma retains_refl: "retains i db db"
  by (simp add: retains_def)

lemma retains_fts: "retains i db (db'\<lparr>matter_fts := fs\<rparr>) = retains i db db'"
  by (simp add: retains_def holds_item_def)

lemma refresh_retains: "refresh_fts m db = Inr db' \<Longrightarrow> retains i db db'"
  by (auto elim!: refresh_fts_only simp: retains_fts retains_refl)

lemma retire_retains: "j \<noteq> i \<Longrightarrow> retains i db (retire_references j db)"
proof -
  assume "j \<noteq> i"
  have "payload_of ` set (saved_items (retire_references j db)) = payload_of ` set (saved_items db)"
  proof -
    have "map payload_of (saved_items (retire_references j db)) = map payload_of (saved_items db)"
      by (simp add: retire_references_def payload_of_def)
    then show ?thesis by (metis list.set_map)
  qed
  then show ?thesis using \<open>j \<noteq> i\<close> by (auto simp: retains_def holds_item_def retire_references_def)
qed

lemma unlink_retains: "retains i db (unlink_row m j db)"
  by (simp add: retains_def holds_item_def unlink_row_def)

lemma delete_row_retains:
  assumes "delete_item_row j db = Inr db'" and "j \<noteq> i"
  shows "retains i db db'"
proof -
  have "saved_items db' = delete_where (\<lambda>r. si_id r = j) (saved_items db)" "save_receipts db' = save_receipts db"
    using assms(1) by (auto simp: delete_item_row_def split: if_splits)
  moreover have "holds_item x db'" if x: "holds_item x db" "si_id x = i" for x
  proof -
    obtain y where y: "y \<in> set (saved_items db)" "payload_of x = payload_of y" using x(1) by (auto simp: holds_item_def)
    then have "si_id y = i" using payload_of_fields x(2) by metis
    with y assms(2) calculation(1) show ?thesis by (auto simp: holds_item_def)
  qed
  ultimately show ?thesis by (simp add: retains_def)
qed

lemma delete_item_retains:
  assumes "delete_item_body j m a db = Inr (v, db')" and "a \<longrightarrow> j \<noteq> i"
  shows "retains i db db'"
proof (cases a)
  case False
  then show ?thesis using assms by (auto simp: delete_item_body_def Let_def retains_refl split: if_splits)
next
  case True
  define aff where "aff = (if given m then [the m] else item_matters db j)"
  define rem where "rem = filter (\<lambda>x. x \<notin> set aff) (item_matters db j)"
  obtain db1 where r: "remove_item j m rem db = Inr db1" "refresh_all aff db1 = Inr db'"
    using assms(1) True unfolding delete_item_body_def Let_def aff_def [symmetric] rem_def [symmetric]
    by (auto simp: bind_result_Inr split: if_splits)
  have ji: "j \<noteq> i" using assms(2) True by simp
  have "retains i db db1"
    using r(1) retire_retains [OF ji, of db] unlink_retains [of i]
    by (auto simp: remove_item_def Let_def split: if_splits dest!: delete_row_retains [OF _ ji]) (metis retains_trans)+
  then show ?thesis using r(2) by (auto elim!: refresh_all_only simp: retains_fts)
qed

fun deletes_item :: "string \<Rightarrow> matter_op \<Rightarrow> bool" where
  "deletes_item i (MDeleteItem j m a) = (j = i \<and> a)"
| "deletes_item i _ = False"

lemma transaction_retains:
  "(\<And>v db'. body db = Inr (v, db') \<Longrightarrow> retains i db db') \<Longrightarrow> retains i db (snd (transaction body db))"
  by (intro transaction_invariant [where P = "retains i db"]) (auto intro: retains_refl)

lemma save_retains:
  assumes "save_body env m k c s key op db = Inr (v, db')"
  shows "retains i db db'"
proof (cases "select_first (\<lambda>r. rc_idempotency_key r = key) (save_receipts db)")
  case None
  let ?x = "new_item env k c s op"
  obtain db1 where "insert_receipt \<lparr>rc_idempotency_key = key, rc_source_identity = si_source_identity ?x, rc_item_id = si_id ?x, rc_created_at = me_now env\<rparr>
      (link_row m (si_id ?x) (me_now env) (db\<lparr>saved_items := saved_items db @ [?x]\<rparr>)) = Inr db1" "refresh_fts m db1 = Inr db'"
    using assms None by (auto simp: save_body_def save_new_def bind_result_Inr split: if_splits)
  then show ?thesis by (auto elim!: refresh_fts_only simp: retains_fts insert_receipt_def intro!: retainsI split: if_splits)
next
  case (Some r)
  then have "refresh_fts m (link_row m (rc_item_id r) (me_now env) db) = Inr db'"
    using assms by (auto simp: save_body_def link_and_view_def bind_result_Inr split: if_splits)
  then show ?thesis by (auto elim!: refresh_fts_only simp: retains_fts intro!: retainsI)
qed

lemma note_retains:
  assumes "put_note_body env b m i' n e db = Inr (v, db')"
  shows "retains i db db'"
proof -
  obtain db1 db2 where w: "write_note env b m i' n e db = Inr db1"
    and r: "(if given (note_affects db1 m i') then refresh_fts (the (note_affects db1 m i')) db1 else Inr db1) = Inr db2" and "db' = db2"
    using put_note_bodyE [OF assms] by blast
  have "\<exists>ns. db1 = db\<lparr>matter_notes := ns\<rparr>"
    using w by (auto simp: write_note_def edit_note_def insert_note_def Let_def split: if_splits option.splits)
  then have "retains i db db1" by (auto simp: retains_def holds_item_def)
  moreover have "retains i db1 db2" using r by (auto split: if_splits intro: refresh_retains retains_refl)
  ultimately show ?thesis using \<open>db' = db2\<close> by (auto intro: retains_trans)
qed

lemma step_retains:
  assumes "\<not> deletes_item i x"
  shows "retains i db (matter_step db x)"
proof (cases x)
  case (MCreate env t d g)
  have "retains i db db'" if "create_matter_body env a b c db = Inr (v, db')" for a b c v db'
    using that by (auto simp: create_matter_body_def bind_result_Inr retains_fts split: if_splits elim!: refresh_fts_only intro!: retainsI)
  then show ?thesis using MCreate by (auto simp: create_matter_def split: sum.split intro!: transaction_retains retains_refl)
next
  case (MUpdate env m ch e)
  have "retains i db db'" if "update_matter_body env m c e db = Inr (v, db')" for c v db'
    using that by (auto simp: update_matter_body_def Let_def bind_result_Inr retains_fts split: if_splits elim!: refresh_fts_only intro!: retainsI)
  then show ?thesis using MUpdate by (auto simp: update_matter_def split: sum.split intro!: transaction_retains retains_refl)
next
  case (MDelete m a)
  have "retains i db db'" if "delete_matter_body m a db = Inr (v, db')" for v db'
    using that by (auto simp: delete_matter_body_def delete_matter_row_def delete_fts_def split: option.splits if_splits intro!: retainsI)
  then show ?thesis using MDelete by (auto simp: delete_matter_def intro!: transaction_retains)
next
  case (MSave env m k p s key op)
  then show ?thesis by (auto simp: save_payload_def split: sum.split intro!: transaction_retains retains_refl dest: save_retains)
next
  case (MLink env m j)
  have "retains i db db'" if "link_body env m j db = Inr (v, db')" for v db'
    using that by (auto simp: link_body_def link_and_view_def bind_result_Inr retains_fts split: if_splits elim!: refresh_fts_only intro!: retainsI)
  then show ?thesis using MLink by (auto simp: link_item_def intro!: transaction_retains)
next
  case (MDeleteItem j m a)
  then show ?thesis using assms by (auto simp: delete_item_def intro!: transaction_retains dest: delete_item_retains)
next
  case (MNote env b m j n e)
  then show ?thesis by (auto simp: put_note_def split: sum.split intro!: transaction_retains retains_refl dest: note_retains)
qed

lemma run_retains: "list_all (\<lambda>x. \<not> deletes_item i x) xs \<Longrightarrow> retains i db (run matter_step db xs)"
  by (induction xs arbitrary: db) (auto intro: retains_refl retains_trans step_retains)

section \<open>Saving\<close>

lemma view_fields:
  assumes "saved_item_view x order = Inr v"
  shows "map_of v ''id'' = Some (JStr (si_id x))" and "map_of v ''payload_hash'' = Some (JStr (si_payload_hash x))"
    and "\<exists>p. read_json (si_payload_json x) = Inr p \<and> map_of v ''payload'' = Some p"
  using assms by (auto simp: saved_item_view_def bind_result_Inr)

lemma view_of_payload:
  assumes "saved_item_view x None = Inr v" and "payload_of x = payload_of y"
  obtains w where "saved_item_view y None = Inr w" and "map_of w ''payload'' = map_of v ''payload''"
    and "map_of w ''id'' = map_of v ''id''" and "map_of w ''payload_hash'' = map_of v ''payload_hash''"
  using assms(1) payload_of_fields [OF assms(2)] that by (auto simp: saved_item_view_def bind_result_Inr)

text \<open>A successful save leaves a receipt for its key and the item that it returned.\<close>

lemma saved:
  assumes "save_body env m kind content source key operation db = Inr (v, db')"
  obtains r x where "r \<in> set (save_receipts db')" and "rc_idempotency_key r = key" and "rc_source_identity r = source"
    and "rc_item_id r = si_id x" and "x \<in> set (saved_items db')" and "saved_item_view x None = Inr v"
proof -
  have item: thesis' if "get_item i db' = Inr v" "\<And>x. find_item db' i = Some x \<Longrightarrow> saved_item_view x None = Inr v \<Longrightarrow> thesis'" for i thesis'
    using that by (auto simp: get_item_def split: option.splits)
  show ?thesis
  proof (cases "select_first (\<lambda>r. rc_idempotency_key r = key) (save_receipts db)")
    case None
    let ?x = "new_item env kind content source operation"
    let ?r = "\<lparr>rc_idempotency_key = key, rc_source_identity = si_source_identity ?x, rc_item_id = si_id ?x, rc_created_at = me_now env\<rparr>"
    obtain db1 where d: "insert_receipt ?r (link_row m (si_id ?x) (me_now env) (db\<lparr>saved_items := saved_items db @ [?x]\<rparr>)) = Inr db1"
      "refresh_fts m db1 = Inr db'" "get_item (si_id ?x) db' = Inr v"
      using assms None by (auto simp: save_body_def save_new_def bind_result_Inr split: if_splits)
    obtain fs where "db' = db1\<lparr>matter_fts := fs\<rparr>" by (rule refresh_fts_only [OF d(2)])
    then have "?r \<in> set (save_receipts db')" using d(1) by (auto simp: insert_receipt_def split: if_splits)
    then show ?thesis
      using item [OF d(3)] that [of ?r] find_item_Some by (metis new_item_def save_receipt_row.select_convs(1-3) saved_item_row.select_convs(6))
  next
    case (Some r)
    then have r: "r \<in> set (save_receipts db)" "rc_idempotency_key r = key" using select_first_Some by fastforce+
    have s: "rc_source_identity r = source" and rf: "refresh_fts m (link_row m (rc_item_id r) (me_now env) db) = Inr db'"
      and g: "get_item (rc_item_id r) db' = Inr v"
      using assms Some by (auto simp: save_body_def link_and_view_def bind_result_Inr split: if_splits)
    have "r \<in> set (save_receipts db')" using r(1) rf by (auto elim!: refresh_fts_only)
    then show ?thesis using item [OF g] that [of r] r(2) s find_item_Some by metis
  qed
qed

text \<open>A save under a key that has a receipt returns the item of the receipt.\<close>

lemma save_again:
  assumes ok: "research_ok db" and m: "m \<in> matter_ids db" and r: "r \<in> set (save_receipts db)" "rc_idempotency_key r = key" "rc_source_identity r = source"
    and x: "holds_item x db" "si_id x = rc_item_id r" "saved_item_view x None = Inr v"
  obtains w db' where "save_body env m kind content source key operation db = Inr (w, db')"
    and "map_of w ''payload'' = map_of v ''payload''" and "map_of w ''id'' = map_of v ''id''" and "map_of w ''payload_hash'' = map_of v ''payload_hash''"
    and "saved_items db' = saved_items db" and "save_receipts db' = save_receipts db" and "linked db' m (rc_item_id r)"
proof -
  have keys: "distinct (map rc_idempotency_key (save_receipts db))" "distinct (map si_id (saved_items db))"
    using ok by (simp_all add: research_ok_def keys_ok_def)
  have sel: "select_first (\<lambda>q. rc_idempotency_key q = key) (save_receipts db) = Some r"
    using select_first_key [OF keys(1) r(1)] r(2) by simp
  obtain y where y: "y \<in> set (saved_items db)" "payload_of x = payload_of y" using x(1) by (auto simp: holds_item_def)
  have yi: "si_id y = rc_item_id r" using payload_of_fields [OF y(2)] x(2) by simp
  have find: "find_item db (rc_item_id r) = Some y" using select_first_key [OF keys(2) y(1)] yi by (simp add: find_item_def)
  obtain w where w: "saved_item_view y None = Inr w" "map_of w ''payload'' = map_of v ''payload''" "map_of w ''id'' = map_of v ''id''"
    "map_of w ''payload_hash'' = map_of v ''payload_hash''" by (rule view_of_payload [OF x(3) y(2)])
  let ?l = "link_row m (rc_item_id r) (me_now env) db"
  have "research_ok ?l" by (rule link_row_ok [OF ok m receipt_item [OF ok r(1)]])
  then obtain fs where rf: "refresh_fts m ?l = Inr (?l\<lparr>matter_fts := fs\<rparr>)" by (rule refresh_fts_effect)
  have "find_item (?l\<lparr>matter_fts := fs\<rparr>) (rc_item_id r) = Some y" using find by (simp add: find_item_def)
  then have "save_body env m kind content source key operation db = Inr (w, ?l\<lparr>matter_fts := fs\<rparr>)"
    using sel m r(3) rf w(1) by (simp add: save_body_def find_matter_None link_and_view_def get_item_def)
  moreover have "linked (?l\<lparr>matter_fts := fs\<rparr>) m (rc_item_id r)" by (simp add: linked_link_row)
  ultimately show ?thesis using that w by simp
qed

lemma save_fresh:
  assumes ok: "research_ok db" and m: "m \<in> matter_ids db" and fresh: "me_uuid env \<notin> item_ids db" "me_uuid env \<noteq> []"
    and key: "key \<notin> set (map rc_idempotency_key (save_receipts db))" and payload: "plain (JObj payload)"
  obtains v db' where "save_body env m kind (dumps_unicode (JObj payload)) source key operation db = Inr (v, db')"
    and "map_of v ''id'' = Some (JStr (me_uuid env))" and "map_of v ''payload'' = Some (key_sorted (JObj payload))"
proof -
  let ?x = "new_item env kind (dumps_unicode (JObj payload)) source operation"
  let ?r = "\<lparr>rc_idempotency_key = key, rc_source_identity = si_source_identity ?x, rc_item_id = si_id ?x, rc_created_at = me_now env\<rparr>"
  let ?db1 = "db\<lparr>saved_items := saved_items db @ [?x]\<rparr>"
  let ?db2 = "link_row m (si_id ?x) (me_now env) ?db1"
  let ?db3 = "?db2\<lparr>save_receipts := save_receipts ?db2 @ [?r]\<rparr>"
  have x: "si_id ?x = me_uuid env" "si_parent_item_id ?x = None" "si_payload_json ?x = dumps_unicode (JObj payload)"
    "si_payload_hash ?x = sha_hex (si_payload_json ?x)" by (simp_all add: new_item_def)
  have ok1: "research_ok ?db1" using fresh x by (intro insert_item_ok [OF ok]) simp_all
  have mem: "m \<in> matter_ids ?db1" "si_id ?x \<in> item_ids ?db1" using m by (simp_all add: matter_ids_def item_ids_def)
  have rc: "insert_receipt ?r ?db2 = Inr ?db3" using key by (simp add: insert_receipt_def)
  have "research_ok ?db3" by (rule insert_receipt_ok [OF rc link_row_ok [OF ok1 mem]]) (simp add: receipt_ok_def)
  then obtain fs where rf: "refresh_fts m ?db3 = Inr (?db3\<lparr>matter_fts := fs\<rparr>)" by (rule refresh_fts_effect)
  have "select_first (\<lambda>y. si_id y = me_uuid env) (saved_items db) = None"
    using fresh(1) find_item_None [of db "me_uuid env"] by (simp add: find_item_def)
  then have find: "find_item (?db3\<lparr>matter_fts := fs\<rparr>) (si_id ?x) = Some ?x" by (simp add: find_item_def x(1))
  have "loads (dumps_unicode (JObj payload) @ []) = Some (key_sorted (JObj payload))" by (rule loads_unicode [OF payload]) simp
  then have "read_json (si_payload_json ?x) = Inr (key_sorted (JObj payload))" by (simp add: read_json_def x(3))
  then obtain v where v: "saved_item_view ?x None = Inr v" "map_of v ''payload'' = Some (key_sorted (JObj payload))"
    using view_fields(3) [of ?x None] by (auto simp: saved_item_view_def bind_result_Inr)
  have "select_first (\<lambda>q. rc_idempotency_key q = key) (save_receipts db) = None" using key by (auto simp: select_first_None)
  moreover have "si_id ?x \<notin> set (map si_id (saved_items db))" using fresh(1) x(1) by (simp add: item_ids_def)
  ultimately have "save_body env m kind (dumps_unicode (JObj payload)) source key operation db = Inr (v, ?db3\<lparr>matter_fts := fs\<rparr>)"
    using m rc rf find v(1) by (simp add: save_body_def save_new_def find_matter_None get_item_def)
  then show ?thesis using that v view_fields(1) [OF v(1)] x(1) by simp
qed

end
