(* ===== verification/Matters_Claims.thy ===== *)
theory Matters_Claims
  imports Matters_Props
begin

text \<open>
  What the matter service promises: referential integrity in every reachable state, full-text rows that
  hold exactly the text of their matter, saves that happen once per idempotency key, updates that are
  never lost, and deletions that leave no reference behind.
\<close>

section \<open>Saving\<close>

text \<open>Two matters, as the service creates them.\<close>

definition sample_matter :: "string \<Rightarrow> string \<Rightarrow> matter_row" where
  "sample_matter m t =
     \<lparr>ma_id = m, ma_title = t, ma_description = ''No heat'', ma_tags_json = tags_text [''heat''], ma_archived = False,
      ma_revision = 1, ma_created_at = 0, ma_updated_at = 0\<rparr>"

definition sample_matters :: research_db where
  "sample_matters =
     \<lparr>matters = [sample_matter ''m1'' ''Heat'', sample_matter ''m2'' ''Repairs''], saved_items = [], matter_items = [],
      matter_notes = [], save_receipts = [], comparison_reviews = [],
      matter_fts = [\<lparr>ft_matter_id = ''m1'', ft_item_id = [], ft_title = ''Heat'', ft_body = ''No heat '', ft_tags = ''heat''\<rparr>,
                    \<lparr>ft_matter_id = ''m2'', ft_item_id = [], ft_title = ''Repairs'', ft_body = ''No heat '', ft_tags = ''heat''\<rparr>]\<rparr>"

lemma sample_matters_ok: "research_ok sample_matters" "indexed_except {} sample_matters"
proof -
  show "research_ok sample_matters" by (auto simp: research_ok_defs sample_matters_def sample_matter_def)
  have "fts_row_of sample_matters (sample_matter m t) =
      Inr \<lparr>ft_matter_id = m, ft_item_id = [], ft_title = t, ft_body = ''No heat '', ft_tags = ''heat''\<rparr>" for m t
    by (simp add: fts_row_of_def sample_matter_def read_tags join_tags [of _ "[_]", simplified] matter_linked_items_def searchable_notes_def)
      (simp add: sample_matters_def)
  then show "indexed_except {} sample_matters"
    by (simp add: indexed_except_def indexed_def matter_ids_def) (simp add: sample_matters_def sample_matter_def)
qed



section \<open>Integrity\<close>



text \<open>
  The full-text rows are exact. Every operation other than a note on an item that several matters
  share leaves each matter with one full-text row, which holds the matter's title, tags and description,
  the notes on it and on its items, and the payloads of its items, as they are now.
\<close>

theorem index_stays_exact:
  assumes "research_ok db" and "indexed_except {} db" and "\<not> shared_note db x" and "r \<in> set (matters (matter_step db x))"
  shows "\<exists>f. fts_row_of (matter_step db x) r = Inr f \<and>
    filter (\<lambda>f. ft_matter_id f = ma_id r) (matter_fts (matter_step db x)) = [f]"
proof -
  have "indexed_except {} (matter_step db x)"
    using matter_step_ok(2) [OF assms(1,3)] assms(2) by (simp add: keeps_def)
  with assms(4) show ?thesis by (auto simp: indexed_except_def indexed_def)
qed

theorem index_stays_exact_witness:
  "\<exists>f. fts_row_of (matter_step sample_matters (MDelete ''m2'' True)) (sample_matter ''m1'' ''Heat'') = Inr f \<and>
     filter (\<lambda>f. ft_matter_id f = ''m1'') (matter_fts (matter_step sample_matters (MDelete ''m2'' True))) = [f]"
proof -
  have "sample_matter ''m1'' ''Heat'' \<in> set (matters (matter_step sample_matters (MDelete ''m2'' True)))"
    by (simp add: delete_matter_def transaction_def delete_matter_body_def find_matter_def sample_matters_def
        delete_matter_row_def delete_fts_def sample_matter_def)
  from index_stays_exact [OF sample_matters_ok _ this] show ?thesis by (simp add: sample_matter_def)
qed

section \<open>Notes on shared items\<close>

lemma join_snoc: "length (join '' '' (xs @ [b])) = (if xs = [] then length b else length (join '' '' xs) + 1 + length b)"
proof (induction xs rule: induct_list012)
  case (3 x y zs)
  then show ?case by simp
qed simp_all

lemma join_longer: "length a < length b \<Longrightarrow> length (join '' '' (a # ps)) < length (join '' '' (b # ps))"
  by (cases ps) simp_all

lemma distinct_item_matters:
  assumes "research_ok db"
  shows "distinct (item_matters db i)"
proof -
  have "distinct (map (\<lambda>l. (mi_matter_id l, mi_item_id l)) (matter_items db))" using assms by (simp add: research_ok_def keys_ok_def)
  then have "distinct (map mi_matter_id (filter (\<lambda>l. mi_item_id l = i) (matter_items db)))"
    by (induction "matter_items db" arbitrary: db) (auto simp: distinct_map inj_on_def)
  then show ?thesis by (simp add: item_matters_def)
qed

text \<open>A new note on an item: it is appended, and the row of the first matter of the item is refreshed.\<close>

lemma new_item_note:
  assumes "research_ok db" and "item_matters db i = m # ms" and "i \<noteq> []" and "strip body \<noteq> []"
    and "put_note env (JStr body) None (Some i) None expected db = (Inr v, db')"
  obtains n where "mn_item_id n = Some i" and "mn_body n \<noteq> []" and "refresh_fts m (db\<lparr>matter_notes := matter_notes db @ [n]\<rparr>) = Inr db'"
proof -
  have g: "given (Some i)" "\<not> given None" using assms(3) by (simp_all add: given_def)
  obtain b where b: "bounded_text (JStr body) ''note'' 50000 False = Inr b" "put_note_body env b None (Some i) None expected db = Inr (v, db')"
    using assms(5) g by (auto simp: put_note_def transaction_commit split: sum.splits)
  then have bne: "b \<noteq> []" using assms(4) by (auto simp: bounded_text_def Let_def split: if_splits)
  let ?n = "\<lparr>mn_id = me_uuid env, mn_matter_id = None, mn_item_id = Some i, mn_body = b, mn_revision = 1,
               mn_created_at = me_now env, mn_updated_at = me_now env\<rparr>"
  let ?db1 = "db\<lparr>matter_notes := matter_notes db @ [?n]\<rparr>"
  have aff: "note_affects ?db1 None (Some i) = Some m"
    using assms(2) g item_matters_first [of i "matter_items db"] by (simp add: note_affects_def item_matters_def)
  obtain db1 where w: "write_note env b None (Some i) None expected db = Inr db1"
    and rf: "(if given (note_affects db1 None (Some i)) then refresh_fts (the (note_affects db1 None (Some i))) db1 else Inr db1) = Inr db'"
    by (rule put_note_bodyE [OF b(2)])
  have db1: "db1 = ?db1" using w g by (auto simp: write_note_def insert_note_def split: if_splits)
  have "linked db m i" using item_matters_set [of db i] assms(2) by auto
  then have "m \<noteq> []" using assms(1) by (auto simp: linked_iff research_ok_def links_ok_def keys_ok_def)
  then have "refresh_fts m ?db1 = Inr db'" using rf aff by (simp add: db1 given_def)
  then show ?thesis using that [of ?n] bne by simp
qed

lemma refresh_other:
  assumes "refresh_fts m db = Inr db'" and "k \<noteq> m"
  shows "filter (\<lambda>f. ft_matter_id f = k) (matter_fts db') = filter (\<lambda>f. ft_matter_id f = k) (matter_fts db)"
proof -
  have "ft_matter_id f = ma_id q" if "fts_row_of d q = Inr f" for f d q using that by (auto simp: fts_row_of_def bind_result_Inr)
  moreover have "filter (\<lambda>f. ft_matter_id f = k) (delete_where (\<lambda>f. ft_matter_id f = m) xs) = filter (\<lambda>f. ft_matter_id f = k) xs" for xs
    using assms(2) by (induction xs) (auto simp: delete_where_def)
  ultimately show ?thesis
    using assms find_matter_Some [of db m] by (auto simp: refresh_fts_def delete_fts_def bind_result_Inr split: option.splits)
qed

text \<open>
  A note on a shared item reaches the full-text row of one matter only. When a new note that is not
  empty is put on an item of two matters, the full-text row of the matter that was linked later no
  longer holds the text of that matter.
\<close>

theorem shared_item_note_unindexed:
  assumes "research_ok db" and "indexed_except {} db" and "item_matters db i = m # ms" and "k \<in> set ms" and "i \<noteq> []"
    and "put_note env (JStr body) None (Some i) None expected db = (Inr v, db')" and "strip body \<noteq> []"
    and "r \<in> set (matters db)" and "ma_id r = k"
  shows "r \<in> set (matters db') \<and> \<not> indexed db' r"
proof -
  obtain n where n: "mn_item_id n = Some i" "mn_body n \<noteq> []" and rf: "refresh_fts m (db\<lparr>matter_notes := matter_notes db @ [n]\<rparr>) = Inr db'"
    by (rule new_item_note [OF assms(1,3,5,7,6)])
  let ?db1 = "db\<lparr>matter_notes := matter_notes db @ [n]\<rparr>"
  have "k \<noteq> m" using distinct_item_matters [OF assms(1), of i] assms(3,4) by auto
  from refresh_other [OF rf this]
  have keep: "filter (\<lambda>f. ft_matter_id f = k) (matter_fts db') = filter (\<lambda>f. ft_matter_id f = k) (matter_fts db)" by simp
  have link: "linked db k i" using assms(3,4) item_matters_set [of db i] by auto
  obtain fs where fs: "db' = ?db1\<lparr>matter_fts := fs\<rparr>" by (rule refresh_fts_only [OF rf])
  obtain f where f: "fts_row_of db r = Inr f" "filter (\<lambda>f. ft_matter_id f = k) (matter_fts db) = [f]"
    using assms(2,8,9) by (auto simp: indexed_except_def indexed_def)
  have l1: "linked ?db1 = linked db" by (rule linked_cong) simp
  have sn: "searchable_notes ?db1 k = searchable_notes db k @ [n]" using link n(1) by (simp add: searchable_notes_def l1 cong: option.case_cong)
  have li: "matter_linked_items ?db1 k = matter_linked_items db k" by (simp add: matter_linked_items_def l1)
  have "length (join '' '' (map mn_body (searchable_notes db k))) < length (join '' '' (map mn_body (searchable_notes ?db1 k)))"
    unfolding sn using n(2) join_snoc [of "map mn_body (searchable_notes db k)" "mn_body n"] by (cases "searchable_notes db k") auto
  then have "length (ft_body f) < length (ft_body f')" if "fts_row_of ?db1 r = Inr f'" for f'
    using f(1) that assms(9) by (auto simp: fts_row_of_def bind_result_Inr li join_longer)
  then have "\<not> indexed db' r" using f(2) keep assms(9) by (auto simp: indexed_def fs)
  then show ?thesis using assms(8) by (simp add: fs)
qed

definition shared_item_row :: saved_item_row where
  "shared_item_row = new_item \<lparr>me_uuid = ''i1'', me_now = 1\<rparr> ''search'' ''{}'' ''run'' None"

definition shared_matters :: research_db where
  "shared_matters = sample_matters\<lparr>saved_items := [shared_item_row],
     matter_items := [\<lparr>mi_matter_id = ''m1'', mi_item_id = ''i1'', mi_display_order = 1, mi_created_at = 1\<rparr>,
                      \<lparr>mi_matter_id = ''m2'', mi_item_id = ''i1'', mi_display_order = 1, mi_created_at = 2\<rparr>],
     matter_fts := [\<lparr>ft_matter_id = ''m1'', ft_item_id = ''i1'', ft_title = ''Heat'', ft_body = ''No heat  {}'', ft_tags = ''heat''\<rparr>,
                    \<lparr>ft_matter_id = ''m2'', ft_item_id = ''i1'', ft_title = ''Repairs'', ft_body = ''No heat  {}'', ft_tags = ''heat''\<rparr>]\<rparr>"

lemma shared_matters_ok: "research_ok shared_matters" "indexed_except {} shared_matters"
proof -
  have i: "si_id shared_item_row = ''i1''" "si_parent_item_id shared_item_row = None" "si_payload_json shared_item_row = ''{}''"
    "si_payload_hash shared_item_row = sha_hex ''{}''" by (simp_all add: shared_item_row_def new_item_def)
  show "research_ok shared_matters"
    by (auto simp: research_ok_defs shared_matters_def sample_matters_def sample_matter_def i)
  have "fts_row_of shared_matters (sample_matter m t) =
      Inr \<lparr>ft_matter_id = m, ft_item_id = ''i1'', ft_title = t, ft_body = ''No heat  {}'', ft_tags = ''heat''\<rparr>" if "m \<in> {''m1'', ''m2''}" for m t
    using that
    by (simp add: fts_row_of_def sample_matter_def read_tags join_tags [of _ "[_]", simplified] matter_linked_items_def searchable_notes_def)
      (auto simp add: shared_matters_def sample_matters_def linked_def i)
  then show "indexed_except {} shared_matters"
    by (simp add: indexed_except_def indexed_def matter_ids_def) (simp add: shared_matters_def sample_matters_def sample_matter_def)
qed

lemma new_note_succeeds:
  assumes "research_ok db" and "bounded_text body ''note'' 50000 False = Inr b" and "i \<in> item_ids db"
    and "me_uuid env \<notin> set (map mn_id (matter_notes db))"
  obtains v db' where "put_note env body None (Some i) None expected db = (Inr v, db')"
proof -
  have ne: "i \<noteq> []" using assms(1,3) by (auto simp: research_ok_def keys_ok_def)
  then have g: "given (Some i)" "\<not> given None" by (simp_all add: given_def)
  obtain r where r: "find_item db i = Some r" using assms(3) by (metis find_item_None not_None_eq)
  let ?n = "\<lparr>mn_id = me_uuid env, mn_matter_id = None, mn_item_id = Some i, mn_body = b, mn_revision = 1,
               mn_created_at = me_now env, mn_updated_at = me_now env\<rparr>"
  let ?db1 = "db\<lparr>matter_notes := matter_notes db @ [?n]\<rparr>"
  have w: "write_note env b None (Some i) None expected db = Inr ?db1" using assms(4) r g by (simp add: write_note_def insert_note_def)
  have "research_ok ?db1" using write_note_effect(1) [OF w assms(1)] g assms(3) by simp
  then obtain fs where "(if given (note_affects ?db1 None (Some i)) then refresh_fts (the (note_affects ?db1 None (Some i))) ?db1 else Inr ?db1) =
      Inr (?db1\<lparr>matter_fts := fs\<rparr>)"
  proof (cases "given (note_affects ?db1 None (Some i))")
    case True
    then show ?thesis using refresh_fts_effect [OF \<open>research_ok ?db1\<close>, of "the (note_affects ?db1 None (Some i))"] that by auto
  next
    case False
    then show ?thesis using that [of "matter_fts db"] by simp
  qed
  moreover have "select_first (\<lambda>n. mn_id n = me_uuid env) (matter_notes db) = None"
    using assms(4) unfolding select_first_None by (metis imageI list.set_map)
  ultimately have "put_note_body env b None (Some i) None expected db = Inr (note_view ?n, ?db1\<lparr>matter_fts := fs\<rparr>)"
    using w g r by (simp add: put_note_body_def write_note_def read_note_def)
  then have "put_note env body None (Some i) None expected db = (Inr (note_view ?n), ?db1\<lparr>matter_fts := fs\<rparr>)"
    using assms(2) g by (simp add: put_note_def transaction_Inr)
  then show ?thesis using that by blast
qed

theorem shared_item_note_unindexed_witness:
  "\<not> indexed (snd (put_note \<lparr>me_uuid = ''n1'', me_now = 3\<rparr> (JStr ''mould'') None (Some ''i1'') None None shared_matters)) (sample_matter ''m2'' ''Repairs'')"
proof -
  have b: "bounded_text (JStr ''mould'') ''note'' 50000 False = Inr ''mould''" "strip ''mould'' \<noteq> []" by code_simp+
  have t: "''i1'' \<in> item_ids shared_matters" "item_matters shared_matters ''i1'' = [''m1'', ''m2'']"
    "me_uuid \<lparr>me_uuid = ''n1'', me_now = 3\<rparr> \<notin> set (map mn_id (matter_notes shared_matters))"
    "sample_matter ''m2'' ''Repairs'' \<in> set (matters shared_matters)"
    by (simp_all add: shared_matters_def sample_matters_def item_ids_def shared_item_row_def new_item_def item_matters_def)
  obtain v db' where "put_note \<lparr>me_uuid = ''n1'', me_now = 3\<rparr> (JStr ''mould'') None (Some ''i1'') None None shared_matters = (Inr v, db')"
    by (rule new_note_succeeds [OF shared_matters_ok(1) b(1) t(1,3)])
  with shared_item_note_unindexed [OF shared_matters_ok t(2) _ _ this b(2) t(4), of "''m2''"] show ?thesis
    by (simp add: sample_matter_def)
qed

section \<open>Concurrent updates\<close>

text \<open>Every row of the matter has at least the revision \<open>k\<close>.\<close>

definition min_revision :: "string \<Rightarrow> int \<Rightarrow> research_db \<Rightarrow> bool" where
  "min_revision m k db \<longleftrightarrow> (\<forall>r\<in>set (matters db). ma_id r = m \<longrightarrow> k \<le> ma_revision r)"

fun creates_matter :: "string \<Rightarrow> matter_op \<Rightarrow> bool" where
  "creates_matter m (MCreate env t d g) = (me_uuid env = m)"
| "creates_matter m _ = False"

lemma transaction_min_revision:
  assumes "\<And>v db'. body db = Inr (v, db') \<Longrightarrow> matters db' = matters db" and "min_revision m k db"
  shows "min_revision m k (snd (transaction body db))"
  by (rule transaction_invariant [where P = "min_revision m k", OF assms(2)]) (use assms in \<open>simp add: min_revision_def\<close>)

lemma refresh_matters: "refresh_fts m db = Inr db' \<Longrightarrow> matters db' = matters db"
  by (auto elim!: refresh_fts_only)

lemma update_matter_revision:
  assumes "update_matter_body env n c e db = Inr (u, db')" and "min_revision m k db"
  shows "min_revision m k db'" and "n = m \<Longrightarrow> distinct (map ma_id (matters db)) \<Longrightarrow> min_revision m (e + 1) db'"
proof -
  let ?p = "\<lambda>r. ma_id r = n \<and> ma_revision r = e"
  have one: "rowcount ?p (matters db) = 1"
    and "refresh_fts n (db\<lparr>matters := update_where ?p (apply_changes c (e + 1) (me_now env)) (matters db)\<rparr>) = Inr db'"
    using assms(1) by (auto simp: update_matter_body_def Let_def bind_result_Inr split: if_splits)
  then have ms: "matters db' = update_where ?p (apply_changes c (e + 1) (me_now env)) (matters db)" by (auto elim!: refresh_fts_only)
  show "min_revision m k db'" using assms(2) by (auto simp: min_revision_def ms apply_changes_def)
  assume "n = m" and d: "distinct (map ma_id (matters db))"
  obtain r where r: "r \<in> set (matters db)" "ma_id r = n" "ma_revision r = e" by (rule rowcount_oneE [OF one]) simp
  have same: "ma_revision q = e" if "q \<in> set (matters db)" "ma_id q = n" for q
    using distinct_key_unique [OF d that(1) r(1)] that r by simp
  show "min_revision m (e + 1) db'"
    unfolding min_revision_def ms
  proof (intro ballI impI)
    fix q assume q: "q \<in> set (update_where ?p (apply_changes c (e + 1) (me_now env)) (matters db))" "ma_id q = m"
    from q(1) show "e + 1 \<le> ma_revision q"
    proof (rule in_update_where)
      show ?thesis if "q = apply_changes c (e + 1) (me_now env) x" for x using that by (simp add: apply_changes_def)
      show ?thesis if x: "q \<in> set (matters db)" "\<not> ?p q"
      proof -
        have "ma_id q = n" using q(2) \<open>n = m\<close> by simp
        with same [OF x(1) this] x(2) show ?thesis by simp
      qed
    qed
  qed
qed

lemma delete_item_matters: "delete_item_body i n a db = Inr (v, db') \<Longrightarrow> matters db' = matters db"
  by (auto simp: delete_item_body_def remove_item_def delete_item_row_def retire_references_def unlink_row_def Let_def bind_result_Inr
      split: if_splits elim!: refresh_all_only refresh_fts_only)

lemma put_note_matters:
  assumes "put_note_body env b n i nid e db = Inr (v, db')"
  shows "matters db' = matters db"
proof -
  obtain db1 where "write_note env b n i nid e db = Inr db1"
    "(if given (note_affects db1 n i) then refresh_fts (the (note_affects db1 n i)) db1 else Inr db1) = Inr db'"
    by (rule put_note_bodyE [OF assms])
  then have "matters db1 = matters db" "matters db' = matters db1"
    by (auto simp: write_note_def edit_note_def insert_note_def Let_def split: if_splits option.splits dest: refresh_matters)
  then show ?thesis by simp
qed

lemma step_min_revision:
  assumes "min_revision m k db" and "\<not> creates_matter m x"
  shows "min_revision m k (matter_step db x)"
proof (cases x)
  case (MCreate env t d g)
  have "min_revision m k db'" if "create_matter_body env a b c db = Inr (u, db')" for a b c u db'
    using that assms MCreate by (auto simp: create_matter_body_def bind_result_Inr min_revision_def split: if_splits dest!: refresh_matters)
  then show ?thesis using MCreate assms(1)
    by (auto simp: create_matter_def split: sum.split intro!: transaction_invariant [where P = "min_revision m k"])
next
  case (MUpdate env n ch e)
  then show ?thesis using assms(1) update_matter_revision(1)
    by (auto simp: update_matter_def split: sum.split intro!: transaction_invariant [where P = "min_revision m k"])
next
  case (MDelete n a)
  have "min_revision m k db'" if "delete_matter_body n a db = Inr (v, db')" for v db'
    using that assms(1) by (auto simp: delete_matter_body_def delete_matter_row_def delete_fts_def min_revision_def split: option.splits if_splits)
  then show ?thesis using MDelete assms(1) by (auto simp: delete_matter_def intro!: transaction_invariant [where P = "min_revision m k"])
next
  case (MSave env n kd p s key op)
  have "matters db' = matters db" if "save_body env n kd c a b op db = Inr (v, db')" for a b c v db'
    using that by (auto simp: save_body_def save_new_def link_and_view_def insert_receipt_def bind_result_Inr split: if_splits option.splits dest!: refresh_matters)
  then show ?thesis using MSave assms(1) by (auto simp: save_payload_def split: sum.split intro!: transaction_min_revision)
next
  case (MLink env n i)
  have "matters db' = matters db" if "link_body env n i db = Inr (v, db')" for v db'
    using that by (auto simp: link_body_def link_and_view_def bind_result_Inr split: if_splits dest!: refresh_matters)
  then show ?thesis using MLink assms(1) by (auto simp: link_item_def intro!: transaction_min_revision)
next
  case (MDeleteItem i n a)
  then show ?thesis using assms(1) delete_item_matters by (auto simp: delete_item_def intro!: transaction_min_revision)
next
  case (MNote env b n i nid e)
  then show ?thesis using assms(1) put_note_matters by (auto simp: put_note_def split: sum.split intro!: transaction_min_revision)
qed

lemma run_min_revision:
  "min_revision m k db \<Longrightarrow> list_all (\<lambda>x. \<not> creates_matter m x) xs \<Longrightarrow> min_revision m k (run matter_step db xs)"
  by (induction xs arbitrary: db) (auto intro: step_min_revision)

text \<open>
  C15: No update of a matter is lost. After a client updated a matter from revision \<open>e\<close>, another client
  that also loaded revision \<open>e\<close> cannot overwrite it: its update is refused and changes nothing, whatever
  the service did in between (identifiers of new matters are fresh).
\<close>

theorem no_update_lost:
  assumes "research_ok db" and "update_matter env m changes e db = (Inr v, db1)"
    and "list_all (\<lambda>x. \<not> creates_matter m x) ops" and "run matter_step db1 ops = db2"
    and "matter_values changes' = Inr c"
  shows "update_matter env' m changes' e db2 =
    (Inl (if m \<in> matter_ids db2 then MatterConflict ''Matter changed since it was loaded; refresh and retry.''
          else MatterError ''Matter not found.''), db2)"
proof -
  obtain c1 u where b: "update_matter_body env m c1 e db = Inr (u, db1)"
    using assms(2) by (auto simp: update_matter_def then_read_def transaction_def split: sum.splits prod.splits)
  have all: "min_revision m (Min (insert 0 (ma_revision ` set (matters db)))) db" by (auto simp: min_revision_def)
  have "distinct (map ma_id (matters db))" using assms(1) by (simp add: research_ok_def keys_ok_def)
  from update_matter_revision(2) [OF b all refl this] have "min_revision m (e + 1) db1" .
  then have "min_revision m (e + 1) db2" using run_min_revision [OF _ assms(3)] assms(4) by blast
  then have "rowcount (\<lambda>r. ma_id r = m \<and> ma_revision r = e) (matters db2) = 0"
    by (auto simp: rowcount_zero min_revision_def)
  then show ?thesis
    using assms(5) by (simp add: update_matter_def update_matter_body_def transaction_def then_read_def find_matter_None)
qed

theorem no_update_lost_witness:
  "\<exists>v db1. update_matter \<lparr>me_uuid = ''u'', me_now = 5\<rparr> ''m1'' [(''archived'', JBool True)] 1 sample_matters = (Inr v, db1) \<and>
     fst (update_matter \<lparr>me_uuid = ''u'', me_now = 6\<rparr> ''m1'' [(''archived'', JBool False)] 1 db1) =
       Inl (MatterConflict ''Matter changed since it was loaded; refresh and retry.'')"
proof -
  let ?c = "\<lambda>b. \<lparr>ch_title = None, ch_description = None, ch_tags_json = None, ch_archived = Some b\<rparr>"
  let ?p = "\<lambda>r. ma_id r = ''m1'' \<and> ma_revision r = 1"
  let ?db = "sample_matters\<lparr>matters := update_where ?p (apply_changes (?c True) (1 + 1) 5) (matters sample_matters)\<rparr>"
  have c: "matter_values [(''archived'', JBool b)] = Inr (?c b)" for b
    by (simp add: matter_values_def optional_field_def changed_archived_def)
  have "research_ok ?db" by (rule update_matters_ok [OF sample_matters_ok(1)]) (simp_all add: apply_changes_def)
  then obtain fs where rf: "refresh_fts ''m1'' ?db = Inr (?db\<lparr>matter_fts := fs\<rparr>)" by (rule refresh_fts_effect)
  have b: "update_matter_body \<lparr>me_uuid = ''u'', me_now = 5\<rparr> ''m1'' (?c True) 1 sample_matters = Inr ((), ?db\<lparr>matter_fts := fs\<rparr>)"
    using rf by (simp add: update_matter_body_def rowcount_def) (simp add: sample_matters_def sample_matter_def)
  have "\<exists>v. get_matter ''m1'' (?db\<lparr>matter_fts := fs\<rparr>) = Inr v"
    by (simp add: get_matter_def find_matter_def sample_matters_def sample_matter_def update_where_def matter_summary_def
        apply_changes_def read_tags ordered_items_def)
  then obtain v where u: "update_matter \<lparr>me_uuid = ''u'', me_now = 5\<rparr> ''m1'' [(''archived'', JBool True)] 1 sample_matters = (Inr v, ?db\<lparr>matter_fts := fs\<rparr>)"
    using b by (auto simp: update_matter_def c transaction_Inr then_read_def)
  moreover have "''m1'' \<in> matter_ids (?db\<lparr>matter_fts := fs\<rparr>)"
    by (simp add: matter_ids_def sample_matters_def sample_matter_def apply_changes_def)
  ultimately show ?thesis
    using no_update_lost [OF sample_matters_ok(1) u, of "[]" "?db\<lparr>matter_fts := fs\<rparr>" "[(''archived'', JBool False)]" "?c False"] c [of False] by auto
qed

section \<open>Deletion\<close>

text \<open>
  Deleting a saved item succeeds and leaves nothing behind: no row refers to it any more, its key can
  be used again, and every other item, link, note, receipt and review is still there (an item that was
  derived from it only forgets its parent).
\<close>

theorem delete_item_clean:
  assumes "research_ok db" and "i \<in> item_ids db"
  shows "\<exists>v db'. delete_item i None True db = (Inr v, db') \<and> i \<notin> item_ids db' \<and> \<not> item_referenced i db' \<and>
    matters db' = matters db \<and>
    map payload_of (saved_items db') = map payload_of (filter (\<lambda>x. si_id x \<noteq> i) (saved_items db)) \<and>
    matter_items db' = filter (\<lambda>l. mi_item_id l \<noteq> i) (matter_items db) \<and>
    matter_notes db' = filter (\<lambda>n. mn_item_id n \<noteq> Some i) (matter_notes db) \<and>
    save_receipts db' = filter (\<lambda>r. rc_item_id r \<noteq> i) (save_receipts db) \<and>
    comparison_reviews db' = filter (\<lambda>r. rv_item_id r \<noteq> i) (comparison_reviews db)"
proof -
  let ?r = "retire_references i db"
  obtain db1 db2 where d: "remove_item i None [] db = Inr db1" "delete_item_body i None True db =
      Inr (delete_item_preview i None (item_matters db i) [] True, db2)" "\<exists>fs. db2 = db1\<lparr>matter_fts := fs\<rparr>"
    using delete_item_effect [OF assms, of None] by (simp add: given_def) blast
  have db1: "delete_item_row i ?r = Inr db1" using d(1) by (simp add: remove_item_def given_def)
  have items: "saved_items db1 = delete_where (\<lambda>r. si_id r = i) (saved_items ?r)"
    and rest: "matters db1 = matters db" "matter_items db1 = filter (\<lambda>l. mi_item_id l \<noteq> i) (matter_items db)"
      "matter_notes db1 = filter (\<lambda>n. mn_item_id n \<noteq> Some i) (matter_notes db)"
      "save_receipts db1 = filter (\<lambda>r. rc_item_id r \<noteq> i) (save_receipts db)"
      "comparison_reviews db1 = filter (\<lambda>r. rv_item_id r \<noteq> i) (comparison_reviews db)"
    using db1 by (auto simp: delete_item_row_def retire_references_def delete_where_def split: if_splits)
  have "map payload_of (delete_where (\<lambda>r. si_id r = i) (update_where (\<lambda>r. si_parent_item_id r = Some i) (\<lambda>r. r\<lparr>si_parent_item_id := None\<rparr>) xs)) =
      map payload_of (filter (\<lambda>x. si_id x \<noteq> i) xs)" for xs
    by (induction xs) (auto simp: delete_where_def update_where_def payload_of_def)
  then have kept: "map payload_of (saved_items db1) = map payload_of (filter (\<lambda>x. si_id x \<noteq> i) (saved_items db))"
    by (simp add: items retire_references_def)
  have "i \<notin> item_ids db1" by (auto simp: item_ids_def items)
  moreover have "\<not> item_referenced i db1"
    using retired_free [of i db] by (auto simp: item_referenced_def list_ex_iff items rest)
  moreover have "delete_item i None True db = (Inr (delete_item_preview i None (item_matters db i) [] True), db2)"
    using d(2) by (simp add: delete_item_def transaction_Inr)
  ultimately show ?thesis using d(3) rest kept by (auto simp: item_ids_def item_referenced_def)
qed

theorem delete_item_clean_witness:
  "matter_items (snd (delete_item ''i1'' None True shared_matters)) = [] \<and> isl (fst (delete_item ''i1'' None True shared_matters)) = False"
proof -
  have i: "''i1'' \<in> item_ids shared_matters" by (simp add: shared_matters_def item_ids_def shared_item_row_def new_item_def)
  have "filter (\<lambda>l. mi_item_id l \<noteq> ''i1'') (matter_items shared_matters) = []" by (simp add: shared_matters_def)
  with delete_item_clean [OF shared_matters_ok(1) i] show ?thesis by auto
qed

end
