(* ===== verification/Regex.thy ===== *)
theory Regex
  imports Network
begin

text \<open>
  Regular expressions as Python's \<^verbatim>\<open>re\<close> matches them: ordered alternatives, greedy repetition with
  backtracking, word boundaries and numbered groups. A match is a pair of the position after it and the
  captured groups; \<open>matches\<close> lists the matches from a position in the order in which the backtracking
  engine tries them, so the first one is the one it returns. The bodies of the repetitions that occur are
  never empty. Patterns compiled with \<^verbatim>\<open>IGNORECASE\<close> are written with \<open>ci\<close>, which compares lower-case
  letters. The characters are those of Latin-1.
\<close>

section \<open>Expressions\<close>

text \<open>Classes of characters; \<open>Folded\<close> is a class of lower-case characters matched up to case.\<close>

datatype char_class =
    Is char
  | In string
  | Between char char
  | Digit
  | Space
  | Word
  | NotNewline
  | Folded char_class
  | Either char_class char_class

definition is_word_char :: "char \<Rightarrow> bool" where
  "is_word_char c \<longleftrightarrow> is_alnum c \<or> c = CHR ''_''"

fun in_class :: "char_class \<Rightarrow> char \<Rightarrow> bool" where
  "in_class (Is c) x \<longleftrightarrow> x = c"
| "in_class (In t) x \<longleftrightarrow> x \<in> set t"
| "in_class (Between a b) x \<longleftrightarrow> (of_char a :: nat) \<le> of_char x \<and> (of_char x :: nat) \<le> of_char b"
| "in_class Digit x \<longleftrightarrow> is_decimal x"
| "in_class Space x \<longleftrightarrow> is_space x"
| "in_class Word x \<longleftrightarrow> is_word_char x"
| "in_class NotNewline x \<longleftrightarrow> x \<noteq> CHR 0x0A"
| "in_class (Folded k) x \<longleftrightarrow> in_class k (lower_char x)"
| "in_class (Either k l) x \<longleftrightarrow> in_class k x \<or> in_class l x"

datatype re =
    Eps
  | Chr char_class
  | Seq re re
  | Alt re re
  | Star re
  | Rep nat nat re
  | Bound
  | Group nat re

type_synonym captures = "(nat \<times> string) list"

text \<open>\<^verbatim>\<open>\b\<close>: exactly one of the neighbouring characters is a word character.\<close>

definition at_boundary :: "string \<Rightarrow> nat \<Rightarrow> bool" where
  "at_boundary s i \<longleftrightarrow>
     ((0 < i \<and> i \<le> length s \<and> is_word_char (s ! (i - 1))) \<noteq> (i < length s \<and> is_word_char (s ! i)))"

section \<open>Matching\<close>

fun star_matches :: "(nat \<times> captures \<Rightarrow> (nat \<times> captures) list) \<Rightarrow> nat \<Rightarrow> nat \<times> captures \<Rightarrow> (nat \<times> captures) list" where
  "star_matches f 0 p = [p]"
| "star_matches f (Suc n) p = concat (map (\<lambda>q. if fst p < fst q then star_matches f n q else []) (f p)) @ [p]"

fun rep_matches :: "(nat \<times> captures \<Rightarrow> (nat \<times> captures) list) \<Rightarrow> nat \<Rightarrow> nat \<Rightarrow> nat \<times> captures \<Rightarrow> (nat \<times> captures) list" where
  "rep_matches f (Suc lo) hi p = concat (map (rep_matches f lo (hi - 1)) (f p))"
| "rep_matches f 0 0 p = [p]"
| "rep_matches f 0 (Suc hi) p = concat (map (rep_matches f 0 hi) (f p)) @ [p]"

fun matches :: "re \<Rightarrow> string \<Rightarrow> nat \<times> captures \<Rightarrow> (nat \<times> captures) list" where
  "matches Eps s p = [p]"
| "matches (Chr c) s p = (if fst p < length s \<and> in_class c (s ! fst p) then [(fst p + 1, snd p)] else [])"
| "matches (Seq a b) s p = concat (map (matches b s) (matches a s p))"
| "matches (Alt a b) s p = matches a s p @ matches b s p"
| "matches (Star a) s p = star_matches (matches a s) (length s - fst p) p"
| "matches (Rep lo hi a) s p = rep_matches (matches a s) lo hi p"
| "matches Bound s p = (if at_boundary s (fst p) then [p] else [])"
| "matches (Group n a) s p =
     map (\<lambda>q. (fst q, (n, take (fst q - fst p) (drop (fst p) s)) # snd q)) (matches a s p)"

record re_match =
  rm_start :: nat
  rm_end :: nat
  rm_groups :: captures

definition match_at :: "re \<Rightarrow> string \<Rightarrow> nat \<Rightarrow> re_match option" where
  "match_at r s i =
     (case matches r s (i, []) of [] \<Rightarrow> None | q # _ \<Rightarrow> Some \<lparr>rm_start = i, rm_end = fst q, rm_groups = snd q\<rparr>)"

fun first_match :: "re \<Rightarrow> string \<Rightarrow> nat list \<Rightarrow> re_match option" where
  "first_match r s [] = None"
| "first_match r s (i # is) = (case match_at r s i of None \<Rightarrow> first_match r s is | Some m \<Rightarrow> Some m)"

text \<open>\<^verbatim>\<open>pattern.search(text)\<close>.\<close>

definition re_search :: "re \<Rightarrow> string \<Rightarrow> re_match option" where
  "re_search r s = first_match r s [0..<length s + 1]"

definition found :: "re \<Rightarrow> string \<Rightarrow> bool" where
  "found r s \<longleftrightarrow> re_search r s \<noteq> None"

text \<open>\<^verbatim>\<open>match.group(n)\<close>: \<open>None\<close> when the group took no part.\<close>

definition group :: "nat \<Rightarrow> re_match \<Rightarrow> string option" where
  "group n m = map_of (rm_groups m) n"

definition matched :: "string \<Rightarrow> re_match \<Rightarrow> string" where
  "matched s m = take (rm_end m - rm_start m) (drop (rm_start m) s)"

text \<open>\<^verbatim>\<open>pattern.finditer(text)\<close> for patterns that do not match the empty string: the next search starts at the end of a match.\<close>

function finditer_from :: "re \<Rightarrow> string \<Rightarrow> nat \<Rightarrow> re_match list" where
  "finditer_from r s i =
     (case first_match r s [i..<length s + 1] of
        None \<Rightarrow> []
      | Some m \<Rightarrow> if i < rm_end m \<and> i \<le> length s then m # finditer_from r s (rm_end m) else [m])"
  by auto
termination by (relation "measure (\<lambda>(r, s, i). length s + 1 - i)") auto

declare finditer_from.simps [simp del]

definition finditer :: "re \<Rightarrow> string \<Rightarrow> re_match list" where
  "finditer r s = finditer_from r s 0"

text \<open>\<^verbatim>\<open>pattern.findall(text)\<close> without groups, and with the group 1.\<close>

definition findall :: "re \<Rightarrow> string \<Rightarrow> string list" where
  "findall r s = map (matched s) (finditer r s)"

definition findall_group :: "re \<Rightarrow> string \<Rightarrow> string list" where
  "findall_group r s = map (\<lambda>m. case group 1 m of None \<Rightarrow> [] | Some t \<Rightarrow> t) (finditer r s)"

section \<open>Building expressions\<close>

fun seqs :: "re list \<Rightarrow> re" where
  "seqs [] = Eps"
| "seqs [r] = r"
| "seqs (r # q # rs) = Seq r (seqs (q # rs))"

fun alts :: "re list \<Rightarrow> re" where
  "alts [] = Eps"
| "alts [r] = r"
| "alts (r # q # rs) = Alt r (alts (q # rs))"

definition opt_re :: "re \<Rightarrow> re" where "opt_re r = Rep 0 1 r"
definition many1 :: "re \<Rightarrow> re" where "many1 r = Seq r (Star r)"

text \<open>A text, exactly or up to case.\<close>

definition cs :: "string \<Rightarrow> re" where
  "cs t = seqs (map (\<lambda>c. Chr (Is c)) t)"

definition ci :: "string \<Rightarrow> re" where
  "ci t = seqs (map (\<lambda>c. Chr (Folded (Is (lower_char c)))) t)"

text \<open>A class of characters up to case.\<close>

definition ci_in :: "string \<Rightarrow> re" where
  "ci_in t = Chr (Folded (In (map lower_char t)))"

definition digit_re :: re where "digit_re = Chr Digit"
definition space_re :: re where "space_re = Chr Space"
definition ws :: re where "ws = many1 space_re"
definition ws0 :: re where "ws0 = Star space_re"
definition any_char :: re where "any_char = Chr NotNewline"

text \<open>Words separated by \<^verbatim>\<open>\s+\<close>.\<close>

definition spaced :: "string list \<Rightarrow> re" where
  "spaced words = (case words of [] \<Rightarrow> Eps | w # vs \<Rightarrow> seqs (ci w # concat (map (\<lambda>v. [ws, ci v]) vs)))"

end
