(* ===== verification/Query_Text.thy ===== *)
theory Query_Text
  imports Regex Property_Query Json_Text
begin

text \<open>
  The text of queries: citations (\<^verbatim>\<open>app/ingestion/citations.py\<close>) and the expansion and reranking of search
  queries (\<^verbatim>\<open>app/retrieval/query_quality.py\<close>).
\<close>

section \<open>Citations\<close>

definition section_sign :: char where "section_sign = CHR 0xA7"

definition SECTION_MARKER :: re where
  "SECTION_MARKER =
     alts [many1 (Chr (Is section_sign)), seqs [ci ''section'', opt_re (ci ''s'')], seqs [ci ''sec'', opt_re (cs ''.'')]]"

text \<open>\<^verbatim>\<open>\s*(?:SECTION_MARKER\s*)?\<close> before a number.\<close>

definition before_number :: re where
  "before_number = Seq ws0 (opt_re (Seq SECTION_MARKER ws0))"

definition HMC_PATTERN :: re where
  "HMC_PATTERN =
     seqs [opt_re (alts [seqs [ci ''NYC'', ws, ci ''Admin'', opt_re (ci ''istrative''), ws, ci ''Code''],
                         spaced [''Housing'', ''Maintenance'', ''Code'']]),
           before_number,
           Group 1 (alts [Seq (cs ''27-'') (Rep 3 5 digit_re),
                          seqs [cs ''26-5'', Rep 2 2 digit_re, opt_re (Seq (cs ''.'') (many1 digit_re))]])]"

definition letter_re :: re where
  "letter_re = Chr (Folded (Between CHR ''a'' CHR ''z''))"

text \<open>\<^verbatim>\<open>(\d+(?:-[a-z]+|[a-z])?)\<close>.\<close>

definition lettered_number :: re where
  "lettered_number = Group 1 (Seq (many1 digit_re) (opt_re (Alt (Seq (cs ''-'') (many1 letter_re)) letter_re)))"

definition MDL_PATTERN :: re where
  "MDL_PATTERN = seqs [Alt (spaced [''Multiple'', ''Dwelling'', ''Law'']) (ci ''MDL''), before_number, lettered_number]"

definition RPAPL_PATTERN :: re where
  "RPAPL_PATTERN = seqs [ci ''RPAPL'', before_number, lettered_number]"

definition RPL_PATTERN :: re where
  "RPL_PATTERN =
     seqs [Alt (spaced [''Real'', ''Property'', ''Law'']) (ci ''RPL''), before_number,
           Group 1 (Alt (Seq (cs ''21'') (Chr (In ''0123456''))) (ci ''231-c''))]"

definition NUMBER_WORD_VALUES :: "(string \<times> int) list" where
  "NUMBER_WORD_VALUES =
     [(''zero'', 0), (''one'', 1), (''two'', 2), (''three'', 3), (''four'', 4), (''five'', 5), (''six'', 6), (''seven'', 7),
      (''eight'', 8), (''nine'', 9), (''ten'', 10), (''eleven'', 11), (''twelve'', 12), (''thirteen'', 13), (''fourteen'', 14),
      (''fifteen'', 15), (''sixteen'', 16), (''seventeen'', 17), (''eighteen'', 18), (''nineteen'', 19), (''twenty'', 20),
      (''thirty'', 30), (''forty'', 40), (''fifty'', 50), (''sixty'', 60), (''seventy'', 70), (''eighty'', 80), (''ninety'', 90)]"

definition NUMBER_WORD :: re where
  "NUMBER_WORD = alts (map (ci \<circ> fst) NUMBER_WORD_VALUES @ [ci ''hundred''])"

definition dash_or_space :: "char \<Rightarrow> bool" where
  "dash_or_space c \<longleftrightarrow> c = CHR ''-'' \<or> is_space c"

definition dash_class :: char_class where "dash_class = Either (Is CHR ''-'') Space"

definition REVERSED_SPOKEN_CITATION_PATTERN :: re where
  "REVERSED_SPOKEN_CITATION_PATTERN =
     seqs [Bound, Alt (ci ''section'') (Seq (ci ''sec'') (opt_re (cs ''.''))), ws,
           Group 1 (Seq NUMBER_WORD (Star (Seq (many1 (Chr dash_class)) NUMBER_WORD))), ws,
           Group 2 (alts [ci ''MDL'', spaced [''multiple'', ''dwelling'', ''law''], ci ''RPL'', spaced [''real'', ''property'', ''law'']]),
           Bound]"

text \<open>\<^verbatim>\<open>re.split(r"[-\s]+", text)\<close>.\<close>

fun split_dashes :: "string \<Rightarrow> bool \<Rightarrow> string \<Rightarrow> string list" where
  "split_dashes acc gap [] = [rev acc]"
| "split_dashes acc gap (c # rest) =
     (if dash_or_space c then (if gap then split_dashes acc True rest else rev acc # split_dashes [] True rest)
      else split_dashes (c # acc) False rest)"

fun number_words :: "int \<Rightarrow> string list \<Rightarrow> int result" where
  "number_words current [] = Inr current"
| "number_words current (w # rest) =
     (if w = ''hundred'' then number_words (max current 1 * 100) rest
      else (case map_of NUMBER_WORD_VALUES w of
              None \<Rightarrow> Inl (KeyError w)
            | Some n \<Rightarrow> number_words (current + n) rest))"

definition number_words_to_int :: "string \<Rightarrow> int result" where
  "number_words_to_int v = number_words 0 (split_dashes [] False (lower v))"

definition cite :: "string \<Rightarrow> string \<Rightarrow> string" where
  "cite law number = law @ '' '' @ [section_sign] @ '' '' @ number"

definition group_text :: "nat \<Rightarrow> re_match \<Rightarrow> string" where
  "group_text n m = (case group n m of None \<Rightarrow> ''None'' | Some t \<Rightarrow> t)"

definition spoken_citation :: "string \<Rightarrow> string option result" where
  "spoken_citation v =
     (if found (seqs [Bound, ci ''section'', ws, ci ''seven'', many1 (Chr dash_class), ci ''eleven'', Bound]) v
      then Inr (Some (cite ''RPAPL'' ''711''))
      else (case re_search REVERSED_SPOKEN_CITATION_PATTERN v of
              None \<Rightarrow> Inr None
            | Some m \<Rightarrow>
                bind_result (number_words_to_int (group_text 1 m)) (\<lambda>n.
                Inr (Some (cite (if lower (group_text 2 m) \<in> {''mdl'', ''multiple dwelling law''} then ''Multiple Dwelling Law''
                                 else ''Real Property Law'') (dump_int n))))))"

definition normalize_citation :: "string \<Rightarrow> string result" where
  "normalize_citation text =
     (let compact = join '' '' (split_ws (strip text)) in
      case re_search HMC_PATTERN compact of
        Some m \<Rightarrow> Inr (cite ''NYC Admin Code'' (upper (group_text 1 m)))
      | None \<Rightarrow>
          (case re_search MDL_PATTERN compact of
             Some m \<Rightarrow> Inr (cite ''Multiple Dwelling Law'' (upper (group_text 1 m)))
           | None \<Rightarrow>
               (case re_search RPAPL_PATTERN compact of
                  Some m \<Rightarrow> Inr (cite ''RPAPL'' (upper (group_text 1 m)))
                | None \<Rightarrow>
                    (case re_search RPL_PATTERN compact of
                       Some m \<Rightarrow> Inr (cite ''Real Property Law'' (upper (group_text 1 m)))
                     | None \<Rightarrow>
                         bind_result (spoken_citation compact) (\<lambda>spoken.
                         Inr (case spoken of Some t \<Rightarrow> t | None \<Rightarrow> compact))))))"

definition detect_citation_type :: "string \<Rightarrow> string" where
  "detect_citation_type text =
     (if found HMC_PATTERN text then ''nyc_code''
      else if found MDL_PATTERN text then ''ny_law''
      else if found RPAPL_PATTERN text then ''rpapl''
      else if found RPL_PATTERN text then ''ny_law''
      else ''guidance'')"

record citation_candidate =
  cc_citation_text :: string
  cc_normalized_citation :: string
  cc_citation_type :: string

fun add_candidates :: "citation_candidate list \<Rightarrow> string list \<Rightarrow> citation_candidate list result" where
  "add_candidates acc [] = Inr acc"
| "add_candidates acc (t # ts) =
     bind_result (normalize_citation t) (\<lambda>n.
       add_candidates
         (if n \<in> set (map cc_normalized_citation acc) then acc
          else acc @ [\<lparr>cc_citation_text = t, cc_normalized_citation = n, cc_citation_type = detect_citation_type t\<rparr>]) ts)"

definition extract_citations :: "string \<Rightarrow> citation_candidate list result" where
  "extract_citations text =
     add_candidates [] (concat (map (\<lambda>p. findall p text) [HMC_PATTERN, MDL_PATTERN, RPAPL_PATTERN, RPL_PATTERN]))"

section \<open>Query expansion\<close>

definition STOP_WORDS :: "string list" where
  "STOP_WORDS =
     [''a'', ''about'', ''an'', ''and'', ''are'', ''can'', ''does'', ''for'', ''how'', ''in'', ''is'', ''of'', ''or'', ''say'',
      ''the'', ''to'', ''under'', ''what'', ''when'', ''who'']"

definition word_re :: "string \<Rightarrow> re" where
  "word_re t = seqs [Bound, ci t, Bound]"

definition anything :: re where "anything = Star any_char"

definition o_re :: re where "o_re = ci_in [CHR ''o'', CHR 0xF3]"

definition dash_or_space_opt :: re where "dash_or_space_opt = opt_re (Chr dash_class)"

definition heat_es :: re where
  "heat_es = alts [seqs [ci ''calefacci'', o_re, ci ''n''], ci ''agua caliente'', ci ''temperatura'']"

definition stabilized_es :: re where
  "stabilized_es = Alt (ci ''renta estabilizada'') (seqs [ci ''estabilizaci'', o_re, ci ''n de renta''])"

definition stabilized_re :: re where
  "stabilized_re =
     alts [seqs [ci ''rent'', dash_or_space_opt, ci ''stabili'', ci_in ''sz''], word_re ''DHCR'',
           spaced [''renewal'', ''lease''], spaced [''preferential'', ''rent''], spaced [''succession'', ''rights'']]"

definition heat_re :: re where
  "heat_re = alts [word_re ''heat'', spaced [''hot'', ''water''], ci ''temperature'']"

definition repair_re :: re where
  "repair_re =
     alts [spaced [''good'', ''repair''], word_re ''repair'',
           seqs [Bound, ci ''maintain'', opt_re (Alt (ci ''ed'') (ci ''ing'')), Bound], word_re ''maintenance'',
           word_re ''owner'', ci ''premises'',
           seqs [spaced [''fit'', ''for''], ws, opt_re (Seq (ci ''human'') ws), ci ''habitation'']]"

definition complaint_re :: re where
  "complaint_re = alts [seqs [Bound, ci ''complaint'', opt_re (ci ''s''), Bound], word_re ''report'', word_re ''311'']"

definition enforcement_re :: re where
  "enforcement_re = alts [word_re ''enforcement'', seqs [Bound, ci ''violation'', opt_re (ci ''s''), Bound], word_re ''inspection'']"

definition demand_re :: re where
  "demand_re =
     alts [word_re ''nonpayment'', spaced [''rent'', ''demand''], seqs [cs ''14'', dash_or_space_opt, spaced [''day'', ''demand'']],
           word_re ''holdover'', spaced [''rent'', ''acceptance''], spaced [''rent'', ''default'']]"

definition good_cause :: re where "good_cause = spaced [''good'', ''cause'']"

definition defined_terms :: re where
  "defined_terms = Alt (ci ''defin'') (Seq (ci ''term'') (opt_re (ci ''s'')))"

definition covered_re :: re where
  "covered_re =
     Alt (seqs [good_cause, anything, Bound, alts [ci ''covered'', ci ''coverage'', Seq (ci ''unit'') (opt_re (ci ''s''))]])
         (Seq Bound (ci ''covered housing''))"

definition notice_words :: "re list" where
  "notice_words = [ci ''notice'', ci ''notification'', ci ''disclos'']"

definition article_6a :: re where "article_6a = spaced [''article'', ''6-a'']"

definition notice_re :: "re \<Rightarrow> re" where
  "notice_re last_words =
     alts [seqs [good_cause, anything, Bound, alts (notice_words @ [ci ''applicability''])],
           seqs [Bound, alts notice_words, anything, good_cause],
           seqs [article_6a, anything, Bound, last_words]]"

definition certify_re :: re where
  "certify_re =
     alts [seqs [Bound, ci ''certif'', Alt (ci ''y'') (ci ''ication''), Bound],
           Seq (ci ''dismiss'') (opt_re (Alt (ci ''al'') (ci ''ed''))), ci ''eCertification'']"

definition eviction_es :: "re list" where
  "eviction_es = [ci ''desalojo'', seqs [ci ''evicci'', o_re, ci ''n''], ci ''tribunal de vivienda'', ci ''falta de pago'']"

definition DOMAIN_EXPANSIONS :: "(re \<times> string list) list" where
  "DOMAIN_EXPANSIONS =
     [(alts [ci ''alquiler'', ci ''renta'', seqs [ci ''inquilin'', ci_in ''oa'', opt_re (ci ''s'')], Seq (ci ''caser'') (ci_in ''oa''),
             ci ''arrendador'', ci ''apartamento'', ci ''vivienda''],
       [''rent'', ''tenant'', ''landlord'', ''apartment'', ''housing'']),
      (heat_es, [''heat'', ''hot'', ''water'', ''temperature'', ''minimum'']),
      (alts (eviction_es @ [ci ''demanda'']), [''eviction'', ''housing court'', ''nonpayment'', ''rent demand'', ''RPAPL'']),
      (alts [seqs [ci ''reparaci'', o_re, ci ''n''], ci ''mantenimiento'', ci ''condiciones'', ci ''queja''],
       [''repair'', ''maintenance'', ''conditions'', ''complaint'', ''inspection'']),
      (stabilized_es, [''rent stabilization'', ''rent stabilized'', ''DHCR'', ''lease renewal'']),
      (stabilized_re, [''rent'', ''stabilization'', ''stabilized'', ''DHCR'', ''lease'', ''renewal'', ''preferential'', ''succession'']),
      (heat_re, [''heat'', ''hot'', ''water'', ''temperature'', ''minimum'', ''maintained'', ''season'']),
      (repair_re, [''owner'', ''duties'', ''repair'', ''good'', ''premises'']),
      (complaint_re, [''complaint'', ''report'', ''311'', ''inspection'', ''violation'']),
      (enforcement_re, [''enforcement'', ''inspection'', ''violation'', ''violations'', ''correct'']),
      (demand_re, [''nonpayment'', ''rent'', ''demand'', ''fourteen-day'', ''holdover'', ''acceptance'', ''RPAPL'', ''Real Property Law'']),
      (Alt (seqs [good_cause, anything, Bound, defined_terms]) (seqs [Bound, defined_terms, anything, good_cause]),
       [''RPL'', ''211'', ''definitions'', ''housing accommodation'', ''landlord'', ''tenant'']),
      (covered_re, [''RPL'', ''214'', ''covered'', ''housing'', ''accommodations'']),
      (notice_re (ci ''notice''), [''RPL'', ''231-c'', ''good'', ''cause'', ''eviction'', ''law'', ''notice'']),
      (certify_re, [''clear'', ''violations'', ''certification'', ''dismissal'', ''eCertification''])]"

definition FOCUSED_QUERY_TEXTS :: "(re \<times> string list) list" where
  "FOCUSED_QUERY_TEXTS =
     [(heat_es, [''minimum temperature heat'', ''hot water'']),
      (alts eviction_es, [''RPAPL eviction nonpayment'', ''housing court rent demand'']),
      (stabilized_es, [''NYC Admin Code 26-501 rent stabilization'', ''DHCR rent stabilized'']),
      (stabilized_re, [''NYC Admin Code 26-501 rent stabilization'', ''DHCR rent stabilized lease renewal succession preferential rent'']),
      (heat_re, [''temperature'', ''minimum temperature'', ''heat'']),
      (repair_re, [''duties owner'', ''good repair'', ''repair premises'']),
      (complaint_re, [''complaint'', ''report complaint'', ''311 inspection violation'']),
      (enforcement_re, [''enforcement'', ''inspection violation'', ''owner correction'']),
      (demand_re, [''RPAPL 711 written demand'', ''Real Property Law 210 216'', ''rent demand'']),
      (alts [seqs [good_cause, anything, Bound, defined_terms], seqs [Bound, defined_terms, anything, good_cause],
             seqs [article_6a, anything, Bound, ci ''definition'', opt_re (ci ''s'')]],
       [''RPL 211 definitions'', ''housing accommodation landlord tenant'']),
      (covered_re, [''RPL 214 covered housing accommodations'']),
      (notice_re (Alt (ci ''notice'') (ci ''notification'')), [''RPL 231-c good cause eviction law notice'']),
      (alts [seqs [Bound, ci ''complaint'', Bound, anything, Bound, ci ''follow''],
             seqs [Bound, ci ''follow'', anything, Bound, ci ''complaint'', Bound], word_re ''311''],
       [''report maintenance issue inspection'', ''complaint status HPD'']),
      (certify_re, [''clear violations'', ''eCertification'', ''dismiss violation''])]"

text \<open>\<^verbatim>\<open>[a-z0-9][a-z0-9-]*\<close> on a text in lower case.\<close>

definition term_class :: char_class where
  "term_class = Either (Between CHR ''a'' CHR ''z'') (Between CHR ''0'' CHR ''9'')"

definition term_re :: re where
  "term_re = Seq (Chr term_class) (Star (Chr (Either term_class (Is CHR ''-''))))"

definition meaningful_terms :: "string \<Rightarrow> string list" where
  "meaningful_terms v = filter (\<lambda>t. t \<notin> set STOP_WORDS \<and> 1 < length t) (findall term_re (lower v))"

text \<open>\<^verbatim>\<open>dedupe_terms\<close> and \<^verbatim>\<open>list(dict.fromkeys(...))\<close>: the first occurrences.\<close>

fun dedupe :: "'a list \<Rightarrow> 'a list \<Rightarrow> 'a list" where
  "dedupe seen [] = []"
| "dedupe seen (x # xs) = (if x \<in> set seen then dedupe seen xs else x # dedupe (x # seen) xs)"

definition dedupe_terms :: "string list \<Rightarrow> string list" where
  "dedupe_terms ts = dedupe [] ts"

definition additions_for :: "(re \<times> string list) list \<Rightarrow> string \<Rightarrow> string list" where
  "additions_for table q = concat (map (\<lambda>e. if found (fst e) q then snd e else []) table)"

definition expand_query_terms :: "string \<Rightarrow> string list" where
  "expand_query_terms q = dedupe_terms (meaningful_terms q @ additions_for DOMAIN_EXPANSIONS q)"

definition expand_query_text :: "string \<Rightarrow> string" where
  "expand_query_text q =
     (let original = meaningful_terms q; new = filter (\<lambda>t. t \<notin> set original) (expand_query_terms q)
      in if new = [] then q else q @ '' '' @ join '' '' new)"

definition focused_query_texts :: "string \<Rightarrow> string list" where
  "focused_query_texts q = dedupe_terms (additions_for FOCUSED_QUERY_TEXTS q)"

end
