(* ===== verification/Query_Text_Claims.thy ===== *)
theory Query_Text_Claims
  imports Query_Text
begin

text \<open>
  What a match spells, and the citations: the groups of a match hold texts that their expressions spell, so the
  number words of a spoken citation are always known, and normalising and extracting citations never raise.
\<close>

section \<open>What a match spells\<close>

inductive spells :: "re \<Rightarrow> string \<Rightarrow> bool" where
  "spells Eps []"
| "spells Bound []"
| "in_class k x \<Longrightarrow> spells (Chr k) [x]"
| "spells a s \<Longrightarrow> spells b t \<Longrightarrow> spells (Seq a b) (s @ t)"
| "spells a s \<Longrightarrow> spells (Alt a b) s"
| "spells b s \<Longrightarrow> spells (Alt a b) s"
| "spells (Star a) []"
| "spells a s \<Longrightarrow> spells (Star a) t \<Longrightarrow> spells (Star a) (s @ t)"
| "spells (Rep l h a) []"
| "spells a s \<Longrightarrow> spells (Rep l h a) t \<Longrightarrow> spells (Rep l' h' a) (s @ t)"
| "spells a s \<Longrightarrow> spells (Group n a) s"

inductive_cases spells_Chr: "spells (Chr k) s"
inductive_cases spells_Seq: "spells (Seq a b) s"
inductive_cases spells_Alt: "spells (Alt a b) s"
inductive_cases spells_Eps: "spells Eps s"

fun groups :: "re \<Rightarrow> (nat \<times> re) set" where
  "groups (Seq a b) = groups a \<union> groups b"
| "groups (Alt a b) = groups a \<union> groups b"
| "groups (Star a) = groups a"
| "groups (Rep l h a) = groups a"
| "groups (Group n a) = insert (n, a) (groups a)"
| "groups _ = {}"

text \<open>The groups that take part in every match.\<close>

fun always :: "nat \<Rightarrow> re \<Rightarrow> bool" where
  "always n (Seq a b) \<longleftrightarrow> always n a \<or> always n b"
| "always n (Alt a b) \<longleftrightarrow> always n a \<and> always n b"
| "always n (Group m a) \<longleftrightarrow> m = n \<or> always n a"
| "always n _ \<longleftrightarrow> False"

definition segment :: "string \<Rightarrow> nat \<Rightarrow> nat \<Rightarrow> string" where
  "segment s i j = take (j - i) (drop i s)"

lemma segment_split:
  assumes "i \<le> j" and "j \<le> k"
  shows "segment s i k = segment s i j @ segment s j k"
proof -
  have "segment s i k = take ((j - i) + (k - j)) (drop i s)" using assms by (simp add: segment_def)
  also have "\<dots> = take (j - i) (drop i s) @ take (k - j) (drop (j - i) (drop i s))" by (rule take_add)
  finally show ?thesis using assms by (simp add: segment_def)
qed

text \<open>From one position to another with the captures of the expressions in \<open>gs\<close>.\<close>

definition moves :: "(string \<Rightarrow> bool) \<Rightarrow> (nat \<times> re) set \<Rightarrow> string \<Rightarrow> nat \<times> captures \<Rightarrow> nat \<times> captures \<Rightarrow> bool" where
  "moves P gs s p q \<longleftrightarrow>
     fst p \<le> fst q \<and> fst q \<le> length s \<and> P (segment s (fst p) (fst q)) \<and>
     (\<exists>new. snd q = new @ snd p \<and> (\<forall>x\<in>set new. \<exists>a. (fst x, a) \<in> gs \<and> spells a (snd x)))"

lemma moves_refl: "fst p \<le> length s \<Longrightarrow> P [] \<Longrightarrow> moves P gs s p p"
  by (simp add: moves_def segment_def)

lemma moves_trans:
  assumes "moves P gs s p q" and "moves Q hs s q r" and "\<And>x y. P x \<Longrightarrow> Q y \<Longrightarrow> R (x @ y)"
  shows "moves R (gs \<union> hs) s p r"
proof -
  obtain new new' where "snd q = new @ snd p" "\<forall>x\<in>set new. \<exists>a. (fst x, a) \<in> gs \<and> spells a (snd x)"
    "snd r = new' @ snd q" "\<forall>x\<in>set new'. \<exists>a. (fst x, a) \<in> hs \<and> spells a (snd x)"
    using assms(1,2) by (auto simp: moves_def)
  then have "\<exists>new. snd r = new @ snd p \<and> (\<forall>x\<in>set new. \<exists>a. (fst x, a) \<in> gs \<union> hs \<and> spells a (snd x))"
    by (intro exI [of _ "new' @ new"]) auto
  then show ?thesis
    using assms segment_split [of "fst p" "fst q" "fst r" s] by (auto simp: moves_def)
qed

lemma moves_weaken: "moves P gs s p q \<Longrightarrow> (\<And>x. P x \<Longrightarrow> Q x) \<Longrightarrow> gs \<subseteq> hs \<Longrightarrow> moves Q hs s p q"
  unfolding moves_def by blast

lemma moves_le: "moves P gs s p q \<Longrightarrow> fst q \<le> length s"
  by (simp add: moves_def)

lemma star_moves:
  assumes "\<And>p q. fst p \<le> length s \<Longrightarrow> q \<in> set (f p) \<Longrightarrow> moves (spells a) gs s p q"
  shows "fst p \<le> length s \<Longrightarrow> q \<in> set (star_matches f n p) \<Longrightarrow> moves (spells (Star a)) gs s p q"
proof (induction n arbitrary: p)
  case (Suc n)
  show ?case
  proof (cases "q = p")
    case True
    with Suc.prems show ?thesis by (simp add: moves_refl spells.intros)
  next
    case False
    with Suc.prems obtain x where x: "x \<in> set (f p)" "q \<in> set (star_matches f n x)" by (auto split: if_splits)
    then have step: "moves (spells a) gs s p x" using assms Suc.prems by blast
    with x Suc.IH [OF moves_le] have "moves (spells (Star a)) gs s x q" by blast
    with step show ?thesis using moves_trans [of "spells a" gs s p x "spells (Star a)" gs q "spells (Star a)"] by (simp add: spells.intros)
  qed
qed (simp add: moves_refl spells.intros)

lemma rep_moves:
  assumes "\<And>p q. fst p \<le> length s \<Longrightarrow> q \<in> set (f p) \<Longrightarrow> moves (spells a) gs s p q"
  shows "fst p \<le> length s \<Longrightarrow> q \<in> set (rep_matches f l h p) \<Longrightarrow> moves (spells (Rep l' h' a)) gs s p q"
proof (induction "l + h" arbitrary: l h p rule: less_induct)
  case less
  have step: "moves (spells (Rep l' h' a)) gs s p q"
    if "x \<in> set (f p)" and "q \<in> set (rep_matches f m k x)" and "m + k < l + h" for x m k
  proof -
    have "moves (spells a) gs s p x" using assms less.prems(1) that(1) by blast
    moreover from moves_le [OF this] have "moves (spells (Rep l' h' a)) gs s x q" using less.hyps [OF that(3)] that(2) by blast
    ultimately show ?thesis
      using moves_trans [of "spells a" gs s p x "spells (Rep l' h' a)" gs q "spells (Rep l' h' a)"] by (simp add: spells.intros)
  qed
  consider m where "l = Suc m" | "l = 0" "h = 0" | k where "l = 0" "h = Suc k" by (metis not0_implies_Suc)
  then show ?case
  proof cases
    case (1 m)
    with less.prems(2) obtain x where "x \<in> set (f p)" and "q \<in> set (rep_matches f m (h - 1) x)" by auto
    then show ?thesis by (rule step) (use 1 in simp)
  next
    case 2
    with less.prems show ?thesis by (simp add: moves_refl spells.intros)
  next
    case (3 k)
    show ?thesis
    proof (cases "q = p")
      case True
      with less.prems(1) show ?thesis by (simp add: moves_refl spells.intros)
    next
      case False
      with 3 less.prems(2) obtain x where "x \<in> set (f p)" and "q \<in> set (rep_matches f 0 k x)" by auto
      then show ?thesis by (rule step) (use 3 in simp)
    qed
  qed
qed

lemma matches_moves: "fst p \<le> length s \<Longrightarrow> q \<in> set (matches r s p) \<Longrightarrow> moves (spells r) (groups r) s p q"
proof (induction r arbitrary: p q)
  case (Chr k)
  then have "fst p < length s" "in_class k (s ! fst p)" "q = (fst p + 1, snd p)" by (auto split: if_splits)
  moreover from this have "segment s (fst p) (fst p + 1) = [s ! fst p]"
    by (simp add: segment_def take_Suc_conv_app_nth)
  ultimately show ?case by (simp add: moves_def spells.intros)
next
  case (Seq a b)
  then obtain x where x: "x \<in> set (matches a s p)" "q \<in> set (matches b s x)" by auto
  then have "moves (spells a) (groups a) s p x" using Seq by blast
  moreover from moves_le [OF this] x(2) have "moves (spells b) (groups b) s x q" using Seq.IH(2) by blast
  ultimately show ?case unfolding groups.simps by (rule moves_trans) (rule spells.intros)
next
  case (Alt a b)
  then have "q \<in> set (matches a s p) \<or> q \<in> set (matches b s p)" by simp
  with Alt.IH Alt.prems(1) have "moves (spells a) (groups a) s p q \<or> moves (spells b) (groups b) s p q" by blast
  then show ?case
    using moves_weaken [of "spells a" "groups a" s p q "spells (Alt a b)" "groups (Alt a b)"]
      moves_weaken [of "spells b" "groups b" s p q "spells (Alt a b)" "groups (Alt a b)"] by (auto simp: spells.intros)
next
  case (Star a)
  then show ?case using star_moves [of s "matches a s" a "groups a" p q] by simp
next
  case (Rep l h a)
  then show ?case using rep_moves [of s "matches a s" a "groups a" p q] by simp
next
  case (Group n a)
  then obtain x where x: "x \<in> set (matches a s p)" "q = (fst x, (n, segment s (fst p) (fst x)) # snd x)"
    by (auto simp: segment_def)
  with Group have m: "moves (spells a) (groups a) s p x" by blast
  then obtain new where "snd x = new @ snd p" "\<forall>y\<in>set new. \<exists>b. (fst y, b) \<in> groups a \<and> spells b (snd y)" by (auto simp: moves_def)
  with m x show ?case
    unfolding moves_def by (auto simp: spells.intros intro!: exI [of _ "(n, segment s (fst p) (fst x)) # new"])
qed (auto simp: moves_refl spells.intros split: if_splits)

lemma always_captured: "q \<in> set (matches r s p) \<Longrightarrow> fst p \<le> length s \<Longrightarrow> always n r \<or> n \<in> fst ` set (snd p) \<Longrightarrow> n \<in> fst ` set (snd q)"
proof -
  assume q: "q \<in> set (matches r s p)" and le: "fst p \<le> length s" and n: "always n r \<or> n \<in> fst ` set (snd p)"
  have kept: "n \<in> fst ` set (snd q)" if "n \<in> fst ` set (snd p)"
    using matches_moves [OF le q] that by (auto simp: moves_def)
  show ?thesis
  proof (cases "n \<in> fst ` set (snd p)")
    case False
    with n have "always n r" by simp
    then show ?thesis using q le
    proof (induction r arbitrary: p q)
      case (Seq a b)
      then obtain x where x: "x \<in> set (matches a s p)" "q \<in> set (matches b s x)" by auto
      have "fst x \<le> length s" using matches_moves [OF Seq.prems(3) x(1)] by (rule moves_le)
      then show ?case
        using Seq.IH Seq.prems(1,3) x matches_moves [OF \<open>fst x \<le> length s\<close> x(2)] by (fastforce simp: moves_def)
    qed (auto split: if_splits)
  qed (rule kept)
qed

text \<open>A group that is named once in an expression holds what its body spells.\<close>

lemma group_spells:
  assumes "re_search r s = Some m" and "always n r" and "\<And>a. (n, a) \<in> groups r \<Longrightarrow> a = b"
  obtains t where "group n m = Some t" and "spells b t"
proof -
  have "first_match r s is = Some m \<Longrightarrow> \<exists>i\<in>set is. match_at r s i = Some m" for "is"
    by (induction "is") (auto split: option.splits)
  then obtain i where "i \<le> length s" and "match_at r s i = Some m"
    using assms(1) by (fastforce simp: re_search_def)
  then have "matches r s (i, []) \<noteq> [] \<and> rm_groups m = snd (hd (matches r s (i, [])))"
    by (auto simp: match_at_def split: list.splits)
  then obtain q where q: "q \<in> set (matches r s (i, []))" "rm_groups m = snd q"
    using hd_in_set by blast
  have "n \<in> fst ` set (snd q)" using always_captured [OF q(1)] assms(2) \<open>i \<le> length s\<close> by simp
  then obtain t where t: "group n m = Some t"
    using q(2) by (metis group_def map_of_eq_None_iff not_None_eq)
  then have "(n, t) \<in> set (snd q)" using q(2) by (simp add: group_def map_of_SomeD)
  moreover have "\<forall>x\<in>set (snd q). \<exists>a. (fst x, a) \<in> groups r \<and> spells a (snd x)"
    using matches_moves [of "(i, [])" s q r] q(1) \<open>i \<le> length s\<close> by (auto simp: moves_def)
  ultimately show ?thesis using that [OF t] assms(3) by fastforce
qed

section \<open>Number words\<close>

definition number_word :: "string \<Rightarrow> bool" where
  "number_word w \<longleftrightarrow> w = ''hundred'' \<or> w \<in> fst ` set NUMBER_WORD_VALUES"

lemma number_words_total: "\<forall>w\<in>set words. number_word w \<Longrightarrow> \<exists>n. number_words k words = Inr n"
proof (induction words arbitrary: k)
  case (Cons w words)
  then show ?case
    by (auto simp: number_word_def dest: weak_map_of_SomeI split: option.splits)
qed simp

lemma spells_ci: "spells (ci t) w \<Longrightarrow> lower w = lower t"
  unfolding ci_def lower_def
proof (induction t arbitrary: w)
  case Nil
  then show ?case by (auto elim: spells_Eps)
next
  case (Cons c t)
  then show ?case
    by (cases t) (auto elim!: spells_Chr spells_Seq)
qed

lemma spells_alts: "rs \<noteq> [] \<Longrightarrow> spells (alts rs) w \<Longrightarrow> \<exists>r\<in>set rs. spells r w"
  by (induction rs rule: alts.induct) (auto elim: spells_Alt)

text \<open>Number words are in lower case, not empty and without a dash or a space.\<close>

definition plain_word :: "string \<Rightarrow> bool" where
  "plain_word w \<longleftrightarrow> lower w = w \<and> w \<noteq> [] \<and> list_all (\<lambda>c. \<not> dash_or_space c) w"

lemma number_words_plain: "number_word w \<Longrightarrow> plain_word w"
proof -
  have "list_all plain_word (''hundred'' # map fst NUMBER_WORD_VALUES)" by code_simp
  then show "number_word w \<Longrightarrow> plain_word w" by (auto simp: number_word_def list_all_iff)
qed

lemma spells_number_word: "spells NUMBER_WORD w \<Longrightarrow> number_word (lower w)"
proof -
  assume "spells NUMBER_WORD w"
  then obtain r where "r \<in> set (map (ci \<circ> fst) NUMBER_WORD_VALUES @ [ci ''hundred''])" and "spells r w"
    unfolding NUMBER_WORD_def using spells_alts by blast
  then obtain t where "number_word t" and "lower w = lower t"
    by (auto simp: number_word_def dest: spells_ci)
  then show ?thesis using number_words_plain by (simp add: plain_word_def)
qed

lemma dash_code: "dash_or_space c \<longleftrightarrow> (of_char c :: nat) \<in> {9, 10, 11, 12, 13, 28, 29, 30, 31, 32, 45, 133, 160}"
proof -
  have "c = CHR ''-'' \<longleftrightarrow> (of_char c :: nat) = of_char CHR ''-''" by (simp only: of_char_eq_iff)
  then show ?thesis by (auto simp: dash_or_space_def is_space_def)
qed

lemma lower_dash: "dash_or_space (lower_char c) = dash_or_space c"
proof (cases "lower_char c = c")
  case False
  then have n: "(65 \<le> (of_char c :: nat) \<and> (of_char c :: nat) \<le> 90) \<or> (192 \<le> (of_char c :: nat) \<and> (of_char c :: nat) \<le> 222)"
    and l: "lower_char c = char_of (of_char c + 32 :: nat)"
    by (auto simp: lower_char_def Let_def split: if_splits)
  then have "(of_char (lower_char c) :: nat) = of_char c + 32" by auto
  with n show ?thesis unfolding dash_code by auto
qed simp

lemma spells_many1: "spells (many1 (Chr k)) t \<Longrightarrow> t \<noteq> [] \<and> list_all (in_class k) t"
proof -
  have star: "spells r t \<Longrightarrow> r = Star (Chr k) \<Longrightarrow> list_all (in_class k) t" for r t
    by (induction rule: spells.induct) (auto elim: spells_Chr)
  assume "spells (many1 (Chr k)) t"
  then show ?thesis unfolding many1_def by (auto elim!: spells_Seq spells_Chr dest: star)
qed

lemma split_word: "list_all (\<lambda>c. \<not> dash_or_space c) w \<Longrightarrow> w \<noteq> [] \<Longrightarrow> split_dashes acc gap (w @ t) = split_dashes (rev w @ acc) False t"
proof (induction w arbitrary: acc gap)
  case (Cons c w)
  then show ?case by (cases w) auto
qed simp

lemma split_gap: "list_all dash_or_space d \<Longrightarrow> split_dashes acc True (d @ t) = split_dashes acc True t"
  by (induction d arbitrary: acc) auto

lemma split_more:
  "spells r t \<Longrightarrow> r = Star (Seq (many1 (Chr dash_class)) NUMBER_WORD) \<Longrightarrow> number_word w \<Longrightarrow>
   \<forall>v\<in>set (split_dashes (rev w) False (lower t)). number_word v"
proof (induction arbitrary: w rule: spells.induct)
  case (8 a s t)
  then obtain d v where s: "s = d @ v" and "spells (many1 (Chr dash_class)) d" and "spells NUMBER_WORD v"
    by (auto elim: spells_Seq)
  then have d: "d \<noteq> []" "list_all dash_or_space (lower d)" and v: "number_word (lower v)"
    by (auto simp: dash_class_def dash_or_space_def lower_def list_all_iff lower_dash [unfolded dash_or_space_def]
        dest!: spells_many1 spells_number_word)
  have "split_dashes (rev w) False (lower s @ lower t) = w # split_dashes (rev (lower v)) False (lower t)"
  proof (cases d)
    case (Cons c e)
    with d have "dash_or_space (lower_char c)" "list_all dash_or_space (lower e)" by (auto simp: lower_def)
    moreover have "split_dashes [] True (lower v @ lower t) = split_dashes (rev (lower v)) False (lower t)"
      using split_word [of "lower v" "[]" True "lower t"] number_words_plain [OF v] by (simp add: plain_word_def)
    ultimately show ?thesis using Cons by (simp add: s lower_def split_gap)
  qed (use d in simp)
  moreover have "lower (s @ t) = lower s @ lower t" by (simp add: lower_def)
  ultimately show ?case using 8 v by simp
qed (auto simp: lower_def)

lemma spoken_number: "spells (Seq NUMBER_WORD (Star (Seq (many1 (Chr dash_class)) NUMBER_WORD))) t \<Longrightarrow> \<exists>n. number_words_to_int t = Inr n"
proof -
  assume "spells (Seq NUMBER_WORD (Star (Seq (many1 (Chr dash_class)) NUMBER_WORD))) t"
  then obtain w r where t: "t = w @ r" and "spells NUMBER_WORD w" and r: "spells (Star (Seq (many1 (Chr dash_class)) NUMBER_WORD)) r"
    by (auto elim: spells_Seq)
  then have w: "number_word (lower w)" by (simp add: spells_number_word)
  have "split_dashes [] False (lower t) = split_dashes (rev (lower w)) False (lower r)"
    using split_word [of "lower w" "[]" False "lower r"] number_words_plain [OF w] by (simp add: t lower_def plain_word_def)
  then have "\<forall>v\<in>set (split_dashes [] False (lower t)). number_word v" using split_more [OF r refl w] by simp
  then show ?thesis unfolding number_words_to_int_def by (rule number_words_total)
qed

section \<open>Citations\<close>

lemma spoken_citation_total: "\<exists>c. spoken_citation v = Inr c"
proof (cases "re_search REVERSED_SPOKEN_CITATION_PATTERN v")
  case (Some m)
  have "always 1 REVERSED_SPOKEN_CITATION_PATTERN" by code_simp
  moreover have "a = Seq NUMBER_WORD (Star (Seq (many1 (Chr dash_class)) NUMBER_WORD))"
    if "(1, a) \<in> groups REVERSED_SPOKEN_CITATION_PATTERN" for a
  proof -
    have "groups REVERSED_SPOKEN_CITATION_PATTERN \<subseteq> {(1, Seq NUMBER_WORD (Star (Seq (many1 (Chr dash_class)) NUMBER_WORD))),
        (2, alts [ci ''MDL'', spaced [''multiple'', ''dwelling'', ''law''], ci ''RPL'', spaced [''real'', ''property'', ''law'']])}"
      by code_simp
    with that show ?thesis by auto
  qed
  ultimately obtain t where "group 1 m = Some t" and "spells (Seq NUMBER_WORD (Star (Seq (many1 (Chr dash_class)) NUMBER_WORD))) t"
    using group_spells [OF Some] by blast
  with Some spoken_number show ?thesis by (fastforce simp: spoken_citation_def group_text_def)
qed (simp add: spoken_citation_def)

lemma normalize_total: "\<exists>c. normalize_citation t = Inr c"
  using spoken_citation_total [of "join '' '' (split_ws (strip t))"]
  by (auto simp: normalize_citation_def Let_def split: option.splits)

lemma add_candidates_total:
  "distinct (map cc_normalized_citation acc) \<Longrightarrow> \<forall>c\<in>set acc. normalize_citation (cc_citation_text c) = Inr (cc_normalized_citation c) \<Longrightarrow>
   \<exists>cites. add_candidates acc ts = Inr cites \<and> distinct (map cc_normalized_citation cites) \<and>
     (\<forall>c\<in>set cites. normalize_citation (cc_citation_text c) = Inr (cc_normalized_citation c))"
proof (induction ts arbitrary: acc)
  case (Cons t ts)
  obtain n where "normalize_citation t = Inr n" using normalize_total by blast
  with Cons show ?case by auto
qed simp

text \<open>
  Reading citations never fails. Every text has a normalised citation (the number words of a spoken
  citation are always known to the table), and extracting citations from a text gives a list in which no
  citation appears twice and every entry is the normal form of the text that was matched.
\<close>

theorem citations_total:
  "(\<exists>n. normalize_citation t = Inr n) \<and>
   (\<exists>cites. extract_citations t = Inr cites \<and> distinct (map cc_normalized_citation cites) \<and>
      (\<forall>c\<in>set cites. normalize_citation (cc_citation_text c) = Inr (cc_normalized_citation c)))"
  using normalize_total add_candidates_total [of "[]"] by (simp add: extract_citations_def)

end
