(* ===== verification/Floats.thy ===== *)
theory Floats
  imports Python_Values
begin

text \<open>
  Rounding to binary64 is monotone and leaves numbers that are already rounded alone: what comparisons of
  sums of scores rely on.
\<close>

section \<open>Powers of two\<close>

lemma pow2_powi: "pow2 k = 2 powi k"
  by (simp add: pow2_def power_int_def field_simps)

lemma pow2_mono: "i \<le> j \<Longrightarrow> pow2 i \<le> pow2 j"
  by (simp add: pow2_powi power_int_increasing)

lemma pow2_add: "pow2 (i + j) = pow2 i * pow2 j"
  by (simp add: pow2_powi power_int_add)

lemma pow2_diff: "pow2 (i - j) = pow2 i / pow2 j"
  by (simp add: pow2_powi power_int_diff)

lemma pow2_nat: "0 \<le> k \<Longrightarrow> pow2 k = of_int (2 ^ nat k)"
  by (simp add: pow2_def)

lemma pow2_less: "pow2 i < pow2 j \<longleftrightarrow> i < j"
proof
  assume "pow2 i < pow2 j"
  then show "i < j" using pow2_mono [of j i] by linarith
next
  assume "i < j"
  then show "pow2 i < pow2 j" by (simp add: pow2_powi power_int_strict_increasing)
qed

declare bit_length.simps [simp del]

lemma bit_length_nonneg: "0 \<le> bit_length n"
  by (induction n rule: bit_length.induct) (subst bit_length.simps, auto)

lemma bit_length_bounds: "0 < n \<Longrightarrow> 0 < bit_length n \<and> 2 ^ nat (bit_length n - 1) \<le> n \<and> n < 2 ^ nat (bit_length n)"
proof (induction n rule: bit_length.induct)
  case (1 n)
  show ?case
  proof (cases "n = 1")
    case True
    then show ?thesis by (simp add: bit_length.simps [of 1] bit_length.simps [of 0])
  next
    case False
    with 1(2) have "0 < n div 2" and half: "bit_length n = 1 + bit_length (n div 2)"
      by (simp_all add: bit_length.simps [of n])
    with 1 have ih: "0 < bit_length (n div 2)" "2 ^ nat (bit_length (n div 2) - 1) \<le> n div 2" "n div 2 < 2 ^ nat (bit_length (n div 2))"
      by auto
    then have "nat (bit_length (n div 2)) = Suc (nat (bit_length (n div 2) - 1))" by arith
    moreover have "n = 2 * (n div 2) + n mod 2" "0 \<le> n mod 2" "n mod 2 < 2" by simp_all
    ultimately show ?thesis using ih half by (auto simp: nat_add_distrib) linarith+
  qed
qed

lemma floor_log2_bounds:
  assumes "0 < x"
  shows "pow2 (floor_log2 x) \<le> x \<and> x < pow2 (floor_log2 x + 1)"
proof -
  obtain p q where pq: "quotient_of x = (p, q)" by fastforce
  then have q: "0 < q" and x: "x = of_int p / of_int q"
    using quotient_of_denom_pos quotient_of_div by blast+
  with assms have p: "0 < p" by (simp add: zero_less_divide_iff)
  define i where "i = bit_length p"
  define j where "j = bit_length q"
  have pb: "pow2 (i - 1) \<le> of_int p" "of_int p < pow2 i" and i: "0 < i"
    using bit_length_bounds [OF p] unfolding i_def
    by (auto simp: pow2_nat simp del: of_int_power of_int_numeral)
  have qb: "pow2 (j - 1) \<le> of_int q" "of_int q < pow2 j" and j: "0 < j"
    using bit_length_bounds [OF q] unfolding j_def
    by (auto simp: pow2_nat simp del: of_int_power of_int_numeral)
  have "x < pow2 i / pow2 (j - 1)"
    unfolding x using pb qb p by (intro frac_less) (auto simp: less_imp_le)
  then have up: "x < pow2 (i - j + 1)" by (simp add: pow2_diff [symmetric] algebra_simps)
  have "pow2 (i - 1) / pow2 j \<le> x"
    unfolding x using pb qb q p by (intro frac_le) (auto simp: less_imp_le)
  then have lo: "pow2 (i - j - 1) \<le> x" by (simp add: pow2_diff [symmetric] algebra_simps)
  show ?thesis
    unfolding floor_log2_def pq using up lo by (auto simp: Let_def i_def j_def)
qed

lemma floor_log2_mono: "0 < x \<Longrightarrow> x \<le> y \<Longrightarrow> floor_log2 x \<le> floor_log2 y"
proof -
  assume "0 < x" and "x \<le> y"
  then have "pow2 (floor_log2 x) < pow2 (floor_log2 y + 1)"
    using floor_log2_bounds [of x] floor_log2_bounds [of y] by linarith
  then show ?thesis by (simp add: pow2_less)
qed

section \<open>Rounding\<close>

definition ulp :: "rat \<Rightarrow> int" where
  "ulp x = max (floor_log2 x - 52) (- 1074)"

lemma round64_pos: "0 < x \<Longrightarrow> round64 x = of_int (round_half_even (x / pow2 (ulp x))) * pow2 (ulp x)"
  by (simp add: round64_def ulp_def Let_def)

lemma round64_0 [simp]: "round64 0 = 0"
  by (simp add: round64_def)

lemma below_53_bits: "0 < x \<Longrightarrow> x \<le> pow2 (ulp x + 53)"
proof -
  assume "0 < x"
  then have "x < pow2 (floor_log2 x + 1)" by (simp add: floor_log2_bounds)
  also have "\<dots> \<le> pow2 (ulp x + 53)" by (rule pow2_mono) (simp add: ulp_def)
  finally show ?thesis by simp
qed

lemma round64_le_pow2: "0 < x \<Longrightarrow> round64 x \<le> pow2 (ulp x + 53)"
proof -
  assume x: "0 < x"
  then have "x / pow2 (ulp x) \<le> pow2 53" using below_53_bits [OF x] by (simp add: pow2_add divide_le_eq mult.commute)
  then have "x / pow2 (ulp x) \<le> of_int (2 ^ 53)" by (simp add: pow2_nat)
  then have "round_half_even (x / pow2 (ulp x)) \<le> 2 ^ 53"
    using round_half_even_mono round_half_even_of_int by metis
  then have "(of_int (round_half_even (x / pow2 (ulp x))) :: rat) \<le> pow2 53"
    unfolding pow2_nat [of 53, simplified] of_int_le_iff by simp
  then show ?thesis by (simp add: round64_pos [OF x] pow2_add mult.commute mult_left_mono)
qed

lemma pow2_le_round64: "0 < x \<Longrightarrow> - 1074 < ulp x \<Longrightarrow> pow2 (ulp x + 52) \<le> round64 x"
proof -
  assume x: "0 < x" and "- 1074 < ulp x"
  then have "ulp x + 52 = floor_log2 x" by (simp add: ulp_def)
  then have "pow2 (ulp x + 52) \<le> x" using floor_log2_bounds [OF x] by simp
  then have "pow2 52 \<le> x / pow2 (ulp x)" by (simp add: pow2_add le_divide_eq mult.commute)
  then have "of_int (2 ^ 52) \<le> x / pow2 (ulp x)" by (simp add: pow2_nat)
  then have "2 ^ 52 \<le> round_half_even (x / pow2 (ulp x))"
    using round_half_even_mono round_half_even_of_int by metis
  then have "pow2 52 \<le> (of_int (round_half_even (x / pow2 (ulp x))) :: rat)"
    unfolding pow2_nat [of 52, simplified] of_int_le_iff by simp
  then show ?thesis by (simp add: round64_pos [OF x] pow2_add mult.commute mult_left_mono)
qed

lemma round64_mono: "0 \<le> x \<Longrightarrow> x \<le> y \<Longrightarrow> round64 x \<le> round64 y"
proof (cases "x = 0")
  case True
  assume "0 \<le> x" "x \<le> y"
  with True show ?thesis by (simp add: round64_nonneg)
next
  case False
  assume "0 \<le> x" and xy: "x \<le> y"
  with False have x: "0 < x" and y: "0 < y" by auto
  have le: "ulp x \<le> ulp y" using floor_log2_mono [OF x xy] by (simp add: ulp_def)
  show ?thesis
  proof (cases "ulp x = ulp y")
    case True
    have "x / pow2 (ulp y) \<le> y / pow2 (ulp y)" using xy by (simp add: divide_right_mono less_imp_le)
    then show ?thesis
      unfolding round64_pos [OF x] round64_pos [OF y] True
      by (intro mult_right_mono) (simp_all add: round_half_even_mono less_imp_le)
  next
    case False
    with le have lt: "ulp x + 53 \<le> ulp y + 52" and "- 1074 < ulp y" by (auto simp: ulp_def)
    have "round64 x \<le> pow2 (ulp x + 53)" by (rule round64_le_pow2 [OF x])
    also have "\<dots> \<le> pow2 (ulp y + 52)" by (rule pow2_mono [OF lt])
    also have "\<dots> \<le> round64 y" using pow2_le_round64 [OF y] \<open>- 1074 < ulp y\<close> by simp
    finally show ?thesis .
  qed
qed

lemma round64_integral:
  assumes "0 < x" and "x = of_int m * pow2 u" and "ulp x \<le> u"
  shows "round64 x = x"
proof -
  have "x / pow2 (ulp x) = of_int m * pow2 (u - ulp x)"
    using assms(2) by (simp add: pow2_diff)
  also have "\<dots> = of_int (m * 2 ^ nat (u - ulp x))"
    using assms(3) by (simp add: pow2_nat)
  finally have "round_half_even (x / pow2 (ulp x)) = m * 2 ^ nat (u - ulp x)"
    by (simp only: round_half_even_of_int)
  then have "round64 x = x / pow2 (ulp x) * pow2 (ulp x)"
    unfolding round64_pos [OF assms(1)] \<open>x / pow2 (ulp x) = of_int m * pow2 (u - ulp x)\<close>
    using assms(3) by (simp add: pow2_nat)
  then show ?thesis using pow2_pos [of "ulp x"] by simp
qed

lemma round64_idem: "0 \<le> x \<Longrightarrow> round64 (round64 x) = round64 x"
proof -
  assume "0 \<le> x"
  show ?thesis
  proof (cases "0 < x \<and> 0 < round64 x")
    case False
    with \<open>0 \<le> x\<close> round64_nonneg [of x] have "round64 x = 0" by (cases "x = 0") auto
    then show ?thesis by simp
  next
    case True
    then have x: "0 < x" and r: "0 < round64 x" by auto
    define u where "u = ulp x"
    have rep: "round64 x = of_int (round_half_even (x / pow2 u)) * pow2 u" and le: "round64 x \<le> pow2 (u + 53)"
      unfolding u_def by (rule round64_pos [OF x], rule round64_le_pow2 [OF x])
    show ?thesis
    proof (cases "round64 x = pow2 (u + 53)")
      case True
      then have "pow2 (floor_log2 (round64 x)) \<le> pow2 (u + 53)" using floor_log2_bounds [OF r] by simp
      then have "floor_log2 (round64 x) \<le> u + 53" using pow2_less [of "u + 53"] by (meson linorder_not_le)
      moreover have "- 1074 \<le> u" by (simp add: u_def ulp_def)
      ultimately have "ulp (round64 x) \<le> u + 53" by (simp add: ulp_def)
      moreover have "round64 x = of_int 1 * pow2 (u + 53)" using True by simp
      ultimately show ?thesis using round64_integral [OF r] by blast
    next
      case False
      with le have "pow2 (floor_log2 (round64 x)) < pow2 (u + 53)" using floor_log2_bounds [OF r] by linarith
      then have "floor_log2 (round64 x) - 52 \<le> u" unfolding pow2_less by simp
      moreover have "- 1074 \<le> u" by (simp add: u_def ulp_def)
      ultimately have "ulp (round64 x) \<le> u" by (simp add: ulp_def)
      then show ?thesis using round64_integral [OF r rep] by blast
    qed
  qed
qed

section \<open>Sums of quotients\<close>

lemma fadd_0: "0 \<le> x \<Longrightarrow> 0 < y \<Longrightarrow> fadd 0 (fdiv x y) = fdiv x y"
  by (simp add: fadd_def fdiv_def round64_idem)

lemma fadd_mono: "0 \<le> x \<Longrightarrow> 0 \<le> y \<Longrightarrow> x \<le> x' \<Longrightarrow> y \<le> y' \<Longrightarrow> fadd x y \<le> fadd x' y'"
  unfolding fadd_def by (rule round64_mono) auto

lemma fdiv_antimono: "0 \<le> w \<Longrightarrow> 0 < a \<Longrightarrow> a \<le> b \<Longrightarrow> fdiv w b \<le> fdiv w a"
  unfolding fdiv_def by (rule round64_mono) (auto intro: divide_left_mono divide_nonneg_pos)

end
