(* ===== verification/Corpus_Schema.thy ===== *)
theory Corpus_Schema
  imports Calendar Sha256
begin

text \<open>
  The tables of the legal corpus (\<^verbatim>\<open>storage/schema.py\<close>) and its full-text rows. The pointer to the active
  generation is the row with id 1 of \<^verbatim>\<open>corpus_state\<close>, which always exists once the database is initialised.
\<close>

record source_module_row =
  sm_id :: string
  sm_slug :: string
  sm_name :: string
  sm_source_type :: string
  sm_publisher :: string
  sm_jurisdiction :: string
  sm_source_url :: "string option"
  sm_scope_json :: string
  sm_manifest_json :: string
  sm_origin :: string
  sm_acquisition_kind :: string
  sm_model_use_allowed :: bool
  sm_enabled :: bool

record source_version_row =
  sv_id :: string
  sv_source_module_id :: string
  sv_content_hash :: string
  sv_parser_version :: string
  sv_artifact_uri :: string
  sv_retrieved_at :: datetime
  sv_last_checked_at :: datetime
  sv_effective_from :: "datetime option"
  sv_effective_to :: "datetime option"
  sv_validation_state :: string
  sv_validation_json :: string
  sv_provenance_json :: string

record document_row =
  dc_id :: string
  dc_source_version_id :: string
  dc_stable_id :: string
  dc_title :: string
  dc_source_url :: "string option"

record chunk_row =
  ch_id :: string
  ch_document_id :: string
  ch_source_module_id :: string
  ch_source_version_id :: string
  ch_stable_id :: string
  ch_citation :: "string option"
  ch_title :: "string option"
  ch_text :: string
  ch_text_hash :: string
  ch_locator_json :: string

record citation_row =
  ct_id :: string
  ct_chunk_id :: string
  ct_normalized_citation :: string
  ct_display_citation :: string

record embedding_profile_row =
  ep_id :: string
  ep_provider :: string
  ep_model :: string
  ep_dimension :: int
  ep_preprocessing_json :: string
  ep_created_at :: datetime

record embedding_row =
  em_id :: string
  em_chunk_id :: string
  em_profile_id :: string
  em_dimension :: int
  em_dtype :: string
  em_normalized :: bool
  em_vector_bytes :: "byte list"
  em_checksum :: string
  em_created_at :: datetime

record generation_row =
  gn_id :: string
  gn_status :: string
  gn_profile_id :: "string option"
  gn_readiness :: string
  gn_is_partial :: bool
  gn_validation_json :: string
  gn_created_at :: datetime
  gn_activated_at :: "datetime option"

record generation_source_row =
  gs_generation_id :: string
  gs_source_version_id :: string

record generation_chunk_row =
  gc_generation_id :: string
  gc_chunk_id :: string
  gc_text_ready :: bool
  gc_embedding_ready :: bool

record chunk_fts_row =
  cf_chunk_id :: string
  cf_generation_id :: string
  cf_title :: string
  cf_citation :: string
  cf_body :: string

record corpus_db =
  source_modules :: "source_module_row list"
  source_versions :: "source_version_row list"
  documents :: "document_row list"
  chunks :: "chunk_row list"
  citations :: "citation_row list"
  embedding_profiles :: "embedding_profile_row list"
  embeddings :: "embedding_row list"
  generations :: "generation_row list"
  generation_sources :: "generation_source_row list"
  generation_chunks :: "generation_chunk_row list"
  active_generation_id :: "string option"
  chunk_fts :: "chunk_fts_row list"

text \<open>The database after \<^verbatim>\<open>initialize\<close>.\<close>

definition empty_corpus :: corpus_db where
  "empty_corpus =
     \<lparr>source_modules = [], source_versions = [], documents = [], chunks = [], citations = [], embedding_profiles = [],
      embeddings = [], generations = [], generation_sources = [], generation_chunks = [], active_generation_id = None,
      chunk_fts = []\<rparr>"

end
