(* ===== verification/Retrieval.thy ===== *)
theory Retrieval
  imports Query_Text Floats Corpus_Schema
begin

text \<open>
  Local search (\<^verbatim>\<open>retrieval/local.py\<close>): exact citation matches, full-text matches and vector matches of one
  generation of the corpus, fused by reciprocal ranks. The full-text engine with its \<^verbatim>\<open>bm25\<close> rank, numpy's
  product of a query with a stored vector and numpy's \<^verbatim>\<open>argpartition\<close> are arguments (\<open>search_env\<close>).
\<close>

section \<open>Filters, rows and results\<close>

record search_filters =
  sf_source_slug :: "string option"
  sf_source_type :: "string option"
  sf_jurisdiction :: "string option"
  sf_origin :: "string option"
  sf_model_eligible_only :: bool

definition no_filters :: search_filters where
  "no_filters = \<lparr>sf_source_slug = None, sf_source_type = None, sf_jurisdiction = None, sf_origin = None, sf_model_eligible_only = False\<rparr>"

text \<open>A date column: a \<^verbatim>\<open>datetime\<close> from a typed query, the stored text from a textual one.\<close>

datatype stamp = Datetime datetime | Stored string

definition clock_text :: "datetime \<Rightarrow> string" where
  "clock_text t =
     (let sec = t mod day_us div 1000000 in
      digits 2 (sec div 3600) @ '':'' @ digits 2 (sec div 60 mod 60) @ '':'' @ digits 2 (sec mod 60))"

definition date_text :: "datetime \<Rightarrow> string" where
  "date_text t = (case date_of t of (y, m, d) \<Rightarrow> digits 4 y @ ''-'' @ digits 2 m @ ''-'' @ digits 2 d)"

text \<open>How SQLite stores a date, and \<^verbatim>\<open>str(value)\<close> of one that was read back.\<close>

definition stored_text :: "datetime \<Rightarrow> string" where
  "stored_text t = date_text t @ '' '' @ clock_text t @ ''.'' @ digits 6 (t mod 1000000)"

definition datetime_str :: "datetime \<Rightarrow> string" where
  "datetime_str t = date_text t @ '' '' @ clock_text t @ (if t mod 1000000 = 0 then [] else ''.'' @ digits 6 (t mod 1000000))"

definition iso_timestamp :: "stamp \<Rightarrow> string" where
  "iso_timestamp v = (case v of Datetime t \<Rightarrow> isoformat_naive t | Stored s \<Rightarrow> s)"

definition stamp_str :: "stamp \<Rightarrow> string" where
  "stamp_str v = (case v of Datetime t \<Rightarrow> datetime_str t | Stored s \<Rightarrow> s)"

record result_row =
  rr_chunk_id :: string
  rr_source_slug :: string
  rr_source_name :: string
  rr_source_type :: string
  rr_jurisdiction :: string
  rr_origin :: string
  rr_model_use_allowed :: bool
  rr_source_url :: "string option"
  rr_publisher :: string
  rr_source_version_id :: string
  rr_content_hash :: string
  rr_provenance_json :: string
  rr_retrieved_at :: stamp
  rr_last_checked_at :: stamp
  rr_effective_from :: "stamp option"
  rr_effective_to :: "stamp option"
  rr_citation :: "string option"
  rr_title :: "string option"
  rr_text :: string
  rr_locator_json :: string

record search_result =
  lr_chunk_id :: string
  lr_source_slug :: string
  lr_source_name :: string
  lr_source_type :: string
  lr_jurisdiction :: string
  lr_source_url :: "string option"
  lr_publisher :: string
  lr_origin :: string
  lr_model_use_allowed :: bool
  lr_source_version_id :: string
  lr_content_hash :: string
  lr_category :: string
  lr_locator :: json_object
  lr_retrieved_at :: string
  lr_last_checked_at :: string
  lr_effective_from :: "string option"
  lr_effective_to :: "string option"
  lr_citation :: "string option"
  lr_title :: "string option"
  lr_text :: string
  lr_score :: rat
  lr_match_types :: "string list"

record search_response =
  sp_generation_id :: string
  sp_method :: string
  sp_semantic_status :: string
  sp_results :: "search_result list"

record vector_index =
  vi_rows :: "result_row list"
  vi_matrix :: "byte list list"
  vi_size_bytes :: nat

record search_env =
  se_engine :: int
  se_bm25 :: "chunk_fts_row list \<Rightarrow> string \<Rightarrow> chunk_fts_row \<Rightarrow> rat option"
  se_dot :: "byte list \<Rightarrow> rat list \<Rightarrow> rat option"
  se_argpartition :: "rat option list \<Rightarrow> nat \<Rightarrow> nat list"

section \<open>The cache of vector indexes\<close>

type_synonym index_key = "int \<times> string \<times> string"

record vector_cache =
  vc_max_bytes :: int
  vc_entries :: "(index_key \<times> vector_index) list"
  vc_size_bytes :: int

definition VECTOR_CACHE_MAX_BYTES :: int where
  "VECTOR_CACHE_MAX_BYTES = 256 * 1024 ^ 2"

definition new_vector_cache :: "int \<Rightarrow> vector_cache" where
  "new_vector_cache m = \<lparr>vc_max_bytes = m, vc_entries = [], vc_size_bytes = 0\<rparr>"

definition move_to_end :: "index_key \<Rightarrow> (index_key \<times> vector_index) list \<Rightarrow> (index_key \<times> vector_index) list" where
  "move_to_end k es = filter (\<lambda>e. fst e \<noteq> k) es @ filter (\<lambda>e. fst e = k) es"

text \<open>\<^verbatim>\<open>get\<close> takes the lock twice: to look an index up, and to insert the one that was loaded in between.\<close>

definition cache_lookup :: "index_key \<Rightarrow> vector_cache \<Rightarrow> vector_index option \<times> vector_cache" where
  "cache_lookup k c =
     (case map_of (vc_entries c) k of
        Some v \<Rightarrow> (Some v, c\<lparr>vc_entries := move_to_end k (vc_entries c)\<rparr>)
      | None \<Rightarrow> (None, c))"

fun drop_oldest :: "int \<Rightarrow> (index_key \<times> vector_index) list \<Rightarrow> int \<Rightarrow> (index_key \<times> vector_index) list \<times> int" where
  "drop_oldest m (e # f # es) bytes =
     (if m < bytes then drop_oldest m (f # es) (bytes - int (vi_size_bytes (snd e))) else (e # f # es, bytes))"
| "drop_oldest m es bytes = (es, bytes)"

definition cache_insert :: "index_key \<Rightarrow> vector_index \<Rightarrow> vector_cache \<Rightarrow> vector_index \<times> vector_cache" where
  "cache_insert k loaded c =
     (if vc_max_bytes c < int (vi_size_bytes loaded) then (loaded, c)
      else (case map_of (vc_entries c) k of
              Some v \<Rightarrow> (v, c\<lparr>vc_entries := move_to_end k (vc_entries c)\<rparr>)
            | None \<Rightarrow>
                (case drop_oldest (vc_max_bytes c) (vc_entries c @ [(k, loaded)]) (vc_size_bytes c + int (vi_size_bytes loaded)) of
                   (es, bytes) \<Rightarrow> (loaded, c\<lparr>vc_entries := es, vc_size_bytes := bytes\<rparr>))))"

definition cache_get :: "index_key \<Rightarrow> vector_index result \<Rightarrow> vector_cache \<Rightarrow> vector_index result \<times> vector_cache" where
  "cache_get k loader c =
     (case cache_lookup k c of
        (Some v, c1) \<Rightarrow> (Inr v, c1)
      | (None, c1) \<Rightarrow>
          (case loader of
             Inl e \<Rightarrow> (Inl e, c1)
           | Inr loaded \<Rightarrow> (case cache_insert k loaded c1 of (v, c2) \<Rightarrow> (Inr v, c2))))"

section \<open>Joins and filters\<close>

type_synonym joined_row = "chunk_row \<times> source_module_row \<times> source_version_row \<times> document_row"

definition joins_of :: "corpus_db \<Rightarrow> chunk_row \<Rightarrow> joined_row list" where
  "joins_of db c =
     [(c, sm, sv, d).
        sm \<leftarrow> filter (\<lambda>sm. sm_id sm = ch_source_module_id c) (source_modules db),
        sv \<leftarrow> filter (\<lambda>sv. sv_id sv = ch_source_version_id c) (source_versions db),
        d \<leftarrow> filter (\<lambda>d. dc_id d = ch_document_id c) (documents db)]"

definition result_join :: "corpus_db \<Rightarrow> string \<Rightarrow> joined_row list" where
  "result_join db g =
     [t. gc \<leftarrow> filter (\<lambda>gc. gc_generation_id gc = g) (generation_chunks db),
         c \<leftarrow> filter (\<lambda>c. ch_id c = gc_chunk_id gc) (chunks db),
         t \<leftarrow> joins_of db c]"

definition result_select :: "(datetime \<Rightarrow> stamp) \<Rightarrow> joined_row \<Rightarrow> result_row" where
  "result_select st t =
     (case t of (c, sm, sv, d) \<Rightarrow>
        \<lparr>rr_chunk_id = ch_id c, rr_source_slug = sm_slug sm, rr_source_name = sm_name sm, rr_source_type = sm_source_type sm,
         rr_jurisdiction = sm_jurisdiction sm, rr_origin = sm_origin sm, rr_model_use_allowed = sm_model_use_allowed sm,
         rr_source_url = dc_source_url d, rr_publisher = sm_publisher sm, rr_source_version_id = sv_id sv,
         rr_content_hash = sv_content_hash sv, rr_provenance_json = sv_provenance_json sv,
         rr_retrieved_at = st (sv_retrieved_at sv), rr_last_checked_at = st (sv_last_checked_at sv),
         rr_effective_from = map_option st (sv_effective_from sv), rr_effective_to = map_option st (sv_effective_to sv),
         rr_citation = ch_citation c, rr_title = ch_title c, rr_text = ch_text c, rr_locator_json = ch_locator_json c\<rparr>)"

definition wanted :: "string option \<Rightarrow> string \<Rightarrow> bool" where
  "wanted f v \<longleftrightarrow> \<not> given f \<or> f = Some v"

definition filter_conditions :: "search_filters \<Rightarrow> source_module_row \<Rightarrow> bool" where
  "filter_conditions f sm \<longleftrightarrow>
     wanted (sf_source_slug f) (sm_slug sm) \<and> wanted (sf_source_type f) (sm_source_type sm) \<and>
     wanted (sf_jurisdiction f) (sm_jurisdiction sm) \<and> wanted (sf_origin f) (sm_origin sm) \<and>
     (sf_model_eligible_only f \<longrightarrow> sm_model_use_allowed sm)"

definition row_matches_filters :: "result_row \<Rightarrow> search_filters \<Rightarrow> bool" where
  "row_matches_filters r f \<longleftrightarrow>
     wanted (sf_source_slug f) (rr_source_slug r) \<and> wanted (sf_source_type f) (rr_source_type r) \<and>
     wanted (sf_jurisdiction f) (rr_jurisdiction r) \<and> wanted (sf_origin f) (rr_origin r) \<and>
     (sf_model_eligible_only f \<longrightarrow> rr_model_use_allowed r)"

section \<open>Exact and keyword matches\<close>

definition typed_row :: "joined_row \<Rightarrow> result_row" where
  "typed_row = result_select Datetime"

definition textual_row :: "joined_row \<Rightarrow> result_row" where
  "textual_row = result_select (Stored \<circ> stored_text)"

definition exact_candidates :: "corpus_db \<Rightarrow> string \<Rightarrow> string \<Rightarrow> search_filters \<Rightarrow> joined_row list" where
  "exact_candidates db g cit f =
     [t. t \<leftarrow> result_join db g, ct \<leftarrow> filter (\<lambda>ct. ct_chunk_id ct = ch_id (fst t)) (citations db),
         ct_normalized_citation ct = cit \<and> filter_conditions f (fst (snd t))]"

definition exact_rows :: "corpus_db \<Rightarrow> string \<Rightarrow> string \<Rightarrow> search_filters \<Rightarrow> int \<Rightarrow> result_row list result" where
  "exact_rows db g q f limit =
     bind_result (normalize_citation q) (\<lambda>cit.
     Inr (map typed_row
            (take (nat limit)
               (sort_key (\<lambda>t. (if ch_citation (fst t) = Some cit then 0 else 1 :: nat, ch_id (fst t)))
                  (exact_candidates db g cit f)))))"

definition TOKEN_PATTERN :: re where
  "TOKEN_PATTERN = many1 (Chr (Either Word (Either (Is section_sign) (Is CHR ''-''))))"

definition escape_quotes :: "string \<Rightarrow> string" where
  "escape_quotes t = concat (map (\<lambda>c. if c = CHR 0x22 then [CHR 0x22, CHR 0x22] else [c]) t)"

definition fts_query :: "string \<Rightarrow> string" where
  "fts_query q =
     join '' OR '' (map (\<lambda>t. [CHR 0x22] @ escape_quotes t @ [CHR 0x22])
       (dedupe [] (filter (\<lambda>t. 1 < length t) (findall TOKEN_PATTERN (lower q)))))"

definition keyword_candidates ::
  "search_env \<Rightarrow> corpus_db \<Rightarrow> string \<Rightarrow> string \<Rightarrow> search_filters \<Rightarrow> (rat \<times> joined_row) list" where
  "keyword_candidates env db g match f =
     [(rank, t).
        cf \<leftarrow> filter (\<lambda>cf. cf_generation_id cf = ''__shared__'') (chunk_fts db),
        rank \<leftarrow> (case se_bm25 env (chunk_fts db) match cf of None \<Rightarrow> [] | Some rank \<Rightarrow> [rank]),
        c \<leftarrow> filter (\<lambda>c. ch_id c = cf_chunk_id cf) (chunks db),
        gc \<leftarrow> filter (\<lambda>gc. gc_chunk_id gc = ch_id c \<and> gc_generation_id gc = g) (generation_chunks db),
        t \<leftarrow> filter (\<lambda>t. filter_conditions f (fst (snd t))) (joins_of db c)]"

definition keyword_rows ::
  "search_env \<Rightarrow> corpus_db \<Rightarrow> string \<Rightarrow> search_filters \<Rightarrow> int \<Rightarrow> string \<Rightarrow> result_row list" where
  "keyword_rows env db g f limit q =
     (let match = fts_query q in
      if match = [] then []
      else map (textual_row \<circ> snd)
             (take (nat limit) (sort_key (\<lambda>p. (fst p, ch_id (fst (snd p)))) (keyword_candidates env db g match f))))"

section \<open>Vector matches\<close>

text \<open>\<^verbatim>\<open>math.sqrt\<close>, correctly rounded: an integer root with at least one bit to spare, and a half when it is inexact.\<close>

definition fsqrt :: "rat \<Rightarrow> rat" where
  "fsqrt x =
     (if x \<le> 0 then 0
      else let k = floor_log2 x div 2 - 54; y = x / pow2 (2 * k); s = int_root 2 \<lfloor>y\<rfloor> 56 0
           in round64 ((of_int s + (if of_int (s * s) = y then 0 else 1 / 2)) * pow2 k))"

text \<open>\<^verbatim>\<open>sum\<close> of floats: compensated summation, as Python 3.12 computes it. Overflow to an infinity is not reproduced.\<close>

fun compensated_sum :: "rat \<Rightarrow> rat \<Rightarrow> rat list \<Rightarrow> rat" where
  "compensated_sum total_so_far c [] = (if c = 0 then total_so_far else fadd total_so_far c)"
| "compensated_sum total_so_far c (x # xs) =
     (let t = fadd total_so_far x in
      compensated_sum t
        (fadd c (if \<bar>x\<bar> \<le> \<bar>total_so_far\<bar> then fadd (fadd total_so_far (- t)) x else fadd (fadd x (- t)) total_so_far)) xs)"

definition normalize_vector :: "rat option list \<Rightarrow> int \<Rightarrow> rat list result" where
  "normalize_vector v expected =
     (if int (length v) \<noteq> expected
      then Inl (EmbeddingValidationError (''Expected dimension '' @ dump_int expected @ '', received '' @ dump_int (int (length v)) @ ''.''))
      else if None \<in> set v then Inl (EmbeddingValidationError ''Embedding contains non-finite values.'')
      else let xs = map the v; magnitude = fsqrt (compensated_sum 0 0 (map (\<lambda>x. fmul x x) xs)) in
           if magnitude = 0 then Inl (EmbeddingValidationError ''Embedding vector cannot be all zeroes.'')
           else Inr (map (\<lambda>x. fdiv x magnitude) xs))"

text \<open>\<^verbatim>\<open>np.isfinite\<close> on little-endian binary32: not all bits of the exponent are set.\<close>

fun finite_floats :: "byte list \<Rightarrow> bool" where
  "finite_floats (b0 # b1 # b2 # b3 # bs) \<longleftrightarrow> \<not> (b3 AND 0x7F = 0x7F \<and> b2 AND 0x80 = 0x80) \<and> finite_floats bs"
| "finite_floats _ \<longleftrightarrow> True"

definition check_embedding :: "int \<Rightarrow> embedding_row \<Rightarrow> unit result" where
  "check_embedding dimension em =
     (if \<not> em_normalized em then Inl (EmbeddingValidationError ''Embedding is not normalized.'')
      else if em_dtype em \<noteq> ''float32-le'' then Inl (EmbeddingValidationError (''Unsupported vector dtype: '' @ em_dtype em))
      else if em_dimension em \<noteq> dimension \<or> int (length (em_vector_bytes em)) \<noteq> dimension * 4
      then Inl (EmbeddingValidationError ''Embedding byte length does not match its profile dimension.'')
      else if hexdigest (sha256 (em_vector_bytes em)) \<noteq> em_checksum em
      then Inl (EmbeddingValidationError ''Embedding checksum mismatch.'')
      else if \<not> finite_floats (em_vector_bytes em)
      then Inl (EmbeddingValidationError ''Embedding contains non-finite values.'')
      else Inr ())"

fun check_embeddings :: "int \<Rightarrow> embedding_row list \<Rightarrow> unit result" where
  "check_embeddings dimension [] = Inr ()"
| "check_embeddings dimension (em # ems) = bind_result (check_embedding dimension em) (\<lambda>_. check_embeddings dimension ems)"

definition opt_str_text :: "string option \<Rightarrow> string" where
  "opt_str_text v = (case v of None \<Rightarrow> ''None'' | Some t \<Rightarrow> t)"

definition row_texts :: "result_row \<Rightarrow> string list" where
  "row_texts r =
     [rr_chunk_id r, rr_source_slug r, rr_source_name r, rr_source_type r, rr_jurisdiction r, rr_origin r,
      if rr_model_use_allowed r then ''True'' else ''False'', opt_str_text (rr_source_url r), rr_publisher r,
      rr_source_version_id r, rr_content_hash r, rr_provenance_json r, stamp_str (rr_retrieved_at r),
      stamp_str (rr_last_checked_at r), opt_str_text (map_option stamp_str (rr_effective_from r)),
      opt_str_text (map_option stamp_str (rr_effective_to r)), opt_str_text (rr_citation r), opt_str_text (rr_title r),
      rr_text r, rr_locator_json r]"

definition indexed_rows :: "corpus_db \<Rightarrow> string \<Rightarrow> string \<Rightarrow> (joined_row \<times> embedding_row) list" where
  "indexed_rows db g p =
     sort_key (\<lambda>x. ch_id (fst (fst x)))
       [(t, em). t \<leftarrow> result_join db g,
          em \<leftarrow> filter (\<lambda>em. em_chunk_id em = ch_id (fst t) \<and> em_profile_id em = p) (embeddings db)]"

definition load_vector_index :: "corpus_db \<Rightarrow> string \<Rightarrow> string \<Rightarrow> int \<Rightarrow> vector_index result" where
  "load_vector_index db g p dimension =
     (let found_rows = indexed_rows db g p; rows = map (typed_row \<circ> fst) found_rows;
          vectors = map (em_vector_bytes \<circ> snd) found_rows in
      bind_result (check_embeddings dimension (map snd found_rows)) (\<lambda>_.
      Inr \<lparr>vi_rows = rows, vi_matrix = vectors,
           vi_size_bytes = length (concat vectors) + length (concat (map utf8 (concat (map row_texts rows))))\<rparr>))"

definition current_row :: "corpus_db \<Rightarrow> result_row \<Rightarrow> result_row" where
  "current_row db r =
     (case map_of (map (\<lambda>sm. (sm_slug sm, sm)) (rev (source_modules db))) (rr_source_slug r) of
        None \<Rightarrow> r\<lparr>rr_model_use_allowed := False\<rparr>
      | Some sm \<Rightarrow>
          r\<lparr>rr_source_name := sm_name sm, rr_source_type := sm_source_type sm, rr_jurisdiction := sm_jurisdiction sm,
            rr_origin := sm_origin sm, rr_publisher := sm_publisher sm, rr_model_use_allowed := sm_model_use_allowed sm\<rparr>)"

text \<open>The best candidates: the last ones of the partition, then those with a finite score in order.\<close>

definition rank_vectors :: "search_env \<Rightarrow> (result_row \<times> byte list) list \<Rightarrow> rat list \<Rightarrow> int \<Rightarrow> result_row list" where
  "rank_vectors env candidates q limit =
     (let n = length candidates; keep = min (nat limit) n;
          scored = map (\<lambda>c. (fst c, se_dot env (snd c) q)) candidates;
          best = (if keep < n then map ((!) scored) (drop (n - keep) (se_argpartition env (map snd scored) keep)) else scored)
      in map snd (take (nat limit) (sort_key (\<lambda>p. (fst p, rr_chunk_id (snd p))) [(- s, r). (r, Some s) \<leftarrow> best])))"

definition eligible_rows :: "corpus_db \<Rightarrow> vector_index \<Rightarrow> search_filters \<Rightarrow> (result_row \<times> byte list) list" where
  "eligible_rows db v f = filter (\<lambda>c. row_matches_filters (fst c) f) (zip (map (current_row db) (vi_rows v)) (vi_matrix v))"

definition semantic_rows ::
  "search_env \<Rightarrow> corpus_db \<Rightarrow> string \<Rightarrow> search_filters \<Rightarrow> rat option list \<Rightarrow> string \<Rightarrow> int \<Rightarrow> vector_cache \<Rightarrow>
   result_row list result \<times> vector_cache" where
  "semantic_rows env db g f v p limit cache =
     (if \<not> (\<exists>gn \<in> set (generations db). gn_id gn = g \<and> gn_profile_id gn = Some p) then (Inr [], cache)
      else (case List.find (\<lambda>ep. ep_id ep = p) (embedding_profiles db) of
              None \<Rightarrow> (Inr [], cache)
            | Some ep \<Rightarrow>
                (case normalize_vector v (ep_dimension ep) of
                   Inl e \<Rightarrow> (Inl e, cache)
                 | Inr q \<Rightarrow>
                     (case cache_get (se_engine env, g, p) (load_vector_index db g p (ep_dimension ep)) cache of
                        (Inl e, cache1) \<Rightarrow> (Inl e, cache1)
                      | (Inr ix, cache1) \<Rightarrow> (Inr (rank_vectors env (eligible_rows db ix f) q limit), cache1)))))"

section \<open>Fusion\<close>

record hit =
  ht_id :: string
  ht_row :: result_row
  ht_score :: rat
  ht_types :: "string list"

text \<open>
  One pass of the fusion loops: the row of the first occurrence stays, the score gets the weight over 60 plus
  the rank, and the kind of match is remembered.
\<close>

definition reciprocal :: "rat \<Rightarrow> nat \<Rightarrow> rat" where
  "reciprocal weight rank = fdiv weight (of_nat (60 + rank))"

definition add_hit :: "string \<Rightarrow> rat \<Rightarrow> nat \<Rightarrow> result_row \<Rightarrow> hit list \<Rightarrow> hit list" where
  "add_hit kind weight rank r hs =
     (if rr_chunk_id r \<in> set (map ht_id hs)
      then map (\<lambda>h. if ht_id h = rr_chunk_id r
                    then h\<lparr>ht_score := fadd (ht_score h) (reciprocal weight rank), ht_types := List.insert kind (ht_types h)\<rparr>
                    else h) hs
      else hs @ [\<lparr>ht_id = rr_chunk_id r, ht_row = r, ht_score = fadd 0 (reciprocal weight rank), ht_types = [kind]\<rparr>])"

fun add_hits :: "string \<Rightarrow> rat \<Rightarrow> nat \<Rightarrow> result_row list \<Rightarrow> hit list \<Rightarrow> hit list" where
  "add_hits kind weight rank [] hs = hs"
| "add_hits kind weight rank (r # rs) hs = add_hits kind weight (rank + 1) rs (add_hit kind weight rank r hs)"

definition ranked_hits :: "nat \<Rightarrow> hit list \<Rightarrow> hit list" where
  "ranked_hits limit hs = take limit (sort_key (\<lambda>h. (- ht_score h, ht_id h)) hs)"

definition fuse_ranked_sets :: "result_row list list \<Rightarrow> int \<Rightarrow> result_row list" where
  "fuse_ranked_sets result_sets limit =
     map ht_row (ranked_hits (nat limit) (fold (add_hits ''keyword'' 1 1) result_sets []))"

definition json_object_of :: "string \<Rightarrow> json_object" where
  "json_object_of s = (case loads s of Some (JObj fs) \<Rightarrow> fs | _ \<Rightarrow> [])"

definition or_else :: "json_object \<Rightarrow> string \<Rightarrow> string \<Rightarrow> string" where
  "or_else fs k otherwise =
     (case map_of fs k of Some v \<Rightarrow> if truthy v then py_str v else otherwise | None \<Rightarrow> otherwise)"

definition search_result_of :: "hit \<Rightarrow> search_result" where
  "search_result_of h =
     (let r = ht_row h; provenance = json_object_of (rr_provenance_json r); is_user = rr_origin r = ''user'' in
      \<lparr>lr_chunk_id = rr_chunk_id r, lr_source_slug = rr_source_slug r,
       lr_source_name = or_else provenance ''title'' (rr_source_name r), lr_source_type = rr_source_type r,
       lr_jurisdiction = (if is_user then or_else provenance ''jurisdiction'' [] else rr_jurisdiction r),
       lr_source_url = rr_source_url r,
       lr_publisher = (if is_user then or_else provenance ''publisher'' [] else rr_publisher r),
       lr_origin = rr_origin r, lr_model_use_allowed = rr_model_use_allowed r,
       lr_source_version_id = rr_source_version_id r, lr_content_hash = rr_content_hash r,
       lr_category = or_else provenance ''category'' (or_else provenance ''authority_category'' ''official''),
       lr_locator = json_object_of (rr_locator_json r),
       lr_retrieved_at = iso_timestamp (rr_retrieved_at r), lr_last_checked_at = iso_timestamp (rr_last_checked_at r),
       lr_effective_from = map_option iso_timestamp (rr_effective_from r),
       lr_effective_to = map_option iso_timestamp (rr_effective_to r),
       lr_citation = rr_citation r, lr_title = rr_title r, lr_text = rr_text r,
       lr_score = ht_score h, lr_match_types = sort (ht_types h)\<rparr>)"

definition merged_hits :: "result_row list \<Rightarrow> result_row list \<Rightarrow> result_row list \<Rightarrow> hit list" where
  "merged_hits exact keyword semantic =
     add_hits ''vector'' 1 1 semantic (add_hits ''keyword'' 1 1 keyword (add_hits ''exact'' 4 1 exact []))"

definition merge_ranked :: "result_row list \<Rightarrow> result_row list \<Rightarrow> result_row list \<Rightarrow> int \<Rightarrow> search_result list" where
  "merge_ranked exact keyword semantic limit =
     map search_result_of (ranked_hits (nat limit) (merged_hits exact keyword semantic))"

section \<open>Source hints\<close>

definition phrase :: "string list \<Rightarrow> re" where
  "phrase words = seqs [Bound, spaced words, Bound]"

definition admin_code :: re where
  "admin_code = seqs [opt_re (Seq (ci ''NYC'') ws), ci ''admin'', opt_re (ci ''istrative''), ws, ci ''code'']"

definition opt_section :: re where
  "opt_section = seqs [ws0, opt_re (Alt (Chr (Is section_sign)) (ci ''section'')), ws0]"

definition SOURCE_HINTS :: "(re \<times> string) list" where
  "SOURCE_HINTS =
     [(alts [phrase [''rent'', ''stabilization'', ''law''], seqs [admin_code, opt_section, cs ''26-5''],
             seqs [Bound, cs ''26-5'', Rep 2 2 digit_re, opt_re (Seq (cs ''.'') (many1 digit_re)), Bound]],
       ''nyc-rent-stabilization-law''),
      (alts [word_re ''DHCR'', spaced [''preferential'', ''rent''], spaced [''renewal'', ''lease''],
             seqs [ci ''rent'', dash_or_space_opt, ci ''stabilized''], spaced [''rent'', ''stabilization''],
             spaced [''succession'', ''rights'']],
       ''dhcr-rent-regulation-guidance''),
      (alts [phrase [''good'', ''cause''], article_6a,
             seqs [Bound, ci ''RPL'', opt_section, Alt (Seq (cs ''21'') (Chr (In ''0123456''))) (ci ''231-c'')]],
       ''ny-real-property-law-good-cause''),
      (Alt (seqs [word_re ''HPD'', anything, Bound,
                  alts [ci ''complaint'', ci ''inspection'', ci ''certif'', ci ''dismiss'', ci ''clear''], Bound])
           (seqs [Bound, alts [ci ''complaint'', ci ''ecertification'', spaced [''clear'', ''violations'']], Bound]),
       ''hpd-guidance''),
      (alts [word_re ''RPAPL'', spaced [''real'', ''property'', ''actions'', ''and'', ''proceedings''], word_re ''nonpayment'',
             word_re ''holdover'', spaced [''summary'', ''proceeding''], spaced [''rent'', ''default''],
             spaced [''section'', ''seven'', ''eleven'']],
       ''ny-rpapl''),
      (Alt (word_re ''MDL'') (Seq (spaced [''multiple'', ''dwelling'']) (opt_re (Seq ws (ci ''law'')))),
       ''ny-multiple-dwelling-law''),
      (alts [word_re ''HMC'', seqs [ci ''housing'', ws, opt_re (Seq (ci ''maintenance'') ws), ci ''code''], admin_code,
             seqs [Bound, cs ''27-'', Rep 3 5 digit_re, Bound], phrase [''heat'', ''season''],
             seqs [ci ''minimum'', ws, opt_re (Seq (ci ''indoor'') ws), ci ''temperature''],
             seqs [spaced [''fit'', ''for''], ws, opt_re (Seq (ci ''human'') ws), ci ''habitation''], spaced [''good'', ''repair''],
             seqs [ci ''dut'', Alt (ci ''y'') (ci ''ies''), ws, ci ''of'', ws, opt_re (seqs [ci ''a'', opt_re (ci ''n''), ws]), ci ''owner'']],
       ''nyc-housing-maintenance-code'')]"

definition source_hint_filters :: "string \<Rightarrow> search_filters \<Rightarrow> search_filters option" where
  "source_hint_filters q f =
     (if given (sf_source_slug f) then None
      else (case List.find (\<lambda>h. found (fst h) q) SOURCE_HINTS of
              None \<Rightarrow> None
            | Some h \<Rightarrow> Some (f\<lparr>sf_source_slug := Some (snd h)\<rparr>)))"

section \<open>Search\<close>

definition keyword_queries :: "string \<Rightarrow> string list" where
  "keyword_queries q = dedupe [] (q # expand_query_text q # focused_query_texts q)"

definition keyword_sets ::
  "search_env \<Rightarrow> corpus_db \<Rightarrow> string \<Rightarrow> string \<Rightarrow> search_filters \<Rightarrow> int \<Rightarrow> result_row list list" where
  "keyword_sets env db g q f limit =
     map (keyword_rows env db g f limit) (keyword_queries q) @
     (case source_hint_filters q f of
        None \<Rightarrow> []
      | Some hinted \<Rightarrow> map (keyword_rows env db g hinted limit) (keyword_queries q))"

definition requested_vectors ::
  "search_env \<Rightarrow> corpus_db \<Rightarrow> string \<Rightarrow> search_filters \<Rightarrow> rat option list option \<Rightarrow> string option \<Rightarrow> int \<Rightarrow> vector_cache \<Rightarrow>
   (result_row list \<times> string) result \<times> vector_cache" where
  "requested_vectors env db g f query_vector profile limit cache =
     (case (query_vector, profile) of
        (None, None) \<Rightarrow> (Inr ([], ''not_requested''), cache)
      | (Some v, Some p) \<Rightarrow>
          (case semantic_rows env db g f v p (limit * 4) cache of
             (Inl e, cache1) \<Rightarrow> (Inl e, cache1)
           | (Inr rows, cache1) \<Rightarrow> (Inr (rows, if rows = [] then ''index_unavailable'' else ''available''), cache1))
      | _ \<Rightarrow> (Inl (ValueError ''Semantic search requires both a query vector and profile ID.''), cache))"

definition search_response_of :: "string \<Rightarrow> result_row list \<Rightarrow> result_row list \<Rightarrow> int \<Rightarrow> result_row list \<times> string \<Rightarrow> search_response" where
  "search_response_of g exact keyword limit s =
     \<lparr>sp_generation_id = g, sp_method = (if snd s = ''available'' then ''exact+keyword+vector'' else ''exact+keyword''),
      sp_semantic_status = snd s, sp_results = merge_ranked exact keyword (fst s) limit\<rparr>"

definition select_generation :: "corpus_db \<Rightarrow> string option \<Rightarrow> string result" where
  "select_generation db generation =
     (case (if given generation then generation else active_generation_id db) of
        None \<Rightarrow> Inl (ValueError ''No active legal corpus is installed.'')
      | Some g \<Rightarrow> Inr g)"

definition checked_query :: "string \<Rightarrow> int \<Rightarrow> string result" where
  "checked_query query limit =
     (let q = join '' '' (split_ws query) in
      if q = [] then Inl (ValueError ''Search query cannot be empty.'')
      else if \<not> (1 \<le> limit \<and> limit \<le> 100) then Inl (ValueError ''Search limit must be between 1 and 100.'')
      else Inr q)"

definition local_search ::
  "search_env \<Rightarrow> corpus_db \<Rightarrow> string \<Rightarrow> search_filters option \<Rightarrow> int \<Rightarrow> rat option list option \<Rightarrow> string option \<Rightarrow>
   string option \<Rightarrow> vector_cache \<Rightarrow> search_response result \<times> vector_cache" where
  "local_search env db query filters limit query_vector profile generation cache =
     (let f = (case filters of None \<Rightarrow> no_filters | Some f \<Rightarrow> f) in
      case bind_result (checked_query query limit) (\<lambda>q.
           bind_result (select_generation db generation) (\<lambda>g.
           bind_result (exact_rows db g q f limit) (\<lambda>exact. Inr (q, g, exact)))) of
        Inl e \<Rightarrow> (Inl e, cache)
      | Inr (q, g, exact) \<Rightarrow>
          (let keyword = fuse_ranked_sets (keyword_sets env db g q f (limit * 4)) (limit * 4) in
           case requested_vectors env db g f query_vector profile limit cache of
             (Inl e, cache1) \<Rightarrow> (Inl e, cache1)
           | (Inr s, cache1) \<Rightarrow> (Inr (search_response_of g exact keyword limit s), cache1)))"

end
