(* ===== verification/Retrieval_Claims.thy ===== *)
theory Retrieval_Claims
  imports Retrieval
begin

text \<open>
  Local search: results come from sources whose current settings match the filters and belong to the chosen
  generation; they are ranked, without repetition and within the limit; exact matches come first; the cache of
  vector indexes keeps its bound under any interleaving; normalising a citation never fails.
\<close>

section \<open>Fusion\<close>

lemma add_hit_ids: "distinct (map ht_id hs) \<Longrightarrow> distinct (map ht_id (add_hit k w n r hs))"
  by (auto simp: add_hit_def comp_def if_distrib cong: if_cong)

lemma add_hits_ids: "distinct (map ht_id hs) \<Longrightarrow> distinct (map ht_id (add_hits k w n rs hs))"
  by (induction rs arbitrary: hs n) (auto simp: add_hit_ids)

lemma fold_hits_ids: "distinct (map ht_id hs) \<Longrightarrow> distinct (map ht_id (fold (add_hits k w n) rss hs))"
  by (induction rss arbitrary: hs) (auto simp: add_hits_ids)

text \<open>A property of rows that holds for every fused row; the id of a hit is that of its row.\<close>

definition hits_all :: "(result_row \<Rightarrow> bool) \<Rightarrow> hit list \<Rightarrow> bool" where
  "hits_all P hs \<longleftrightarrow> (\<forall>h\<in>set hs. P (ht_row h) \<and> ht_id h = rr_chunk_id (ht_row h))"

lemma add_hit_all: "hits_all P hs \<Longrightarrow> P r \<Longrightarrow> hits_all P (add_hit k w n r hs)"
  by (auto simp: add_hit_def hits_all_def)

lemma add_hits_all: "hits_all P hs \<Longrightarrow> \<forall>r\<in>set rs. P r \<Longrightarrow> hits_all P (add_hits k w n rs hs)"
  by (induction rs arbitrary: hs n) (auto simp: add_hit_all)

lemma fold_hits_all: "hits_all P hs \<Longrightarrow> \<forall>rs\<in>set rss. \<forall>r\<in>set rs. P r \<Longrightarrow> hits_all P (fold (add_hits k w n) rss hs)"
  by (induction rss arbitrary: hs) (auto simp: add_hits_all)

lemma hits_all_Nil [simp]: "hits_all P []"
  by (simp add: hits_all_def)

lemma ranked_hits_subset: "h \<in> set (ranked_hits n hs) \<Longrightarrow> h \<in> set hs"
  unfolding ranked_hits_def by (auto dest: in_set_takeD)

lemma ranked_hits_ids: "distinct (map ht_id hs) \<Longrightarrow> distinct (map ht_id (ranked_hits n hs))"
  by (simp add: ranked_hits_def take_map [symmetric] distinct_map_sort_key)

lemma ranked_hits_sorted: "sorted (map (\<lambda>h. (- ht_score h, ht_id h)) (ranked_hits n hs))"
  by (simp add: ranked_hits_def take_map [symmetric] sorted_wrt_take)

lemma merged_hits_all:
  "\<forall>r\<in>set ex \<union> set kw \<union> set sem. P r \<Longrightarrow> hits_all P (merged_hits ex kw sem)"
  unfolding merged_hits_def by (intro add_hits_all) auto

lemma merged_hits_ids: "distinct (map ht_id (merged_hits ex kw sem))"
  unfolding merged_hits_def by (intro add_hits_ids) simp

lemma fuse_all: "\<forall>rs\<in>set rss. \<forall>r\<in>set rs. P r \<Longrightarrow> r \<in> set (fuse_ranked_sets rss n) \<Longrightarrow> P r"
  unfolding fuse_ranked_sets_def
  using fold_hits_all [of P "[]" rss "''keyword''" 1 1] by (auto simp: hits_all_def dest: ranked_hits_subset)

lemma fuse_distinct: "distinct (map rr_chunk_id (fuse_ranked_sets rss n))"
proof -
  let ?hs = "ranked_hits (nat n) (fold (add_hits ''keyword'' 1 1) rss [])"
  have "hits_all (\<lambda>_. True) (fold (add_hits ''keyword'' 1 1) rss [])" by (intro fold_hits_all) auto
  then have "map (rr_chunk_id \<circ> ht_row) ?hs = map ht_id ?hs"
    by (auto simp: hits_all_def dest: ranked_hits_subset)
  moreover have "distinct (map ht_id ?hs)" by (intro ranked_hits_ids fold_hits_ids) simp
  ultimately have "distinct (map (rr_chunk_id \<circ> ht_row) ?hs)" by (simp only:)
  then show ?thesis by (simp add: fuse_ranked_sets_def)
qed

section \<open>Where rows come from\<close>

definition in_generation :: "corpus_db \<Rightarrow> string \<Rightarrow> string \<Rightarrow> bool" where
  "in_generation db g c \<longleftrightarrow> (\<exists>gc\<in>set (generation_chunks db). gc_generation_id gc = g \<and> gc_chunk_id gc = c)"

definition current_source :: "corpus_db \<Rightarrow> search_filters \<Rightarrow> string \<Rightarrow> bool" where
  "current_source db f slug \<longleftrightarrow> (\<exists>sm\<in>set (source_modules db). sm_slug sm = slug \<and> filter_conditions f sm)"

definition admitted :: "corpus_db \<Rightarrow> string \<Rightarrow> search_filters \<Rightarrow> result_row \<Rightarrow> bool" where
  "admitted db g f r \<longleftrightarrow> current_source db f (rr_source_slug r) \<and> in_generation db g (rr_chunk_id r)"

lemma select_fields [simp]:
  "rr_chunk_id (result_select st t) = ch_id (fst t)" "rr_source_slug (result_select st t) = sm_slug (fst (snd t))"
  by (auto simp: result_select_def split: prod.splits)

lemma joins_of_mem: "t \<in> set (joins_of db c) \<Longrightarrow> fst t = c \<and> fst (snd t) \<in> set (source_modules db)"
  by (auto simp: joins_of_def)

lemma result_join_mem:
  "t \<in> set (result_join db g) \<Longrightarrow> fst (snd t) \<in> set (source_modules db) \<and> in_generation db g (ch_id (fst t))"
  by (fastforce simp: result_join_def in_generation_def dest: joins_of_mem)

lemma exact_admitted: "exact_rows db g q f n = Inr rs \<Longrightarrow> r \<in> set rs \<Longrightarrow> admitted db g f r"
proof -
  assume "exact_rows db g q f n = Inr rs" and "r \<in> set rs"
  then obtain cit t where "t \<in> set (exact_candidates db g cit f)" and "r = typed_row t"
    by (auto simp: exact_rows_def elim!: bind_resultE dest!: in_set_takeD)
  then show ?thesis
    by (auto simp: exact_candidates_def typed_row_def admitted_def current_source_def dest!: result_join_mem)
qed

lemma keyword_admitted: "r \<in> set (keyword_rows env db g f n q) \<Longrightarrow> admitted db g f r"
  by (fastforce simp: keyword_rows_def keyword_candidates_def Let_def textual_row_def admitted_def current_source_def in_generation_def
      dest!: in_set_takeD joins_of_mem split: if_splits)

lemma hinted_filters: "source_hint_filters q f = Some h \<Longrightarrow> filter_conditions h sm \<Longrightarrow> filter_conditions f sm"
  by (auto simp: source_hint_filters_def filter_conditions_def wanted_def split: if_splits option.splits)

lemma admitted_hinted: "source_hint_filters q f = Some h \<Longrightarrow> admitted db g h r \<Longrightarrow> admitted db g f r"
  by (auto simp: admitted_def current_source_def dest: hinted_filters)

lemma keyword_sets_admitted: "rs \<in> set (keyword_sets env db g q f n) \<Longrightarrow> r \<in> set rs \<Longrightarrow> admitted db g f r"
  by (auto simp: keyword_sets_def split: option.splits intro: keyword_admitted admitted_hinted dest: sym)

section \<open>Vector matches\<close>

text \<open>What numpy documents of \<^verbatim>\<open>argpartition\<close>: a permutation of the positions.\<close>

definition partitions :: "(rat option list \<Rightarrow> nat \<Rightarrow> nat list) \<Rightarrow> bool" where
  "partitions f \<longleftrightarrow> (\<forall>xs k. mset (f xs k) = mset [0..<length xs])"

lemma partitions_facts: "partitions f \<Longrightarrow> set (f xs k) = {..<length xs} \<and> distinct (f xs k)"
  unfolding partitions_def
  by (metis atLeast_upt distinct_upt mset_eq_imp_distinct_iff mset_eq_setD set_upt atLeast0LessThan)

text \<open>The rows of an index belong to its generation.\<close>

definition index_within :: "corpus_db \<Rightarrow> string \<Rightarrow> vector_index \<Rightarrow> bool" where
  "index_within db g v \<longleftrightarrow> (\<forall>r\<in>set (vi_rows v). in_generation db g (rr_chunk_id r)) \<and> distinct (map rr_chunk_id (vi_rows v))"

definition indexes_within :: "search_env \<Rightarrow> corpus_db \<Rightarrow> vector_cache \<Rightarrow> bool" where
  "indexes_within env db c \<longleftrightarrow>
     (\<forall>e\<in>set (vc_entries c). fst (fst e) = se_engine env \<longrightarrow> index_within db (fst (snd (fst e))) (snd e))"

text \<open>The primary keys and unique constraints of the corpus tables that the joins rely on.\<close>

definition corpus_keys :: "corpus_db \<Rightarrow> bool" where
  "corpus_keys db \<longleftrightarrow>
     distinct (map (\<lambda>gc. (gc_generation_id gc, gc_chunk_id gc)) (generation_chunks db)) \<and>
     distinct (map ch_id (chunks db)) \<and> distinct (map sm_id (source_modules db)) \<and> distinct (map sv_id (source_versions db)) \<and>
     distinct (map dc_id (documents db)) \<and> distinct (map (\<lambda>em. (em_chunk_id em, em_profile_id em)) (embeddings db))"

lemma filter_key_le_1: "distinct (map k xs) \<Longrightarrow> length (filter (\<lambda>x. k x = v) xs) < 2"
proof (cases "\<exists>x\<in>set xs. k x = v")
  case True
  assume "distinct (map k xs)"
  with True show ?thesis using filter_key [of k xs] by fastforce
qed (auto simp: filter_False)

lemma length_le_1_cases: "length xs < 2 \<Longrightarrow> (xs = [] \<Longrightarrow> P) \<Longrightarrow> (\<And>x. xs = [x] \<Longrightarrow> P) \<Longrightarrow> P"
  by (cases xs) auto

lemma distinct_concat_singletons:
  assumes "\<And>x. x \<in> set xs \<Longrightarrow> length (F x) < 2" and "\<And>x y. x \<in> set xs \<Longrightarrow> y \<in> set (F x) \<Longrightarrow> key y = k x"
    and "distinct (map k xs)"
  shows "distinct (map key (concat (map F xs)))"
  using assms
proof (induction xs)
  case (Cons x xs)
  then have "distinct (map key (concat (map F xs)))" by auto
  moreover have "key y \<notin> key ` set (concat (map F xs))" if "y \<in> set (F x)" for y
    using that Cons.prems(2,3) by (auto simp: image_iff) (metis image_eqI)
  moreover have "length (F x) < 2" by (simp add: Cons.prems(1))
  ultimately show ?case by (elim length_le_1_cases) auto
qed simp

lemma concat_le_1: "length xs < 2 \<Longrightarrow> (\<And>x. x \<in> set xs \<Longrightarrow> length (F x) < 2) \<Longrightarrow> length (concat (map F xs)) < 2"
  by (cases xs) auto

lemma joins_of_le_1: "corpus_keys db \<Longrightarrow> length (joins_of db c) < 2"
  unfolding joins_of_def corpus_keys_def by (intro concat_le_1) (auto simp: filter_key_le_1 intro!: concat_le_1)

lemma result_join_concat:
  "result_join db g =
     concat (map (\<lambda>gc. concat (map (joins_of db) (filter (\<lambda>c. ch_id c = gc_chunk_id gc) (chunks db))))
       (filter (\<lambda>gc. gc_generation_id gc = g) (generation_chunks db)))"
  by (simp add: result_join_def)

lemma result_join_distinct:
  assumes "corpus_keys db"
  shows "distinct (map (ch_id \<circ> fst) (result_join db g))"
  unfolding result_join_concat
proof (rule distinct_concat_singletons [where k = gc_chunk_id])
  fix gc assume "gc \<in> set (filter (\<lambda>gc. gc_generation_id gc = g) (generation_chunks db))"
  show "length (concat (map (joins_of db) (filter (\<lambda>c. ch_id c = gc_chunk_id gc) (chunks db)))) < 2"
    using assms by (intro concat_le_1 filter_key_le_1 joins_of_le_1) (auto simp: corpus_keys_def)
next
  fix gc t assume "t \<in> set (concat (map (joins_of db) (filter (\<lambda>c. ch_id c = gc_chunk_id gc) (chunks db))))"
  then show "(ch_id \<circ> fst) t = gc_chunk_id gc" by (auto dest: joins_of_mem)
next
  have "distinct (map (\<lambda>gc. (gc_generation_id gc, gc_chunk_id gc)) (filter (\<lambda>gc. gc_generation_id gc = g) (generation_chunks db)))"
    using assms by (simp add: corpus_keys_def distinct_map_filter)
  then show "distinct (map gc_chunk_id (filter (\<lambda>gc. gc_generation_id gc = g) (generation_chunks db)))"
    by (auto simp: distinct_map inj_on_def)
qed

lemma indexed_rows_distinct:
  assumes "corpus_keys db"
  shows "distinct (map (ch_id \<circ> fst \<circ> fst) (indexed_rows db g p))"
proof -
  let ?F = "\<lambda>t. map (Pair t) (filter (\<lambda>em. em_chunk_id em = ch_id (fst t) \<and> em_profile_id em = p) (embeddings db))"
  have one: "length (?F t) < 2" for t :: joined_row
    using filter_key_le_1 [of "\<lambda>em. (em_chunk_id em, em_profile_id em)" "embeddings db" "(ch_id (fst t), p)"] assms
    by (simp add: corpus_keys_def)
  have "distinct (map (ch_id \<circ> fst \<circ> fst) (concat (map ?F (result_join db g))))"
    by (rule distinct_concat_singletons [where k = "ch_id \<circ> fst"]) (use one result_join_distinct [OF assms] in auto)
  then show ?thesis by (simp add: indexed_rows_def distinct_map_sort_key)
qed

lemma load_within:
  assumes "corpus_keys db" and "load_vector_index db g p d = Inr v"
  shows "index_within db g v"
proof -
  have rows: "vi_rows v = map (typed_row \<circ> fst) (indexed_rows db g p)"
    using assms(2) by (auto simp: load_vector_index_def Let_def elim!: bind_resultE)
  have "map rr_chunk_id (vi_rows v) = map (ch_id \<circ> fst \<circ> fst) (indexed_rows db g p)"
    by (simp add: rows typed_row_def)
  then have "distinct (map rr_chunk_id (vi_rows v))" using indexed_rows_distinct [OF assms(1)] by (simp only:)
  then show ?thesis
    unfolding index_within_def rows by (auto simp: typed_row_def indexed_rows_def dest!: result_join_mem)
qed

text \<open>The cache hands out the loaded index or one that was there, and keeps only such indexes.\<close>

lemma drop_oldest_subset: "set (fst (drop_oldest m es n)) \<subseteq> set es"
  by (induction m es n rule: drop_oldest.induct) auto

lemma set_move_to_end [simp]: "set (move_to_end k es) = set es"
  by (auto simp: move_to_end_def)

lemma cache_lookup_entries:
  "cache_lookup k c = (res, c') \<Longrightarrow>
     set (vc_entries c') = set (vc_entries c) \<and> (\<forall>v. res = Some v \<longrightarrow> (k, v) \<in> set (vc_entries c))"
  by (auto simp: cache_lookup_def split: option.splits dest: map_of_SomeD)

lemma cache_insert_entries:
  assumes "cache_insert k l c = (v, c')"
  shows "set (vc_entries c') \<subseteq> insert (k, l) (set (vc_entries c)) \<and> (v = l \<or> (k, v) \<in> set (vc_entries c))"
proof (cases "drop_oldest (vc_max_bytes c) (vc_entries c @ [(k, l)]) (vc_size_bytes c + int (vi_size_bytes l))")
  case (Pair es bytes)
  then have "set es \<subseteq> insert (k, l) (set (vc_entries c))"
    using drop_oldest_subset [of "vc_max_bytes c" "vc_entries c @ [(k, l)]" "vc_size_bytes c + int (vi_size_bytes l)"] by simp
  with Pair assms show ?thesis
    by (auto simp: cache_insert_def split: if_splits option.splits dest: map_of_SomeD)
qed

lemma cache_get_cases:
  assumes "cache_get k loader c = (res, c')"
  shows "e \<in> set (vc_entries c') \<Longrightarrow> e \<in> set (vc_entries c) \<or> fst e = k \<and> loader = Inr (snd e)"
    and "res = Inr v \<Longrightarrow> loader = Inr v \<or> (k, v) \<in> set (vc_entries c)"
proof -
  obtain found c1 where l: "cache_lookup k c = (found, c1)" by fastforce
  have "(e \<in> set (vc_entries c') \<longrightarrow> e \<in> set (vc_entries c) \<or> fst e = k \<and> loader = Inr (snd e)) \<and>
      (res = Inr v \<longrightarrow> loader = Inr v \<or> (k, v) \<in> set (vc_entries c))"
  proof (cases found)
    case (Some x)
    with l assms cache_lookup_entries [OF l] show ?thesis by (auto simp: cache_get_def)
  next
    case None
    show ?thesis
    proof (cases loader)
      case (Inl er)
      with None l assms cache_lookup_entries [OF l] show ?thesis by (auto simp: cache_get_def)
    next
      case (Inr loaded)
      obtain x c2 where i: "cache_insert k loaded c1 = (x, c2)" by fastforce
      with None Inr l assms have "res = Inr x" and "c' = c2" by (auto simp: cache_get_def)
      with cache_insert_entries [OF i] cache_lookup_entries [OF l] Inr show ?thesis by auto
    qed
  qed
  then show "e \<in> set (vc_entries c') \<Longrightarrow> e \<in> set (vc_entries c) \<or> fst e = k \<and> loader = Inr (snd e)"
    and "res = Inr v \<Longrightarrow> loader = Inr v \<or> (k, v) \<in> set (vc_entries c)" by blast+
qed

lemma cache_get_within:
  assumes "corpus_keys db" and "indexes_within env db c"
    and "cache_get (se_engine env, g, p) (load_vector_index db g p d) c = (res, c')"
  shows "indexes_within env db c'" and "res = Inr v \<Longrightarrow> index_within db g v"
proof -
  show "indexes_within env db c'"
    unfolding indexes_within_def
  proof (intro ballI impI)
    fix e assume "e \<in> set (vc_entries c')" and eng: "fst (fst e) = se_engine env"
    with cache_get_cases(1) [OF assms(3)] consider "e \<in> set (vc_entries c)"
      | "fst e = (se_engine env, g, p)" "load_vector_index db g p d = Inr (snd e)" by blast
    then show "index_within db (fst (snd (fst e))) (snd e)"
      by cases (use assms(2) eng load_within [OF assms(1)] in \<open>auto simp: indexes_within_def\<close>)
  qed
  assume "res = Inr v"
  then show "index_within db g v"
    using cache_get_cases(2) [OF assms(3)] load_within [OF assms(1)] assms(2) by (fastforce simp: indexes_within_def)
qed

lemma current_row_fields [simp]:
  "rr_chunk_id (current_row db r) = rr_chunk_id r" "rr_source_slug (current_row db r) = rr_source_slug r"
  by (simp_all add: current_row_def split: option.split)

lemma current_row_source:
  assumes "row_matches_filters (current_row db r) f" and "sf_model_eligible_only f"
  shows "current_source db f (rr_source_slug r)"
proof (cases "map_of (map (\<lambda>sm. (sm_slug sm, sm)) (rev (source_modules db))) (rr_source_slug r)")
  case None
  with assms show ?thesis by (simp add: current_row_def row_matches_filters_def)
next
  case (Some sm)
  then have "sm \<in> set (source_modules db)" and "sm_slug sm = rr_source_slug r"
    using map_of_SomeD [OF Some] by auto
  with Some assms show ?thesis
    by (auto simp: current_row_def row_matches_filters_def filter_conditions_def current_source_def)
qed

lemma rank_vectors_subset:
  assumes "partitions (se_argpartition env)" and "r \<in> set (rank_vectors env cands q n)"
  shows "r \<in> fst ` set cands"
proof -
  let ?scored = "map (\<lambda>c. (fst c, se_dot env (snd c) q)) cands"
  have "set (se_argpartition env (map snd ?scored) k) \<subseteq> {..<length cands}" for k
    using partitions_facts [OF assms(1)] by simp
  then have "(!) ?scored ` set (drop m (se_argpartition env (map snd ?scored) k)) \<subseteq> set ?scored" for m k
    by (force dest: in_set_dropD)
  then show ?thesis
    using assms(2) by (fastforce simp: rank_vectors_def Let_def dest!: in_set_takeD split: if_splits option.splits prod.splits)
qed

lemma eligible_mem:
  "c \<in> set (eligible_rows db v f) \<Longrightarrow> \<exists>r\<in>set (vi_rows v). fst c = current_row db r \<and> row_matches_filters (fst c) f"
  by (cases c) (auto simp: eligible_rows_def dest!: set_zip_leftD)

lemma semantic_admitted:
  assumes "semantic_rows env db g f v p n c = (Inr rs, c')" and "corpus_keys db" and "indexes_within env db c"
    and "partitions (se_argpartition env)" and "sf_model_eligible_only f" and "r \<in> set rs"
  shows "admitted db g f r"
proof -
  have "rs \<noteq> []" using assms(6) by auto
  then obtain d ix q where got: "cache_get (se_engine env, g, p) (load_vector_index db g p d) c = (Inr ix, c')"
    and rs: "rs = rank_vectors env (eligible_rows db ix f) q n"
    using assms(1) by (auto simp: semantic_rows_def split: if_splits option.splits sum.splits prod.splits)
  obtain e where "e \<in> set (eligible_rows db ix f)" and "r = fst e"
    using rank_vectors_subset [OF assms(4)] assms(6) rs by blast
  then obtain r0 where "r0 \<in> set (vi_rows ix)" and "r = current_row db r0" and "row_matches_filters r f"
    using eligible_mem by blast
  moreover have "index_within db g ix" using cache_get_within(2) [OF assms(2,3) got] by simp
  ultimately show ?thesis
    using current_row_source assms(5) by (auto simp: admitted_def index_within_def)
qed

lemma rank_vectors_distinct:
  assumes "partitions (se_argpartition env)" and "distinct (map (rr_chunk_id \<circ> fst) cands)"
  shows "distinct (map rr_chunk_id (rank_vectors env cands q n))"
proof -
  let ?scored = "map (\<lambda>c. (fst c, se_dot env (snd c) q)) cands"
  let ?key = "\<lambda>p. rr_chunk_id (fst p)"
  have scored: "distinct (map ?key ?scored)" using assms(2) by (simp add: comp_def)
  have chosen: "distinct (map ?key (map ((!) ?scored) (drop m (se_argpartition env (map snd ?scored) k))))" for m k
  proof -
    have "inj_on (\<lambda>i. ?key (?scored ! i)) {..<length cands}"
      using scored by (auto simp: inj_on_def distinct_conv_nth)
    moreover have "set (drop m (se_argpartition env (map snd ?scored) k)) \<subseteq> {..<length cands}"
      using partitions_facts [OF assms(1)] by (auto dest: in_set_dropD)
    ultimately show ?thesis
      using partitions_facts [OF assms(1)] by (simp add: distinct_map comp_def inj_on_subset)
  qed
  have "distinct (map (\<lambda>p. rr_chunk_id (snd p)) [(- s, r). (r, Some s) \<leftarrow> best])" if "distinct (map ?key best)" for best :: "(result_row \<times> rat option) list"
    by (rule distinct_concat_singletons [where k = ?key]) (use that in \<open>auto split: prod.splits option.splits\<close>)
  with scored chosen show ?thesis
    by (simp add: rank_vectors_def Let_def take_map [symmetric] distinct_map_sort_key comp_def)
qed

lemma semantic_distinct:
  assumes "semantic_rows env db g f v p n c = (Inr rs, c')" and "corpus_keys db" and "indexes_within env db c"
    and "partitions (se_argpartition env)"
  shows "distinct (map rr_chunk_id rs)"
proof (cases "rs = []")
  case False
  then obtain d ix q where got: "cache_get (se_engine env, g, p) (load_vector_index db g p d) c = (Inr ix, c')"
    and rs: "rs = rank_vectors env (eligible_rows db ix f) q n"
    using assms(1) by (auto simp: semantic_rows_def split: if_splits option.splits sum.splits prod.splits)
  have "distinct (map rr_chunk_id (vi_rows ix))"
    using cache_get_within(2) [OF assms(2,3) got] by (simp add: index_within_def)
  then have "distinct (map (rr_chunk_id \<circ> fst) (zip (map (current_row db) (vi_rows ix)) (vi_matrix ix)))"
    using map_fst_zip_take [of "map (current_row db) (vi_rows ix)" "vi_matrix ix"]
    by (simp add: map_map [symmetric] take_map del: map_map) (simp add: comp_def take_map [symmetric])
  then have "distinct (map (rr_chunk_id \<circ> fst) (eligible_rows db ix f))"
    unfolding eligible_rows_def by (rule distinct_map_filter)
  then show ?thesis unfolding rs by (rule rank_vectors_distinct [OF assms(4)])
qed simp

section \<open>Scores\<close>

text \<open>A score is a number that rounding leaves alone, so that adding to it never makes it smaller.\<close>

definition is_score :: "rat \<Rightarrow> bool" where
  "is_score x \<longleftrightarrow> 0 \<le> x \<and> round64 x = x"

lemma is_score_fadd: "0 \<le> x \<Longrightarrow> 0 \<le> y \<Longrightarrow> is_score (fadd x y)"
  by (simp add: is_score_def fadd_def round64_nonneg round64_idem)

lemma fadd_ge: "is_score x \<Longrightarrow> 0 \<le> y \<Longrightarrow> x \<le> fadd x y"
  using round64_mono [of x "x + y"] by (simp add: is_score_def fadd_def)

lemma reciprocal_nonneg: "0 \<le> w \<Longrightarrow> 0 \<le> reciprocal w n"
  unfolding reciprocal_def by (rule float_nonneg(3)) simp_all

lemma reciprocal_mono: "0 \<le> w \<Longrightarrow> m \<le> n \<Longrightarrow> reciprocal w n \<le> reciprocal w m"
  unfolding reciprocal_def by (rule fdiv_antimono) simp_all

definition scored_from :: "rat \<Rightarrow> hit list \<Rightarrow> bool" where
  "scored_from low hs \<longleftrightarrow> (\<forall>h\<in>set hs. is_score (ht_score h) \<and> (''exact'' \<in> set (ht_types h) \<longrightarrow> low \<le> ht_score h))"

lemma add_hit_scored:
  assumes "scored_from low hs" and "0 \<le> w" and "k = ''exact'' \<Longrightarrow> low \<le> reciprocal w n"
  shows "scored_from low (add_hit k w n r hs)"
proof -
  have new: "is_score (fadd 0 (reciprocal w n))" "fadd 0 (reciprocal w n) = reciprocal w n"
    by (rule is_score_fadd [OF order_refl reciprocal_nonneg [OF assms(2)]],
        simp only: reciprocal_def fadd_0 [of w "of_nat (60 + n)", OF assms(2)] of_nat_0_less_iff zero_less_numeral add_pos_nonneg zero_le)
  have old: "is_score (fadd x (reciprocal w n)) \<and> x \<le> fadd x (reciprocal w n)" if "is_score x" for x
    using that fadd_ge [OF that reciprocal_nonneg [OF assms(2)]] reciprocal_nonneg [OF assms(2), of n] is_score_fadd
    by (auto simp: is_score_def)
  have sum_low: "low \<le> fadd x (reciprocal w n)" if "is_score x" "low \<le> reciprocal w n" for x
    using that round64_mono [of "reciprocal w n" "x + reciprocal w n"] reciprocal_nonneg [OF assms(2), of n] new
    by (simp add: fadd_def is_score_def)
  show ?thesis
    unfolding scored_from_def
  proof
    fix h assume "h \<in> set (add_hit k w n r hs)"
    then consider "h \<in> set hs"
      | h0 where "h0 \<in> set hs" "h = h0\<lparr>ht_score := fadd (ht_score h0) (reciprocal w n), ht_types := List.insert k (ht_types h0)\<rparr>"
      | "h = \<lparr>ht_id = rr_chunk_id r, ht_row = r, ht_score = fadd 0 (reciprocal w n), ht_types = [k]\<rparr>"
      by (auto simp: add_hit_def split: if_splits)
    then show "is_score (ht_score h) \<and> (''exact'' \<in> set (ht_types h) \<longrightarrow> low \<le> ht_score h)"
    proof cases
      case 1
      then show ?thesis using assms(1) by (simp add: scored_from_def)
    next
      case 2
      then have "is_score (ht_score h0)" and "''exact'' \<in> set (ht_types h0) \<Longrightarrow> low \<le> ht_score h0"
        using assms(1) by (auto simp: scored_from_def)
      with 2 old sum_low assms(3) show ?thesis by (auto intro: order_trans)
    next
      case 3
      then show ?thesis using new assms(3) by auto
    qed
  qed
qed

lemma add_hits_scored:
  "scored_from low hs \<Longrightarrow> 0 \<le> w \<Longrightarrow> k \<noteq> ''exact'' \<Longrightarrow> scored_from low (add_hits k w n rs hs)"
  by (induction rs arbitrary: n hs) (auto intro: add_hit_scored)

lemma exact_hits_scored:
  "scored_from low hs \<Longrightarrow> low \<le> reciprocal 4 (n + length rs) \<Longrightarrow> scored_from low (add_hits ''exact'' 4 n rs hs)"
proof (induction rs arbitrary: n hs)
  case (Cons r rs)
  have "low \<le> reciprocal 4 n" using Cons.prems(2) reciprocal_mono [of 4 n "n + length (r # rs)"] by simp
  then have "scored_from low (add_hit ''exact'' 4 n r hs)" using Cons.prems(1) by (intro add_hit_scored) auto
  then show ?case using Cons by simp
qed simp

text \<open>Hits that are not exact: at most \<open>v\<close>, and at most \<open>u\<close> as long as the current list has not reached them.\<close>

definition capped :: "rat \<Rightarrow> rat \<Rightarrow> string set \<Rightarrow> hit list \<Rightarrow> bool" where
  "capped u v ids hs \<longleftrightarrow>
     (\<forall>h\<in>set hs. ''exact'' \<notin> set (ht_types h) \<longrightarrow> 0 \<le> ht_score h \<and> ht_score h \<le> (if ht_id h \<in> ids then u else v))"

lemma add_hits_capped:
  assumes "0 \<le> u" and "u \<le> v" and "v = fadd u (reciprocal 1 1)" and "k \<noteq> ''exact''"
  shows "distinct (map rr_chunk_id rs) \<Longrightarrow> 1 \<le> n \<Longrightarrow> capped u v (rr_chunk_id ` set rs) hs \<Longrightarrow> capped u v {} (add_hits k 1 n rs hs)"
proof (induction rs arbitrary: n hs)
  case (Cons r rs)
  have rn: "0 \<le> reciprocal 1 n" "reciprocal 1 n \<le> reciprocal 1 1"
    using reciprocal_nonneg [of 1 n] reciprocal_mono [of 1 1 n] Cons.prems(2) by simp_all
  have grown: "0 \<le> fadd x (reciprocal 1 n) \<and> fadd x (reciprocal 1 n) \<le> v" if "0 \<le> x" "x \<le> u" for x
    unfolding assms(3) using that rn fadd_mono [of x "reciprocal 1 n" u "reciprocal 1 1"] float_nonneg(1) by auto
  have fresh: "rr_chunk_id r \<notin> rr_chunk_id ` set rs" using Cons.prems(1) by simp
  have "capped u v (rr_chunk_id ` set rs) (add_hit k 1 n r hs)"
    unfolding capped_def
  proof (intro ballI impI)
    fix h assume h: "h \<in> set (add_hit k 1 n r hs)" and ne: "''exact'' \<notin> set (ht_types h)"
    from h consider "h \<in> set hs" "ht_id h \<noteq> rr_chunk_id r"
      | h0 where "h0 \<in> set hs" "ht_id h0 = rr_chunk_id r"
          "h = h0\<lparr>ht_score := fadd (ht_score h0) (reciprocal 1 n), ht_types := List.insert k (ht_types h0)\<rparr>"
      | "h = \<lparr>ht_id = rr_chunk_id r, ht_row = r, ht_score = fadd 0 (reciprocal 1 n), ht_types = [k]\<rparr>"
      by (auto simp: add_hit_def image_iff split: if_splits)
    then show "0 \<le> ht_score h \<and> ht_score h \<le> (if ht_id h \<in> rr_chunk_id ` set rs then u else v)"
    proof cases
      case 1
      then show ?thesis using Cons.prems(3) ne by (auto simp: capped_def split: if_splits)
    next
      case 2
      then have "0 \<le> ht_score h0 \<and> ht_score h0 \<le> u" using Cons.prems(3) ne by (auto simp: capped_def)
      with 2 fresh grown show ?thesis by auto
    next
      case 3
      with fresh grown [of 0] assms(1) show ?thesis by auto
    qed
  qed
  then show ?case using Cons by simp
qed (auto simp: capped_def)

lemma capped_start: "capped v w {} hs \<Longrightarrow> w \<le> u \<Longrightarrow> w \<le> x \<Longrightarrow> capped u x ids hs"
  by (fastforce simp: capped_def)

lemma exact_hits_exact: "\<forall>h\<in>set hs. ''exact'' \<in> set (ht_types h) \<Longrightarrow> h \<in> set (add_hits ''exact'' w n rs hs) \<Longrightarrow> ''exact'' \<in> set (ht_types h)"
proof (induction rs arbitrary: n hs)
  case (Cons r rs)
  have "\<forall>h\<in>set (add_hit ''exact'' w n r hs). ''exact'' \<in> set (ht_types h)" using Cons.prems(1) by (auto simp: add_hit_def)
  with Cons show ?case by simp
qed simp

text \<open>The arithmetic of the weights: an exact match up to rank 61 beats the best keyword and vector ranks together.\<close>

lemma weights_separate: "fadd (fadd 0 (reciprocal 1 1)) (reciprocal 1 1) < reciprocal 4 61"
  by code_simp

lemma exact_beats_others:
  assumes "length ex \<le> 60" and "distinct (map rr_chunk_id kw)" and "distinct (map rr_chunk_id sem)"
    and "h \<in> set (merged_hits ex kw sem)" and "''exact'' \<in> set (ht_types h)"
    and "h' \<in> set (merged_hits ex kw sem)" and "''exact'' \<notin> set (ht_types h')"
  shows "ht_score h' < ht_score h"
proof -
  define u where "u = fadd 0 (reciprocal 1 1)"
  define v where "v = fadd u (reciprocal 1 1)"
  have r: "0 \<le> reciprocal 1 1" by (rule reciprocal_nonneg) simp
  have u: "0 \<le> u" and uv: "u \<le> v" and v: "v < reciprocal 4 61"
    using r is_score_fadd [OF order_refl r] fadd_ge [of u "reciprocal 1 1"] weights_separate
    unfolding u_def v_def by (simp_all add: is_score_def)
  let ?e = "add_hits ''exact'' 4 1 ex []"
  let ?k = "add_hits ''keyword'' 1 1 kw ?e"
  have "scored_from (reciprocal 4 61) ?e"
    using assms(1) by (intro exact_hits_scored reciprocal_mono) (auto simp: scored_from_def)
  then have "scored_from (reciprocal 4 61) (merged_hits ex kw sem)"
    by (simp add: merged_hits_def add_hits_scored del: One_nat_def)
  then have low: "reciprocal 4 61 \<le> ht_score h" using assms(4,5) by (simp add: scored_from_def)
  have "capped 0 u (rr_chunk_id ` set kw) ?e"
    using exact_hits_exact [of "[]" _ 4 1 ex] by (auto simp: capped_def)
  then have "capped 0 u {} ?k"
    using assms(2) u by (intro add_hits_capped) (auto simp: u_def)
  then have "capped u v (rr_chunk_id ` set sem) ?k" by (rule capped_start) (use uv in auto)
  then have "capped u v {} (merged_hits ex kw sem)"
    unfolding merged_hits_def using assms(3) u uv by (intro add_hits_capped) (auto simp: v_def)
  then have "ht_score h' \<le> v" using assms(6,7) by (auto simp: capped_def)
  with low v show ?thesis by linarith
qed

lemma sorted_split:
  assumes "sorted (map key xs)" and "\<forall>x\<in>set xs. \<forall>y\<in>set xs. P x \<and> \<not> P y \<longrightarrow> key x < key y"
  shows "xs = filter P xs @ filter (\<lambda>x. \<not> P x) xs"
  using assms
proof (induction xs)
  case (Cons x xs)
  then have ih: "xs = filter P xs @ filter (\<lambda>x. \<not> P x) xs" by auto
  show ?case
  proof (cases "P x")
    case False
    have "\<not> P y" if "y \<in> set xs" for y
    proof
      assume "P y"
      with Cons.prems(2) that False have "key y < key x" by auto
      moreover have "key x \<le> key y" using Cons.prems(1) that by simp
      ultimately show False by simp
    qed
    with False show ?thesis by (simp add: filter_empty_conv filter_True)
  qed (use ih in simp)
qed simp

section \<open>The whole search\<close>

lemma local_search_Inr:
  assumes "local_search env db query (Some f) limit qv prof gen c = (Inr resp, c')"
  obtains q ex sem status where
    "exact_rows db (sp_generation_id resp) q f limit = Inr ex" and "1 \<le> limit" and "limit \<le> 100"
    and "requested_vectors env db (sp_generation_id resp) f qv prof limit c = (Inr (sem, status), c')"
    and "sp_results resp =
      merge_ranked ex (fuse_ranked_sets (keyword_sets env db (sp_generation_id resp) q f (limit * 4)) (limit * 4)) sem limit"
proof -
  obtain q g ex s where "checked_query query limit = Inr q" and "exact_rows db g q f limit = Inr ex"
    and "requested_vectors env db g f qv prof limit c = (Inr s, c')"
    and "resp = search_response_of g ex (fuse_ranked_sets (keyword_sets env db g q f (limit * 4)) (limit * 4)) limit s"
    using assms by (auto simp: local_search_def Let_def split: sum.splits prod.splits elim!: bind_resultE)
  then show ?thesis
    by (intro that [of q ex "fst s" "snd s"]) (auto simp: search_response_of_def checked_query_def Let_def split: if_splits)
qed

lemma requested_rows:
  assumes "requested_vectors env db g f qv prof limit c = (Inr (sem, status), c')"
  obtains "sem = []" | v p where "semantic_rows env db g f v p (limit * 4) c = (Inr sem, c')"
  using assms by (auto simp: requested_vectors_def split: option.splits sum.splits prod.splits)

lemma result_of_fields [simp]:
  "lr_chunk_id (search_result_of h) = rr_chunk_id (ht_row h)" "lr_source_slug (search_result_of h) = rr_source_slug (ht_row h)"
  "lr_score (search_result_of h) = ht_score h" "set (lr_match_types (search_result_of h)) = set (ht_types h)"
  by (simp_all add: search_result_of_def Let_def)

lemma semantic_within:
  "corpus_keys db \<Longrightarrow> indexes_within env db c \<Longrightarrow> semantic_rows env db g f v p n c = (res, c') \<Longrightarrow> indexes_within env db c'"
  by (auto simp: semantic_rows_def split: if_splits option.splits sum.splits prod.splits intro: cache_get_within(1))

lemma requested_within:
  "corpus_keys db \<Longrightarrow> indexes_within env db c \<Longrightarrow> requested_vectors env db g f qv prof n c = (res, c') \<Longrightarrow> indexes_within env db c'"
  by (auto simp: requested_vectors_def split: option.splits sum.splits prod.splits intro: semantic_within)

lemma search_rows_admitted:
  assumes "local_search env db query (Some f) limit qv prof gen c = (Inr resp, c')" and "corpus_keys db"
    and "indexes_within env db c" and "partitions (se_argpartition env)" and "sf_model_eligible_only f"
  shows "\<exists>ex kw sem. sp_results resp = merge_ranked ex kw sem limit \<and>
           (\<forall>r\<in>set ex \<union> set kw \<union> set sem. admitted db (sp_generation_id resp) f r)"
proof -
  from assms(1) obtain q ex sem status where
    ex: "exact_rows db (sp_generation_id resp) q f limit = Inr ex"
    and sem: "requested_vectors env db (sp_generation_id resp) f qv prof limit c = (Inr (sem, status), c')"
    and res: "sp_results resp =
      merge_ranked ex (fuse_ranked_sets (keyword_sets env db (sp_generation_id resp) q f (limit * 4)) (limit * 4)) sem limit"
    by (rule local_search_Inr)
  have "\<forall>r\<in>set sem. admitted db (sp_generation_id resp) f r"
    using sem
  proof (rule requested_rows)
    fix v p assume "semantic_rows env db (sp_generation_id resp) f v p (limit * 4) c = (Inr sem, c')"
    from semantic_admitted [OF this assms(2-5)] show ?thesis by blast
  qed simp
  moreover have "\<forall>r\<in>set (fuse_ranked_sets (keyword_sets env db (sp_generation_id resp) q f (limit * 4)) (limit * 4)).
      admitted db (sp_generation_id resp) f r"
    by (rule ballI, rule fuse_all [rotated], assumption) (auto dest: keyword_sets_admitted)
  moreover have "\<forall>r\<in>set ex. admitted db (sp_generation_id resp) f r" using exact_admitted [OF ex] by blast
  ultimately show ?thesis using res by blast
qed

text \<open>
  C16: Search results for a model come only from sources that may be used now. With the filter
  \<^verbatim>\<open>model_eligible_only\<close>, whatever rows the cache of vector indexes still holds, every result comes from a
  source module that is in the database, that allows model use at this moment and that matches the other
  filters, and its chunk belongs to the generation that was searched. The hypothesis on the cache, that
  each index holds chunks of its own generation, holds of the empty cache and is kept by the search.
\<close>

theorem search_consent:
  assumes "local_search env db query (Some f) limit qv prof gen c = (Inr resp, c')" and "corpus_keys db"
    and "indexes_within env db c" and "partitions (se_argpartition env)" and "sf_model_eligible_only f"
    and "r \<in> set (sp_results resp)"
  shows "(\<exists>sm\<in>set (source_modules db). sm_slug sm = lr_source_slug r \<and> sm_model_use_allowed sm \<and> filter_conditions f sm) \<and>
         in_generation db (sp_generation_id resp) (lr_chunk_id r) \<and> indexes_within env db c'"
proof -
  obtain ex kw sem where res: "sp_results resp = merge_ranked ex kw sem limit"
    and "\<forall>r\<in>set ex \<union> set kw \<union> set sem. admitted db (sp_generation_id resp) f r"
    using search_rows_admitted [OF assms(1-5)] by blast
  then have "hits_all (admitted db (sp_generation_id resp) f) (merged_hits ex kw sem)" by (intro merged_hits_all)
  moreover obtain h where "h \<in> set (merged_hits ex kw sem)" and "r = search_result_of h"
    using assms(6) by (auto simp: res merge_ranked_def dest: ranked_hits_subset)
  ultimately have "admitted db (sp_generation_id resp) f (ht_row h)" and r: "r = search_result_of h"
    by (auto simp: hits_all_def)
  moreover have "indexes_within env db c'"
    using assms(1) by (rule local_search_Inr) (rule requested_within [OF assms(2,3)])
  ultimately show ?thesis
    using assms(5) by (auto simp: admitted_def current_source_def filter_conditions_def)
qed

lemma search_order:
  assumes "sp_results resp = merge_ranked ex kw sem limit"
  shows "distinct (map lr_chunk_id (sp_results resp)) \<and> sorted (map (\<lambda>r. (- lr_score r, lr_chunk_id r)) (sp_results resp))"
proof -
  let ?hs = "ranked_hits (nat limit) (merged_hits ex kw sem)"
  have "hits_all (\<lambda>_. True) (merged_hits ex kw sem)" by (intro merged_hits_all) simp
  then have same: "\<forall>h\<in>set ?hs. rr_chunk_id (ht_row h) = ht_id h" by (auto simp: hits_all_def dest: ranked_hits_subset)
  have "map lr_chunk_id (sp_results resp) = map ht_id ?hs"
    and "map (\<lambda>r. (- lr_score r, lr_chunk_id r)) (sp_results resp) = map (\<lambda>h. (- ht_score h, ht_id h)) ?hs"
    using same by (simp_all add: assms merge_ranked_def)
  moreover have "distinct (map ht_id ?hs)" by (intro ranked_hits_ids merged_hits_ids)
  ultimately show ?thesis using ranked_hits_sorted by simp
qed

text \<open>
  The results of a search are ranked: at most as many as asked for, no chunk twice, by falling score and by
  chunk id where scores are equal.
\<close>

theorem search_ranked:
  assumes "local_search env db query (Some f) limit qv prof gen c = (Inr resp, c')"
  shows "int (length (sp_results resp)) \<le> limit \<and> distinct (map lr_chunk_id (sp_results resp)) \<and>
         sorted (map (\<lambda>r. (- lr_score r, lr_chunk_id r)) (sp_results resp))"
proof -
  from assms obtain ex kw sem where lim: "1 \<le> limit" and res: "sp_results resp = merge_ranked ex kw sem limit"
    by (rule local_search_Inr)
  have "length (sp_results resp) \<le> nat limit" by (simp add: res merge_ranked_def ranked_hits_def)
  with search_order [OF res] lim show ?thesis by (simp add: nat_le_iff)
qed

text \<open>
  C17: Exact citation matches come first. For a limit of up to 60, with or without filters, the list is the
  exact matches followed by all the others, however well these rank in the full-text and the vector search;
  sums and quotients are rounded to binary64 as the code computes them.
\<close>

theorem exact_matches_first:
  assumes "local_search env db query filters limit qv prof gen c = (Inr resp, c')" and "corpus_keys db"
    and "indexes_within env db c" and "partitions (se_argpartition env)" and "limit \<le> 60"
  shows "sp_results resp =
           filter (\<lambda>r. ''exact'' \<in> set (lr_match_types r)) (sp_results resp) @
           filter (\<lambda>r. ''exact'' \<notin> set (lr_match_types r)) (sp_results resp)"
proof -
  define f where "f = (case filters of None \<Rightarrow> no_filters | Some f \<Rightarrow> f)"
  have "local_search env db query (Some f) limit qv prof gen c = (Inr resp, c')"
    using assms(1) by (simp add: local_search_def f_def)
  then obtain q ex sem status where
    ex: "exact_rows db (sp_generation_id resp) q f limit = Inr ex"
    and sem: "requested_vectors env db (sp_generation_id resp) f qv prof limit c = (Inr (sem, status), c')"
    and res: "sp_results resp =
      merge_ranked ex (fuse_ranked_sets (keyword_sets env db (sp_generation_id resp) q f (limit * 4)) (limit * 4)) sem limit"
    by (rule local_search_Inr)
  let ?kw = "fuse_ranked_sets (keyword_sets env db (sp_generation_id resp) q f (limit * 4)) (limit * 4)"
  have "length ex \<le> 60" using ex assms(5) by (auto simp: exact_rows_def elim!: bind_resultE)
  moreover have "distinct (map rr_chunk_id sem)"
    using sem
  proof (rule requested_rows)
    fix v p assume "semantic_rows env db (sp_generation_id resp) f v p (limit * 4) c = (Inr sem, c')"
    from semantic_distinct [OF this assms(2-4)] show ?thesis .
  qed simp
  ultimately have less: "ht_score h' < ht_score h"
    if "h \<in> set (merged_hits ex ?kw sem)" "''exact'' \<in> set (ht_types h)"
      "h' \<in> set (merged_hits ex ?kw sem)" "''exact'' \<notin> set (ht_types h')" for h h'
    using that by (intro exact_beats_others [OF _ fuse_distinct])
  show ?thesis
  proof (rule sorted_split)
    show "sorted (map (\<lambda>r. (- lr_score r, lr_chunk_id r)) (sp_results resp))" using search_order [OF res] by blast
    show "\<forall>x\<in>set (sp_results resp). \<forall>y\<in>set (sp_results resp).
        ''exact'' \<in> set (lr_match_types x) \<and> \<not> ''exact'' \<in> set (lr_match_types y) \<longrightarrow>
        (- lr_score x, lr_chunk_id x) < (- lr_score y, lr_chunk_id y)"
      using less by (auto simp: res merge_ranked_def dest!: ranked_hits_subset)
  qed
qed

section \<open>A small corpus\<close>

definition sample_module :: source_module_row where
  "sample_module =
     \<lparr>sm_id = ''m'', sm_slug = ''s'', sm_name = ''S'', sm_source_type = ''law'', sm_publisher = ''P'', sm_jurisdiction = ''NYC'',
      sm_source_url = None, sm_scope_json = [], sm_manifest_json = [], sm_origin = ''core'', sm_acquisition_kind = [],
      sm_model_use_allowed = True, sm_enabled = True\<rparr>"

definition sample_version :: source_version_row where
  "sample_version =
     \<lparr>sv_id = ''v'', sv_source_module_id = ''m'', sv_content_hash = ''h'', sv_parser_version = ''1'', sv_artifact_uri = [],
      sv_retrieved_at = 0, sv_last_checked_at = 0, sv_effective_from = None, sv_effective_to = None,
      sv_validation_state = ''validated'', sv_validation_json = [], sv_provenance_json = []\<rparr>"

definition sample_chunk :: "string \<Rightarrow> chunk_row" where
  "sample_chunk i =
     \<lparr>ch_id = i, ch_document_id = ''d'', ch_source_module_id = ''m'', ch_source_version_id = ''v'', ch_stable_id = i,
      ch_citation = Some ''x'', ch_title = None, ch_text = ''t'', ch_text_hash = [], ch_locator_json = []\<rparr>"

definition sample_corpus :: corpus_db where
  "sample_corpus =
     empty_corpus\<lparr>source_modules := [sample_module], source_versions := [sample_version],
       documents := [\<lparr>dc_id = ''d'', dc_source_version_id = ''v'', dc_stable_id = ''d'', dc_title = ''D'', dc_source_url = None\<rparr>],
       chunks := [sample_chunk ''a'', sample_chunk ''b''],
       citations := [\<lparr>ct_id = ''1'', ct_chunk_id = ''b'', ct_normalized_citation = ''x'', ct_display_citation = ''x''\<rparr>],
       embedding_profiles := [\<lparr>ep_id = ''p'', ep_provider = [], ep_model = [], ep_dimension = 1, ep_preprocessing_json = [], ep_created_at = 0\<rparr>],
       generations := [\<lparr>gn_id = ''g'', gn_status = ''active'', gn_profile_id = Some ''p'', gn_readiness = ''hybrid_ready'',
         gn_is_partial = False, gn_validation_json = [], gn_created_at = 0, gn_activated_at = Some 0\<rparr>],
       generation_chunks := map (\<lambda>i. \<lparr>gc_generation_id = ''g'', gc_chunk_id = i, gc_text_ready = True, gc_embedding_ready = True\<rparr>) [''a'', ''b''],
       active_generation_id := Some ''g''\<rparr>"

definition sample_search_env :: search_env where
  "sample_search_env = \<lparr>se_engine = 0, se_bm25 = (\<lambda>_ _ _. None), se_dot = (\<lambda>_ _. Some 1), se_argpartition = (\<lambda>xs _. [0..<length xs])\<rparr>"

text \<open>An index that was cached while the source could still be searched under another name.\<close>

definition sample_index :: vector_index where
  "sample_index =
     \<lparr>vi_rows = map (\<lambda>i. typed_row (sample_chunk i, sample_module\<lparr>sm_model_use_allowed := False\<rparr>, sample_version,
        \<lparr>dc_id = ''d'', dc_source_version_id = ''v'', dc_stable_id = ''d'', dc_title = ''D'', dc_source_url = None\<rparr>)) [''a'', ''b''],
      vi_matrix = [[0, 0, 0x80, 0x3F], [0, 0, 0x80, 0x3F]], vi_size_bytes = 100\<rparr>"

definition sample_cache :: vector_cache where
  "sample_cache = \<lparr>vc_max_bytes = 1000, vc_entries = [((0, ''g'', ''p''), sample_index)], vc_size_bytes = 100\<rparr>"

definition model_filters :: search_filters where
  "model_filters = no_filters\<lparr>sf_model_eligible_only := True\<rparr>"

definition sample_search :: "search_response result \<times> vector_cache" where
  "sample_search = local_search sample_search_env sample_corpus ''x'' (Some model_filters) 10 (Some [Some 1]) (Some ''p'') None sample_cache"

text \<open>With a full-text engine that finds nothing, only exact and vector matches remain.\<close>

lemma no_matches:
  assumes "\<And>rows m cf. se_bm25 env rows m cf = None"
  shows "fuse_ranked_sets (keyword_sets env db g q f n) k = []"
proof -
  have "keyword_candidates env db g m f = []" for m f by (auto simp: keyword_candidates_def assms)
  then have "keyword_rows env db g f n q = []" for f n q by (simp add: keyword_rows_def Let_def)
  then have "\<forall>rs\<in>set (keyword_sets env db g q f n). rs = []"
    by (auto simp: keyword_sets_def split: option.splits)
  then show ?thesis using fuse_all [of "keyword_sets env db g q f n" "\<lambda>_. False" _ k] by fastforce
qed

lemma sample_exact: "exact_rows sample_corpus ''g'' ''x'' model_filters 10 = Inr [typed_row (hd (exact_candidates sample_corpus ''g'' ''x'' model_filters))]"
  by code_simp

lemma sample_vectors:
  "fst (requested_vectors sample_search_env sample_corpus ''g'' model_filters (Some [Some 1]) (Some ''p'') 10 sample_cache) =
     Inr (map (current_row sample_corpus) (vi_rows sample_index), ''available'')"
  by code_simp

definition sample_results :: "search_result list" where
  "sample_results =
     merge_ranked [typed_row (hd (exact_candidates sample_corpus ''g'' ''x'' model_filters))] []
       (map (current_row sample_corpus) (vi_rows sample_index)) 10"

lemma sample_searched: "\<exists>c'. sample_search = (Inr \<lparr>sp_generation_id = ''g'', sp_method = ''exact+keyword+vector'',
    sp_semantic_status = ''available'', sp_results = sample_results\<rparr>, c')"
proof -
  have checked: "checked_query ''x'' 10 = Inr ''x''" "select_generation sample_corpus None = Inr ''g''" by code_simp+
  have none: "fuse_ranked_sets (keyword_sets sample_search_env sample_corpus ''g'' ''x'' model_filters (10 * 4)) (10 * 4) = []"
    by (rule no_matches) (simp add: sample_search_env_def)
  obtain c' where v: "requested_vectors sample_search_env sample_corpus ''g'' model_filters (Some [Some 1]) (Some ''p'') 10 sample_cache =
      (Inr (map (current_row sample_corpus) (vi_rows sample_index), ''available''), c')"
    using sample_vectors by (metis prod.collapse)
  show ?thesis
    by (rule exI [of _ c'])
      (simp only: sample_search_def local_search_def Let_def checked bind_result_simps sample_exact option.case sum.case prod.case none v
        search_response_of_def sample_results_def fst_conv snd_conv simp_thms if_True)
qed

lemma sample_search_results:
  "map lr_chunk_id sample_results = [''b'', ''a'']" "map lr_match_types sample_results = [[''exact'', ''vector''], [''vector'']]"
  "map lr_source_slug sample_results = [''s'', ''s'']"
  by code_simp+

lemma sample_search_ok:
  "corpus_keys sample_corpus" "indexes_within sample_search_env sample_corpus sample_cache" "partitions (se_argpartition sample_search_env)"
  "sf_model_eligible_only model_filters"
  by (code_simp, code_simp, simp add: partitions_def sample_search_env_def, code_simp)

theorem search_consent_witness:
  "\<exists>resp c'. sample_search = (Inr resp, c') \<and> map lr_chunk_id (sp_results resp) = [''b'', ''a''] \<and>
     (\<forall>r\<in>set (sp_results resp). in_generation sample_corpus ''g'' (lr_chunk_id r)) \<and>
     indexes_within sample_search_env sample_corpus c'"
proof -
  obtain c' where s: "sample_search = (Inr \<lparr>sp_generation_id = ''g'', sp_method = ''exact+keyword+vector'',
      sp_semantic_status = ''available'', sp_results = sample_results\<rparr>, c')"
    using sample_searched by blast
  note all = search_consent [OF s [unfolded sample_search_def] sample_search_ok]
  have "sample_results \<noteq> []" using sample_search_results(1) by auto
  then have "hd sample_results \<in> set sample_results" by simp
  show ?thesis
    by (intro exI conjI, rule s)
      (use all sample_search_results(1) \<open>hd sample_results \<in> set sample_results\<close> in \<open>simp, simp, fastforce\<close>)
qed

theorem search_ranked_witness:
  "\<exists>resp c'. sample_search = (Inr resp, c') \<and> map lr_chunk_id (sp_results resp) = [''b'', ''a''] \<and>
     sorted (map (\<lambda>r. (- lr_score r, lr_chunk_id r)) (sp_results resp))"
proof -
  obtain c' where s: "sample_search = (Inr \<lparr>sp_generation_id = ''g'', sp_method = ''exact+keyword+vector'',
      sp_semantic_status = ''available'', sp_results = sample_results\<rparr>, c')"
    using sample_searched by blast
  note ranked = search_ranked [OF s [unfolded sample_search_def]]
  show ?thesis
    by (intro exI conjI, rule s) (use ranked sample_search_results(1) in simp_all)
qed

theorem exact_matches_first_witness:
  "\<exists>resp c'. sample_search = (Inr resp, c') \<and> map lr_match_types (sp_results resp) = [[''exact'', ''vector''], [''vector'']] \<and>
     sp_results resp = filter (\<lambda>r. ''exact'' \<in> set (lr_match_types r)) (sp_results resp) @
       filter (\<lambda>r. ''exact'' \<notin> set (lr_match_types r)) (sp_results resp)"
proof -
  obtain c' where s: "sample_search = (Inr \<lparr>sp_generation_id = ''g'', sp_method = ''exact+keyword+vector'',
      sp_semantic_status = ''available'', sp_results = sample_results\<rparr>, c')"
    using sample_searched by blast
  have "(10 :: int) \<le> 60" by simp
  note first = exact_matches_first [OF s [unfolded sample_search_def] sample_search_ok(1-3) this]
  show ?thesis
    by (intro exI conjI, rule s) (use sample_search_results(2) in simp, rule first)
qed

section \<open>The cache under interleaving\<close>

text \<open>Threads look indexes up and insert the ones that they loaded, in any order.\<close>

datatype cache_op = Lookup index_key | Insert index_key vector_index

fun cache_step :: "vector_cache \<Rightarrow> cache_op \<Rightarrow> vector_cache" where
  "cache_step c (Lookup k) = snd (cache_lookup k c)"
| "cache_step c (Insert k v) = snd (cache_insert k v c)"

definition bytes_of :: "(index_key \<times> vector_index) list \<Rightarrow> int" where
  "bytes_of es = (\<Sum>e\<leftarrow>es. int (vi_size_bytes (snd e)))"

definition cache_inv :: "int \<Rightarrow> vector_cache \<Rightarrow> bool" where
  "cache_inv m c \<longleftrightarrow>
     vc_max_bytes c = m \<and> distinct (map fst (vc_entries c)) \<and> vc_size_bytes c = bytes_of (vc_entries c) \<and> vc_size_bytes c \<le> m"

lemma drop_oldest_effect:
  assumes "drop_oldest m es n = (es', n')" and "n = bytes_of es" and "es \<noteq> []" and "int (vi_size_bytes (snd (last es))) \<le> m"
  shows "n' = bytes_of es' \<and> n' \<le> m \<and> (\<exists>ds. es = ds @ es') \<and> es' \<noteq> []"
  using assms
proof (induction m es n rule: drop_oldest.induct)
  case (1 m e f es n)
  show ?case
  proof (cases "m < n")
    case True
    then have "n' = bytes_of es' \<and> n' \<le> m \<and> (\<exists>ds. f # es = ds @ es') \<and> es' \<noteq> []"
      using 1 by (auto simp: bytes_of_def)
    then show ?thesis by (metis append_Cons)
  qed (use 1 in auto)
qed (auto simp: bytes_of_def)

lemma map_of_move_to_end: "map_of es k = Some v \<Longrightarrow> map_of (move_to_end k es) k = Some v"
proof -
  have "map_of (filter (\<lambda>e. fst e \<noteq> k) es) k = None" by (auto simp: map_of_eq_None_iff)
  moreover have "map_of (filter (\<lambda>e. fst e = k) es) k = map_of es k" by (induction es) auto
  ultimately show "map_of es k = Some v \<Longrightarrow> map_of (move_to_end k es) k = Some v"
    by (simp add: move_to_end_def map_add_def)
qed

lemma move_to_end_inv:
  "distinct (map fst es) \<Longrightarrow> distinct (map fst (move_to_end k es)) \<and> bytes_of (move_to_end k es) = bytes_of es"
  by (induction es) (auto simp: move_to_end_def bytes_of_def image_iff)

lemma cache_lookup_inv: "cache_inv m c \<Longrightarrow> cache_inv m (snd (cache_lookup k c))"
  by (auto simp: cache_lookup_def cache_inv_def move_to_end_inv split: option.splits)

lemma cache_insert_new:
  assumes "cache_inv m c" and "map_of (vc_entries c) k = None" and "int (vi_size_bytes v) \<le> m"
  shows "cache_inv m (snd (cache_insert k v c)) \<and> fst (cache_insert k v c) = v \<and> map_of (vc_entries (snd (cache_insert k v c))) k = Some v"
proof -
  obtain es n where d: "drop_oldest m (vc_entries c @ [(k, v)]) (vc_size_bytes c + int (vi_size_bytes v)) = (es, n)" by fastforce
  have "vc_size_bytes c + int (vi_size_bytes v) = bytes_of (vc_entries c @ [(k, v)])"
    using assms(1) by (simp add: cache_inv_def bytes_of_def)
  from drop_oldest_effect [OF d this] assms(3) obtain ds where es: "n = bytes_of es" "n \<le> m" "vc_entries c @ [(k, v)] = ds @ es" "es \<noteq> []"
    by auto
  have fresh: "distinct (map fst (vc_entries c @ [(k, v)]))"
    using assms(1,2) by (simp add: cache_inv_def map_of_eq_None_iff)
  then have keys: "distinct (map fst es)" unfolding es(3) by simp
  have "(k, v) \<in> set es" using es(3,4) by (metis last_appendR last_in_set last_snoc)
  then have "map_of es k = Some v" using keys by simp
  with assms d es keys show ?thesis by (simp add: cache_insert_def cache_inv_def)
qed

lemma cache_insert_inv: "cache_inv m c \<Longrightarrow> cache_inv m (snd (cache_insert k v c))"
proof (cases "m < int (vi_size_bytes v)")
  case True
  assume "cache_inv m c"
  with True show ?thesis by (simp add: cache_insert_def cache_inv_def)
next
  case False
  assume inv: "cache_inv m c"
  show ?thesis
  proof (cases "map_of (vc_entries c) k")
    case None
    with inv False show ?thesis using cache_insert_new by simp
  next
    case (Some x)
    with inv False show ?thesis by (simp add: cache_insert_def cache_inv_def move_to_end_inv)
  qed
qed

interpretation index_cache: invariant_system cache_step "new_vector_cache VECTOR_CACHE_MAX_BYTES" "cache_inv VECTOR_CACHE_MAX_BYTES"
proof
  show "cache_inv VECTOR_CACHE_MAX_BYTES (new_vector_cache VECTOR_CACHE_MAX_BYTES)"
    by (simp add: cache_inv_def new_vector_cache_def bytes_of_def VECTOR_CACHE_MAX_BYTES_def)
  show "cache_inv VECTOR_CACHE_MAX_BYTES (cache_step c x)" if "cache_inv VECTOR_CACHE_MAX_BYTES c" for c x
    using that by (cases x) (simp_all add: cache_lookup_inv cache_insert_inv)
qed

text \<open>
  C18: The cache of vector indexes keeps its bound. However the lookups and insertions of concurrent searches
  interleave, the recorded size is the size of the indexes held, which is at most 256 MiB, and no key is held
  twice; an index that fits is found by the next lookup after it was inserted, the one that was there first
  if two threads loaded the same key.
\<close>

theorem vector_cache_bounded:
  assumes "reachable_from cache_step (new_vector_cache VECTOR_CACHE_MAX_BYTES) c"
  shows "vc_size_bytes c = (\<Sum>e\<leftarrow>vc_entries c. int (vi_size_bytes (snd e))) \<and> vc_size_bytes c \<le> 268435456 \<and>
         distinct (map fst (vc_entries c)) \<and>
         (int (vi_size_bytes v) \<le> 268435456 \<longrightarrow>
            fst (cache_lookup k (snd (cache_insert k v c))) = Some (fst (cache_insert k v c)) \<and>
            (map_of (vc_entries c) k = Some w \<longrightarrow> fst (cache_insert k v c) = w))"
proof -
  have inv: "cache_inv 268435456 c"
    using index_cache.reachable_inv [OF assms] by (simp add: VECTOR_CACHE_MAX_BYTES_def)
  have "fst (cache_lookup k (snd (cache_insert k v c))) = Some (fst (cache_insert k v c)) \<and>
      (map_of (vc_entries c) k = Some w \<longrightarrow> fst (cache_insert k v c) = w)" if "int (vi_size_bytes v) \<le> 268435456"
  proof (cases "map_of (vc_entries c) k")
    case None
    from cache_insert_new [OF inv None that] None show ?thesis by (auto simp: cache_lookup_def)
  next
    case (Some x)
    with that inv show ?thesis
      using map_of_move_to_end [OF Some] by (auto simp: cache_insert_def cache_inv_def cache_lookup_def)
  qed
  with inv show ?thesis by (auto simp: cache_inv_def bytes_of_def)
qed

theorem vector_cache_bounded_witness:
  "let c = run cache_step (new_vector_cache VECTOR_CACHE_MAX_BYTES)
       [Lookup (0, ''g'', ''p''), Insert (0, ''g'', ''p'') (sample_index\<lparr>vi_size_bytes := 200000000\<rparr>), Insert (0, ''h'', ''p'') (sample_index\<lparr>vi_size_bytes := 100000000\<rparr>)]
   in vc_size_bytes c \<le> 268435456 \<and> map fst (vc_entries c) = [(0, ''h'', ''p'')]"
proof -
  let ?xs = "[Lookup (0, ''g'', ''p''), Insert (0, ''g'', ''p'') (sample_index\<lparr>vi_size_bytes := 200000000\<rparr>), Insert (0, ''h'', ''p'') (sample_index\<lparr>vi_size_bytes := 100000000\<rparr>)]"
  have "reachable_from cache_step (new_vector_cache VECTOR_CACHE_MAX_BYTES) (run cache_step (new_vector_cache VECTOR_CACHE_MAX_BYTES) ?xs)"
    unfolding reachable_from_run by blast
  from vector_cache_bounded [OF this]
  have "vc_size_bytes (run cache_step (new_vector_cache VECTOR_CACHE_MAX_BYTES) ?xs) \<le> 268435456" by blast
  moreover have "map fst (vc_entries (run cache_step (new_vector_cache VECTOR_CACHE_MAX_BYTES) ?xs)) = [(0, ''h'', ''p'')]"
    by (simp add: new_vector_cache_def VECTOR_CACHE_MAX_BYTES_def cache_lookup_def cache_insert_def)
  ultimately show ?thesis by (simp add: Let_def)
qed

end
