(* ===== verification/Spec2Isabelle.thy ===== *)
theory Spec2Isabelle
  imports Jobs_Claims Session_Claims Gateway_Claims Rate_Limits_Claims Retention_Claims Connector_Claims Matters_Claims
    Query_Text_Claims Retrieval_Claims
begin

text \<open>
  A verification development of NYC Housing Research (\<^verbatim>\<open>src/app\<close>), a research workspace that runs on
  the user's machine: a spend ledger that admits paid provider calls, a service of durable jobs, a
  maintenance barrier, browser sessions of the local application, the gateway that sends provider
  requests, the limits of the hosted service, retention of old rows, searches of the city's
  housing-violation data with their cache, the user's matters with their saved items and notes, and the
  local search of the legal corpus. This theory imports the others; every property stands in the theory of
  the component that it is about.

  \<^bold>\<open>How the parts interact.\<close> The ledger, the job service and the barrier share one state database
  (\<open>state_db\<close>) and the locks of the operating system (\<open>os_state\<close>): admission of paid calls and jobs asks
  the barrier, the barrier's owner asks the ledger and the jobs whether the workspace is busy, and all of
  them decide by the locks which process is still alive. The gateway calls the ledger before and after
  every request. Retention enters the barrier, then deletes rows of the ledger, the jobs and the
  property cache. The property cache turns queries into requests through the query builder. Matters are
  tables of the same database that no other component writes; their operations keep a full-text row per
  matter in step with the tables. Local search reads the corpus database (\<open>corpus_db\<close>), normalises and
  expands the query with the citation and query-text functions, and shares one cache of vector indexes among
  all threads. The sessions and the hosted limits have databases of their own.

  \<^bold>\<open>Theories and sources.\<close>
  \<^item> \<open>Prelude\<close>, \<open>Calendar\<close>, \<open>Schema\<close>: errors, transactions with roll-back, SQL statements on lists of rows,
    decimals, strings, runs of operations and the locale \<open>invariant_system\<close>; instants, civil dates and
    months; the tables of \<^verbatim>\<open>storage/schema.py\<close> as records.
  \<^item> \<open>Locks\<close> (\<^verbatim>\<open>workspace/locks.py\<close>): file leases, process owner tokens, the liveness probe.
  \<^item> \<open>Maintenance\<close>, \<open>Barrier\<close>, \<open>Barrier_Claims\<close> (\<^verbatim>\<open>maintenance/barrier.py\<close>): the admission check and
    the owner side; while the barrier is held nothing becomes busy.
  \<^item> \<open>Ledger\<close>, \<open>Ledger_Props\<close>, \<open>Ledger_Claims\<close> (\<^verbatim>\<open>usage/ledger.py\<close>): reservations, settlements,
    recovery, the summary; limits are respected, the table is an audit trail of an attempt life cycle.
  \<^item> \<open>Jobs\<close>, \<open>Jobs_Props\<close>, \<open>Jobs_Claims\<close> (\<^verbatim>\<open>jobs/service.py\<close>): the job state machine, one active job
    per target, exact recovery, fencing of workers that lost their job.
  \<^item> \<open>Sha256\<close>, \<open>Session\<close>, \<open>Session_Claims\<close> (\<^verbatim>\<open>security/local_session.py\<close>): launch tokens, sessions and
    CSRF tokens, with SHA-256 and HMAC on words.
  \<^item> \<open>Network\<close> (\<^verbatim>\<open>workspace/network.py\<close>), \<open>Profiles\<close> (\<^verbatim>\<open>providers/profiles.py\<close>): URL admission with the
    parsing of URLs and addresses, provider profiles.
  \<^item> \<open>Python_Values\<close>: the operations on JSON values, numbers and paths that the sources use.
  \<^item> \<open>Runtime\<close> (\<^verbatim>\<open>jobs/runtime.py\<close>): deadlines and cancellation.
  \<^item> \<open>Gateway\<close>, \<open>Gateway_Claims\<close> (\<^verbatim>\<open>providers/gateway.py\<close>, \<^verbatim>\<open>providers/tokens.py\<close>):
    the answer call, plain and streaming; the client lemmas are proved in the locale
    \<open>reserved_attempt\<close>, which the ledger's operations interpret.
  \<^item> \<open>Rate_Limits\<close>, \<open>Rate_Limits_Claims\<close> (\<^verbatim>\<open>limits/service.py\<close>, \<^verbatim>\<open>limits/dependencies.py\<close>): sliding
    windows, token and cost budgets, reservations, pruning and reset.
  \<^item> \<open>Retention\<close>, \<open>Retention_Claims\<close> (\<^verbatim>\<open>maintenance/retention.py\<close>): the plan, its preview and its
    application.
  \<^item> \<open>Property_Query\<close> (\<^verbatim>\<open>hpd/connector.py\<close>): validation of queries and the where clause.
  \<^item> \<open>Json_Text\<close>: writing and reading JSON text, base64 and UTF-8, with their round trips; the locale
    \<open>escaping\<close> gives the round trip for both ways of escaping strings.
  \<^item> \<open>Connector\<close>, \<open>Connector_Claims\<close> (\<^verbatim>\<open>hpd/connector.py\<close>): requests with retries, the resolution of an
    address, pages and continuation tokens; following the tokens ends and lists every record once.
  \<^item> \<open>Property_Cache\<close>, \<open>Property_Cache_Claims\<close> (\<^verbatim>\<open>hpd/cache.py\<close>): freshness, storage, eviction,
    pinning, encoding and decoding of responses.
  \<^item> \<open>Matters\<close>, \<open>Matters_Props\<close>, \<open>Matters_Claims\<close> (\<^verbatim>\<open>research/matters.py\<close>): matters, saved items with
    idempotency receipts, notes, revisions and the full-text rows; the invariant \<open>research_ok\<close> holds in
    every reachable state, saves happen once, updates are not lost, the full-text rows are exact.
  \<^item> \<open>Regex\<close>, \<open>Query_Text\<close>, \<open>Query_Text_Claims\<close> (\<^verbatim>\<open>ingestion/citations.py\<close>,
    \<^verbatim>\<open>retrieval/query_quality.py\<close>): a backtracking matcher for the regular expressions of the sources, the
    citations, the expansion of queries; the predicate \<open>spells\<close> describes what a match and its groups hold.
  \<^item> \<open>Floats\<close>, \<open>Corpus_Schema\<close>, \<open>Retrieval\<close>, \<open>Retrieval_Claims\<close> (\<^verbatim>\<open>retrieval/local.py\<close>): rounding to
    binary64 is monotone; the tables of the corpus; search by citation, full text and vectors, the fusion
    of ranks and the cache of vector indexes. Results respect the current consent of their sources, exact
    matches come first, the cache keeps its bound under any interleaving of threads.

  \<^bold>\<open>Conventions.\<close> A value of type \<open>'a result\<close> is \<open>Inl\<close> an exception or \<open>Inr\<close> the value. A database
  transaction is a function from the database to a result with the new database; an exception rolls it
  back. Functions that also touch files or locks return their state explicitly, and what was done before
  an exception stays done. Time, random values, the time zone data, the HTTP transport, path resolution,
  the full-text engine, numpy's product and partition, and the interference of other processes between two
  transactions of one call are arguments. Instants
  are integers of microseconds, decimal amounts are exact rationals rounded where the code quantises,
  floats are rationals rounded to 53 bits, characters are those of Latin-1.

  \<^bold>\<open>Bounds and fuel.\<close> Every definition is a total function; loops are recursions on the rows they visit
  or on a numeric measure. Two of them have fuel: the JSON parser, as many steps as the text has
  characters and one more, which the round trip of \<open>Json_Text\<close> shows to be enough for every text that the
  program writes; and the client that follows continuation tokens, as many pages as there are rows and
  one more, which \<open>paging_complete\<close> shows to be enough. The regular expressions repeat at most as often as
  the text has characters. Hypotheses of the theorems that are not about the arguments of one call are the
  invariants \<open>ledger_inv\<close>, \<open>jobs_inv\<close> and \<open>research_ok\<close>, which hold initially and are kept; \<open>cache_ok\<close>, that the
  rows of the property cache have distinct keys, sizes that are not negative and paths in canonical form;
  \<open>source_contract\<close>, what the data service answers to the literal texts of the requests; a bound on the skew
  between the clock of the hosted service and that of its database; \<open>indexes_within\<close>, that cached vector indexes hold chunks
  of their generation, which every search keeps; the uniqueness of primary keys, which the databases enforce;
  and \<open>partitions\<close>, what numpy documents of \<^verbatim>\<open>argpartition\<close>.

  \<^bold>\<open>Not modelled.\<close> The embedding calls of the gateway, the profile override files and the settings
  file; the export archive of a matter; the hosted search over PostgreSQL, whose ranking functions are outside
  the sources; the corpus service and bundles, which install what is searched and are mostly downloads,
  parsers and archive handling; answering, the HTTP application and the command line, which are glue over the
  modelled services. Concurrency inside one database transaction is not modelled: the database serialises them.

  \<^bold>\<open>Approximations.\<close> SQLite stores the amounts of usage events as binary floats, so they equal the exact
  rationals of the model only within the range of moderate amounts. Letters outside Latin-1 do not occur, so
  two Latin-1 letters whose capitals lie outside it keep their case. Timestamps are read in the form that the
  program writes, artifacts of the cache as UTF-8 without a byte order mark. The attempts of one request read
  their deadline as arbitrary inputs, which allows more behaviour than a clock.
\<close>

end
